(* ===== verification/Prelude.thy ===== *)
theory Prelude
  imports Main "HOL-Library.AList"
begin

text \<open>
  Shared vocabulary of the development: the lemma collections, Go's error values, Go maps
  as association lists with distinct keys, and Go's byte strings with the functions of the
  packages \<^verbatim>\<open>strings\<close>, \<^verbatim>\<open>strconv\<close> and \<^verbatim>\<open>fmt\<close> that the program calls.
  A Go \<^verbatim>\<open>string\<close> is a sequence of bytes, which is what \<^typ>\<open>string\<close> is here; text
  outside ASCII is written as its UTF-8 bytes.
\<close>

named_theorems go_str \<open>functions of package strings\<close>
named_theorems go_map \<open>lookups and keys of Go maps\<close>
named_theorems prog_simps \<open>execution of goroutine programs\<close>

section \<open>Errors\<close>

text \<open>
  An \<^verbatim>\<open>error\<close> is its text and the sentinel errors its chain of \<^verbatim>\<open>%w\<close> wraps, which
  is all that \<^verbatim>\<open>err.Error()\<close> and \<^verbatim>\<open>errors.Is\<close> observe.
\<close>

datatype sentinel =
  ErrUsageLimit | ErrInvalidTransition | ErrNotExist | ErrCanceled | ErrDeadlineExceeded

datatype goerror = GoError (error_text: string) (error_chain: "sentinel list")

type_synonym 'a result = "goerror + 'a"

definition errorf :: "string \<Rightarrow> goerror" where
  "errorf msg = GoError msg []"

definition errorf_w :: "string \<Rightarrow> goerror \<Rightarrow> string \<Rightarrow> goerror" where
  "errorf_w before e after = GoError (before @ error_text e @ after) (error_chain e)"

definition errors_Is :: "goerror \<Rightarrow> sentinel \<Rightarrow> bool" where
  "errors_Is e t \<longleftrightarrow> t \<in> set (error_chain e)"

lemma error_text_errorf [simp]: "error_text (errorf m) = m"
  by (simp add: errorf_def)

lemma error_text_errorf_w [simp]: "error_text (errorf_w b e a) = b @ error_text e @ a"
  by (simp add: errorf_w_def)

lemma errors_Is_errorf [simp]: "\<not> errors_Is (errorf m) t"
  by (simp add: errors_Is_def errorf_def)

lemma errors_Is_errorf_w [simp]: "errors_Is (errorf_w b e a) t = errors_Is e t"
  by (simp add: errors_Is_def errorf_w_def)

section \<open>Go maps\<close>

text \<open>
  A Go map is an association list with distinct keys. Its order stands for the iteration
  order, which Go leaves unspecified.
\<close>

type_synonym ('k, 'v) gomap = "('k \<times> 'v) list"

abbreviation gm_get :: "('k, 'v) gomap \<Rightarrow> 'k \<Rightarrow> 'v option" where
  "gm_get m k \<equiv> map_of m k"

abbreviation gm_set :: "'k \<Rightarrow> 'v \<Rightarrow> ('k, 'v) gomap \<Rightarrow> ('k, 'v) gomap" where
  "gm_set k v m \<equiv> AList.update k v m"

abbreviation gm_del :: "'k \<Rightarrow> ('k, 'v) gomap \<Rightarrow> ('k, 'v) gomap" where
  "gm_del k m \<equiv> AList.delete k m"

abbreviation gm_keys :: "('k, 'v) gomap \<Rightarrow> 'k list" where
  "gm_keys m \<equiv> map fst m"

definition gm_wf :: "('k, 'v) gomap \<Rightarrow> bool" where
  "gm_wf m \<longleftrightarrow> distinct (map fst m)"

lemma gm_get_set [simp, go_map]:
  "gm_get (gm_set k v m) k' = (if k' = k then Some v else gm_get m k')"
  by (simp add: update_conv')

lemma gm_get_del [simp, go_map]:
  "gm_get (gm_del k m) k' = (if k' = k then None else gm_get m k')"
  by (simp add: delete_conv')

lemma gm_wf_Nil [simp, intro]: "gm_wf []"
  by (simp add: gm_wf_def)

lemma gm_wf_set [simp, intro]: "gm_wf m \<Longrightarrow> gm_wf (gm_set k v m)"
  by (simp add: gm_wf_def distinct_update)

lemma gm_wf_del [simp, intro]: "gm_wf m \<Longrightarrow> gm_wf (gm_del k m)"
  by (simp add: gm_wf_def distinct_delete)

lemma set_gm_keys_set [simp, go_map]: "set (gm_keys (gm_set k v m)) = insert k (set (gm_keys m))"
  using dom_update [of k v m] by auto

lemma set_gm_keys_del [simp, go_map]: "set (gm_keys (gm_del k m)) = set (gm_keys m) - {k}"
  by (induction m) auto

lemma gm_get_mem: "gm_wf m \<Longrightarrow> gm_get m k = Some v \<longleftrightarrow> (k, v) \<in> set m"
  by (auto simp: gm_wf_def map_of_eq_Some_iff)

lemma gm_get_None_iff: "gm_get m k = None \<longleftrightarrow> k \<notin> set (gm_keys m)"
  by (simp add: map_of_eq_None_iff)

section \<open>Strings\<close>

definition HasPrefix :: "string \<Rightarrow> string \<Rightarrow> bool" where
  "HasPrefix s p \<longleftrightarrow> take (length p) s = p"

definition HasSuffix :: "string \<Rightarrow> string \<Rightarrow> bool" where
  "HasSuffix s p \<longleftrightarrow> HasPrefix (rev s) (rev p)"

definition TrimPrefix :: "string \<Rightarrow> string \<Rightarrow> string" where
  "TrimPrefix s p = (if HasPrefix s p then drop (length p) s else s)"

definition TrimSuffix :: "string \<Rightarrow> string \<Rightarrow> string" where
  "TrimSuffix s p = (if HasSuffix s p then take (length s - length p) s else s)"

text \<open>\<^verbatim>\<open>strings.Index\<close>: \<^const>\<open>None\<close> stands for the result \<open>-1\<close>.\<close>

fun str_Index :: "string \<Rightarrow> string \<Rightarrow> nat option" where
  "str_Index [] sub = (if sub = [] then Some 0 else None)"
| "str_Index (c # s) sub =
     (if HasPrefix (c # s) sub then Some 0 else map_option Suc (str_Index s sub))"

definition str_Contains :: "string \<Rightarrow> string \<Rightarrow> bool" where
  "str_Contains s sub \<longleftrightarrow> str_Index s sub \<noteq> None"

text \<open>\<^verbatim>\<open>strings.LastIndexAny\<close> for a set of ASCII characters.\<close>

fun LastIndexAny :: "string \<Rightarrow> string \<Rightarrow> nat option" where
  "LastIndexAny [] chars = None"
| "LastIndexAny (c # s) chars =
     (case LastIndexAny s chars of
        Some i \<Rightarrow> Some (Suc i)
      | None \<Rightarrow> if c \<in> set chars then Some 0 else None)"

text \<open>\<^verbatim>\<open>strings.TrimRight\<close> with an ASCII cutset.\<close>

definition TrimRight :: "string \<Rightarrow> string \<Rightarrow> string" where
  "TrimRight s cutset = rev (dropWhile (\<lambda>c. c \<in> set cutset) (rev s))"

text \<open>\<^verbatim>\<open>strings.ReplaceAll\<close> of a single character.\<close>

definition ReplaceAll1 :: "string \<Rightarrow> char \<Rightarrow> string \<Rightarrow> string" where
  "ReplaceAll1 s old new = concat (map (\<lambda>c. if c = old then new else [c]) s)"

fun str_Join :: "string list \<Rightarrow> string \<Rightarrow> string" where
  "str_Join [] sep = []"
| "str_Join [x] sep = x"
| "str_Join (x # y # xs) sep = x @ sep @ str_Join (y # xs) sep"

definition str_Repeat :: "string \<Rightarrow> nat \<Rightarrow> string" where
  "str_Repeat s n = concat (replicate n s)"

lemma HasPrefix_append [simp, go_str]: "HasPrefix (p @ s) p"
  by (simp add: HasPrefix_def)

lemma HasPrefix_iff: "HasPrefix s p \<longleftrightarrow> (\<exists>t. s = p @ t)"
  unfolding HasPrefix_def by (metis append_eq_conv_conj append_take_drop_id)

lemma HasSuffix_iff: "HasSuffix s p \<longleftrightarrow> (\<exists>t. s = t @ p)"
proof -
  have "HasSuffix s p \<longleftrightarrow> (\<exists>t. rev s = rev p @ t)"
    by (simp add: HasSuffix_def HasPrefix_iff)
  also have "\<dots> \<longleftrightarrow> (\<exists>t. s = t @ p)"
    by (metis rev_append rev_rev_ident)
  finally show ?thesis .
qed

lemma HasPrefix_Nil [simp, go_str]: "HasPrefix s []"
  by (simp add: HasPrefix_def)

lemma TrimPrefix_append [simp, go_str]: "TrimPrefix (p @ s) p = s"
  by (simp add: TrimPrefix_def)

lemma HasSuffix_append [simp, go_str]: "HasSuffix (s @ p) p"
  by (auto simp: HasSuffix_iff)

lemma TrimSuffix_append [simp, go_str]: "TrimSuffix (s @ p) p = s"
  by (simp add: TrimSuffix_def)

lemma str_Index_Some:
  "str_Index s sub = Some i \<Longrightarrow> \<exists>u v. s = u @ sub @ v \<and> length u = i"
proof (induction s arbitrary: i)
  case Nil
  then show ?case by (auto split: if_splits)
next
  case (Cons c s)
  show ?case
  proof (cases "HasPrefix (c # s) sub")
    case True
    with Cons.prems show ?thesis by (auto simp: HasPrefix_iff)
  next
    case False
    with Cons.prems obtain j where j: "str_Index s sub = Some j" "i = Suc j" by auto
    from Cons.IH [OF j(1)] obtain u v where "s = u @ sub @ v" "length u = j" by blast
    with j(2) have "c # s = (c # u) @ sub @ v \<and> length (c # u) = i" by simp
    then show ?thesis by blast
  qed
qed

lemma str_Index_append: "\<exists>i. str_Index (u @ sub @ v) sub = Some i \<and> i \<le> length u"
proof (induction u)
  case Nil
  show ?case by (cases "sub @ v") (auto simp del: append_eq_Cons_conv, metis HasPrefix_append)
next
  case (Cons c u)
  then show ?case by auto
qed

lemma str_Contains_iff: "str_Contains s sub \<longleftrightarrow> (\<exists>u v. s = u @ sub @ v)"
proof
  assume "str_Contains s sub"
  then obtain i where "str_Index s sub = Some i" by (auto simp: str_Contains_def)
  from str_Index_Some [OF this] show "\<exists>u v. s = u @ sub @ v" by blast
next
  assume "\<exists>u v. s = u @ sub @ v"
  then obtain u v where "s = u @ sub @ v" by blast
  with str_Index_append [of u sub v] show "str_Contains s sub" by (auto simp: str_Contains_def)
qed

lemma str_Contains_append1 [intro]: "str_Contains s sub \<Longrightarrow> str_Contains (s @ t) sub"
  unfolding str_Contains_iff by (metis append.assoc)

lemma str_Contains_append2 [intro]: "str_Contains t sub \<Longrightarrow> str_Contains (s @ t) sub"
  unfolding str_Contains_iff by (metis append.assoc)

lemma str_Contains_self [simp, go_str]: "str_Contains s s"
  unfolding str_Contains_iff by (metis append.left_neutral append.right_neutral)

lemma length_str_Repeat1 [simp]: "length (str_Repeat [c] n) = n"
  by (induction n) (simp_all add: str_Repeat_def)

section \<open>Decimal numbers\<close>

definition digit_char :: "nat \<Rightarrow> char" where
  "digit_char d = char_of (48 + d)"

fun nat_str :: "nat \<Rightarrow> string" where
  "nat_str n = (if n < 10 then [digit_char n] else nat_str (n div 10) @ [digit_char (n mod 10)])"

declare nat_str.simps [simp del]

text \<open>\<^verbatim>\<open>strconv.Itoa\<close>, and \<^verbatim>\<open>%d\<close> of an \<^verbatim>\<open>int\<close>.\<close>

definition Itoa :: "int \<Rightarrow> string" where
  "Itoa i = (if i < 0 then CHR ''-'' # nat_str (nat (- i)) else nat_str (nat i))"

definition is_digit :: "char \<Rightarrow> bool" where
  "is_digit c \<longleftrightarrow> 48 \<le> (of_char c :: nat) \<and> (of_char c :: nat) \<le> 57"

definition digit_val :: "char \<Rightarrow> nat" where
  "digit_val c = of_char c - 48"

definition digits_val :: "string \<Rightarrow> nat" where
  "digits_val s = foldl (\<lambda>n c. 10 * n + digit_val c) 0 s"

lemma is_digit_digit_char [simp]: "d < 10 \<Longrightarrow> is_digit (digit_char d)"
  by (simp add: is_digit_def digit_char_def)

lemma digit_val_digit_char [simp]: "d < 10 \<Longrightarrow> digit_val (digit_char d) = d"
  by (simp add: digit_val_def digit_char_def)

lemma digits_val_snoc: "digits_val (s @ [c]) = 10 * digits_val s + digit_val c"
  by (simp add: digits_val_def)

lemma digits_val_nat_str [simp]: "digits_val (nat_str n) = n"
proof (induction n rule: nat_str.induct)
  case (1 n)
  show ?case
  proof (cases "n < 10")
    case True
    then show ?thesis by (subst nat_str.simps) (simp add: digits_val_def)
  next
    case False
    with 1 show ?thesis by (subst nat_str.simps) (simp add: digits_val_snoc)
  qed
qed

lemma nat_str_digits: "list_all is_digit (nat_str n) \<and> nat_str n \<noteq> []"
proof (induction n rule: nat_str.induct)
  case (1 n)
  then show ?case by (cases "n < 10") (simp_all add: nat_str.simps [of n])
qed

lemma nat_str_inject [simp]: "nat_str m = nat_str n \<longleftrightarrow> m = n"
  by (metis digits_val_nat_str)

lemma nat_str_ne_Nil [simp]: "nat_str n \<noteq> []"
  using nat_str_digits by blast

lemma nat_str_hd_digit: "nat_str n = c # s \<Longrightarrow> is_digit c"
  using nat_str_digits [of n] by simp

lemma Itoa_inject [simp]: "Itoa i = Itoa j \<longleftrightarrow> i = j"
proof
  assume eq: "Itoa i = Itoa j"
  have no_minus: "nat_str n \<noteq> CHR ''-'' # s" for n s
    using nat_str_hd_digit [of n "CHR ''-''" s] by (auto simp: is_digit_def)
  show "i = j"
    using eq no_minus by (auto simp: Itoa_def split: if_splits) (metis no_minus)+
qed simp

end
