(* ===== verification/Workflow_Types.thy ===== *)
theory Workflow_Types
  imports Prelude
begin

text \<open>
  The data of \<^verbatim>\<open>internal/workflow/run.go\<close> and the prompts of \<^verbatim>\<open>harness.go\<close>. A workflow
  record takes its stages as a type parameter: in memory it holds a slice header, as the Go
  struct does, and seen as a value it holds the list of stages.
\<close>

datatype wf_status = StatusQueued | StatusRunning | StatusDone | StatusFailed

fun wf_status_str :: "wf_status \<Rightarrow> string" where
  "wf_status_str StatusQueued = ''queued''"
| "wf_status_str StatusRunning = ''running''"
| "wf_status_str StatusDone = ''done''"
| "wf_status_str StatusFailed = ''failed''"

datatype stage_status = StagePending | StageRunning | StageDone | StageFailed

fun stage_status_str :: "stage_status \<Rightarrow> string" where
  "stage_status_str StagePending = ''pending''"
| "stage_status_str StageRunning = ''running''"
| "stage_status_str StageDone = ''done''"
| "stage_status_str StageFailed = ''failed''"

datatype stage_kind =
  KindResearch | KindPlan | KindImplement | KindReview | KindVerify | KindMerge

fun stage_kind_str :: "stage_kind \<Rightarrow> string" where
  "stage_kind_str KindResearch = ''research''"
| "stage_kind_str KindPlan = ''plan''"
| "stage_kind_str KindImplement = ''implement''"
| "stage_kind_str KindReview = ''review''"
| "stage_kind_str KindVerify = ''verify''"
| "stage_kind_str KindMerge = ''merge''"

record stage =
  st_ID :: string
  st_Kind :: stage_kind
  st_SessionID :: string
  st_Status :: stage_status
  st_Input :: string
  st_Output :: string
  st_Error :: string
  st_VerifySessionID :: string

definition new_stage :: "string \<Rightarrow> stage_kind \<Rightarrow> stage_status \<Rightarrow> string \<Rightarrow> stage" where
  "new_stage i k st inp =
     \<lparr>st_ID = i, st_Kind = k, st_SessionID = [], st_Status = st, st_Input = inp, st_Output = [],
      st_Error = [], st_VerifySessionID = []\<rparr>"

record workflow_config =
  VerifierPrompt :: string

record 'stages workflow =
  wf_ID :: string
  wf_Input :: string
  wf_RepoURL :: string
  wf_Branch :: string
  wf_Status :: wf_status
  wf_Stages :: 'stages
  wf_Error :: string
  wf_Config :: workflow_config
  wf_CreatedAt :: int
  wf_UpdatedAt :: int

record stage_config =
  sc_Goal :: string
  sc_RepoURL :: string
  sc_Branch :: string
  sc_BaseBranch :: string
  sc_PreviousOutput :: string
  sc_ImplementSession :: string
  sc_VerifierPrompt :: string

definition zero_stage_config :: stage_config where
  "zero_stage_config =
     \<lparr>sc_Goal = [], sc_RepoURL = [], sc_Branch = [], sc_BaseBranch = [], sc_PreviousOutput = [],
      sc_ImplementSession = [], sc_VerifierPrompt = []\<rparr>"

section \<open>Prompts\<close>

definition em_dash :: string where
  "em_dash = [CHR 0xE2, CHR 0x80, CHR 0x94]"

definition ResearchPrompt :: "stage_config \<Rightarrow> string" where
  \<open>ResearchPrompt c =
     ''You are a research agent. Investigate the goal below and provide structured findings '' @
     ''for a planning agent. Do not make any changes to any files.\<newline>\<newline>'' @
     ''Goal: '' @ sc_Goal c @ ''\<newline>\<newline>'' @
     ''Repository: '' @ sc_RepoURL c @ '' (branch: '' @ sc_Branch c @ '')\<newline>\<newline>'' @
     ''Provide your findings under these exact headings:\<newline>'' @
     ''## Goal\<newline>'' @
     ''## Relevant Files\<newline>'' @
     ''## Key Constraints\<newline>'' @
     ''## Risks''\<close>

definition PlanPrompt :: "stage_config \<Rightarrow> string" where
  \<open>PlanPrompt c =
     ''You are a planning agent. Based on the research findings below, create a concrete '' @
     ''implementation plan decomposed into independent tasks.\<newline>\<newline>'' @
     ''Goal: '' @ sc_Goal c @ ''\<newline>\<newline>'' @
     ''Research findings:\<newline>'' @ sc_PreviousOutput c @ ''\<newline>\<newline>'' @
     ''Output ONLY a JSON array of task objects. No preamble, no explanation, no markdown fences.\<newline>'' @
     ''Each object must have:\<newline>'' @
     ''- "id": short unique identifier (e.g. "task-1")\<newline>'' @
     ''- "description": clear, self-contained task that a coding agent can execute independently; '' @
     ''must name the specific files it touches\<newline>\<newline>'' @
     ''Example: [{"id":"task-1","description":"Add X to file Y"}]''\<close>

definition ImplementPrompt :: "stage_config \<Rightarrow> string" where
  \<open>ImplementPrompt c =
     (let base = (if sc_BaseBranch c = [] then ''main'' else sc_BaseBranch c) in
     ''You are a coding agent. Complete ONLY the task described below. '' @
     ''Do not refactor unrelated code.\<newline>\<newline>'' @
     ''Task: '' @ sc_PreviousOutput c @ ''\<newline>\<newline>'' @
     ''Repository: '' @ sc_RepoURL c @ ''\<newline>\<newline>'' @
     ''Steps:\<newline>'' @
     ''1. Clone the repository and check out base branch `'' @ base @ ''`\<newline>'' @
     ''2. Create and check out branch `'' @ sc_Branch c @ ''` from `'' @ base @ ''`\<newline>'' @
     ''3. Implement the task\<newline>'' @
     ''4. Run `go build ./...` and `go vet ./...` '' @ em_dash @ '' fix any errors before committing\<newline>'' @
     ''5. Commit your changes with a descriptive message\<newline>'' @
     ''6. Push branch `'' @ sc_Branch c @ ''` to origin\<newline>\<newline>'' @
     ''End your output with this exact JSON block (fill in the values):\<newline>'' @
     ''{"committed": true|false, "commit_sha": "<sha or empty>", "build_ok": true|false, "notes": "<optional notes>"}'')\<close>

definition VerifyPrompt :: "stage_config \<Rightarrow> string" where
  \<open>VerifyPrompt c =
     ''You are a code reviewer. You did NOT write this code.\<newline>\<newline>'' @
     ''The repository is cloned at /home/claude/workspace/.\<newline>'' @
     (if sc_Branch c \<noteq> [] then
        ''First, fetch and check out the implement branch:\<newline>'' @
        ''  cd /home/claude/workspace && git fetch origin '' @ sc_Branch c @ '' && git checkout '' @ sc_Branch c @
        ''\<newline>\<newline>''
      else []) @
     ''Task that was supposed to be implemented:\<newline>'' @
     sc_PreviousOutput c @
     ''\<newline>\<newline>Verification steps:\<newline>'' @
     ''1. Run `go build ./...` from /home/claude/workspace '' @ em_dash @ '' must succeed with no errors\<newline>'' @
     ''2. Run `go vet ./...` '' @ em_dash @ '' must produce no warnings\<newline>'' @
     ''3. Confirm the task described above was actually completed as specified\<newline>'' @
     ''4. Confirm no unrelated files were changed\<newline>'' @
     ''5. Confirm a new commit is present on this branch (`git log --oneline -3`)\<newline>\<newline>'' @
     (if sc_VerifierPrompt c \<noteq> [] then
        ''Additional criteria:\<newline>'' @ sc_VerifierPrompt c @ ''\<newline>\<newline>''
      else []) @
     ''Your entire response MUST be exactly this JSON object and nothing else '' @ em_dash @
     '' no prose, no markdown, no explanation before or after:\<newline>'' @
     ''{"pass": true|false, "issues": ["<issue 1>", "<issue 2>"]}'' @
     ''\<newline>\<newline>Rules:\<newline>'' @
     ''- Output the JSON object as your first and only content.\<newline>'' @
     ''- If pass is true, issues MUST be an empty array [].\<newline>'' @
     ''- Do not wrap the JSON in a code block or add any surrounding text.\<newline>'' @
     ''- MACHINE-READABLE OUTPUT ONLY.''\<close>

section \<open>Lemmas\<close>

lemma new_stage_sel [simp]:
  "st_ID (new_stage i k st inp) = i" "st_Kind (new_stage i k st inp) = k"
  "st_Status (new_stage i k st inp) = st" "st_Input (new_stage i k st inp) = inp"
  "st_Output (new_stage i k st inp) = []" "st_SessionID (new_stage i k st inp) = []"
  "st_Error (new_stage i k st inp) = []" "st_VerifySessionID (new_stage i k st inp) = []"
  by (simp_all add: new_stage_def)

lemma prompts_ne [simp]:
  "ResearchPrompt c \<noteq> []" "PlanPrompt c \<noteq> []" "ImplementPrompt c \<noteq> []" "VerifyPrompt c \<noteq> []"
  by (simp_all add: ResearchPrompt_def PlanPrompt_def ImplementPrompt_def VerifyPrompt_def Let_def)

end
