(* ===== verification/Go_Fs.thy ===== *)
theory Go_Fs
  imports Prelude
begin

text \<open>
  The file system as the stores use it: reading a file, and replacing one by writing a
  temporary file in the same directory and renaming it. Every operation may fail; which ones
  do, how much a failed write leaves behind, and the random part of a temporary name, is up to
  an environment the theorems quantify over. \<open>save_file\<close> is the body that the three
  \<^verbatim>\<open>save\<close> functions share.
\<close>

record fs_env =
  fe_fault :: "nat \<Rightarrow> goerror option" \<comment> \<open>the error of the n-th operation, if it fails\<close>
  fe_short :: "nat \<Rightarrow> nat" \<comment> \<open>the bytes a failing write has written\<close>
  fe_rand :: "nat \<Rightarrow> string" \<comment> \<open>the random part of temporary names\<close>

record fs =
  fs_files :: "(string, string) gomap"
  fs_ops :: nat \<comment> \<open>operations performed so far\<close>

definition fs_tick :: "fs \<Rightarrow> fs" where
  "fs_tick s = s\<lparr>fs_ops := Suc (fs_ops s)\<rparr>"

abbreviation fs_get :: "fs \<Rightarrow> string \<Rightarrow> string option" where
  "fs_get s p \<equiv> gm_get (fs_files s) p"

definition ReadFile :: "fs_env \<Rightarrow> string \<Rightarrow> fs \<Rightarrow> string result \<times> fs" where
  "ReadFile env path s =
     (case fe_fault env (fs_ops s) of
        Some e \<Rightarrow> (Inl e, fs_tick s)
      | None \<Rightarrow>
          (case fs_get s path of
             None \<Rightarrow> (Inl (GoError (''open '' @ path @ '': no such file or directory'') [ErrNotExist]), fs_tick s)
           | Some b \<Rightarrow> (Inr b, fs_tick s)))"

text \<open>\<^verbatim>\<open>os.CreateTemp\<close> tries up to 10000 random names until one does not exist.\<close>

definition CreateTemp :: "fs_env \<Rightarrow> string \<Rightarrow> string \<Rightarrow> string \<Rightarrow> fs \<Rightarrow> string result \<times> fs" where
  "CreateTemp env dir pre suf s =
     (case fe_fault env (fs_ops s) of
        Some e \<Rightarrow> (Inl e, fs_tick s)
      | None \<Rightarrow>
          (case find (\<lambda>p. fs_get s p = None)
                  (map (\<lambda>k. dir @ ''/'' @ pre @ fe_rand env (fs_ops s + k) @ suf) [0..<10000]) of
             None \<Rightarrow> (Inl (errorf (''createtemp '' @ dir @ ''/'' @ pre @ ''*'' @ suf @ '': file exists'')), fs_tick s)
           | Some p \<Rightarrow> (Inr p, fs_tick (s\<lparr>fs_files := gm_set p [] (fs_files s)\<rparr>))))"

definition WriteTemp :: "fs_env \<Rightarrow> string \<Rightarrow> string \<Rightarrow> fs \<Rightarrow> goerror option \<times> fs" where
  "WriteTemp env p b s =
     (case fe_fault env (fs_ops s) of
        Some e \<Rightarrow> (Some e, fs_tick (s\<lparr>fs_files := gm_set p (take (fe_short env (fs_ops s)) b) (fs_files s)\<rparr>))
      | None \<Rightarrow> (None, fs_tick (s\<lparr>fs_files := gm_set p b (fs_files s)\<rparr>)))"

definition CloseTemp :: "fs_env \<Rightarrow> fs \<Rightarrow> goerror option \<times> fs" where
  "CloseTemp env s = (fe_fault env (fs_ops s), fs_tick s)"

definition Remove :: "fs_env \<Rightarrow> string \<Rightarrow> fs \<Rightarrow> goerror option \<times> fs" where
  "Remove env p s =
     (case fe_fault env (fs_ops s) of
        Some e \<Rightarrow> (Some e, fs_tick s)
      | None \<Rightarrow> (None, fs_tick (s\<lparr>fs_files := gm_del p (fs_files s)\<rparr>)))"

definition Rename :: "fs_env \<Rightarrow> string \<Rightarrow> string \<Rightarrow> fs \<Rightarrow> goerror option \<times> fs" where
  "Rename env from_p to_p s =
     (case fe_fault env (fs_ops s) of
        Some e \<Rightarrow> (Some e, fs_tick s)
      | None \<Rightarrow>
          (case fs_get s from_p of
             None \<Rightarrow> (Some (GoError (''rename '' @ from_p @ '': no such file or directory'') [ErrNotExist]), fs_tick s)
           | Some b \<Rightarrow> (None, fs_tick (s\<lparr>fs_files := gm_set to_p b (gm_del from_p (fs_files s))\<rparr>))))"

text \<open>
  \<^verbatim>\<open>os.WriteFile\<close>, which is not atomic: opening truncates the file, and a write that then fails
  leaves what it had written.
\<close>

definition WriteFile :: "fs_env \<Rightarrow> string \<Rightarrow> string \<Rightarrow> fs \<Rightarrow> goerror option \<times> fs" where
  "WriteFile env p b s =
     (case fe_fault env (fs_ops s) of
        Some e \<Rightarrow> (Some e, fs_tick s)
      | None \<Rightarrow> WriteTemp env p b (fs_tick (s\<lparr>fs_files := gm_set p [] (fs_files s)\<rparr>)))"

record save_labels =
  lb_create :: string
  lb_write :: string
  lb_close :: string
  lb_rename :: string

definition save_file ::
  "fs_env \<Rightarrow> save_labels \<Rightarrow> string \<Rightarrow> string \<Rightarrow> string \<Rightarrow> string \<Rightarrow> string \<Rightarrow> fs \<Rightarrow> goerror option \<times> fs" where
  "save_file env lb dir pre suf path b s0 =
     (case CreateTemp env dir pre suf s0 of
        (Inl e, s1) \<Rightarrow> (Some (errorf_w (lb_create lb) e []), s1)
      | (Inr tmpName, s1) \<Rightarrow>
          (let (writeErr, s2) = WriteTemp env tmpName b s1;
               (closeErr, s3) = CloseTemp env s2
           in case writeErr of
                Some e \<Rightarrow> (Some (errorf_w (lb_write lb) e []), snd (Remove env tmpName s3))
              | None \<Rightarrow>
                  (case closeErr of
                     Some e \<Rightarrow> (Some (errorf_w (lb_close lb) e []), snd (Remove env tmpName s3))
                   | None \<Rightarrow>
                       (case Rename env tmpName path s3 of
                          (Some e, s4) \<Rightarrow> (Some (errorf_w (lb_rename lb) e []), snd (Remove env tmpName s4))
                        | (None, s4) \<Rightarrow> (None, s4)))))"

section \<open>Replacing a file is all or nothing\<close>

lemma fs_tick_files [simp]: "fs_files (fs_tick s) = fs_files s"
  by (simp add: fs_tick_def)

lemma CreateTemp_Inr:
  assumes "CreateTemp env dir pre suf s = (Inr p, s')"
  shows "fs_get s p = None" and "fs_files s' = gm_set p [] (fs_files s)"
    and "\<exists>r. p = dir @ ''/'' @ pre @ r @ suf"
proof -
  from assms obtain q where q: "find (\<lambda>p. fs_get s p = None)
      (map (\<lambda>k. dir @ ''/'' @ pre @ fe_rand env (fs_ops s + k) @ suf) [0..<10000]) = Some q"
    and qs: "q = p" "s' = fs_tick (s\<lparr>fs_files := gm_set p [] (fs_files s)\<rparr>)"
    by (auto simp: CreateTemp_def split: option.splits)
  from q have "fs_get s q = None" and "\<exists>r. q = dir @ ''/'' @ pre @ r @ suf"
    by (auto simp: find_Some_iff)
  with qs show "fs_get s p = None" "fs_files s' = gm_set p [] (fs_files s)"
    "\<exists>r. p = dir @ ''/'' @ pre @ r @ suf" by simp_all
qed

lemma CreateTemp_Inl: "CreateTemp env dir pre suf s = (Inl e, s') \<Longrightarrow> fs_files s' = fs_files s"
  by (auto simp: CreateTemp_def split: option.splits)

lemma WriteTemp_other [simp]: "q \<noteq> p \<Longrightarrow> fs_get (snd (WriteTemp env p b s)) q = fs_get s q"
  by (simp add: WriteTemp_def split: option.splits)

lemma WriteTemp_ok: "fst (WriteTemp env p b s) = None \<Longrightarrow> fs_get (snd (WriteTemp env p b s)) p = Some b"
  by (simp add: WriteTemp_def split: option.splits)

lemma Remove_other [simp]: "q \<noteq> p \<Longrightarrow> fs_get (snd (Remove env p s)) q = fs_get s q"
  by (simp add: Remove_def split: option.splits)

lemma CloseTemp_files [simp]: "fs_files (snd (CloseTemp env s)) = fs_files s"
  by (simp add: CloseTemp_def)

lemma Rename_None:
  "Rename env p q s = (None, s') \<Longrightarrow> \<exists>b. fs_get s p = Some b \<and> fs_files s' = gm_set q b (gm_del p (fs_files s))"
  by (auto simp: Rename_def split: option.splits)

lemma Rename_Some: "Rename env p q s = (Some e, s') \<Longrightarrow> fs_files s' = fs_files s"
  by (auto simp: Rename_def split: option.splits)

text \<open>
  On success the file holds exactly the new bytes, on failure exactly what it held before;
  no file other than the temporary one changes either way.
\<close>

lemma save_file_atomic:
  assumes "fs_get s path \<noteq> None \<or> (\<forall>r. path \<noteq> dir @ ''/'' @ pre @ r @ suf)"
    and "save_file env lb dir pre suf path b s = (r, s')"
  shows "fs_get s' path = (if r = None then Some b else fs_get s path)"
    and "\<exists>tmp. \<forall>q. q \<noteq> path \<and> q \<noteq> tmp \<longrightarrow> fs_get s' q = fs_get s q"
proof -
  have "fs_get s' path = (if r = None then Some b else fs_get s path) \<and>
        (\<exists>tmp. \<forall>q. q \<noteq> path \<and> q \<noteq> tmp \<longrightarrow> fs_get s' q = fs_get s q)"
  proof (cases "CreateTemp env dir pre suf s")
    case (Pair c s1)
    show ?thesis
    proof (cases c)
      case (Inl e)
      with Pair assms(2) have "fs_files s' = fs_files s" "r \<noteq> None"
        using CreateTemp_Inl by (auto simp: save_file_def)
      then show ?thesis by auto
    next
      case (Inr tmp)
      note ct = CreateTemp_Inr [OF Pair [unfolded Inr]]
      have ne: "tmp \<noteq> path" using ct(1,3) assms(1) by auto
      obtain we s2 where w: "WriteTemp env tmp b s1 = (we, s2)" by fastforce
      obtain ce s3 where c: "CloseTemp env s2 = (ce, s3)" by fastforce
      have s3: "fs_files s3 = fs_files s2" using CloseTemp_files [of env s2] c by simp
      have other: "fs_get s3 q = fs_get s q" if "q \<noteq> tmp" for q
        using that ct(2) s3 WriteTemp_other [of q tmp env b s1] w by simp
      show ?thesis
      proof (cases "we = None \<and> ce = None")
        case False
        then have "r \<noteq> None" "s' = snd (Remove env tmp s3)"
          using assms(2) Pair Inr w c by (auto simp: save_file_def split: option.splits)
        with other ne show ?thesis by (intro conjI exI [of _ tmp]) auto
      next
        case True
        then have b: "fs_get s3 tmp = Some b" using WriteTemp_ok [of env tmp b s1] w s3 by simp
        obtain re s4 where ren: "Rename env tmp path s3 = (re, s4)" by fastforce
        show ?thesis
        proof (cases re)
          case None
          then have "r = None" "s' = s4" using assms(2) Pair Inr w c ren True by (auto simp: save_file_def)
          with Rename_None [OF ren [unfolded None]] b other show ?thesis
            by (intro conjI exI [of _ tmp]) auto
        next
          case (Some e)
          then have "r \<noteq> None" "s' = snd (Remove env tmp s4)"
            using assms(2) Pair Inr w c ren True by (auto simp: save_file_def)
          with Rename_Some [OF ren [unfolded Some]] other ne show ?thesis
            by (intro conjI exI [of _ tmp]) auto
        qed
      qed
    qed
  qed
  then show "fs_get s' path = (if r = None then Some b else fs_get s path)"
    and "\<exists>tmp. \<forall>q. q \<noteq> path \<and> q \<noteq> tmp \<longrightarrow> fs_get s' q = fs_get s q" by blast+
qed

text \<open>
  A file system on which saving works: no operation fails, and no file has a temporary name.
  Saving leaves it so.
\<close>

definition fs_quiet :: "fs_env \<Rightarrow> string \<Rightarrow> string \<Rightarrow> string \<Rightarrow> string \<Rightarrow> fs \<Rightarrow> bool" where
  "fs_quiet env dir pre suf path s \<longleftrightarrow> (\<forall>n. fe_fault env n = None) \<and>
     (\<forall>r. path \<noteq> dir @ ''/'' @ pre @ r @ suf) \<and> (\<forall>r. fs_get s (dir @ ''/'' @ pre @ r @ suf) = None)"

lemma save_file_quiet:
  assumes "fs_quiet env dir pre suf path s"
  shows "fst (save_file env lb dir pre suf path b s) = None \<and>
         fs_quiet env dir pre suf path (snd (save_file env lb dir pre suf path b s))"
proof -
  have f: "fe_fault env n = None" for n using assms by (simp add: fs_quiet_def)
  let ?c = "dir @ ''/'' @ pre @ fe_rand env (fs_ops s + 0) @ suf"
  have "[0..<10000] = 0 # [Suc 0..<10000]" by (rule upt_conv_Cons) simp
  then have "find (\<lambda>p. fs_get s p = None)
      (map (\<lambda>k. dir @ ''/'' @ pre @ fe_rand env (fs_ops s + k) @ suf) [0..<10000]) = Some ?c"
    using assms by (simp add: fs_quiet_def del: upt_Suc)
  then have ct: "CreateTemp env dir pre suf s = (Inr ?c, fs_tick (s\<lparr>fs_files := gm_set ?c [] (fs_files s)\<rparr>))"
    by (simp add: CreateTemp_def f)
  show ?thesis
    using assms unfolding save_file_def ct
    by (auto simp: WriteTemp_def CloseTemp_def Rename_def f fs_quiet_def Let_def)
qed

lemma WriteFile_ok: "WriteFile env p b s = (None, s') \<Longrightarrow> fs_get s' p = Some b"
  using WriteTemp_ok by (auto simp: WriteFile_def split: option.splits) (metis fst_conv snd_conv)

lemma WriteFile_other: "q \<noteq> p \<Longrightarrow> fs_get (snd (WriteFile env p b s)) q = fs_get s q"
  by (simp add: WriteFile_def split: option.splits)

end
