(* ===== verification/Go_Text.thy ===== *)
theory Go_Text
  imports Prelude
begin

text \<open>
  The functions of \<^verbatim>\<open>strings\<close> and \<^verbatim>\<open>strconv\<close> that work on white space, lines and
  numbers: \<^verbatim>\<open>TrimSpace\<close>, \<^verbatim>\<open>Fields\<close>, \<^verbatim>\<open>Split\<close> and \<^verbatim>\<open>Cut\<close> at one character, \<^verbatim>\<open>Atoi\<close>
  and \<^verbatim>\<open>ParseInt\<close> with the 64-bit range check.
\<close>

text \<open>The UTF-8 encodings of the characters \<^verbatim>\<open>unicode.IsSpace\<close> accepts.\<close>

definition space_runes :: "string list" where
  "space_runes =
     [[CHR 0x20], [CHR 0x09], [CHR 0x0A], [CHR 0x0B], [CHR 0x0C], [CHR 0x0D],
      [CHR 0xC2, CHR 0x85], [CHR 0xC2, CHR 0xA0], [CHR 0xE1, CHR 0x9A, CHR 0x80],
      [CHR 0xE2, CHR 0x80, CHR 0x80], [CHR 0xE2, CHR 0x80, CHR 0x81],
      [CHR 0xE2, CHR 0x80, CHR 0x82], [CHR 0xE2, CHR 0x80, CHR 0x83],
      [CHR 0xE2, CHR 0x80, CHR 0x84], [CHR 0xE2, CHR 0x80, CHR 0x85],
      [CHR 0xE2, CHR 0x80, CHR 0x86], [CHR 0xE2, CHR 0x80, CHR 0x87],
      [CHR 0xE2, CHR 0x80, CHR 0x88], [CHR 0xE2, CHR 0x80, CHR 0x89],
      [CHR 0xE2, CHR 0x80, CHR 0x8A], [CHR 0xE2, CHR 0x80, CHR 0xA8],
      [CHR 0xE2, CHR 0x80, CHR 0xA9], [CHR 0xE2, CHR 0x80, CHR 0xAF],
      [CHR 0xE2, CHR 0x81, CHR 0x9F], [CHR 0xE3, CHR 0x80, CHR 0x80]]"

lemma space_runes_ne: "r \<in> set space_runes \<Longrightarrow> r \<noteq> []"
proof -
  have "list_all (\<lambda>r. r \<noteq> []) space_runes" by (simp add: space_runes_def)
  then show "r \<in> set space_runes \<Longrightarrow> r \<noteq> []" by (simp add: list_all_iff)
qed

text \<open>The space character at the front of a string, if there is one.\<close>

definition space_at :: "string list \<Rightarrow> string \<Rightarrow> string option" where
  "space_at rs s = find (HasPrefix s) rs"

lemma space_at_Some:
  "space_at rs s = Some r \<Longrightarrow> [] \<notin> set rs \<Longrightarrow> length (drop (length r) s) < length s"
proof -
  assume a: "space_at rs s = Some r" "[] \<notin> set rs"
  from a(1) have "HasPrefix s r" "r \<in> set rs"
    by (auto simp: space_at_def find_Some_iff)
  with a(2) show ?thesis by (cases r; cases s) (auto simp: HasPrefix_def)
qed

function trim_front :: "string list \<Rightarrow> string \<Rightarrow> string" where
  "trim_front rs s =
     (if [] \<in> set rs then s
      else case space_at rs s of None \<Rightarrow> s | Some r \<Rightarrow> trim_front rs (drop (length r) s))"
  by pat_completeness auto
termination
  by (relation "measure (\<lambda>(rs, s). length s)") (use space_at_Some in auto)

declare trim_front.simps [simp del]

definition TrimSpace :: "string \<Rightarrow> string" where
  "TrimSpace s = rev (trim_front (map rev space_runes) (rev (trim_front space_runes s)))"

function Fields :: "string \<Rightarrow> string list" where
  "Fields s =
     (case trim_front space_runes s of
        [] \<Rightarrow> []
      | c # t \<Rightarrow>
          (let n = length (takeWhile (\<lambda>k. space_at space_runes (drop k t) = None) [0..<length t])
           in (c # take n t) # Fields (drop n t)))"
  by pat_completeness auto
termination
proof (relation "measure length", simp)
  fix s c t n
  assume "trim_front space_runes s = c # t" and "n = length (takeWhile (\<lambda>k. space_at space_runes (drop k t) = None) [0..<length t])"
  moreover have "length (trim_front rs s) \<le> length s" for rs s
  proof (induction rs s rule: trim_front.induct)
    case (1 rs s)
    then show ?case
      using space_at_Some [of rs s] by (subst trim_front.simps) (force split: option.splits)
  qed
  ultimately show "(drop n t, s) \<in> measure length"
    by (metis (no_types, lifting) in_measure le_imp_less_Suc length_Cons length_drop diff_le_self order_less_le_trans order.trans)
qed

declare Fields.simps [simp del]

text \<open>\<^verbatim>\<open>strings.Split\<close> and \<^verbatim>\<open>strings.Cut\<close> with a one-character separator.\<close>

fun Split1 :: "string \<Rightarrow> char \<Rightarrow> string list" where
  "Split1 [] sep = [[]]"
| "Split1 (c # s) sep =
     (if c = sep then [] # Split1 s sep
      else case Split1 s sep of [] \<Rightarrow> [[c]] | x # xs \<Rightarrow> (c # x) # xs)"

definition Cut1 :: "string \<Rightarrow> char \<Rightarrow> string \<times> string \<times> bool" where
  "Cut1 s sep =
     (if sep \<in> set s
      then (takeWhile (\<lambda>c. c \<noteq> sep) s, tl (dropWhile (\<lambda>c. c \<noteq> sep) s), True)
      else (s, [], False))"

text \<open>
  \<^verbatim>\<open>strconv.Atoi\<close> and \<^verbatim>\<open>strconv.ParseInt(s, 10, 64)\<close>: an optional sign, decimal digits, and
  the range of a 64-bit integer; \<^const>\<open>None\<close> is a syntax or range error.
\<close>

definition Atoi :: "string \<Rightarrow> int option" where
  "Atoi s =
     (let (neg, ds) = (case s of
            c # t \<Rightarrow> if c = CHR ''-'' then (True, t) else if c = CHR ''+'' then (False, t) else (False, s)
          | [] \<Rightarrow> (False, s));
          n = int (digits_val ds);
          i = (if neg then - n else n)
      in if ds = [] \<or> \<not> list_all is_digit ds then None
         else if - (2 ^ 63) \<le> i \<and> i < 2 ^ 63 then Some i else None)"

section \<open>Lemmas\<close>

lemma trim_front_id: "space_at rs s = None \<Longrightarrow> trim_front rs s = s"
  by (subst trim_front.simps) simp

lemma Atoi_Itoa:
  assumes "- (2 ^ 63) \<le> i" and "i < 2 ^ 63"
  shows "Atoi (Itoa i) = Some i"
proof -
  obtain c t where n: "nat_str (nat \<bar>i\<bar>) = c # t" by (cases "nat_str (nat \<bar>i\<bar>)") auto
  then have c: "is_digit c" by (rule nat_str_hd_digit)
  then have nc: "c \<noteq> CHR ''-''" "c \<noteq> CHR ''+''" by (auto simp: is_digit_def)
  have ds: "list_all is_digit (nat_str (nat \<bar>i\<bar>))" using nat_str_digits by blast
  show ?thesis
  proof (cases "i < 0")
    case True
    then have "Itoa i = CHR ''-'' # nat_str (nat \<bar>i\<bar>)" by (simp add: Itoa_def)
    with True assms ds show ?thesis by (simp add: Atoi_def)
  next
    case False
    then have "Itoa i = nat_str (nat \<bar>i\<bar>)" by (simp add: Itoa_def)
    with False assms ds nc n digits_val_nat_str [of "nat \<bar>i\<bar>"] show ?thesis
      by (simp add: Atoi_def Let_def)
  qed
qed

lemma Split1_ne [simp]: "Split1 s sep \<noteq> []"
  by (induction s) (auto split: list.splits)

lemma Split1_Join: "str_Join (Split1 s sep) [sep] = s"
proof (induction s)
  case (Cons c s)
  obtain x xs where x: "Split1 s sep = x # xs" by (cases "Split1 s sep") auto
  with Cons show ?case by (cases xs) auto
qed simp

lemma Cut1_no: "sep \<notin> set s \<Longrightarrow> Cut1 s sep = (s, [], False)"
  by (simp add: Cut1_def)

lemma Cut1_append: "sep \<notin> set s \<Longrightarrow> Cut1 (s @ sep # t) sep = (s, t, True)"
  by (induction s) (auto simp: Cut1_def)

end
