(* ===== verification/Go_Time.thy ===== *)
theory Go_Time
  imports Go_Text
begin

text \<open>
  Instants and their JSON form. A \<^verbatim>\<open>time.Time\<close> is its instant in nanoseconds since the Unix
  epoch; \<^verbatim>\<open>encoding/json\<close> writes it as an RFC 3339 string with nanoseconds, here in UTC,
  the zone of the host. The calendar is the proleptic Gregorian one.
\<close>

type_synonym instant = int

definition days_before_year :: "int \<Rightarrow> int" where
  "days_before_year y = 365 * y + (y + 3) div 4 - (y + 99) div 100 + (y + 399) div 400"

definition is_leap :: "int \<Rightarrow> bool" where
  "is_leap y \<longleftrightarrow> y mod 4 = 0 \<and> (y mod 100 \<noteq> 0 \<or> y mod 400 = 0)"

definition month_lengths :: "int \<Rightarrow> int list" where
  "month_lengths y = [31, if is_leap y then 29 else 28, 31, 30, 31, 30, 31, 31, 30, 31, 30, 31]"

text \<open>The year of a day number counted from 0000-01-01: an estimate, then a correction.\<close>

definition year_of_day :: "int \<Rightarrow> int" where
  "year_of_day n =
     (let y = (400 * n) div 146097
      in if n < days_before_year y then y - 1
         else if days_before_year (y + 1) \<le> n then y + 1 else y)"

fun month_of :: "int list \<Rightarrow> int \<Rightarrow> int \<Rightarrow> int \<times> int" where
  "month_of [] m d = (m, d)"
| "month_of (l # ls) m d = (if d < l then (m, d) else month_of ls (m + 1) (d - l))"

definition epoch_day :: int where
  "epoch_day = 719528" \<comment> \<open>the day number of 1970-01-01\<close>

text \<open>Decimal digits of a fixed width.\<close>

fun pad :: "nat \<Rightarrow> int \<Rightarrow> string" where
  "pad 0 n = []"
| "pad (Suc w) n = pad w (n div 10) @ [digit_char (nat (n mod 10))]"

definition frac_str :: "int \<Rightarrow> string" where
  "frac_str ns = (if ns = 0 then [] else CHR ''.'' # TrimRight (pad 9 ns) ''0'')"

definition rfc3339 :: "instant \<Rightarrow> string" where
  "rfc3339 t =
     (let secs = t div 1000000000; ns = t mod 1000000000;
          n = secs div 86400 + epoch_day; s = secs mod 86400;
          y = year_of_day n; (m, d) = month_of (month_lengths y) 1 (n - days_before_year y)
      in pad 4 y @ ''-'' @ pad 2 m @ ''-'' @ pad 2 (d + 1) @ ''T'' @
         pad 2 (s div 3600) @ '':'' @ pad 2 (s div 60 mod 60) @ '':'' @
         pad 2 (s mod 60) @ frac_str ns @ ''Z'')"

lemma days_before_1970: "days_before_year 1970 = epoch_day"
  by (simp add: days_before_year_def epoch_day_def)

lemma length_pad [simp]: "length (pad w n) = w"
  by (induction w arbitrary: n) simp_all

section \<open>Reading an instant\<close>

text \<open>
  The strict RFC 3339 parser behind \<^verbatim>\<open>time.Time.UnmarshalJSON\<close>: fixed-width fields within
  their ranges, an optional fraction of which nine digits count, and \<^verbatim>\<open>Z\<close> or an offset.
\<close>

definition fixed :: "nat \<Rightarrow> int \<Rightarrow> int \<Rightarrow> string \<Rightarrow> (int \<times> string) option" where
  "fixed w lo hi s =
     (let n = int (digits_val (take w s)) in
      if w \<le> length s \<and> list_all is_digit (take w s) \<and> lo \<le> n \<and> n \<le> hi then Some (n, drop w s) else None)"

fun expect :: "char \<Rightarrow> string \<Rightarrow> string option" where
  "expect c [] = None"
| "expect c (x # s) = (if x = c then Some s else None)"

definition month_days :: "int \<Rightarrow> int \<Rightarrow> int" where
  "month_days y m = month_lengths y ! nat (m - 1)"

definition month_offset :: "int \<Rightarrow> int \<Rightarrow> int" where
  "month_offset y m = sum_list (take (nat (m - 1)) (month_lengths y))"

definition parse_frac :: "string \<Rightarrow> int \<times> string" where
  "parse_frac s =
     (case s of
        c # t \<Rightarrow>
          (let ds = takeWhile is_digit t in
           if c = CHR ''.'' \<and> ds \<noteq> [] then
             (int (digits_val (take 9 (ds @ replicate 9 (CHR ''0'')))), drop (length ds) t)
           else (0, s))
      | [] \<Rightarrow> (0, s))"

definition parse_zone :: "string \<Rightarrow> int option" where
  "parse_zone s =
     (if s = ''Z'' then Some 0
      else case s of
        sg # t \<Rightarrow>
          if sg = CHR ''+'' \<or> sg = CHR ''-'' then
            Option.bind (fixed 2 0 23 t) (\<lambda>(h, t).
            Option.bind (expect (CHR '':'') t) (\<lambda>t.
            Option.bind (fixed 2 0 59 t) (\<lambda>(m, t).
            if t = [] then Some ((if sg = CHR ''-'' then -1 else 1) * (h * 3600 + m * 60)) else None)))
          else None
      | [] \<Rightarrow> None)"

definition parse_rfc3339 :: "string \<Rightarrow> instant option" where
  "parse_rfc3339 s =
     Option.bind (fixed 4 0 9999 s) (\<lambda>(y, s).
     Option.bind (expect (CHR ''-'') s) (\<lambda>s.
     Option.bind (fixed 2 1 12 s) (\<lambda>(m, s).
     Option.bind (expect (CHR ''-'') s) (\<lambda>s.
     Option.bind (fixed 2 1 (month_days y m) s) (\<lambda>(d, s).
     Option.bind (expect (CHR ''T'') s) (\<lambda>s.
     Option.bind (fixed 2 0 23 s) (\<lambda>(hh, s).
     Option.bind (expect (CHR '':'') s) (\<lambda>s.
     Option.bind (fixed 2 0 59 s) (\<lambda>(mi, s).
     Option.bind (expect (CHR '':'') s) (\<lambda>s.
     Option.bind (fixed 2 0 59 s) (\<lambda>(ss, s).
     case parse_frac s of (ns, s) \<Rightarrow>
     Option.bind (parse_zone s) (\<lambda>z.
     Some (((days_before_year y + month_offset y m + (d - 1) - epoch_day) * 86400
            + hh * 3600 + mi * 60 + ss - z) * 1000000000 + ns)))))))))))))"

section \<open>Reading what was written\<close>

lemma digits_val_pad: "0 \<le> n \<Longrightarrow> n < 10 ^ w \<Longrightarrow> int (digits_val (pad w n)) = n \<and> list_all is_digit (pad w n)"
proof (induction w arbitrary: n)
  case 0
  then show ?case by (simp add: digits_val_def)
next
  case (Suc w)
  have "0 \<le> n div 10" "n div 10 < 10 ^ w" using Suc.prems by auto
  note ih = Suc.IH [OF this]
  have "nat (n mod 10) < 10" by simp
  with ih show ?case by (simp add: digits_val_snoc)
qed

lemma fixed_pad: "lo \<le> n \<Longrightarrow> n \<le> hi \<Longrightarrow> 0 \<le> n \<Longrightarrow> n < 10 ^ w \<Longrightarrow> fixed w lo hi (pad w n @ s) = Some (n, s)"
  using digits_val_pad [of n w] by (simp add: fixed_def Let_def)

lemma ceil_step:
  fixes y k :: int
  assumes "0 < k"
  shows "(y + k) div k - (y + (k - 1)) div k = (if y mod k = 0 then 1 else 0)"
proof -
  have r: "0 \<le> y mod k" "y mod k < k" using assms by simp_all
  have "y + (k - 1) = (y mod k + (k - 1)) + y div k * k" by simp
  then have "(y + (k - 1)) div k = y div k + (y mod k + (k - 1)) div k"
    using assms by (metis div_mult_self1 add.commute less_irrefl)
  moreover have "(y mod k + (k - 1)) div k = (if y mod k = 0 then 0 else 1)"
  proof (cases "y mod k = 0")
    case True
    then show ?thesis using assms by (simp add: div_pos_pos_trivial)
  next
    case False
    then have "(y mod k + (k - 1)) div k = 1"
      by (intro int_div_pos_eq [where r = "y mod k - 1"]) (use r assms False in linarith)+
    with False show ?thesis by simp
  qed
  moreover have "(y + k) div k = y div k + 1" using assms div_add_self2 [of k y] by linarith
  ultimately show ?thesis by simp
qed

lemma ceil_nums: "(4 :: int) - 1 = 3" "(100 :: int) - 1 = 99" "(400 :: int) - 1 = 399"
  by simp_all

lemma year_nums: "y + 1 + 3 = y + (4 :: int)" "y + 1 + 99 = y + (100 :: int)" "y + 1 + 399 = y + (400 :: int)"
  by simp_all

lemma year_lin:
  fixes y :: int
  shows "365 * (y + 1) + a - b + c - (365 * y + a' - b' + c') = 365 + (a - a') - (b - b') + (c - c')"
  by (simp add: algebra_simps)

lemma days_before_year_next: "days_before_year (y + 1) - days_before_year y = sum_list (month_lengths y)"
proof -
  have "(100 :: int) dvd 400" by (rule dvdI [of _ _ 4]) simp
  then have "y mod 400 mod 100 = y mod 100" by (rule mod_mod_cancel)
  moreover have "(4 :: int) dvd 100" by (rule dvdI [of _ _ 25]) simp
  then have "y mod 100 mod 4 = y mod 4" by (rule mod_mod_cancel)
  ultimately have m: "y mod 400 = 0 \<Longrightarrow> y mod 100 = 0" "y mod 100 = 0 \<Longrightarrow> y mod 4 = 0" by auto
  have c: "(y + 4) div 4 - (y + 3) div 4 = (if y mod 4 = 0 then 1 else 0)"
    "(y + 100) div 100 - (y + 99) div 100 = (if y mod 100 = 0 then 1 else 0)"
    "(y + 400) div 400 - (y + 399) div 400 = (if y mod 400 = 0 then 1 else 0)"
    by (rule ceil_step [of 4 y, unfolded ceil_nums, OF zero_less_numeral], rule ceil_step [of 100 y, unfolded ceil_nums, OF zero_less_numeral],
        rule ceil_step [of 400 y, unfolded ceil_nums, OF zero_less_numeral])
  have d: "days_before_year (y + 1) - days_before_year y = 365 + ((y + 4) div 4 - (y + 3) div 4)
      - ((y + 100) div 100 - (y + 99) div 100) + ((y + 400) div 400 - (y + 399) div 400)"
    unfolding days_before_year_def year_nums by (rule year_lin)
  have "days_before_year (y + 1) - days_before_year y = (if is_leap y then 366 else 365)"
    unfolding d c is_leap_def using m by (cases "y mod 4 = 0"; cases "y mod 100 = 0"; cases "y mod 400 = 0") simp_all
  then show ?thesis by (simp add: month_lengths_def)
qed

lemma div_between:
  fixes a k :: int
  assumes "0 < k"
  shows "k * (a div k) \<le> a" and "a < k * (a div k) + k"
  using assms pos_mod_bound [OF assms, of a] pos_mod_sign [OF assms, of a] by (simp_all add: minus_mod_eq_mult_div [symmetric])

lemma year_of_day_bounds:
  "days_before_year (year_of_day n) \<le> n \<and> n < days_before_year (year_of_day n + 1)"
proof -
  let ?y = "(400 * n) div 146097"
  have b: "4 * ((y + 3) div 4) \<le> y + 3" "y + 3 < 4 * ((y + 3) div 4) + 4"
    "100 * ((y + 99) div 100) \<le> y + 99" "y + 99 < 100 * ((y + 99) div 100) + 100"
    "400 * ((y + 399) div 400) \<le> y + 399" "y + 399 < 400 * ((y + 399) div 400) + 400" for y :: int
    by (rule div_between, simp)+
  have arith_lo: "400 * (365 * y + A - B + C) \<le> 146097 * y + 2000"
    if "4 * A \<le> y + 3" "y + 99 < 100 * B + 100" "400 * C \<le> y + 399" for y A B C :: int
    using that by (simp add: algebra_simps)
  have arith_hi: "146097 * y - 2000 \<le> 400 * (365 * y + A - B + C)"
    if "y + 3 < 4 * A + 4" "100 * B \<le> y + 99" "y + 399 < 400 * C + 400" for y A B C :: int
    using that by (simp add: algebra_simps)
  have lo: "400 * days_before_year y \<le> 146097 * y + 2000" for y
    using arith_lo [OF b(1,4,5)] unfolding days_before_year_def .
  have hi: "146097 * y - 2000 \<le> 400 * days_before_year y" for y
    using arith_hi [OF b(2,3,6)] unfolding days_before_year_def .
  have e: "146097 * ?y \<le> 400 * n" by (rule div_between) simp
  have e': "400 * n < 146097 * ?y + 146097" by (rule div_between) simp
  have "days_before_year (?y - 1) \<le> n" using lo [of "?y - 1"] e by (simp add: algebra_simps)
  moreover have "n < days_before_year (?y + 2)" using hi [of "?y + 2"] e' by (simp add: algebra_simps)
  ultimately show ?thesis by (simp add: year_of_day_def Let_def add.commute)
qed

lemma month_of_spec:
  "0 \<le> d \<Longrightarrow> d < sum_list ls \<Longrightarrow> (\<And>l. l \<in> set ls \<Longrightarrow> 0 < l) \<Longrightarrow>
     \<exists>k < length ls. month_of ls m d = (m + int k, d - sum_list (take k ls)) \<and>
       0 \<le> d - sum_list (take k ls) \<and> d - sum_list (take k ls) < ls ! k"
proof (induction ls arbitrary: m d)
  case (Cons l ls)
  show ?case
  proof (cases "d < l")
    case True
    then show ?thesis using Cons.prems(1) by (intro exI [of _ 0]) simp
  next
    case False
    then obtain k where k: "k < length ls" "month_of ls (m + 1) (d - l) = (m + 1 + int k, d - l - sum_list (take k ls))"
      "0 \<le> d - l - sum_list (take k ls)" "d - l - sum_list (take k ls) < ls ! k"
      using Cons.IH [of "d - l" "m + 1"] Cons.prems by auto
    with False show ?thesis by (intro exI [of _ "Suc k"]) (simp add: algebra_simps)
  qed
qed simp

lemma digits_val_zeros: "digits_val (replicate k (CHR ''0'')) = 0"
  by (induction k) (simp_all add: digits_val_def digits_val_snoc digit_val_def replicate_append_same [symmetric])

lemma TrimRight_zeros: "\<exists>k. s = TrimRight s ''0'' @ replicate k (CHR ''0'')"
proof (induction s rule: rev_induct)
  case (snoc c s)
  show ?case
  proof (cases "c = CHR ''0''")
    case True
    from snoc obtain k where k: "s = TrimRight s ''0'' @ replicate k (CHR ''0'')" by blast
    have "s @ [c] = TrimRight s ''0'' @ replicate k (CHR ''0'') @ [CHR ''0'']"
      using arg_cong [OF k, of "\<lambda>x. x @ [c]"] True by simp
    also have "\<dots> = TrimRight (s @ [c]) ''0'' @ replicate (Suc k) (CHR ''0'')"
      using True by (simp add: TrimRight_def replicate_append_same)
    finally show ?thesis by blast
  next
    case False
    then show ?thesis by (intro exI [of _ 0]) (simp add: TrimRight_def)
  qed
qed (simp add: TrimRight_def)

lemma parse_frac_str:
  assumes "0 \<le> ns" and "ns < 1000000000"
  shows "parse_frac (frac_str ns @ ''Z'') = (ns, ''Z'')"
proof (cases "ns = 0")
  case True
  then show ?thesis by (simp add: frac_str_def parse_frac_def)
next
  case False
  let ?ds = "TrimRight (pad 9 ns) ''0''"
  have p: "int (digits_val (pad 9 ns)) = ns" "list_all is_digit (pad 9 ns)" using digits_val_pad [of ns 9] assms by simp_all
  obtain k where k: "pad 9 ns = ?ds @ replicate k (CHR ''0'')" using TrimRight_zeros by blast
  have len: "length ?ds + k = 9" using arg_cong [OF k, of length] by simp
  then have pad: "take 9 (?ds @ replicate 9 (CHR ''0'')) = pad 9 ns"
    by (subst k) (simp add: take_replicate min_def)
  have dig: "list_all is_digit ?ds" using p(2) k by (metis list_all_append)
  then have tw: "takeWhile is_digit (?ds @ ''Z'') = ?ds" by (simp add: list_all_iff takeWhile_append is_digit_def)
  have "?ds \<noteq> []"
  proof
    assume "?ds = []"
    with k have "pad 9 ns = replicate k (CHR ''0'')" by simp
    then have "digits_val (pad 9 ns) = 0" using digits_val_zeros by simp
    with p(1) False show False by simp
  qed
  then show ?thesis
    using False tw pad p(1) by (simp add: frac_str_def parse_frac_def Let_def)
qed

text \<open>The years that four digits can write.\<close>

definition time_ok :: "instant \<Rightarrow> bool" where
  "time_ok t \<longleftrightarrow> (let y = year_of_day (t div 1000000000 div 86400 + epoch_day) in 0 \<le> y \<and> y \<le> 9999)"

lemma month_of_year:
  assumes "y = year_of_day n" and "month_of (month_lengths y) 1 (n - days_before_year y) = (m, d)"
  shows "1 \<le> m" "m \<le> 12" "0 \<le> d" "d + 1 \<le> month_days y m" "d < 31" "days_before_year y + month_offset y m + d = n"
proof -
  have b: "0 \<le> n - days_before_year y" "n - days_before_year y < sum_list (month_lengths y)"
    using year_of_day_bounds [of n] days_before_year_next [of y] assms(1) by simp_all
  have pos: "0 < l" "l \<le> 31" if "l \<in> set (month_lengths y)" for l using that by (auto simp: month_lengths_def split: if_splits)
  obtain k where k: "k < length (month_lengths y)" "m = 1 + int k" "d = n - days_before_year y - sum_list (take k (month_lengths y))"
    "0 \<le> d" "d < month_lengths y ! k"
    using month_of_spec [OF b pos(1), of 1] assms(2) by auto
  have "length (month_lengths y) = 12" by (simp add: month_lengths_def)
  with k show "1 \<le> m" "m \<le> 12" "0 \<le> d" "d + 1 \<le> month_days y m" "days_before_year y + month_offset y m + d = n"
    by (simp_all add: month_days_def month_offset_def)
  show "d < 31" using k pos(2) nth_mem [OF k(1)] by fastforce
qed

lemma hms_lin: "q = h * 60 + m \<Longrightarrow> q * 60 + s = t \<Longrightarrow> h * 3600 + m * 60 + s = (t :: int)"
  by simp

lemma rfc3339_roundtrip:
  assumes "time_ok t"
  shows "parse_rfc3339 (rfc3339 t) = Some t"
proof -
  let ?secs = "t div 1000000000" let ?ns = "t mod 1000000000"
  let ?n = "?secs div 86400 + epoch_day" let ?s = "?secs mod 86400"
  define y where "y = year_of_day ?n"
  obtain m d where md: "month_of (month_lengths y) 1 (?n - days_before_year y) = (m, d)" by fastforce
  note b = month_of_year [OF y_def md]
  have y: "0 \<le> y" "y \<le> 9999" using assms by (simp_all add: time_ok_def Let_def y_def)
  have s: "0 \<le> ?s" "?s < 86400" by simp_all
  define hh mi ss where "hh = ?s div 3600" and "mi = ?s div 60 mod 60" and "ss = ?s mod 60"
  have h: "0 \<le> hh" "hh \<le> 23" using s by (auto simp: hh_def)
  have mi: "0 \<le> mi" "mi \<le> 59" unfolding mi_def using pos_mod_bound [of 60 "?s div 60"] by simp_all
  have ss: "0 \<le> ss" "ss \<le> 59" unfolding ss_def using pos_mod_bound [of 60 ?s] by simp_all
  have hms: "hh * 3600 + mi * 60 + ss = ?s"
  proof (rule hms_lin)
    have "?s div 60 div 60 = hh" unfolding hh_def using zdiv_zmult2_eq [of 60 ?s 60] by simp
    then show "?s div 60 = hh * 60 + mi" unfolding mi_def using div_mult_mod_eq [of "?s div 60" 60] by simp
    show "?s div 60 * 60 + ss = ?s" unfolding ss_def by (rule div_mult_mod_eq)
  qed
  let ?z = "pad 4 y @ ''-'' @ pad 2 m @ ''-'' @ pad 2 (d + 1) @ ''T'' @ pad 2 hh @ '':'' @
      pad 2 mi @ '':'' @ pad 2 ss @ frac_str ?ns @ ''Z''"
  have r: "rfc3339 t = ?z" using md by (simp add: rfc3339_def Let_def y_def hh_def mi_def ss_def)
  have f: "fixed 4 0 9999 (pad 4 y @ u) = Some (y, u)" "fixed 2 1 12 (pad 2 m @ u) = Some (m, u)"
    "fixed 2 1 (month_days y m) (pad 2 (d + 1) @ u) = Some (d + 1, u)" "fixed 2 0 23 (pad 2 hh @ u) = Some (hh, u)"
    "fixed 2 0 59 (pad 2 mi @ u) = Some (mi, u)" "fixed 2 0 59 (pad 2 ss @ u) = Some (ss, u)" for u
    by (rule fixed_pad; use y b h mi ss in simp)+
  have ns: "parse_frac (frac_str ?ns @ ''Z'') = (?ns, ''Z'')" by (rule parse_frac_str) simp_all
  have "parse_rfc3339 ?z = Some (((days_before_year y + month_offset y m + (d + 1 - 1) - epoch_day) * 86400
      + hh * 3600 + mi * 60 + ss - 0) * 1000000000 + ?ns)"
    unfolding parse_rfc3339_def by (simp add: f ns parse_zone_def)
  also have "((days_before_year y + month_offset y m + (d + 1 - 1) - epoch_day) * 86400
      + hh * 3600 + mi * 60 + ss - 0) * 1000000000 + ?ns = ?secs * 1000000000 + ?ns"
  proof -
    have "(days_before_year y + month_offset y m + (d + 1 - 1) - epoch_day) * 86400 + (hh * 3600 + mi * 60 + ss) =
        ?secs div 86400 * 86400 + ?s" using b(6) unfolding hms by simp
    also have "\<dots> = ?secs" by (rule div_mult_mod_eq)
    finally show ?thesis by (simp only: add.assoc diff_zero)
  qed
  also have "?secs * 1000000000 + ?ns = t" by (rule div_mult_mod_eq)
  finally show ?thesis unfolding r .
qed

end
