(* ===== verification/Go_Json.thy ===== *)
theory Go_Json
  imports Prelude
begin

text \<open>
  What the program uses of Go's \<^verbatim>\<open>encoding/json\<close>: the value tree, the decoder with its
  nesting limit, the compact encoder with its HTML-safe escapes, and decoding into struct
  fields by key. Strings are bytes; as in Go, a byte that is not part of valid UTF-8 becomes
  U+FFFD on either way. The main result is that decoding what the encoder wrote gives the
  value back (\<open>json_roundtrip\<close>).
\<close>

datatype json =
    JNull
  | JBool bool
  | JNum string
  | JStr string
  | JArr "json list"
  | JObj "(string \<times> json) list"

abbreviation byte :: "char \<Rightarrow> nat" where
  "byte c \<equiv> of_char c"

section \<open>UTF-8\<close>

definition is_cont :: "char \<Rightarrow> bool" where
  "is_cont c \<longleftrightarrow> 128 \<le> byte c \<and> byte c \<le> 191"

text \<open>The width of the valid multi-byte sequence a string starts with; 0 if it is invalid.\<close>

fun utf8_width :: "string \<Rightarrow> nat" where
  "utf8_width (a # b # s) =
     (if 194 \<le> byte a \<and> byte a \<le> 223 \<and> is_cont b then 2
      else if 224 \<le> byte a \<and> byte a \<le> 239 \<and> is_cont b
           \<and> (byte a = 224 \<longrightarrow> 160 \<le> byte b) \<and> (byte a = 237 \<longrightarrow> byte b \<le> 159)
           \<and> (case s of c # _ \<Rightarrow> is_cont c | [] \<Rightarrow> False) then 3
      else if 240 \<le> byte a \<and> byte a \<le> 244 \<and> is_cont b
           \<and> (byte a = 240 \<longrightarrow> 144 \<le> byte b) \<and> (byte a = 244 \<longrightarrow> byte b \<le> 143)
           \<and> (case s of c # d # _ \<Rightarrow> is_cont c \<and> is_cont d | _ \<Rightarrow> False) then 4
      else 0)"
| "utf8_width _ = 0"

definition utf8_error :: string where
  "utf8_error = [CHR 0xEF, CHR 0xBF, CHR 0xBD]"

definition utf8_encode :: "nat \<Rightarrow> string" where
  "utf8_encode r =
     (if r < 128 then [char_of r]
      else if r < 2048 then [char_of (192 + r div 64), char_of (128 + r mod 64)]
      else if 55296 \<le> r \<and> r < 57344 \<or> 1114112 \<le> r then utf8_error
      else if r < 65536 then
        [char_of (224 + r div 4096), char_of (128 + (r div 64) mod 64), char_of (128 + r mod 64)]
      else
        [char_of (240 + r div 262144), char_of (128 + (r div 4096) mod 64),
         char_of (128 + (r div 64) mod 64), char_of (128 + r mod 64)])"

text \<open>Every invalid byte replaced by U+FFFD.\<close>

function utf8_fix :: "string \<Rightarrow> string" where
  "utf8_fix [] = []"
| "utf8_fix (c # s) =
     (if byte c < 128 then c # utf8_fix s
      else case utf8_width (c # s) of
          0 \<Rightarrow> utf8_error @ utf8_fix s
        | Suc w \<Rightarrow> take (Suc w) (c # s) @ utf8_fix (drop w s))"
  by pat_completeness auto
termination
  by (relation "measure length") auto

definition utf8_valid :: "string \<Rightarrow> bool" where
  "utf8_valid s \<longleftrightarrow> utf8_fix s = s"

section \<open>Decoding\<close>

definition is_ws :: "char \<Rightarrow> bool" where
  "is_ws c \<longleftrightarrow> byte c = 32 \<or> byte c = 9 \<or> byte c = 10 \<or> byte c = 13"

definition skip_ws :: "string \<Rightarrow> string" where
  "skip_ws s = dropWhile is_ws s"

definition hex_val :: "char \<Rightarrow> nat option" where
  "hex_val c =
     (if 48 \<le> byte c \<and> byte c \<le> 57 then Some (byte c - 48)
      else if 97 \<le> byte c \<and> byte c \<le> 102 then Some (byte c - 87)
      else if 65 \<le> byte c \<and> byte c \<le> 70 then Some (byte c - 55)
      else None)"

fun hex4 :: "string \<Rightarrow> (nat \<times> string) option" where
  "hex4 (a # b # c # d # s) =
     (case (hex_val a, hex_val b, hex_val c, hex_val d) of
        (Some w, Some x, Some y, Some z) \<Rightarrow> Some (4096 * w + 256 * x + 16 * y + z, s)
      | _ \<Rightarrow> None)"
| "hex4 _ = None"

text \<open>A \<^verbatim>\<open>\uXXXX\<close> escape after its \<^verbatim>\<open>u\<close>, joined with a following one when the two are a
  surrogate pair.\<close>

definition unicode_escape :: "string \<Rightarrow> (string \<times> string) option" where
  "unicode_escape s =
     (case hex4 s of
        None \<Rightarrow> None
      | Some (r, t) \<Rightarrow>
          if 55296 \<le> r \<and> r < 57344 then
            (case t of
               c # d # u \<Rightarrow>
                 (if c = CHR 0x5C \<and> d = CHR ''u'' then
                    (case hex4 u of
                       Some (r2, v) \<Rightarrow>
                         if r < 56320 \<and> 56320 \<le> r2 \<and> r2 < 57344
                         then Some (utf8_encode ((r - 55296) * 1024 + (r2 - 56320) + 65536), v)
                         else Some (utf8_error, t)
                     | None \<Rightarrow> Some (utf8_error, t))
                  else Some (utf8_error, t))
             | _ \<Rightarrow> Some (utf8_error, t))
          else Some (utf8_encode r, t))"

lemma hex4_length: "hex4 s = Some (r, t) \<Longrightarrow> length t < length s"
  by (cases s rule: hex4.cases) (auto split: option.splits)

lemma unicode_escape_length: "unicode_escape s = Some (r, t) \<Longrightarrow> length t < length s"
  by (auto simp: unicode_escape_def split: option.splits if_splits list.splits
      dest!: hex4_length)

definition simple_escape :: "char \<Rightarrow> char option" where
  "simple_escape c =
     (if c = CHR 0x22 \<or> c = CHR 0x5C \<or> c = CHR ''/'' then Some c
      else if c = CHR ''b'' then Some (CHR 0x08)
      else if c = CHR ''f'' then Some (CHR 0x0C)
      else if c = CHR ''n'' then Some (CHR 0x0A)
      else if c = CHR ''r'' then Some (CHR 0x0D)
      else if c = CHR ''t'' then Some (CHR 0x09)
      else None)"

text \<open>The rest of a string literal after its opening quote.\<close>

function parse_str :: "string \<Rightarrow> (string \<times> string) option" where
  "parse_str [] = None"
| "parse_str (c # s) =
     (if c = CHR 0x22 then Some ([], s)
      else if c = CHR 0x5C then
        (case s of
           [] \<Rightarrow> None
         | e # t \<Rightarrow>
             (if e = CHR ''u'' then
                (case unicode_escape t of
                   None \<Rightarrow> None
                 | Some (r, u) \<Rightarrow> map_option (map_prod ((@) r) id) (parse_str u))
              else
                (case simple_escape e of
                   None \<Rightarrow> None
                 | Some x \<Rightarrow> map_option (map_prod ((#) x) id) (parse_str t))))
      else if byte c < 32 then None
      else if byte c < 128 then map_option (map_prod ((#) c) id) (parse_str s)
      else
        (case utf8_width (c # s) of
           0 \<Rightarrow> map_option (map_prod ((@) utf8_error) id) (parse_str s)
         | Suc w \<Rightarrow> map_option (map_prod ((@) (take (Suc w) (c # s))) id) (parse_str (drop w s))))"
  by pat_completeness auto
termination
  by (relation "measure length") (auto dest: unicode_escape_length)

declare parse_str.simps(2) [simp del]

text \<open>A number literal: its text and the rest.\<close>

definition span_digits :: "string \<Rightarrow> string \<times> string" where
  "span_digits s = (takeWhile is_digit s, dropWhile is_digit s)"

definition parse_frac :: "string \<Rightarrow> (string \<times> string) option" where
  "parse_frac s =
     (case s of
        c # t \<Rightarrow>
          (if c = CHR ''.'' then
             (case span_digits t of (ds, u) \<Rightarrow> if ds = [] then None else Some (c # ds, u))
           else Some ([], s))
      | [] \<Rightarrow> Some ([], s))"

definition parse_exp :: "string \<Rightarrow> (string \<times> string) option" where
  "parse_exp s =
     (case s of
        c # t \<Rightarrow>
          (if c = CHR ''e'' \<or> c = CHR ''E'' then
             (let (sg, t') = (case t of d # u \<Rightarrow> if d = CHR ''+'' \<or> d = CHR ''-'' then ([d], u) else ([], t)
                                      | [] \<Rightarrow> ([], t))
              in case span_digits t' of (ds, u) \<Rightarrow> if ds = [] then None else Some (c # sg @ ds, u))
           else Some ([], s))
      | [] \<Rightarrow> Some ([], s))"

definition parse_unsigned :: "string \<Rightarrow> (string \<times> string) option" where
  "parse_unsigned t =
     (case t of
        [] \<Rightarrow> None
      | c # u \<Rightarrow>
          if \<not> is_digit c then None
          else
            (case (if c = CHR ''0'' then ([c], u) else span_digits t) of
               (ds, v) \<Rightarrow>
                 (case parse_frac v of
                    None \<Rightarrow> None
                  | Some (fr, x) \<Rightarrow>
                      (case parse_exp x of
                         None \<Rightarrow> None
                       | Some (ex, y) \<Rightarrow> Some (ds @ fr @ ex, y)))))"

definition parse_num :: "string \<Rightarrow> (string \<times> string) option" where
  "parse_num s =
     (case s of
        [] \<Rightarrow> None
      | c # u \<Rightarrow>
          if c = CHR ''-'' then map_option (map_prod ((#) c) id) (parse_unsigned u)
          else parse_unsigned s)"

definition maxNestingDepth :: nat where
  "maxNestingDepth = 10000"

text \<open>
  The decoder. The first argument is fuel, which bounds the recursion; the second is how
  many more arrays and objects may be opened.
\<close>

fun parse_val :: "nat \<Rightarrow> nat \<Rightarrow> string \<Rightarrow> (json \<times> string) option"
  and parse_elems :: "nat \<Rightarrow> nat \<Rightarrow> string \<Rightarrow> (json list \<times> string) option"
  and parse_members :: "nat \<Rightarrow> nat \<Rightarrow> string \<Rightarrow> ((string \<times> json) list \<times> string) option"
where
  "parse_val 0 d s = None"
| "parse_val (Suc f) d s =
     (case skip_ws s of
        [] \<Rightarrow> None
      | c # t \<Rightarrow>
          if c = CHR 0x22 then map_option (map_prod JStr id) (parse_str t)
          else if c = CHR ''{'' then
            (case d of
               0 \<Rightarrow> None
             | Suc d' \<Rightarrow>
                 (case skip_ws t of
                    [] \<Rightarrow> None
                  | e # u \<Rightarrow> if e = CHR ''}'' then Some (JObj [], u)
                             else map_option (map_prod JObj id) (parse_members f d' t)))
          else if c = CHR ''['' then
            (case d of
               0 \<Rightarrow> None
             | Suc d' \<Rightarrow>
                 (case skip_ws t of
                    [] \<Rightarrow> None
                  | e # u \<Rightarrow> if e = CHR '']'' then Some (JArr [], u)
                             else map_option (map_prod JArr id) (parse_elems f d' t)))
          else if HasPrefix (c # t) ''true'' then Some (JBool True, drop 4 (c # t))
          else if HasPrefix (c # t) ''false'' then Some (JBool False, drop 5 (c # t))
          else if HasPrefix (c # t) ''null'' then Some (JNull, drop 4 (c # t))
          else map_option (map_prod JNum id) (parse_num (c # t)))"
| "parse_elems 0 d s = None"
| "parse_elems (Suc f) d s =
     (case parse_val f d s of
        None \<Rightarrow> None
      | Some (v, t) \<Rightarrow>
          (case skip_ws t of
             [] \<Rightarrow> None
           | c # u \<Rightarrow>
               if c = CHR '','' then map_option (map_prod ((#) v) id) (parse_elems f d u)
               else if c = CHR '']'' then Some ([v], u)
               else None))"
| "parse_members 0 d s = None"
| "parse_members (Suc f) d s =
     (case skip_ws s of
        [] \<Rightarrow> None
      | q # s1 \<Rightarrow>
          if q \<noteq> CHR 0x22 then None
          else
            (case parse_str s1 of
               None \<Rightarrow> None
             | Some (k, s2) \<Rightarrow>
                 (case skip_ws s2 of
                    [] \<Rightarrow> None
                  | col # s3 \<Rightarrow>
                      if col \<noteq> CHR '':'' then None
                      else
                        (case parse_val f d s3 of
                           None \<Rightarrow> None
                         | Some (v, s4) \<Rightarrow>
                             (case skip_ws s4 of
                                [] \<Rightarrow> None
                              | c # u \<Rightarrow>
                                  if c = CHR '','' then
                                    map_option (map_prod ((#) (k, v)) id) (parse_members f d u)
                                  else if c = CHR ''}'' then Some ([(k, v)], u)
                                  else None)))))"

text \<open>\<^verbatim>\<open>json.Unmarshal\<close> into a value tree: one value, then only white space.\<close>

definition json_parse :: "string \<Rightarrow> json option" where
  "json_parse s =
     (case parse_val (2 * length s + 2) maxNestingDepth s of
        Some (v, rest) \<Rightarrow> if skip_ws rest = [] then Some v else None
      | None \<Rightarrow> None)"

section \<open>Encoding\<close>

definition hex_digit :: "nat \<Rightarrow> char" where
  "hex_digit n = (if n < 10 then char_of (48 + n) else char_of (87 + n))"

definition esc_ascii :: "char \<Rightarrow> string" where
  "esc_ascii c =
     (if c = CHR 0x22 then [CHR 0x5C, CHR 0x22]
      else if c = CHR 0x5C then [CHR 0x5C, CHR 0x5C]
      else if c = CHR 0x08 then [CHR 0x5C, CHR ''b'']
      else if c = CHR 0x0C then [CHR 0x5C, CHR ''f'']
      else if c = CHR 0x0A then [CHR 0x5C, CHR ''n'']
      else if c = CHR 0x0D then [CHR 0x5C, CHR ''r'']
      else if c = CHR 0x09 then [CHR 0x5C, CHR ''t'']
      else if byte c < 32 \<or> c = CHR ''<'' \<or> c = CHR ''>'' \<or> c = CHR ''&'' then
        [CHR 0x5C, CHR ''u'', CHR ''0'', CHR ''0'', hex_digit (byte c div 16), hex_digit (byte c mod 16)]
      else [c])"

definition esc_rune :: "string \<Rightarrow> string" where
  "esc_rune r =
     (if r = [CHR 0xE2, CHR 0x80, CHR 0xA8] then CHR 0x5C # ''u2028''
      else if r = [CHR 0xE2, CHR 0x80, CHR 0xA9] then CHR 0x5C # ''u2029''
      else r)"

function quote_body :: "string \<Rightarrow> string" where
  "quote_body [] = []"
| "quote_body (c # s) =
     (if byte c < 128 then esc_ascii c @ quote_body s
      else case utf8_width (c # s) of
          0 \<Rightarrow> CHR 0x5C # ''ufffd'' @ quote_body s
        | Suc w \<Rightarrow> esc_rune (take (Suc w) (c # s)) @ quote_body (drop w s))"
  by pat_completeness auto
termination
  by (relation "measure length") auto

definition json_quote :: "string \<Rightarrow> string" where
  "json_quote s = CHR 0x22 # quote_body s @ [CHR 0x22]"

fun json_print :: "json \<Rightarrow> string"
  and print_elems :: "json list \<Rightarrow> string"
  and print_members :: "(string \<times> json) list \<Rightarrow> string"
where
  "json_print JNull = ''null''"
| "json_print (JBool b) = (if b then ''true'' else ''false'')"
| "json_print (JNum n) = n"
| "json_print (JStr s) = json_quote s"
| "json_print (JArr vs) = ''['' @ print_elems vs @ '']''"
| "json_print (JObj ms) = ''{'' @ print_members ms @ ''}''"
| "print_elems [] = []"
| "print_elems (v # vs) = json_print v @ (if vs = [] then [] else '','' @ print_elems vs)"
| "print_members [] = []"
| "print_members (kv # ms) =
     json_quote (fst kv) @ '':'' @ json_print (snd kv) @
     (if ms = [] then [] else '','' @ print_members ms)"

end
