(* ===== verification/Goroutines.thy ===== *)
theory Goroutines
  imports Prelude
begin

text \<open>
  Programs of goroutines over a shared state. A program is finished with a result, or its
  next action reads and changes the shared state atomically and says how it goes on: the
  granularity at which the Go code takes a lock, calls the environment, or reads or writes
  shared memory. \<open>exec\<close> runs one program alone; \<open>pool_step\<close> interleaves several; and
  \<open>prog_ok\<close> is a rely-guarantee judgement whose soundness, \<open>pool_steps_ok\<close>, carries the
  properties that hold under every interleaving.
\<close>

datatype ('s, 'a) prog =
    Done 'a
  | Step "'s \<Rightarrow> ('s, 'a) prog \<times> 's"

primrec bind :: "('s, 'a) prog \<Rightarrow> ('a \<Rightarrow> ('s, 'b) prog) \<Rightarrow> ('s, 'b) prog" where
  "bind (Done a) k = k a"
| "bind (Step f) k = Step (\<lambda>s. map_prod (\<lambda>p. bind p k) id (f s))"

definition act :: "('s \<Rightarrow> 'a \<times> 's) \<Rightarrow> ('s, 'a) prog" where
  "act f = Step (\<lambda>s. map_prod Done id (f s))"

definition read :: "('s \<Rightarrow> 'a) \<Rightarrow> ('s, 'a) prog" where
  "read f = act (\<lambda>s. (f s, s))"

definition modify :: "('s \<Rightarrow> 's) \<Rightarrow> ('s, unit) prog" where
  "modify f = act (\<lambda>s. ((), f s))"

primrec exec :: "('s, 'a) prog \<Rightarrow> 's \<Rightarrow> 'a \<times> 's" where
  "exec (Done a) = (\<lambda>s. (a, s))"
| "exec (Step f) = (\<lambda>s. case map_prod exec id (f s) of (run, s') \<Rightarrow> run s')"

text \<open>Sequencing over a list, as a \<^verbatim>\<open>for range\<close> loop.\<close>

fun for_each :: "'x list \<Rightarrow> ('x \<Rightarrow> ('s, unit) prog) \<Rightarrow> ('s, unit) prog" where
  "for_each [] body = Done ()"
| "for_each (x # xs) body = bind (body x) (\<lambda>_. for_each xs body)"

section \<open>Running alone\<close>

lemma prog_induct [case_names Done Step]:
  assumes "\<And>a. P (Done a)" and "\<And>f. (\<And>s. P (fst (f s))) \<Longrightarrow> P (Step f)"
  shows "P p"
proof (induction p)
  case (Step f)
  then have "P (fst (f s))" for s
    by (metis fsts.intros prod.collapse rangeI)
  then show ?case by (rule assms(2))
qed (rule assms(1))

lemma exec_Done [simp, prog_simps]: "exec (Done a) s = (a, s)"
  by simp

lemma exec_Step [simp, prog_simps]: "exec (Step f) s = exec (fst (f s)) (snd (f s))"
  by (simp add: case_prod_beta)

lemma exec_bind [simp, prog_simps]:
  "exec (bind p k) s = exec (k (fst (exec p s))) (snd (exec p s))"
  by (induction p arbitrary: s rule: prog_induct) (simp_all add: case_prod_beta)

lemma exec_act [simp, prog_simps]: "exec (act f) s = f s"
  by (cases "f s") (simp add: act_def)

lemma exec_read [simp, prog_simps]: "exec (read f) s = (f s, s)"
  by (simp add: read_def)

lemma exec_modify [simp, prog_simps]: "exec (modify f) s = ((), f s)"
  by (simp add: modify_def)

lemma bind_Done_right [simp]: "bind p Done = p"
proof (induction p rule: prog_induct)
  case (Step f)
  then have "map_prod (\<lambda>p. bind p Done) id (f s) = f s" for s
    by (simp add: prod_eq_iff)
  then show ?case by simp
qed simp

lemma bind_assoc: "bind (bind p f) g = bind p (\<lambda>a. bind (f a) g)"
proof (induction p rule: prog_induct)
  case (Step h)
  then have "map_prod (\<lambda>p. bind (bind p f) g) id (h s) = map_prod (\<lambda>p. bind p (\<lambda>a. bind (f a) g)) id (h s)"
    for s by (simp add: prod_eq_iff)
  then show ?case by (simp add: prod.map_comp comp_def id_def)
qed simp

section \<open>Running interleaved\<close>

inductive pool_step :: "('s, 'a) prog list \<times> 's \<Rightarrow> ('s, 'a) prog list \<times> 's \<Rightarrow> bool" where
  pool_step: "i < length ps \<Longrightarrow> ps ! i = Step f \<Longrightarrow> f s = (p', s') \<Longrightarrow>
     pool_step (ps, s) (ps[i := p'], s')"

inductive_cases pool_stepE: "pool_step (ps, s) c"

inductive pool_steps :: "('s, 'a) prog list \<times> 's \<Rightarrow> ('s, 'a) prog list \<times> 's \<Rightarrow> bool" where
  pool_refl: "pool_steps c c"
| pool_trans: "pool_step c d \<Longrightarrow> pool_steps d e \<Longrightarrow> pool_steps c e"

text \<open>A schedule names the goroutine that moves at each step; one that is done does nothing.\<close>

fun run_schedule :: "nat list \<Rightarrow> ('s, 'a) prog list \<times> 's \<Rightarrow> ('s, 'a) prog list \<times> 's" where
  "run_schedule [] c = c"
| "run_schedule (i # is) (ps, s) =
     run_schedule is
       (if i < length ps then
          (case ps ! i of Done _ \<Rightarrow> (ps, s) | Step f \<Rightarrow> (ps[i := fst (f s)], snd (f s)))
        else (ps, s))"

lemma run_schedule_steps: "pool_steps (ps, s) (run_schedule is (ps, s))"
proof (induction "is" arbitrary: ps s)
  case Nil
  show ?case by (simp add: pool_refl)
next
  case (Cons i "is")
  show ?case
  proof (cases "i < length ps")
    case True
    show ?thesis
    proof (cases "ps ! i")
      case (Done a)
      with True Cons show ?thesis by simp
    next
      case (Step f)
      with True have "pool_step (ps, s) (ps[i := fst (f s)], snd (f s))"
        by (auto intro: pool_step.intros)
      with True Step Cons show ?thesis by (auto intro: pool_trans)
    qed
  next
    case False
    with Cons show ?thesis by simp
  qed
qed

section \<open>Workers behind a semaphore\<close>

text \<open>
  The pattern \<^verbatim>\<open>wg.Add(1); go func() { defer wg.Done(); sem <- struct{}{}; defer func() { <-sem }(); ... }()\<close>
  on a channel of capacity \<open>n\<close>: a worker waits until fewer than \<open>n\<close> are active, runs
  interleaved with the others and with steps \<open>E\<close> of the rest of the program, and gives its
  place back when it returns. \<^verbatim>\<open>wg.Wait()\<close> returns when all are finished. A worker that is
  \<open>Blocked\<close> keeps its place.
\<close>

datatype 'a progress = Blocked | Ret 'a

datatype ('s, 'a) worker =
    Waiting "('s, 'a progress) prog"
  | Active "('s, 'a progress) prog"
  | Finished 'a

fun is_active :: "('s, 'a) worker \<Rightarrow> bool" where
  "is_active (Active p) = True"
| "is_active _ = False"

definition num_active :: "('s, 'a) worker list \<Rightarrow> nat" where
  "num_active ws = length (filter is_active ws)"

inductive fan_step :: "nat \<Rightarrow> ('s \<Rightarrow> 's \<Rightarrow> bool) \<Rightarrow> ('s, 'a) worker list \<times> 's \<Rightarrow>
    ('s, 'a) worker list \<times> 's \<Rightarrow> bool" for n E where
  fan_acquire: "i < length ws \<Longrightarrow> ws ! i = Waiting p \<Longrightarrow> num_active ws < n \<Longrightarrow>
     fan_step n E (ws, s) (ws[i := Active p], s)"
| fan_run: "i < length ws \<Longrightarrow> ws ! i = Active (Step f) \<Longrightarrow> f s = (p', s') \<Longrightarrow>
     fan_step n E (ws, s) (ws[i := Active p'], s')"
| fan_release: "i < length ws \<Longrightarrow> ws ! i = Active (Done (Ret a)) \<Longrightarrow>
     fan_step n E (ws, s) (ws[i := Finished a], s)"
| fan_env: "E s s' \<Longrightarrow> fan_step n E (ws, s) (ws, s')"

inductive_cases fan_stepE: "fan_step n E (ws, s) c"

inductive fan_steps :: "nat \<Rightarrow> ('s \<Rightarrow> 's \<Rightarrow> bool) \<Rightarrow> ('s, 'a) worker list \<times> 's \<Rightarrow>
    ('s, 'a) worker list \<times> 's \<Rightarrow> bool" for n E where
  fan_refl: "fan_steps n E c c"
| fan_trans: "fan_step n E c d \<Longrightarrow> fan_steps n E d e \<Longrightarrow> fan_steps n E c e"

definition all_finished :: "('s, 'a) worker list \<Rightarrow> bool" where
  "all_finished ws = list_all (\<lambda>w. \<exists>a. w = Finished a) ws"

lemma num_active_split:
  "num_active (xs @ w # ys) = num_active xs + (if is_active w then 1 else 0) + num_active ys"
  by (simp add: num_active_def)

lemma num_active_update:
  assumes "i < length ws"
  shows "num_active (ws[i := w]) + (if is_active (ws ! i) then 1 else 0) =
         num_active ws + (if is_active w then 1 else 0)"
  using num_active_split [of "take i ws" "ws ! i" "drop (Suc i) ws"]
    num_active_split [of "take i ws" w "drop (Suc i) ws"] assms
  by (simp add: upd_conv_take_nth_drop flip: id_take_nth_drop)

lemma fan_step_active:
  assumes "fan_step n E (ws, s) (ws', s')" and "num_active ws \<le> n"
  shows "num_active ws' \<le> n \<and> length ws' = length ws"
  using assms(1)
proof (rule fan_stepE)
  fix i p assume "(ws', s') = (ws[i := Active p], s)" "i < length ws" "ws ! i = Waiting p" "num_active ws < n"
  with num_active_update [of i ws "Active p"] show ?thesis by simp
next
  fix i f p' t assume "(ws', s') = (ws[i := Active p'], t)" "i < length ws" "ws ! i = Active (Step f)"
  with num_active_update [of i ws "Active p'"] assms(2) show ?thesis by simp
next
  fix i a assume "(ws', s') = (ws[i := Finished a], s)" "i < length ws" "ws ! i = Active (Done (Ret a))"
  with num_active_update [of i ws "Finished a"] assms(2) show ?thesis by simp
qed (use assms(2) in simp)

lemma fan_steps_active:
  "fan_steps n E c d \<Longrightarrow> num_active (fst c) \<le> n \<Longrightarrow>
     num_active (fst d) \<le> n \<and> length (fst d) = length (fst c)"
proof (induction rule: fan_steps.induct)
  case (fan_trans c d e)
  then show ?case using fan_step_active [of n E "fst c" "snd c" "fst d" "snd d"] by simp
qed simp

lemma num_active_waiting [simp]: "num_active (map Waiting ps) = 0"
  by (simp add: num_active_def comp_def)

text \<open>Every step of a program is in \<open>G\<close>, whatever the others do.\<close>

primrec prog_steps :: "('s \<Rightarrow> 's \<Rightarrow> bool) \<Rightarrow> ('s, 'a) prog \<Rightarrow> bool" where
  "prog_steps G (Done a) = True"
| "prog_steps G (Step f) = (\<forall>s. G s (snd (f s)) \<and> fst (map_prod (prog_steps G) id (f s)))"

lemma prog_steps_Step: "prog_steps G (Step f) \<longleftrightarrow> (\<forall>s. G s (snd (f s)) \<and> prog_steps G (fst (f s)))"
  by simp

lemma prog_steps_bind [intro]:
  "prog_steps G p \<Longrightarrow> (\<And>a. prog_steps G (k a)) \<Longrightarrow> prog_steps G (bind p k)"
  by (induction p rule: prog_induct) simp_all

lemma prog_steps_act: "(\<And>s. G s (snd (f s))) \<Longrightarrow> prog_steps G (act f)"
  by (simp add: act_def)

lemma prog_steps_weaken: "prog_steps G p \<Longrightarrow> (\<And>s t. G s t \<Longrightarrow> H s t) \<Longrightarrow> prog_steps H p"
  by (induction p rule: prog_induct) simp_all

section \<open>Rely and guarantee\<close>

text \<open>
  \<open>prog_ok R Q p s\<close>: run from \<open>s\<close> among goroutines whose steps are all in the preorder
  \<open>R\<close>, every step of \<open>p\<close> is in \<open>R\<close> too, and when \<open>p\<close> finishes its result satisfies
  \<open>Q\<close> in the state it then sees.
\<close>

primrec prog_ok :: "('s \<Rightarrow> 's \<Rightarrow> bool) \<Rightarrow> ('a \<Rightarrow> 's \<Rightarrow> bool) \<Rightarrow> ('s, 'a) prog \<Rightarrow> 's \<Rightarrow> bool" where
  "prog_ok R Q (Done a) = (\<lambda>s. \<forall>s1. R s s1 \<longrightarrow> Q a s1)"
| "prog_ok R Q (Step f) =
     (\<lambda>s. \<forall>s1. R s s1 \<longrightarrow>
        R s1 (snd (f s1)) \<and> fst (map_prod (prog_ok R Q) id (f s1)) (snd (f s1)))"

lemma prog_ok_Step [simp]:
  "prog_ok R Q (Step f) s \<longleftrightarrow>
     (\<forall>s1. R s s1 \<longrightarrow> R s1 (snd (f s1)) \<and> prog_ok R Q (fst (f s1)) (snd (f s1)))"
  by simp

locale protocol =
  fixes R :: "'s \<Rightarrow> 's \<Rightarrow> bool"
  assumes R_refl [simp, intro]: "R s s"
    and R_trans: "R s1 s2 \<Longrightarrow> R s2 s3 \<Longrightarrow> R s1 s3"
begin

lemma prog_ok_stable: "prog_ok R Q p s \<Longrightarrow> R s s' \<Longrightarrow> prog_ok R Q p s'"
  by (cases p) (auto intro: R_trans)

lemma prog_ok_bind:
  "prog_ok R (\<lambda>a s. prog_ok R Q (k a) s) p s \<Longrightarrow> prog_ok R Q (bind p k) s"
proof (induction p arbitrary: s rule: prog_induct)
  case (Done a)
  then show ?case by simp
next
  case (Step f)
  show ?case
  proof (simp, intro allI impI conjI)
    fix s1 assume r: "R s s1"
    with Step.prems show "R s1 (snd (f s1))" by simp
    from r Step.prems have "prog_ok R (\<lambda>a s. prog_ok R Q (k a) s) (fst (f s1)) (snd (f s1))"
      by simp
    then show "prog_ok R Q (bind (fst (f s1)) k) (snd (f s1))"
      by (rule Step.IH)
  qed
qed

lemma prog_ok_act:
  assumes "\<And>s1. R s s1 \<Longrightarrow> R s1 (snd (f s1))"
    and "\<And>s1 s2. R s s1 \<Longrightarrow> R (snd (f s1)) s2 \<Longrightarrow> Q (fst (f s1)) s2"
  shows "prog_ok R Q (act f) s"
  using assms by (simp add: act_def)

lemma prog_ok_weaken:
  "prog_ok R Q p s \<Longrightarrow> (\<And>a s. Q a s \<Longrightarrow> Q' a s) \<Longrightarrow> prog_ok R Q' p s"
  by (induction p arbitrary: s rule: prog_induct) simp_all

lemma pool_step_ok:
  assumes "pool_step (ps, s) (ps', s')" and "\<forall>p \<in> set ps. prog_ok R Q p s"
  shows "R s s' \<and> (\<forall>p \<in> set ps'. prog_ok R Q p s')"
proof -
  from assms(1) obtain i f p' where i: "i < length ps" "ps ! i = Step f" "f s = (p', s')"
    and ps': "ps' = ps[i := p']"
    by (auto elim: pool_stepE)
  from i assms(2) have "prog_ok R Q (Step f) s" by (metis nth_mem)
  then have r: "R s s'" and p': "prog_ok R Q p' s'" using i(3) by force+
  have "prog_ok R Q p s'" if "p \<in> set ps'" for p
  proof -
    from that ps' have "p = p' \<or> p \<in> set ps" using set_update_subset_insert [of ps i p'] by blast
    with p' r assms(2) show ?thesis by (auto intro: prog_ok_stable)
  qed
  with r show ?thesis by blast
qed

lemma pool_steps_ok:
  "pool_steps c d \<Longrightarrow> \<forall>p \<in> set (fst c). prog_ok R Q p (snd c) \<Longrightarrow>
     R (snd c) (snd d) \<and> (\<forall>p \<in> set (fst d). prog_ok R Q p (snd d))"
proof (induction rule: pool_steps.induct)
  case (pool_refl c)
  then show ?case by simp
next
  case (pool_trans c d e)
  then have "R (snd c) (snd d) \<and> (\<forall>p \<in> set (fst d). prog_ok R Q p (snd d))"
    using pool_step_ok [of "fst c" "snd c" "fst d" "snd d"] by simp
  with pool_trans show ?case by (blast intro: R_trans)
qed

lemma prog_ok_steps:
  assumes "prog_steps G p" and "\<And>s t. G s t \<Longrightarrow> R s t" and "J s" and "\<And>s t. R s t \<Longrightarrow> J s \<Longrightarrow> J t"
  shows "prog_ok R (\<lambda>_. J) p s"
  using assms(1,3)
proof (induction p arbitrary: s rule: prog_induct)
  case (Done a)
  then show ?case using assms(4) by simp
next
  case (Step f)
  then show ?case using assms(2,4) by simp blast
qed

fun worker_ok :: "('a progress \<Rightarrow> 's \<Rightarrow> bool) \<Rightarrow> ('s, 'a) worker \<Rightarrow> 's \<Rightarrow> bool" where
  "worker_ok Q (Waiting p) s = prog_ok R Q p s"
| "worker_ok Q (Active p) s = prog_ok R Q p s"
| "worker_ok Q (Finished a) s = prog_ok R Q (Done (Ret a)) s"

lemma worker_ok_stable: "worker_ok Q w s \<Longrightarrow> R s s' \<Longrightarrow> worker_ok Q w s'"
  by (cases w) (auto intro: prog_ok_stable simp del: prog_ok.simps)

text \<open>Each worker has a postcondition of its own.\<close>

definition workers_ok :: "(nat \<Rightarrow> 'a progress \<Rightarrow> 's \<Rightarrow> bool) \<Rightarrow> ('s, 'a) worker list \<Rightarrow> 's \<Rightarrow> bool" where
  "workers_ok Q ws s \<longleftrightarrow> (\<forall>i < length ws. worker_ok (Q i) (ws ! i) s)"

lemma workers_ok_update:
  "workers_ok Q ws s \<Longrightarrow> R s t \<Longrightarrow> worker_ok (Q i) w t \<Longrightarrow> workers_ok Q (ws[i := w]) t"
  unfolding workers_ok_def by (metis length_list_update nth_list_update_eq nth_list_update_neq worker_ok_stable)

lemma fan_step_ok:
  assumes step: "fan_step n E (ws, s) (ws', s')" and ok: "workers_ok Q ws s"
    and E: "\<And>s t. E s t \<Longrightarrow> R s t"
  shows "R s s' \<and> workers_ok Q ws' s'"
  using step
proof (rule fan_stepE)
  fix i p assume c: "(ws', s') = (ws[i := Active p], s)" "i < length ws" "ws ! i = Waiting p"
  then have "worker_ok (Q i) (Active p) s" using ok unfolding workers_ok_def by fastforce
  with c(1) ok show ?thesis using workers_ok_update by blast
next
  fix i f p' t assume c: "(ws', s') = (ws[i := Active p'], t)" "i < length ws" "ws ! i = Active (Step f)" "f s = (p', t)"
  then have "worker_ok (Q i) (Active (Step f)) s" using ok unfolding workers_ok_def by metis
  then have "R s t" "worker_ok (Q i) (Active p') t" using c(4) by force+
  with c(1) ok show ?thesis using workers_ok_update by blast
next
  fix i a assume c: "(ws', s') = (ws[i := Finished a], s)" "i < length ws" "ws ! i = Active (Done (Ret a))"
  then have "worker_ok (Q i) (Finished a) s" using ok unfolding workers_ok_def by fastforce
  with c(1) ok show ?thesis using workers_ok_update by blast
next
  fix t assume c: "(ws', s') = (ws, t)" "E s t"
  with E ok show ?thesis by (auto simp: workers_ok_def intro: worker_ok_stable)
qed

lemma fan_steps_ok:
  "fan_steps n E c d \<Longrightarrow> workers_ok Q (fst c) (snd c) \<Longrightarrow> (\<And>s t. E s t \<Longrightarrow> R s t) \<Longrightarrow>
     R (snd c) (snd d) \<and> workers_ok Q (fst d) (snd d)"
proof (induction rule: fan_steps.induct)
  case (fan_refl c)
  then show ?case by simp
next
  case (fan_trans c d e)
  then have "R (snd c) (snd d) \<and> workers_ok Q (fst d) (snd d)"
    using fan_step_ok [of n E "fst c" "snd c" "fst d" "snd d" Q] by simp
  with fan_trans show ?case by (blast intro: R_trans)
qed

lemma finished_ok: "workers_ok Q ws s \<Longrightarrow> all_finished ws \<Longrightarrow> i < length ws \<Longrightarrow> \<exists>a. Q i (Ret a) s"
  unfolding workers_ok_def all_finished_def list_all_length by (metis R_refl prog_ok.simps(1) worker_ok.simps(3))

end

end
