(* ===== verification/Workflow_Store.thy ===== *)
theory Workflow_Store
  imports Workflow_Types Go_Fs Go_Time Go_Json Goroutines
    "HOL-Library.List_Lexorder" "HOL-Library.Char_ord"
begin

text \<open>
  \<^verbatim>\<open>internal/workflow/store.go\<close> and the memory the engine works on. A \<^verbatim>\<open>Workflow\<close> struct holds
  its stages in a slice, so copying the struct (\<^verbatim>\<open>cp := *wf\<close> in \<^verbatim>\<open>Get\<close> and \<^verbatim>\<open>Upsert\<close>) copies
  the slice header and shares the array behind it. The model keeps this: the heap is the list
  of all backing arrays, a slice is an address and a length, the array's length is its
  capacity, and \<open>wf_view\<close> reads the workflow a header stands for.
\<close>

record slice =
  sl_addr :: nat
  sl_len :: nat

type_synonym heap = "stage list list"
type_synonym wf_hdr = "slice workflow"
type_synonym wf_val = "stage list workflow"

text \<open>The variables of one \<^verbatim>\<open>run\<close> or \<^verbatim>\<open>resumeRun\<close> that its goroutines share under \<^verbatim>\<open>mu\<close>.\<close>

record frame =
  fr_firstErr :: "goerror option"
  fr_succeeded :: "string list"

record 'w eworld =
  ew_heap :: heap
  ew_data :: "(string, wf_hdr) gomap" \<comment> \<open>\<^verbatim>\<open>s.data.Workflows\<close>\<close>
  ew_fs :: fs
  ew_ticks :: nat \<comment> \<open>readings of the clock so far\<close>
  ew_frames :: "frame list"
  ew_ext :: 'w \<comment> \<open>the session layer and the rest of the environment\<close>

section \<open>Slices\<close>

definition slice_list :: "heap \<Rightarrow> slice \<Rightarrow> stage list" where
  "slice_list h sl = take (sl_len sl) (h ! sl_addr sl)"

definition slice_update :: "heap \<Rightarrow> slice \<Rightarrow> nat \<Rightarrow> (stage \<Rightarrow> stage) \<Rightarrow> heap" where
  "slice_update h sl i f =
     h[sl_addr sl := (h ! sl_addr sl)[i := f ((h ! sl_addr sl) ! i)]]"

definition zero_stage :: stage where
  "zero_stage = new_stage [] KindResearch StagePending []"

text \<open>
  \<^verbatim>\<open>append\<close>: in place while there is capacity, otherwise into a new array whose capacity the
  runtime chooses (\<open>grow\<close>, from the needed length).
\<close>

definition slice_append :: "(nat \<Rightarrow> nat) \<Rightarrow> heap \<Rightarrow> slice \<Rightarrow> stage list \<Rightarrow> heap \<times> slice" where
  "slice_append grow h sl xs =
     (let arr = h ! sl_addr sl; n = sl_len sl; need = n + length xs in
      if need \<le> length arr then
        (h[sl_addr sl := take n arr @ xs @ drop need arr], sl\<lparr>sl_len := need\<rparr>)
      else
        (h @ [take n arr @ xs @ replicate (max need (grow need) - need) zero_stage],
         \<lparr>sl_addr = length h, sl_len = need\<rparr>))"

definition slice_new :: "heap \<Rightarrow> stage list \<Rightarrow> heap \<times> slice" where
  "slice_new h xs = (h @ [xs], \<lparr>sl_addr = length h, sl_len = length xs\<rparr>)"

definition wf_view :: "heap \<Rightarrow> wf_hdr \<Rightarrow> wf_val" where
  "wf_view h wfl =
     \<lparr>wf_ID = wf_ID wfl, wf_Input = wf_Input wfl, wf_RepoURL = wf_RepoURL wfl, wf_Branch = wf_Branch wfl,
      wf_Status = wf_Status wfl, wf_Stages = slice_list h (wf_Stages wfl), wf_Error = wf_Error wfl,
      wf_Config = wf_Config wfl, wf_CreatedAt = wf_CreatedAt wfl, wf_UpdatedAt = wf_UpdatedAt wfl\<rparr>"

section \<open>Persistence\<close>

definition stage_json :: "stage \<Rightarrow> json" where
  "stage_json st = JObj
     [(''ID'', JStr (st_ID st)), (''Kind'', JStr (stage_kind_str (st_Kind st))),
      (''SessionID'', JStr (st_SessionID st)), (''Status'', JStr (stage_status_str (st_Status st))),
      (''Input'', JStr (st_Input st)), (''Output'', JStr (st_Output st)),
      (''Error'', JStr (st_Error st)), (''VerifySessionID'', JStr (st_VerifySessionID st))]"

definition workflow_json :: "wf_val \<Rightarrow> json" where
  "workflow_json wfl = JObj
     [(''ID'', JStr (wf_ID wfl)), (''Input'', JStr (wf_Input wfl)), (''RepoURL'', JStr (wf_RepoURL wfl)),
      (''Branch'', JStr (wf_Branch wfl)), (''Status'', JStr (wf_status_str (wf_Status wfl))),
      (''Stages'', JArr (map stage_json (wf_Stages wfl))), (''Error'', JStr (wf_Error wfl)),
      (''Config'', JObj [(''VerifierPrompt'', JStr (VerifierPrompt (wf_Config wfl)))]),
      (''CreatedAt'', JStr (rfc3339 (wf_CreatedAt wfl))), (''UpdatedAt'', JStr (rfc3339 (wf_UpdatedAt wfl)))]"

text \<open>\<^verbatim>\<open>json.Marshal(s.data)\<close>: map keys are written in order.\<close>

definition marshal_workflows :: "heap \<Rightarrow> (string, wf_hdr) gomap \<Rightarrow> string" where
  "marshal_workflows h data = json_print (JObj
     [(''workflows'', JObj (map (\<lambda>kv. (fst kv, workflow_json (wf_view h (snd kv)))) (sort_key fst data)))])"

definition workflow_labels :: save_labels where
  "workflow_labels =
     \<lparr>lb_create = ''create temp workflow store: '', lb_write = ''write temp workflow store: '',
      lb_close = ''close temp workflow store: '', lb_rename = ''rename temp workflow store: ''\<rparr>"

text \<open>What the store and the engine get from outside: the file system, the clock, \<^verbatim>\<open>append\<close>'s growth.\<close>

record store_env =
  se_fs :: fs_env
  se_dir :: string
  se_base :: string \<comment> \<open>the store's path is \<^verbatim>\<open>dir/base\<close>\<close>
  se_clock :: "nat \<Rightarrow> instant"
  se_grow :: "nat \<Rightarrow> nat"

definition se_path :: "store_env \<Rightarrow> string" where
  "se_path se = se_dir se @ ''/'' @ se_base se"

definition workflow_save :: "store_env \<Rightarrow> 'w eworld \<Rightarrow> goerror option \<times> 'w eworld" where
  "workflow_save se w =
     (case save_file (se_fs se) workflow_labels (se_dir se) ''.workflow-store-'' ''.tmp'' (se_path se)
             (marshal_workflows (ew_heap w) (ew_data w)) (ew_fs w) of
        (err, fs') \<Rightarrow> (err, w\<lparr>ew_fs := fs'\<rparr>))"

text \<open>\<^verbatim>\<open>Upsert\<close>: the map is updated before saving, so it keeps the workflow even if saving fails.\<close>

definition upsert :: "store_env \<Rightarrow> wf_hdr \<Rightarrow> 'w eworld \<Rightarrow> goerror option \<times> 'w eworld" where
  "upsert se wfl w =
     (let wfl' = wfl\<lparr>wf_UpdatedAt := se_clock se (ew_ticks w)\<rparr> in
      workflow_save se (w\<lparr>ew_ticks := Suc (ew_ticks w), ew_data := gm_set (wf_ID wfl') wfl' (ew_data w)\<rparr>))"

definition store_Upsert :: "store_env \<Rightarrow> wf_hdr \<Rightarrow> ('w eworld, goerror option) prog" where
  "store_Upsert se wfl = act (upsert se wfl)"

definition store_Get :: "string \<Rightarrow> ('w eworld, wf_hdr option) prog" where
  "store_Get i = read (\<lambda>w. gm_get (ew_data w) i)"

definition store_List :: "'w eworld \<Rightarrow> wf_hdr list" where
  "store_List w = sort_key (\<lambda>wfl. - wf_CreatedAt wfl) (map snd (ew_data w))"

section \<open>Memory accesses of the engine\<close>

fun stage_index :: "stage list \<Rightarrow> string \<Rightarrow> nat option" where
  "stage_index [] i = None"
| "stage_index (st # sts) i = (if st_ID st = i then Some 0 else map_option Suc (stage_index sts i))"

definition stageIndex :: "wf_hdr \<Rightarrow> string \<Rightarrow> ('w eworld, nat option) prog" where
  "stageIndex wfl i = read (\<lambda>w. stage_index (slice_list (ew_heap w) (wf_Stages wfl)) i)"

definition get_stage :: "wf_hdr \<Rightarrow> nat \<Rightarrow> ('w eworld, stage) prog" where
  "get_stage wfl i = read (\<lambda>w. slice_list (ew_heap w) (wf_Stages wfl) ! i)"

definition set_stage :: "wf_hdr \<Rightarrow> nat \<Rightarrow> (stage \<Rightarrow> stage) \<Rightarrow> ('w eworld, unit) prog" where
  "set_stage wfl i f = modify (\<lambda>w. w\<lparr>ew_heap := slice_update (ew_heap w) (wf_Stages wfl) i f\<rparr>)"

definition append_stages :: "store_env \<Rightarrow> wf_hdr \<Rightarrow> stage list \<Rightarrow> ('w eworld, wf_hdr) prog" where
  "append_stages se wfl xs = act (\<lambda>w.
     case slice_append (se_grow se) (ew_heap w) (wf_Stages wfl) xs of
       (h, sl) \<Rightarrow> (wfl\<lparr>wf_Stages := sl\<rparr>, w\<lparr>ew_heap := h\<rparr>))"

section \<open>The heap invariant\<close>

definition slice_ok :: "heap \<Rightarrow> slice \<Rightarrow> bool" where
  "slice_ok h sl \<longleftrightarrow> sl_addr sl < length h \<and> sl_len sl \<le> length (h ! sl_addr sl)"

text \<open>
  Every stored header points at an allocated array, is stored under its own ID, and no two
  workflows share an array.
\<close>

definition heap_inv :: "'w eworld \<Rightarrow> bool" where
  "heap_inv w \<longleftrightarrow> gm_wf (ew_data w) \<and>
     (\<forall>i wfl. gm_get (ew_data w) i = Some wfl \<longrightarrow> wf_ID wfl = i \<and> slice_ok (ew_heap w) (wf_Stages wfl)) \<and>
     (\<forall>i j a b. gm_get (ew_data w) i = Some a \<longrightarrow> gm_get (ew_data w) j = Some b \<longrightarrow>
        sl_addr (wf_Stages a) = sl_addr (wf_Stages b) \<longrightarrow> i = j)"

definition lookup_wf :: "'w eworld \<Rightarrow> string \<Rightarrow> wf_val option" where
  "lookup_wf w i = map_option (wf_view (ew_heap w)) (gm_get (ew_data w) i)"

text \<open>
  The abstract store: workflows as values, their time stamps left out. One goroutine that
  reads a workflow, changes it and writes it back changes the abstract store at that key only;
  the lemmas below say how for each access.
\<close>

definition abs_store :: "'w eworld \<Rightarrow> string \<Rightarrow> wf_val option" where
  "abs_store w i = map_option (\<lambda>h. (wf_view (ew_heap w) h)\<lparr>wf_UpdatedAt := 0\<rparr>) (gm_get (ew_data w) i)"

definition core_view :: "heap \<Rightarrow> wf_hdr \<Rightarrow> wf_val" where
  "core_view h hdr = (wf_view h hdr)\<lparr>wf_UpdatedAt := 0\<rparr>"

text \<open>A header a goroutine may write back for workflow \<open>i\<close>.\<close>

definition hdr_for :: "'w eworld \<Rightarrow> string \<Rightarrow> wf_hdr \<Rightarrow> bool" where
  "hdr_for w i hdr \<longleftrightarrow> wf_ID hdr = i \<and> slice_ok (ew_heap w) (wf_Stages hdr) \<and>
     (\<forall>j b. j \<noteq> i \<longrightarrow> gm_get (ew_data w) j = Some b \<longrightarrow> sl_addr (wf_Stages b) \<noteq> sl_addr (wf_Stages hdr))"

lemma abs_store_Some: "gm_get (ew_data w) i = Some hdr \<Longrightarrow> abs_store w i = Some (core_view (ew_heap w) hdr)"
  by (simp add: abs_store_def core_view_def)

lemma core_view_sel [simp]:
  "wf_ID (core_view h hdr) = wf_ID hdr" "wf_Input (core_view h hdr) = wf_Input hdr"
  "wf_RepoURL (core_view h hdr) = wf_RepoURL hdr" "wf_Branch (core_view h hdr) = wf_Branch hdr"
  "wf_Status (core_view h hdr) = wf_Status hdr" "wf_Stages (core_view h hdr) = slice_list h (wf_Stages hdr)"
  "wf_Error (core_view h hdr) = wf_Error hdr" "wf_Config (core_view h hdr) = wf_Config hdr"
  "wf_CreatedAt (core_view h hdr) = wf_CreatedAt hdr" "wf_UpdatedAt (core_view h hdr) = 0"
  by (simp_all add: core_view_def wf_view_def)

lemma core_view_upd [simp]:
  "core_view h (hdr\<lparr>wf_Status := x\<rparr>) = (core_view h hdr)\<lparr>wf_Status := x\<rparr>"
  "core_view h (hdr\<lparr>wf_Error := e\<rparr>) = (core_view h hdr)\<lparr>wf_Error := e\<rparr>"
  "core_view h (hdr\<lparr>wf_UpdatedAt := t\<rparr>) = core_view h hdr"
  "core_view h (hdr\<lparr>wf_Stages := sl\<rparr>) = (core_view h hdr)\<lparr>wf_Stages := slice_list h sl\<rparr>"
  by (simp_all add: core_view_def wf_view_def)

lemma hdr_forI: "heap_inv w \<Longrightarrow> gm_get (ew_data w) i = Some hdr \<Longrightarrow> hdr_for w i hdr"
  by (auto simp: heap_inv_def hdr_for_def)

lemma stored_ID: "heap_inv w \<Longrightarrow> gm_get (ew_data w) i = Some hdr \<Longrightarrow> wf_ID hdr = i"
  by (auto simp: heap_inv_def)

lemma slice_ok_update [simp]: "slice_ok (slice_update h sl i f) sl' \<longleftrightarrow> slice_ok h sl'"
proof (cases "sl_addr sl = sl_addr sl' \<and> sl_addr sl' < length h")
  case True
  then show ?thesis by (simp add: slice_ok_def slice_update_def)
next
  case False
  then show ?thesis by (auto simp: slice_ok_def slice_update_def)
qed

lemma slice_list_update:
  assumes "slice_ok h sl" and "i < sl_len sl"
  shows "slice_list (slice_update h sl i f) sl = (slice_list h sl)[i := f (slice_list h sl ! i)]"
  using assms by (simp add: slice_list_def slice_update_def slice_ok_def take_update_swap)

lemma slice_list_update_other:
  "sl_addr sl \<noteq> sl_addr sl' \<Longrightarrow> slice_list (slice_update h sl i f) sl' = slice_list h sl'"
  by (simp add: slice_list_def slice_update_def)

lemma slice_append_ok:
  assumes "slice_ok h sl" and "slice_append grow h sl xs = (h', sl')"
  shows "slice_ok h' sl'" and "slice_list h' sl' = slice_list h sl @ xs"
    and "slice_list h' sl = slice_list h sl" and "slice_ok h' sl"
    and "sl_addr sl' = sl_addr sl \<or> sl_addr sl' = length h" and "length h \<le> length h'"
    and "\<And>a. a < length h \<Longrightarrow> a \<noteq> sl_addr sl \<Longrightarrow> h' ! a = h ! a"
  using assms
  by (auto simp: slice_append_def slice_ok_def slice_list_def Let_def nth_append split: if_splits)

lemma length_slice_list [simp]: "slice_ok h sl \<Longrightarrow> length (slice_list h sl) = sl_len sl"
  by (simp add: slice_list_def slice_ok_def)

lemma stage_index_Some: "stage_index xs i = Some k \<Longrightarrow> k < length xs \<and> st_ID (xs ! k) = i"
  by (induction xs arbitrary: k) (auto split: if_splits)

lemma stage_index_None: "stage_index xs i = None \<longleftrightarrow> i \<notin> st_ID ` set xs"
  by (induction xs) auto

lemma upsert_sel [simp]:
  "ew_heap (snd (upsert se hdr w)) = ew_heap w"
  "ew_ext (snd (upsert se hdr w)) = ew_ext w" "ew_frames (snd (upsert se hdr w)) = ew_frames w"
  "ew_data (snd (upsert se hdr w)) =
     gm_set (wf_ID hdr) (hdr\<lparr>wf_UpdatedAt := se_clock se (ew_ticks w)\<rparr>) (ew_data w)"
  by (simp_all add: upsert_def workflow_save_def Let_def split: prod.splits)

lemma upsert_abs:
  assumes "heap_inv w" and "hdr_for w i hdr"
  shows "heap_inv (snd (upsert se hdr w))"
    and "abs_store (snd (upsert se hdr w)) = (abs_store w)(i \<mapsto> core_view (ew_heap w) hdr)"
proof -
  show "heap_inv (snd (upsert se hdr w))"
    using assms unfolding heap_inv_def hdr_for_def by (auto split: if_splits)
  show "abs_store (snd (upsert se hdr w)) = (abs_store w)(i \<mapsto> core_view (ew_heap w) hdr)"
    using assms(2) by (auto simp: abs_store_def hdr_for_def fun_eq_iff core_view_def wf_view_def)
qed

lemma set_stage_abs:
  assumes "heap_inv w" and "gm_get (ew_data w) i = Some hdr" and "k < sl_len (wf_Stages hdr)"
    and w': "w' = w\<lparr>ew_heap := slice_update (ew_heap w) (wf_Stages hdr) k f\<rparr>"
  shows "heap_inv w'"
    and "abs_store w' = (abs_store w)(i \<mapsto> (core_view (ew_heap w) hdr)
           \<lparr>wf_Stages := (slice_list (ew_heap w) (wf_Stages hdr))[k := f (slice_list (ew_heap w) (wf_Stages hdr) ! k)]\<rparr>)"
proof -
  show "heap_inv w'"
    using assms(1) unfolding heap_inv_def w' by simp
  have ok: "slice_ok (ew_heap w) (wf_Stages hdr)" using assms(1,2) by (auto simp: heap_inv_def)
  have other: "sl_addr (wf_Stages hdr) \<noteq> sl_addr (wf_Stages b)" if "j \<noteq> i" "gm_get (ew_data w) j = Some b" for j b
    using assms(1,2) that unfolding heap_inv_def by metis
  show "abs_store w' = (abs_store w)(i \<mapsto> (core_view (ew_heap w) hdr)
           \<lparr>wf_Stages := (slice_list (ew_heap w) (wf_Stages hdr))[k := f (slice_list (ew_heap w) (wf_Stages hdr) ! k)]\<rparr>)"
  proof
    fix j
    show "abs_store w' j = ((abs_store w)(i \<mapsto> (core_view (ew_heap w) hdr)
           \<lparr>wf_Stages := (slice_list (ew_heap w) (wf_Stages hdr))[k := f (slice_list (ew_heap w) (wf_Stages hdr) ! k)]\<rparr>)) j"
    proof (cases "j = i")
      case True
      with assms ok show ?thesis
        by (simp add: abs_store_def core_view_def wf_view_def slice_list_update)
    next
      case False
      with other [OF False] show ?thesis
        by (cases "gm_get (ew_data w) j")
          (auto simp: abs_store_def w' wf_view_def slice_list_update_other)
    qed
  qed
qed

text \<open>
  A header that extends the stored one: it shares no array with another workflow, and where it
  shares the stored array it is at least as long.
\<close>

definition hdr_ext :: "'w eworld \<Rightarrow> string \<Rightarrow> wf_hdr \<Rightarrow> bool" where
  "hdr_ext w i hdr \<longleftrightarrow> hdr_for w i hdr \<and>
     (\<forall>b. gm_get (ew_data w) i = Some b \<longrightarrow> sl_addr (wf_Stages b) = sl_addr (wf_Stages hdr) \<longrightarrow>
        sl_len (wf_Stages b) \<le> sl_len (wf_Stages hdr))"

lemma hdr_extI: "heap_inv w \<Longrightarrow> gm_get (ew_data w) i = Some hdr \<Longrightarrow> hdr_ext w i hdr"
  by (simp add: hdr_ext_def hdr_forI)

lemma slice_append_below:
  assumes "slice_ok h sl" and "slice_append grow h sl xs = (h', sl')" and "slice_ok h b"
    and "sl_addr b = sl_addr sl \<longrightarrow> sl_len b \<le> sl_len sl"
  shows "slice_list h' b = slice_list h b" and "slice_ok h' b"
proof -
  have "slice_list h' b = slice_list h b \<and> slice_ok h' b"
  proof (cases "sl_addr b = sl_addr sl")
    case True
    with assms show ?thesis
      by (auto simp: slice_append_def slice_ok_def slice_list_def Let_def nth_append split: if_splits)
  next
    case False
    then have "h' ! sl_addr b = h ! sl_addr b" using slice_append_ok(7) [OF assms(1,2)] assms(3) by (simp add: slice_ok_def)
    then show ?thesis using slice_append_ok(6) [OF assms(1,2)] assms(3) by (simp add: slice_ok_def slice_list_def)
  qed
  then show "slice_list h' b = slice_list h b" and "slice_ok h' b" by auto
qed

lemma slice_append_len: "slice_append grow h sl xs = (h', sl') \<Longrightarrow> sl_len sl' = sl_len sl + length xs"
  by (auto simp: slice_append_def Let_def split: if_splits)

lemma append_abs:
  assumes "heap_inv w" and ext: "hdr_ext w i hdr"
    and ap: "slice_append grow (ew_heap w) (wf_Stages hdr) xs = (h', sl')"
    and w': "w' = w\<lparr>ew_heap := h'\<rparr>" and hdr': "hdr' = hdr\<lparr>wf_Stages := sl'\<rparr>"
  shows "heap_inv w'" and "abs_store w' = abs_store w" and "hdr_ext w' i hdr'"
    and "core_view h' hdr' = (core_view (ew_heap w) hdr)\<lparr>wf_Stages := slice_list (ew_heap w) (wf_Stages hdr) @ xs\<rparr>"
proof -
  have ok: "slice_ok (ew_heap w) (wf_Stages hdr)" and ID: "wf_ID hdr = i" using ext by (auto simp: hdr_ext_def hdr_for_def)
  note A = slice_append_ok [OF ok ap]
  have stored: "slice_ok (ew_heap w) (wf_Stages b)" if "gm_get (ew_data w) j = Some b" for j b
    using assms(1) that by (auto simp: heap_inv_def)
  have below: "sl_addr (wf_Stages b) = sl_addr (wf_Stages hdr) \<longrightarrow> sl_len (wf_Stages b) \<le> sl_len (wf_Stages hdr)"
    if "gm_get (ew_data w) j = Some b" for j b
    using ext that unfolding hdr_ext_def hdr_for_def by (cases "j = i") auto
  have same: "slice_ok h' (wf_Stages b) \<and> slice_list h' (wf_Stages b) = slice_list (ew_heap w) (wf_Stages b)"
    if "gm_get (ew_data w) j = Some b" for j b
    using slice_append_below [OF ok ap stored [OF that] below [OF that]] by simp
  show "heap_inv w'" using assms(1) same unfolding heap_inv_def w' by auto
  show "abs_store w' = abs_store w"
  proof
    fix j show "abs_store w' j = abs_store w j"
      using same by (cases "gm_get (ew_data w) j") (auto simp: abs_store_def w' wf_view_def)
  qed
  have "sl_addr (wf_Stages b) \<noteq> sl_addr sl'" if "j \<noteq> i" "gm_get (ew_data w) j = Some b" for j b
    using ext stored [OF that(2)] that A(5) unfolding hdr_ext_def hdr_for_def slice_ok_def by (metis less_irrefl)
  moreover have "sl_len (wf_Stages b) \<le> sl_len sl'" if "gm_get (ew_data w) i = Some b" "sl_addr (wf_Stages b) = sl_addr sl'" for b
    using below [OF that(1)] stored [OF that(1)] A(5) that(2) slice_append_len [OF ap] by (auto simp: slice_ok_def)
  ultimately show "hdr_ext w' i hdr'"
    using A(1) ID unfolding hdr_ext_def hdr_for_def w' hdr' by simp
  show "core_view h' hdr' = (core_view (ew_heap w) hdr)\<lparr>wf_Stages := slice_list (ew_heap w) (wf_Stages hdr) @ xs\<rparr>"
    unfolding hdr' by (simp add: A(2))
qed

end
