(* ===== verification/Go_Json_Roundtrip.thy ===== *)
theory Go_Json_Roundtrip
  imports Go_Json
begin

text \<open>
  Correctness of the model of \<^verbatim>\<open>encoding/json\<close>: decoding an encoded string repairs its
  invalid UTF-8 and nothing else, decoding an encoded value tree gives the tree back, and
  the decoder's fuel never decides a result.
\<close>

section \<open>Strings\<close>

lemma utf8_width_append:
  assumes "utf8_width (c # s) = Suc w"
  shows "w \<le> length s" and "utf8_width (c # take w s @ t) = Suc w"
  using assms by (cases s; auto split: list.splits if_splits)+

lemma hex_val_hex_digit [simp]: "n < 16 \<Longrightarrow> hex_val (hex_digit n) = Some n"
  by (simp add: hex_val_def hex_digit_def)

lemma parse_str_quote_end [simp]: "parse_str (CHR 0x22 # rest) = Some ([], rest)"
  by (simp add: parse_str.simps)

lemma unicode_escape_ascii:
  assumes "byte c < 128"
  shows "unicode_escape (CHR ''0'' # CHR ''0'' # hex_digit (byte c div 16) # hex_digit (byte c mod 16) # t)
           = Some ([c], t)"
proof -
  have "hex_val (CHR ''0'') = Some 0" by (simp add: hex_val_def)
  moreover have "16 * (byte c div 16) + byte c mod 16 = byte c" by simp
  ultimately show ?thesis
    using assms by (simp add: unicode_escape_def utf8_encode_def)
qed

definition esc_shape :: "char \<Rightarrow> bool" where
  "esc_shape c \<longleftrightarrow>
     (esc_ascii c = [c] \<and> c \<noteq> CHR 0x22 \<and> c \<noteq> CHR 0x5C \<and> \<not> byte c < 32)
     \<or> list_ex (\<lambda>e. esc_ascii c = [CHR 0x5C, e] \<and> simple_escape e = Some c \<and> e \<noteq> CHR ''u'')
         [CHR 0x22, CHR 0x5C, CHR ''b'', CHR ''f'', CHR ''n'', CHR ''r'', CHR ''t'']
     \<or> esc_ascii c = [CHR 0x5C, CHR ''u'', CHR ''0'', CHR ''0'',
                      hex_digit (byte c div 16), hex_digit (byte c mod 16)]"

lemma esc_shape_ascii: "esc_shape c"
proof (cases "c \<in> {CHR 0x22, CHR 0x5C, CHR 0x08, CHR 0x0C, CHR 0x0A, CHR 0x0D, CHR 0x09}")
  case True
  then show ?thesis
    by (elim insertE) (simp_all add: esc_shape_def esc_ascii_def simple_escape_def)
next
  case False
  then have "esc_ascii c = (if byte c < 32 \<or> c = CHR ''<'' \<or> c = CHR ''>'' \<or> c = CHR ''&'' then
      [CHR 0x5C, CHR ''u'', CHR ''0'', CHR ''0'', hex_digit (byte c div 16), hex_digit (byte c mod 16)]
      else [c])" by (simp add: esc_ascii_def)
  with False show ?thesis by (simp add: esc_shape_def split: if_splits)
qed

lemma char_of_bytes:
  "char_of (226::nat) = CHR 0xE2" "char_of (128::nat) = CHR 0x80" "char_of (168::nat) = CHR 0xA8"
  "char_of (169::nat) = CHR 0xA9" "char_of (239::nat) = CHR 0xEF" "char_of (191::nat) = CHR 0xBF"
  "char_of (189::nat) = CHR 0xBD"
  by code_simp+

lemma append_single: "(@) [c] = (#) c"
  by (simp add: fun_eq_iff)

lemma parse_str_esc_ascii:
  assumes "byte c < 128"
  shows "parse_str (esc_ascii c @ t) = map_option (map_prod ((#) c) id) (parse_str t)"
proof -
  consider (plain) "esc_ascii c = [c]" "c \<noteq> CHR 0x22" "c \<noteq> CHR 0x5C" "\<not> byte c < 32"
    | (simple) e where "esc_ascii c = [CHR 0x5C, e]" "simple_escape e = Some c" "e \<noteq> CHR ''u''"
    | (hex) "esc_ascii c = [CHR 0x5C, CHR ''u'', CHR ''0'', CHR ''0'',
                            hex_digit (byte c div 16), hex_digit (byte c mod 16)]"
    using esc_shape_ascii [of c] by (auto simp: esc_shape_def list_ex_iff)
  then show ?thesis
  proof cases
    case plain
    with assms show ?thesis by (simp add: parse_str.simps)
  next
    case simple
    then show ?thesis by (simp add: parse_str.simps)
  next
    case hex
    with unicode_escape_ascii [OF assms] show ?thesis
      by (simp add: parse_str.simps append_single)
  qed
qed

lemma parse_str_fffd:
  "parse_str (CHR 0x5C # ''ufffd'' @ t) = map_option (map_prod ((@) utf8_error) id) (parse_str t)"
proof -
  have "unicode_escape (''fffd'' @ t) = Some (utf8_error, t)"
    by (simp add: unicode_escape_def hex_val_def utf8_encode_def utf8_error_def char_of_bytes)
  then show ?thesis by (simp add: parse_str.simps)
qed

lemma parse_str_esc_rune:
  assumes "\<not> byte c < 128" and "utf8_width (c # s) = Suc w"
  shows "parse_str (esc_rune (take (Suc w) (c # s)) @ t) =
           map_option (map_prod ((@) (take (Suc w) (c # s))) id) (parse_str t)"
proof -
  have u28: "unicode_escape (''2028'' @ t) = Some ([CHR 0xE2, CHR 0x80, CHR 0xA8], t)"
    and u29: "unicode_escape (''2029'' @ t) = Some ([CHR 0xE2, CHR 0x80, CHR 0xA9], t)"
    by (simp_all add: unicode_escape_def hex_val_def utf8_encode_def char_of_bytes)
  have w: "utf8_width (c # take w s @ t) = Suc w" "w \<le> length s"
    using utf8_width_append [OF assms(2)] by auto
  have plain: "parse_str ((c # take w s) @ t) = map_option (map_prod ((@) (c # take w s)) id) (parse_str t)"
    using assms(1) w by (auto simp: parse_str.simps)
  show ?thesis
    using plain u28 u29 by (auto simp: esc_rune_def parse_str.simps)
qed

lemma map_option_map_prod_append:
  "map_option (map_prod ((@) a) id) (map_option (map_prod f id) x) =
   map_option (map_prod (\<lambda>y. a @ f y) id) x"
  by (cases x) auto

lemma parse_str_quote_body: "parse_str (quote_body s @ CHR 0x22 # rest) = Some (utf8_fix s, rest)"
proof (induction s rule: quote_body.induct)
  case 1
  show ?case by simp
next
  case (2 c s)
  show ?case
  proof (cases "byte c < 128")
    case True
    with 2(1) show ?thesis by (simp add: parse_str_esc_ascii)
  next
    case False
    show ?thesis
    proof (cases "utf8_width (c # s)")
      case 0
      with False 2(2) show ?thesis
        using parse_str_fffd [of "quote_body s @ CHR 0x22 # rest"] by simp
    next
      case (Suc w)
      with False 2(3) show ?thesis
        using parse_str_esc_rune [OF False Suc, of "quote_body (drop w s) @ CHR 0x22 # rest"] by simp
    qed
  qed
qed

lemma utf8_fix_ascii [simp]: "list_all (\<lambda>c. byte c < 128) s \<Longrightarrow> utf8_fix s = s"
  by (induction s) auto

section \<open>Value trees\<close>

definition stops :: "string \<Rightarrow> bool" where
  "stops rest \<longleftrightarrow> (case rest of [] \<Rightarrow> True
     | c # _ \<Rightarrow> \<not> is_digit c \<and> c \<noteq> CHR ''.'' \<and> c \<noteq> CHR ''e'' \<and> c \<noteq> CHR ''E'')"

definition num_ok :: "string \<Rightarrow> bool" where
  "num_ok n \<longleftrightarrow> parse_num n = Some (n, [])"

fun json_nums_ok :: "json \<Rightarrow> bool" where
  "json_nums_ok (JNum n) = num_ok n"
| "json_nums_ok (JArr vs) = list_all json_nums_ok vs"
| "json_nums_ok (JObj ms) = list_all (\<lambda>kv. json_nums_ok (snd kv)) ms"
| "json_nums_ok _ = True"

fun json_fix :: "json \<Rightarrow> json" where
  "json_fix (JStr s) = JStr (utf8_fix s)"
| "json_fix (JArr vs) = JArr (map json_fix vs)"
| "json_fix (JObj ms) = JObj (map (\<lambda>kv. (utf8_fix (fst kv), json_fix (snd kv))) ms)"
| "json_fix v = v"

fun json_depth :: "json \<Rightarrow> nat" where
  "json_depth (JArr vs) = Suc (fold max (map json_depth vs) 0)"
| "json_depth (JObj ms) = Suc (fold max (map (\<lambda>kv. json_depth (snd kv)) ms) 0)"
| "json_depth _ = 0"

fun json_fuel :: "json \<Rightarrow> nat" and elems_fuel :: "json list \<Rightarrow> nat"
  and members_fuel :: "(string \<times> json) list \<Rightarrow> nat"
where
  "json_fuel (JArr vs) = Suc (elems_fuel vs)"
| "json_fuel (JObj ms) = Suc (members_fuel ms)"
| "json_fuel _ = 1"
| "elems_fuel [] = 0"
| "elems_fuel (v # vs) = Suc (max (json_fuel v) (elems_fuel vs))"
| "members_fuel [] = 0"
| "members_fuel (kv # ms) = Suc (max (json_fuel (snd kv)) (members_fuel ms))"

lemma fold_max_le: "fold max xs n \<le> d \<longleftrightarrow> n \<le> d \<and> (\<forall>x \<in> set xs. x \<le> (d::nat))"
  by (induction xs arbitrary: n) auto

lemma span_digits_append:
  assumes "stops rest \<or> dropWhile is_digit s \<noteq> []"
  shows "span_digits (s @ rest) = (takeWhile is_digit s, dropWhile is_digit s @ rest)"
proof (cases "dropWhile is_digit s = []")
  case True
  then have all: "\<forall>c \<in> set s. is_digit c" by (simp add: dropWhile_eq_Nil_conv)
  with assms True have "stops rest" by simp
  then have "takeWhile is_digit rest = []" "dropWhile is_digit rest = rest"
    by (cases rest; simp add: stops_def)+
  with all True show ?thesis
    by (simp add: span_digits_def takeWhile_append2 dropWhile_append2 takeWhile_eq_all_conv [THEN iffD2])
next
  case False
  then obtain c where c: "c \<in> set s" "\<not> is_digit c" by (auto simp: dropWhile_eq_Nil_conv)
  then show ?thesis by (simp add: span_digits_def takeWhile_append1 dropWhile_append1)
qed

lemma parse_frac_append:
  assumes "parse_frac s = Some (fr, r)" and "stops rest"
  shows "parse_frac (s @ rest) = Some (fr, r @ rest)"
proof (cases s)
  case Nil
  with assms show ?thesis by (cases rest) (auto simp: parse_frac_def stops_def)
next
  case (Cons c t)
  with assms show ?thesis
    using span_digits_append [of rest t]
    by (auto simp: parse_frac_def span_digits_def split: if_splits)
qed

lemma parse_exp_append:
  assumes "parse_exp s = Some (ex, [])" and "stops rest"
  shows "parse_exp (s @ rest) = Some (ex, rest)"
proof (cases s)
  case Nil
  with assms show ?thesis by (cases rest) (auto simp: parse_exp_def stops_def)
next
  case (Cons c t)
  show ?thesis
  proof (cases t)
    case Nil
    with assms Cons show ?thesis by (auto simp: parse_exp_def span_digits_def split: if_splits)
  next
    case (Cons d u)
    with assms \<open>s = c # t\<close> show ?thesis
      using span_digits_append [of rest u] span_digits_append [of rest "d # u"]
      by (auto simp: parse_exp_def span_digits_def split: if_splits prod.splits)
  qed
qed

lemma parse_unsigned_append:
  assumes "parse_unsigned t = Some (n, [])" and "stops rest"
  shows "parse_unsigned (t @ rest) = Some (n, rest)"
proof -
  from assms(1) obtain c u where t: "t = c # u" and c: "is_digit c"
    by (auto simp: parse_unsigned_def split: list.splits if_splits)
  obtain ds v where ds: "(if c = CHR ''0'' then ([c], u) else span_digits t) = (ds, v)"
    by fastforce
  with assms(1) t c obtain fr x ex where fr: "parse_frac v = Some (fr, x)"
    and ex: "parse_exp x = Some (ex, [])" and n: "n = ds @ fr @ ex"
    by (auto simp: parse_unsigned_def split: option.splits prod.splits)
  have "(if c = CHR ''0'' then ([c], u @ rest) else span_digits (t @ rest)) = (ds, v @ rest)"
    using ds assms(2) span_digits_append [of rest t]
    by (cases "c = CHR ''0''") (auto simp: span_digits_def)
  then show ?thesis
    using t c n parse_frac_append [OF fr assms(2)] parse_exp_append [OF ex assms(2)]
    by (auto simp: parse_unsigned_def)
qed

lemma parse_num_append:
  assumes "num_ok n" and "stops rest"
  shows "parse_num (n @ rest) = Some (n, rest)"
proof -
  from assms(1) obtain c u where n: "n = c # u"
    by (auto simp: num_ok_def parse_num_def split: list.splits)
  show ?thesis
  proof (cases "c = CHR ''-''")
    case True
    with n assms(1) have "parse_unsigned u = Some (u, [])" by (auto simp: num_ok_def parse_num_def)
    from parse_unsigned_append [OF this assms(2)] True n show ?thesis by (simp add: parse_num_def)
  next
    case False
    with n assms(1) have "parse_unsigned n = Some (n, [])" by (auto simp: num_ok_def parse_num_def)
    from parse_unsigned_append [OF this assms(2)] False n show ?thesis by (simp add: parse_num_def)
  qed
qed

lemma num_ok_hd: "num_ok n \<Longrightarrow> \<exists>c u. n = c # u \<and> (is_digit c \<or> c = CHR ''-'')"
  by (auto simp: num_ok_def parse_num_def parse_unsigned_def split: list.splits if_splits)

lemma skip_ws_Cons [simp]: "\<not> is_ws c \<Longrightarrow> skip_ws (c # s) = c # s"
  by (simp add: skip_ws_def)

lemma HasPrefix_Cons: "HasPrefix (c # s) (d # p) \<longleftrightarrow> c = d \<and> HasPrefix s p"
  by (auto simp: HasPrefix_def)

lemma parse_val_num:
  assumes "num_ok n" and "stops rest"
  shows "parse_val (Suc f) d (n @ rest) = Some (JNum n, rest)"
proof -
  from num_ok_hd [OF assms(1)] obtain c u where n: "n = c # u"
    and c: "is_digit c \<or> c = CHR ''-''" by blast
  from c have "\<not> is_ws c" "c \<noteq> CHR 0x22" "c \<noteq> CHR ''{''" "c \<noteq> CHR ''[''"
      "c \<noteq> CHR ''t''" "c \<noteq> CHR ''f''" "c \<noteq> CHR ''n''"
    by (auto simp: is_digit_def is_ws_def)
  with parse_num_append [OF assms] n show ?thesis by (simp add: HasPrefix_Cons)
qed

lemma json_print_hd:
  "json_nums_ok v \<Longrightarrow> \<exists>c u. json_print v = c # u \<and> \<not> is_ws c \<and> c \<noteq> CHR '']''"
proof (cases v)
  case (JNum n)
  assume "json_nums_ok v"
  with JNum obtain c u where n: "n = c # u" and c: "is_digit c \<or> c = CHR ''-''"
    using num_ok_hd [of n] by auto
  from c have "\<not> is_ws c \<and> c \<noteq> CHR '']''" by (auto simp: is_digit_def is_ws_def)
  with n JNum show ?thesis by simp
qed (auto simp: json_quote_def is_ws_def)

lemma print_elems_hd:
  "list_all json_nums_ok vs \<Longrightarrow> vs \<noteq> [] \<Longrightarrow>
     \<exists>c u. print_elems vs = c # u \<and> \<not> is_ws c \<and> c \<noteq> CHR '']''"
proof (cases vs)
  case (Cons v ws)
  assume "list_all json_nums_ok vs"
  with Cons json_print_hd [of v] show ?thesis by auto
qed simp

lemma print_members_hd: "ms \<noteq> [] \<Longrightarrow> \<exists>u. print_members ms = CHR 0x22 # u"
  by (cases ms) (auto simp: json_quote_def)

lemma stops_delim [simp]:
  "stops (CHR '','' # s)" "stops (CHR '']'' # s)" "stops (CHR ''}'' # s)" "stops []"
  by (simp_all add: stops_def is_digit_def)

lemma is_ws_delim [simp]:
  "\<not> is_ws (CHR '','')" "\<not> is_ws (CHR '']'')" "\<not> is_ws (CHR ''}'')" "\<not> is_ws (CHR ''['')"
  "\<not> is_ws (CHR ''{'')" "\<not> is_ws (CHR '':'')" "\<not> is_ws (CHR 0x22)" "\<not> is_ws (CHR ''t'')"
  "\<not> is_ws (CHR ''f'')" "\<not> is_ws (CHR ''n'')"
  by (simp_all add: is_ws_def)

lemma parse_print:
  shows "\<And>f d rest. json_nums_ok v \<Longrightarrow> json_depth v \<le> d \<Longrightarrow> json_fuel v \<le> f \<Longrightarrow> stops rest \<Longrightarrow>
           parse_val f d (json_print v @ rest) = Some (json_fix v, rest)"
    and "\<And>f d rest. list_all json_nums_ok vs \<Longrightarrow> \<forall>v \<in> set vs. json_depth v \<le> d \<Longrightarrow>
           elems_fuel vs \<le> f \<Longrightarrow> vs \<noteq> [] \<Longrightarrow>
           parse_elems f d (print_elems vs @ CHR '']'' # rest) = Some (map json_fix vs, rest)"
    and "\<And>f d rest. list_all (\<lambda>kv. json_nums_ok (snd kv)) ms \<Longrightarrow>
           \<forall>kv \<in> set ms. json_depth (snd kv) \<le> d \<Longrightarrow> members_fuel ms \<le> f \<Longrightarrow> ms \<noteq> [] \<Longrightarrow>
           parse_members f d (print_members ms @ CHR ''}'' # rest) =
             Some (map (\<lambda>kv. (utf8_fix (fst kv), json_fix (snd kv))) ms, rest)"
proof (induction v and vs and ms rule: json_print_print_elems_print_members.induct)
  case 1
  then show ?case by (cases f) (auto simp: HasPrefix_Cons)
next
  case (2 b)
  then show ?case by (cases f) (auto simp: HasPrefix_Cons)
next
  case (3 n)
  then show ?case using parse_val_num by (cases f) auto
next
  case (4 s)
  then show ?case by (cases f) (auto simp: json_quote_def parse_str_quote_body)
next
  case (5 vs)
  then obtain f' d' where f: "f = Suc f'" and d: "d = Suc d'"
    by (cases f; cases d; auto)
  show ?case
  proof (cases "vs = []")
    case True
    with f d show ?thesis by simp
  next
    case False
    with 5 f d have "parse_elems f' d' (print_elems vs @ CHR '']'' # rest) = Some (map json_fix vs, rest)"
      by (auto simp: fold_max_le)
    moreover from 5 False obtain c u where "print_elems vs = c # u" "\<not> is_ws c" "c \<noteq> CHR '']''"
      using print_elems_hd [of vs] by auto
    ultimately show ?thesis using f d False by simp
  qed
next
  case (6 ms)
  then obtain f' d' where f: "f = Suc f'" and d: "d = Suc d'"
    by (cases f; cases d; auto)
  show ?case
  proof (cases "ms = []")
    case True
    with f d show ?thesis by simp
  next
    case False
    with 6 f d have "parse_members f' d' (print_members ms @ CHR ''}'' # rest) =
        Some (map (\<lambda>kv. (utf8_fix (fst kv), json_fix (snd kv))) ms, rest)"
      by (auto simp: fold_max_le)
    moreover from False obtain u where "print_members ms = CHR 0x22 # u"
      using print_members_hd by blast
    ultimately show ?thesis using f d False by simp
  qed
next
  case 7
  then show ?case by simp
next
  case (8 v vs)
  then obtain f' where f: "f = Suc f'" by (cases f) auto
  show ?case
  proof (cases "vs = []")
    case True
    with 8 f show ?thesis by simp
  next
    case False
    with 8 f show ?thesis by simp
  qed
next
  case 9
  then show ?case by simp
next
  case (10 kv ms)
  then obtain f' where f: "f = Suc f'" by (cases f) auto
  have q: "parse_str (quote_body (fst kv) @ CHR 0x22 # t) = Some (utf8_fix (fst kv), t)" for t
    by (rule parse_str_quote_body)
  show ?case
  proof (cases "ms = []")
    case True
    with 10 f q show ?thesis by (simp add: json_quote_def)
  next
    case False
    with 10 f q show ?thesis by (simp add: json_quote_def)
  qed
qed

lemma json_fuel_bound:
  shows "json_nums_ok v \<Longrightarrow> Suc (json_fuel v) \<le> 2 * length (json_print v)"
    and "list_all json_nums_ok vs \<Longrightarrow> elems_fuel vs \<le> 2 * length (print_elems vs)"
    and "list_all (\<lambda>kv. json_nums_ok (snd kv)) ms \<Longrightarrow> members_fuel ms \<le> 2 * length (print_members ms)"
proof (induction v and vs and ms rule: json_print_print_elems_print_members.induct)
  case (3 n)
  then show ?case using num_ok_hd by fastforce
qed (auto simp: json_quote_def)

text \<open>Decoding what the encoder wrote gives the value back, invalid UTF-8 replaced.\<close>

lemma json_roundtrip:
  assumes "json_nums_ok v" and "json_depth v \<le> maxNestingDepth"
  shows "json_parse (json_print v) = Some (json_fix v)"
proof -
  have "json_fuel v \<le> 2 * length (json_print v) + 2"
    using json_fuel_bound(1) [OF assms(1)] by simp
  from parse_print(1) [OF assms this, of "[]"]
  show ?thesis by (simp add: json_parse_def skip_ws_def)
qed

section \<open>The fuel is enough\<close>

lemma length_skip_ws: "length (skip_ws s) \<le> length s"
  by (simp add: skip_ws_def length_dropWhile_le)

lemma skip_ws_length: "skip_ws s = c # t \<Longrightarrow> length t < length s"
  using length_skip_ws [of s] by simp

lemma parse_str_length: "parse_str s = Some (x, t) \<Longrightarrow> length t < length s"
proof (induction s arbitrary: x t rule: parse_str.induct)
  case 1
  then show ?case by simp
next
  case (2 c s)
  show ?case
    using "2.prems" "2.IH"
    by (subst (asm) parse_str.simps)
      (fastforce split: if_splits list.splits option.splits nat.splits dest: unicode_escape_length)
qed

lemma parse_unsigned_length: "parse_unsigned s = Some (x, t) \<Longrightarrow> length t < length s"
proof -
  assume eq: "parse_unsigned s = Some (x, t)"
  have frac: "parse_frac u = Some (y, v) \<Longrightarrow> length v \<le> length u" for u y v
    by (auto simp: parse_frac_def span_digits_def length_dropWhile_le le_SucI split: list.splits if_splits)
  have ex: "parse_exp u = Some (y, v) \<Longrightarrow> length v \<le> length u" for u y v
    by (auto simp: parse_exp_def span_digits_def length_dropWhile_le le_SucI split: list.splits if_splits)
  have "length v \<le> length u \<Longrightarrow> length u \<le> length (dropWhile is_digit w) \<Longrightarrow> length v \<le> length w"
    for u v w :: string using length_dropWhile_le [of is_digit w] by linarith
  with eq show ?thesis
    by (auto simp: parse_unsigned_def span_digits_def less_Suc_eq_le
        split: list.splits if_splits option.splits dest!: frac ex)
qed

lemma parse_num_length: "parse_num s = Some (x, t) \<Longrightarrow> length t < length s"
  by (auto simp: parse_num_def split: list.splits if_splits dest!: parse_unsigned_length)

lemma parse_lengths:
  shows "\<And>v t. parse_val f d s = Some (v, t) \<Longrightarrow> length t < length s"
    and "\<And>vs t. parse_elems f d s = Some (vs, t) \<Longrightarrow> length t < length s"
    and "\<And>ms t. parse_members f d s = Some (ms, t) \<Longrightarrow> length t < length s"
proof (induction f d s and f d s and f d s rule: parse_val_parse_elems_parse_members.induct)
  case (2 f d s)
  from "2.prems" obtain c u where c: "skip_ws s = c # u" by (auto split: list.splits)
  then have u: "length u < length s" by (rule skip_ws_length)
  show ?case
    using "2.prems" "2.IH" c u
    by (fastforce split: if_splits list.splits nat.splits
        dest: parse_str_length parse_num_length skip_ws_length)
next
  case (4 f d s)
  then show ?case
    by (fastforce split: option.splits list.splits if_splits dest: skip_ws_length)
next
  case (6 f d s)
  then show ?case
    by (fastforce split: option.splits list.splits if_splits dest: skip_ws_length parse_str_length)
qed simp_all

lemma parse_fuel:
  shows "\<And>g. 2 * length s + 1 \<le> f \<Longrightarrow> f \<le> g \<Longrightarrow> parse_val g d s = parse_val f d s"
    and "\<And>g. 2 * length s + 2 \<le> f \<Longrightarrow> f \<le> g \<Longrightarrow> parse_elems g d s = parse_elems f d s"
    and "\<And>g. 2 * length s + 2 \<le> f \<Longrightarrow> f \<le> g \<Longrightarrow> parse_members g d s = parse_members f d s"
proof (induction f d s and f d s and f d s rule: parse_val_parse_elems_parse_members.induct)
  case (2 f d s)
  from "2.prems" obtain g' where g: "g = Suc g'" "f \<le> g'" by (cases g) auto
  show ?case
  proof (cases "skip_ws s")
    case (Cons c t)
    then have t: "2 * length t + 2 \<le> f" using skip_ws_length [of s c t] "2.prems"(1) by simp
    have "parse_members g' d' t = parse_members f d' t"
      if "c = CHR ''{''" "d = Suc d'" "skip_ws t = e # u" "e \<noteq> CHR ''}''" for d' e u
      using "2.IH"(1) [OF Cons _ that(1) that(2) that(3) that(4) t g(2)] that by simp
    moreover have "parse_elems g' d' t = parse_elems f d' t"
      if "c = CHR ''[''" "d = Suc d'" "skip_ws t = e # u" "e \<noteq> CHR '']''" for d' e u
      using "2.IH"(2) [OF Cons _ _ that(1) that(2) that(3) that(4) t g(2)] that by simp
    ultimately show ?thesis using Cons g by (auto split: list.splits nat.splits)
  qed (use g in simp)
next
  case (4 f d s)
  from "4.prems" obtain g' where g: "g = Suc g'" "f \<le> g'" by (cases g) auto
  have v: "parse_val g' d s = parse_val f d s"
    by (rule "4.IH"(1)) (use "4.prems" g in simp_all)
  have "parse_elems g' d u = parse_elems f d u"
    if "parse_val f d s = Some (v, t)" "skip_ws t = c # u" "c = CHR '',''" for v t c u
    using "4.IH"(2) [OF that(1) refl that(2) that(3) _ g(2)] parse_lengths(1) [OF that(1)]
      skip_ws_length [OF that(2)] "4.prems"(1) by simp
  with v g(1) show ?case
    by (cases "parse_val f d s") (simp_all split: prod.split list.split)
next
  case (6 f d s)
  from "6.prems" obtain g' where g: "g = Suc g'" "f \<le> g'" by (cases g) auto
  have v: "parse_val g' d s3 = parse_val f d s3"
    if "skip_ws s = q # s1" "q = CHR 0x22" "parse_str s1 = Some (k, s2)" "skip_ws s2 = col # s3"
      "col = CHR '':''" for q s1 k s2 col s3
    using "6.IH"(1) [OF that(1) _ that(3) refl that(4) _ _ g(2)] that skip_ws_length [OF that(1)]
      parse_str_length [OF that(3)] skip_ws_length [OF that(4)] "6.prems"(1) by simp
  have m: "parse_members g' d u = parse_members f d u"
    if "skip_ws s = q # s1" "q = CHR 0x22" "parse_str s1 = Some (k, s2)" "skip_ws s2 = col # s3"
      "col = CHR '':''" "parse_val f d s3 = Some (w, s4)" "skip_ws s4 = c # u" "c = CHR '',''"
    for q s1 k s2 col s3 w s4 c u
    using "6.IH"(2) [OF that(1) _ that(3) refl that(4) _ that(6) refl that(7) that(8) _ g(2)] that
      skip_ws_length [OF that(1)] parse_str_length [OF that(3)] skip_ws_length [OF that(4)]
      parse_lengths(1) [OF that(6)] skip_ws_length [OF that(7)] "6.prems"(1) by simp
  show ?case
    using v m g by (auto split: option.splits list.splits)
qed simp_all

end
