(* ===== verification/Go_Json_Decode.thy ===== *)
theory Go_Json_Decode
  imports Go_Json_Roundtrip Go_Text Go_Time
begin

text \<open>
  Decoding a JSON value tree into Go structs, as \<^verbatim>\<open>json.Unmarshal\<close> does it: fields by folded
  key, and one decoder for each type of field the program has. A decoder gets the values of all
  occurrences of its key; \<^const>\<open>None\<close> is an error.
\<close>

section \<open>Decoding into structs\<close>

text \<open>
  A key selects a field when the two are equal up to Go's case folding: ASCII case, and the
  long s (U+017F) and the Kelvin sign (U+212A), which fold to s and k.
\<close>

definition fold_char :: "char \<Rightarrow> char" where
  "fold_char c = (if 97 \<le> byte c \<and> byte c \<le> 122 then char_of (byte c - 32) else c)"

fun fold_name :: "string \<Rightarrow> string" where
  "fold_name (a # b # c # s) =
     (if a = CHR 0xC5 \<and> b = CHR 0xBF then CHR ''S'' # fold_name (c # s)
      else if a = CHR 0xE2 \<and> b = CHR 0x84 \<and> c = CHR 0xAA then CHR ''K'' # fold_name s
      else fold_char a # fold_name (b # c # s))"
| "fold_name [a, b] =
     (if a = CHR 0xC5 \<and> b = CHR 0xBF then ''S'' else [fold_char a, fold_char b])"
| "fold_name [a] = [fold_char a]"
| "fold_name [] = []"

definition field_values :: "string \<Rightarrow> (string \<times> json) list \<Rightarrow> json list" where
  "field_values name ms = map snd (filter (\<lambda>kv. fold_name (fst kv) = fold_name name) ms)"

text \<open>
  Later occurrences of a key overwrite earlier ones, \<^verbatim>\<open>null\<close> changes nothing, and a value of
  another type is an error.
\<close>

fun dec_string :: "string \<Rightarrow> json list \<Rightarrow> string option" where
  "dec_string cur [] = Some cur"
| "dec_string cur (JStr s # vs) = dec_string s vs"
| "dec_string cur (JNull # vs) = dec_string cur vs"
| "dec_string cur (_ # vs) = None"

fun dec_bool :: "bool \<Rightarrow> json list \<Rightarrow> bool option" where
  "dec_bool cur [] = Some cur"
| "dec_bool cur (JBool b # vs) = dec_bool b vs"
| "dec_bool cur (JNull # vs) = dec_bool cur vs"
| "dec_bool cur (_ # vs) = None"

fun dec_string_elems :: "json list \<Rightarrow> string list option" where
  "dec_string_elems [] = Some []"
| "dec_string_elems (v # vs) =
     (case (dec_string [] [v], dec_string_elems vs) of
        (Some s, Some ss) \<Rightarrow> Some (s # ss)
      | _ \<Rightarrow> None)"

fun dec_strings :: "string list \<Rightarrow> json list \<Rightarrow> string list option" where
  "dec_strings cur [] = Some cur"
| "dec_strings cur (JArr es # vs) =
     (case dec_string_elems es of None \<Rightarrow> None | Some ss \<Rightarrow> dec_strings ss vs)"
| "dec_strings cur (JNull # vs) = dec_strings [] vs"
| "dec_strings cur (_ # vs) = None"


text \<open>An \<^verbatim>\<open>int\<close> field takes integer literals only.\<close>

fun dec_int :: "int \<Rightarrow> json list \<Rightarrow> int option" where
  "dec_int cur [] = Some cur"
| "dec_int cur (JNum n # vs) = (case Atoi n of None \<Rightarrow> None | Some i \<Rightarrow> dec_int i vs)"
| "dec_int cur (JNull # vs) = dec_int cur vs"
| "dec_int cur (_ # vs) = None"

text \<open>
  A \<^verbatim>\<open>time.Time\<close> field. (\<^verbatim>\<open>UnmarshalJSON\<close> reads the literal as it is written, so Go refuses an
  instant spelt with \<^verbatim>\<open>\u\<close> escapes, which the encoder never writes.)
\<close>

fun dec_time :: "instant \<Rightarrow> json list \<Rightarrow> instant option" where
  "dec_time cur [] = Some cur"
| "dec_time cur (JStr s # vs) = (case parse_rfc3339 s of None \<Rightarrow> None | Some t \<Rightarrow> dec_time t vs)"
| "dec_time cur (JNull # vs) = dec_time cur vs"
| "dec_time cur (_ # vs) = None"

text \<open>A map field: \<^const>\<open>None\<close> inside stands for a nil map.\<close>

fun dec_members :: "(json \<Rightarrow> 'a option) \<Rightarrow> (string, 'a) gomap \<Rightarrow> (string \<times> json) list \<Rightarrow> (string, 'a) gomap option" where
  "dec_members f m [] = Some m"
| "dec_members f m ((k, v) # ms) = (case f v of None \<Rightarrow> None | Some x \<Rightarrow> dec_members f (gm_set k x m) ms)"

fun dec_map :: "(json \<Rightarrow> 'a option) \<Rightarrow> (string, 'a) gomap option \<Rightarrow> json list \<Rightarrow> (string, 'a) gomap option option" where
  "dec_map f cur [] = Some cur"
| "dec_map f cur (JObj ms # vs) =
     (case dec_members f (case cur of None \<Rightarrow> [] | Some m \<Rightarrow> m) ms of
        None \<Rightarrow> None
      | Some m \<Rightarrow> dec_map f (Some m) vs)"
| "dec_map f cur (JNull # vs) = dec_map f None vs"
| "dec_map f cur (_ # vs) = None"

section \<open>Reading back what was written\<close>

lemma gm_set_fresh: "k \<notin> set (gm_keys m) \<Longrightarrow> gm_set k v m = m @ [(k, v)]"
  by (induction m) auto

lemma dec_members_map:
  assumes "distinct (map fst (acc @ m))" and "\<And>k x. (k, x) \<in> set m \<Longrightarrow> f (enc x) = Some x"
  shows "dec_members f acc (map (\<lambda>kv. (fst kv, enc (snd kv))) m) = Some (acc @ m)"
  using assms
proof (induction m arbitrary: acc)
  case (Cons kv m)
  obtain k x where kv: "kv = (k, x)" by fastforce
  with Cons.prems have "gm_set k x acc = acc @ [(k, x)]" by (intro gm_set_fresh) auto
  moreover have "dec_members f (acc @ [(k, x)]) (map (\<lambda>kv. (fst kv, enc (snd kv))) m) = Some ((acc @ [(k, x)]) @ m)"
    using Cons.prems kv by (intro Cons.IH) auto
  moreover have "f (enc x) = Some x" using Cons.prems(2) [of k x] kv by simp
  ultimately show ?case using kv by simp
qed simp

lemma nat_str_hd_zero: "nat_str n = CHR ''0'' # t \<Longrightarrow> t = []"
proof (induction n arbitrary: t rule: nat_str.induct)
  case (1 n)
  show ?case
  proof (cases "n < 10")
    case True
    with 1 show ?thesis by (simp add: nat_str.simps [of n])
  next
    case False
    then have n: "nat_str n = nat_str (n div 10) @ [digit_char (n mod 10)]" by (simp add: nat_str.simps [of n])
    with 1(2) obtain t' where t': "nat_str (n div 10) = CHR ''0'' # t'"
      by (cases "nat_str (n div 10)") auto
    from 1(1) [OF False this] t' have "nat_str (n div 10) = ''0''" by simp
    then have "digits_val (nat_str (n div 10)) = 0" by (simp add: digits_val_def digit_val_def)
    then have "n div 10 = 0" by simp
    with False show ?thesis by simp
  qed
qed

lemma parse_unsigned_nat_str: "parse_unsigned (nat_str n) = Some (nat_str n, [])"
proof (cases "nat_str n")
  case (Cons c t)
  have d: "list_all is_digit (nat_str n)" using nat_str_digits by blast
  with Cons have w: "takeWhile is_digit t = t" "dropWhile is_digit t = []"
    by (simp_all add: takeWhile_eq_all_conv list_all_iff)
  from d Cons have c: "is_digit c" by simp
  show ?thesis
  proof (cases "c = CHR ''0''")
    case True
    with Cons nat_str_hd_zero [of n t] c show ?thesis
      by (simp add: parse_unsigned_def Go_Json.parse_frac_def parse_exp_def)
  next
    case False
    with c show ?thesis
      unfolding Cons by (simp add: parse_unsigned_def Go_Json.parse_frac_def parse_exp_def span_digits_def w
          del: takeWhile_eq_all_conv dropWhile_eq_Nil_conv)
  qed
qed simp

lemma num_ok_Itoa [simp]: "num_ok (Itoa i)"
proof (cases "i < 0")
  case True
  then show ?thesis by (simp add: num_ok_def parse_num_def Itoa_def parse_unsigned_nat_str)
next
  case False
  have "nat_str (nat i) \<noteq> CHR ''-'' # s" for s
    using nat_str_hd_digit [of "nat i" "CHR ''-''" s] by (auto simp: is_digit_def)
  with False parse_unsigned_nat_str [of "nat i"] show ?thesis
    by (cases "nat_str (nat i)") (auto simp: num_ok_def parse_num_def Itoa_def)
qed

text \<open>A time stamp is ASCII, so the encoder leaves it as it is.\<close>

lemma pad_ascii: "list_all (\<lambda>c. byte c < 128) (pad w n)"
proof (induction w arbitrary: n)
  case (Suc w)
  have "nat (n mod 10) < 10" by (simp add: nat_less_iff)
  then show ?case using Suc by (simp add: digit_char_def)
qed simp

lemma frac_str_ascii: "list_all (\<lambda>c. byte c < 128) (frac_str n)"
proof -
  have "set (TrimRight s cs) \<subseteq> set s" for s cs
    unfolding TrimRight_def by (metis set_dropWhileD set_rev subsetI)
  with pad_ascii [of 9 n] show ?thesis by (auto simp: frac_str_def list_all_iff)
qed

lemma utf8_fix_rfc3339 [simp]: "utf8_fix (rfc3339 t) = rfc3339 t"
  by (rule utf8_fix_ascii) (simp add: rfc3339_def Let_def pad_ascii frac_str_ascii split: prod.splits)

end
