(* ===== verification/Go_Regexp.thy ===== *)
theory Go_Regexp
  imports Prelude
begin

text \<open>
  The fragment of Go's \<^verbatim>\<open>regexp\<close> the program uses: character classes, concatenation and a
  greedy star over a class, with leftmost-first matching. \<open>rx_ends\<close> lists the suffixes
  left over by the ways to match at the front of a string, the preferred one first;
  \<open>FindStringIndex\<close> takes the leftmost start that matches. Classes match bytes; Go matches
  whole characters, which leaves the same matches here because every class that is followed
  by something is followed by an ASCII literal.
\<close>

datatype regex =
    RxClass "char \<Rightarrow> bool"
  | RxStar "char \<Rightarrow> bool"
  | RxSeq regex regex

fun star_ends :: "(char \<Rightarrow> bool) \<Rightarrow> string \<Rightarrow> string list" where
  "star_ends p [] = [[]]"
| "star_ends p (c # s) = (if p c then star_ends p s @ [c # s] else [c # s])"

fun rx_ends :: "regex \<Rightarrow> string \<Rightarrow> string list" where
  "rx_ends (RxClass p) s = (case s of [] \<Rightarrow> [] | c # t \<Rightarrow> if p c then [t] else [])"
| "rx_ends (RxStar p) s = star_ends p s"
| "rx_ends (RxSeq a b) s = concat (map (rx_ends b) (rx_ends a s))"

fun rx_find :: "regex \<Rightarrow> nat \<Rightarrow> string \<Rightarrow> (nat \<times> string) option" where
  "rx_find r i s =
     (case rx_ends r s of
        e # _ \<Rightarrow> Some (i, e)
      | [] \<Rightarrow> (case s of [] \<Rightarrow> None | _ # t \<Rightarrow> rx_find r (Suc i) t))"

declare rx_find.simps [simp del]

definition FindStringIndex :: "regex \<Rightarrow> string \<Rightarrow> (nat \<times> nat) option" where
  "FindStringIndex r s =
     (case rx_find r 0 s of None \<Rightarrow> None | Some (i, e) \<Rightarrow> Some (i, length s - length e))"

fun rx_lit :: "string \<Rightarrow> regex \<Rightarrow> regex" where
  "rx_lit [] r = r"
| "rx_lit (c # cs) r = RxSeq (RxClass (\<lambda>x. x = c)) (rx_lit cs r)"

definition str_slice :: "string \<Rightarrow> nat \<times> nat \<Rightarrow> string" where
  "str_slice s ij = take (snd ij - fst ij) (drop (fst ij) s)"

section \<open>Matching\<close>

lemma set_star_ends:
  "set (star_ends p s) = {v. \<exists>u. s = u @ v \<and> list_all p u}"
proof (induction s)
  case Nil
  show ?case by auto
next
  case (Cons c s)
  show ?case
  proof (rule set_eqI)
    fix v
    show "v \<in> set (star_ends p (c # s)) \<longleftrightarrow> v \<in> {v. \<exists>u. c # s = u @ v \<and> list_all p u}"
      using Cons by (auto simp: Cons_eq_append_conv)
  qed
qed

lemma rx_ends_lit [simp]:
  "rx_ends (rx_lit l r) s = (if HasPrefix s l then rx_ends r (drop (length l) s) else [])"
  by (induction l arbitrary: s) (auto simp: HasPrefix_def split: list.splits)

lemma rx_find_Some:
  assumes "rx_find r i s = Some (j, e)"
  shows "\<exists>u v. s = u @ v \<and> j = i + length u \<and> rx_ends r v \<noteq> [] \<and> e = hd (rx_ends r v)
     \<and> (\<forall>u' w. s = u' @ w \<and> length u' < length u \<longrightarrow> rx_ends r w = [])"
  using assms
proof (induction s arbitrary: i)
  case Nil
  then show ?case by (subst (asm) rx_find.simps) (auto split: list.splits)
next
  case (Cons c s)
  show ?case
  proof (cases "rx_ends r (c # s)")
    case (Cons x xs)
    with Cons.prems have "j = i" "e = x" by (auto simp: rx_find.simps [of r i])
    with Cons have "c # s = [] @ (c # s) \<and> j = i + length [] \<and> rx_ends r (c # s) \<noteq> []
       \<and> e = hd (rx_ends r (c # s)) \<and> (\<forall>u' w. c # s = u' @ w \<and> length u' < length [] \<longrightarrow> rx_ends r w = [])"
      by simp
    then show ?thesis by blast
  next
    case Nil
    with Cons.prems have "rx_find r (Suc i) s = Some (j, e)" by (simp add: rx_find.simps [of r i])
    from Cons.IH [OF this] obtain u v where uv: "s = u @ v" "j = Suc i + length u"
      "rx_ends r v \<noteq> []" "e = hd (rx_ends r v)"
      and first: "\<forall>u' w. s = u' @ w \<and> length u' < length u \<longrightarrow> rx_ends r w = []" by blast
    have "rx_ends r w = []" if "c # s = u' @ w" "length u' < length (c # u)" for u' w
      using that first Nil by (cases u') auto
    with uv have "c # s = (c # u) @ v \<and> j = i + length (c # u) \<and> rx_ends r v \<noteq> []
       \<and> e = hd (rx_ends r v) \<and> (\<forall>u' w. c # s = u' @ w \<and> length u' < length (c # u) \<longrightarrow> rx_ends r w = [])"
      by simp
    then show ?thesis by blast
  qed
qed

lemma rx_find_first:
  assumes "s = u @ v" and "rx_ends r v \<noteq> []"
    and "\<And>u' w. s = u' @ w \<Longrightarrow> length u' < length u \<Longrightarrow> rx_ends r w = []"
  shows "rx_find r i s = Some (i + length u, hd (rx_ends r v))"
  using assms
proof (induction u arbitrary: s i)
  case Nil
  then show ?case by (cases "rx_ends r v") (simp_all add: rx_find.simps [of r i])
next
  case (Cons c u)
  have "rx_ends r s = []" using Cons.prems(3) [of "[]" s] by simp
  moreover have "rx_find r (Suc i) (u @ v) = Some (Suc i + length u, hd (rx_ends r v))"
  proof (rule Cons.IH [OF refl Cons.prems(2)])
    fix u' w
    assume "u @ v = u' @ w" "length u' < length u"
    with Cons.prems(1) Cons.prems(3) [of "c # u'" w] show "rx_ends r w = []" by simp
  qed
  ultimately show ?case using Cons.prems(1) by (simp add: rx_find.simps [of r i])
qed

lemma rx_find_None:
  "(\<And>u v. s = u @ v \<Longrightarrow> rx_ends r v = []) \<Longrightarrow> rx_find r i s = None"
proof (induction s arbitrary: i)
  case Nil
  then show ?case by (simp add: rx_find.simps [of r i])
next
  case (Cons c s)
  have "rx_ends r (c # s) = []" using Cons.prems [of "[]"] by simp
  moreover have "rx_find r (Suc i) s = None"
    by (rule Cons.IH) (use Cons.prems [of "c # _"] in simp)
  ultimately show ?case by (simp add: rx_find.simps [of r i])
qed

end
