(* ===== verification/Workflow_Validator.thy ===== *)
theory Workflow_Validator
  imports Go_Json_Decode Go_Regexp
begin

text \<open>
  \<^verbatim>\<open>internal/workflow/validator.go\<close> and the plan parser of \<^verbatim>\<open>engine.go\<close>: finding the JSON
  in an agent's output, decoding it into the structs, and the structural checks. The text of
  an error of \<^verbatim>\<open>encoding/json\<close> is not modelled: it is a parameter, \<open>jerr\<close>, of the functions
  that put it in their own error.
\<close>

section \<open>Tasks\<close>

record task =
  task_ID :: string
  task_Description :: string

fun dec_task :: "json \<Rightarrow> task option" where
  "dec_task (JObj ms) =
     (case (dec_string [] (field_values ''id'' ms), dec_string [] (field_values ''description'' ms)) of
        (Some i, Some d) \<Rightarrow> Some \<lparr>task_ID = i, task_Description = d\<rparr>
      | _ \<Rightarrow> None)"
| "dec_task JNull = Some \<lparr>task_ID = [], task_Description = []\<rparr>"
| "dec_task _ = None"

fun dec_task_elems :: "json list \<Rightarrow> task list option" where
  "dec_task_elems [] = Some []"
| "dec_task_elems (v # vs) =
     (case (dec_task v, dec_task_elems vs) of
        (Some t, Some ts) \<Rightarrow> Some (t # ts)
      | _ \<Rightarrow> None)"

definition unmarshal_tasks :: "string \<Rightarrow> task list option" where
  "unmarshal_tasks raw =
     (case json_parse raw of
        Some (JArr vs) \<Rightarrow> dec_task_elems vs
      | Some JNull \<Rightarrow> Some []
      | _ \<Rightarrow> None)"

definition is_brace :: "char \<Rightarrow> bool" where
  "is_brace c \<longleftrightarrow> c = CHR ''{'' \<or> c = CHR ''}''"

definition jsonArrayRe :: regex where
  "jsonArrayRe = rx_lit ''['' (RxSeq (RxStar (\<lambda>_. True)) (RxClass (\<lambda>c. c = CHR '']'')))"

definition blockRe :: "string \<Rightarrow> regex" where
  "blockRe key =
     rx_lit ''{'' (RxSeq (RxStar (\<lambda>c. \<not> is_brace c))
       (rx_lit key (RxSeq (RxStar (\<lambda>c. \<not> is_brace c)) (RxClass (\<lambda>c. c = CHR ''}'')))))"

definition terminalBlockRe :: regex where
  \<open>terminalBlockRe = blockRe ''"committed"''\<close>

definition verifyBlockRe :: regex where
  \<open>verifyBlockRe = blockRe ''"pass"''\<close>

definition ExtractVerifyBlock :: "string \<Rightarrow> string" where
  "ExtractVerifyBlock s0 =
     (let s = TrimSpace s0 in
      case FindStringIndex verifyBlockRe s of
        None \<Rightarrow> s
      | Some loc \<Rightarrow> str_slice s loc)"

record terminalBlock =
  tb_Committed :: bool
  tb_CommitSHA :: string
  tb_BuildOK :: bool
  tb_Notes :: string

definition unmarshal_terminalBlock :: "string \<Rightarrow> terminalBlock option" where
  "unmarshal_terminalBlock raw =
     (case json_parse raw of
        Some (JObj ms) \<Rightarrow>
          (case (dec_bool False (field_values ''committed'' ms), dec_string [] (field_values ''commit_sha'' ms),
                 dec_bool False (field_values ''build_ok'' ms), dec_string [] (field_values ''notes'' ms)) of
             (Some c, Some sha, Some b, Some n) \<Rightarrow>
               Some \<lparr>tb_Committed = c, tb_CommitSHA = sha, tb_BuildOK = b, tb_Notes = n\<rparr>
           | _ \<Rightarrow> None)
      | Some JNull \<Rightarrow> Some \<lparr>tb_Committed = False, tb_CommitSHA = [], tb_BuildOK = False, tb_Notes = []\<rparr>
      | _ \<Rightarrow> None)"

text \<open>The loop over the tasks, from index \<open>i\<close>: the first missing field is the error.\<close>

fun check_tasks :: "nat \<Rightarrow> task list \<Rightarrow> goerror option" where
  "check_tasks i [] = None"
| "check_tasks i (t # ts) =
     (if task_ID t = [] then Some (errorf (''task '' @ nat_str i @ '' missing id''))
      else if task_Description t = [] then Some (errorf (''task '' @ nat_str i @ '' missing description''))
      else check_tasks (Suc i) ts)"

definition ValidatePlanOutput :: "(string \<Rightarrow> goerror) \<Rightarrow> string \<Rightarrow> task list result" where
  "ValidatePlanOutput jerr output =
     (case FindStringIndex jsonArrayRe output of
        None \<Rightarrow> Inl (errorf ''plan output is not valid JSON: no JSON array found'')
      | Some loc \<Rightarrow>
          (let raw = str_slice output loc in
           case unmarshal_tasks raw of
             None \<Rightarrow> Inl (errorf_w ''plan output is not valid JSON: '' (jerr raw) [])
           | Some tasks \<Rightarrow>
               if length tasks = 0 then Inl (errorf ''plan returned empty task list'')
               else (case check_tasks 0 tasks of Some e \<Rightarrow> Inl e | None \<Rightarrow> Inr tasks)))"

definition parsePlanOutput :: "(string \<Rightarrow> goerror) \<Rightarrow> string \<Rightarrow> task list result" where
  "parsePlanOutput jerr output =
     (case FindStringIndex jsonArrayRe output of
        None \<Rightarrow> Inl (errorf ''no JSON array found in plan output'')
      | Some loc \<Rightarrow>
          (let raw = str_slice output loc in
           case unmarshal_tasks raw of
             None \<Rightarrow> Inl (errorf_w ''unmarshal plan JSON: '' (jerr raw) [])
           | Some tasks \<Rightarrow>
               if length tasks = 0 then Inl (errorf ''plan produced an empty task list'')
               else Inr tasks))"

definition ValidateImplementOutput :: "string \<Rightarrow> bool \<times> string list" where
  "ValidateImplementOutput output =
     (case FindStringIndex terminalBlockRe output of
        None \<Rightarrow> (False, [''no terminal status block in output''])
      | Some loc \<Rightarrow>
          (case unmarshal_terminalBlock (str_slice output loc) of
             None \<Rightarrow> (False, [''no terminal status block in output''])
           | Some block \<Rightarrow>
               (let issues =
                  (if \<not> tb_Committed block then [''agent did not commit''] else []) @
                  (if tb_CommitSHA block = [] then [''commit sha missing''] else []) @
                  (if \<not> tb_BuildOK block then [''build failed per agent report''] else [])
                in (length issues = 0, issues))))"

text \<open>The verifier's verdict, as the implement goroutine decodes it.\<close>

record verifyResult =
  vr_Pass :: bool
  vr_Issues :: "string list"

definition unmarshal_verifyResult :: "string \<Rightarrow> verifyResult option" where
  "unmarshal_verifyResult raw =
     (case json_parse raw of
        Some (JObj ms) \<Rightarrow>
          (case (dec_bool False (field_values ''pass'' ms), dec_strings [] (field_values ''issues'' ms)) of
             (Some p, Some is) \<Rightarrow> Some \<lparr>vr_Pass = p, vr_Issues = is\<rparr>
           | _ \<Rightarrow> None)
      | Some JNull \<Rightarrow> Some \<lparr>vr_Pass = False, vr_Issues = []\<rparr>
      | _ \<Rightarrow> None)"

definition IsUsageLimitError :: "string \<Rightarrow> bool" where
  "IsUsageLimitError s \<longleftrightarrow> str_Contains s ''You've hit your'' \<or> str_Contains s ''you've hit your''"

section \<open>Finding the JSON\<close>

definition close_ends :: "string \<Rightarrow> string list" where
  "close_ends t = concat (map (rx_ends (RxClass (\<lambda>c. c = CHR '']''))) (star_ends (\<lambda>_. True) t))"

lemma close_ends_Nil: "CHR '']'' \<notin> set t \<Longrightarrow> close_ends t = []"
  by (auto simp: close_ends_def set_star_ends split: list.splits)

lemma close_ends_Cons: "close_ends (c # t) = close_ends t @ rx_ends (RxClass (\<lambda>c. c = CHR '']'')) (c # t)"
  by (simp add: close_ends_def)

lemma close_ends_last:
  "CHR '']'' \<notin> set post \<Longrightarrow> \<exists>xs. close_ends (mid @ CHR '']'' # post) = post # xs"
proof (induction mid)
  case Nil
  then show ?case by (simp add: close_ends_Cons close_ends_Nil)
next
  case (Cons c mid)
  then show ?case by (auto simp: close_ends_Cons)
qed

lemma rx_ends_jsonArrayRe:
  "rx_ends jsonArrayRe s = (case s of [] \<Rightarrow> [] | c # t \<Rightarrow> if c = CHR ''['' then close_ends t else [])"
  by (simp add: jsonArrayRe_def close_ends_def split: list.splits)

lemma last_bracket:
  "c \<in> set t \<Longrightarrow> \<exists>mid post. t = mid @ c # post \<and> c \<notin> set post"
  by (metis split_list_last)

lemma first_split_suffix:
  "s = u @ c # t \<Longrightarrow> s = pre @ c # r \<Longrightarrow> c \<notin> set pre \<Longrightarrow> set t \<subseteq> set r"
  by (auto simp: append_eq_append_conv2 Cons_eq_append_conv append_eq_Cons_conv)

lemma find_jsonArrayRe:
  assumes "s = pre @ CHR ''['' # mid @ CHR '']'' # post"
    and "CHR ''['' \<notin> set pre" and "CHR '']'' \<notin> set post"
  shows "FindStringIndex jsonArrayRe s = Some (length pre, length pre + length mid + 2)"
proof -
  obtain xs where xs: "close_ends (mid @ CHR '']'' # post) = post # xs"
    using close_ends_last [OF assms(3)] by blast
  have none: "rx_ends jsonArrayRe w = []" if "s = u' @ w" "length u' < length pre" for u' w
  proof -
    from that assms(1) have "hd w \<in> set pre" "w \<noteq> []"
      by (auto simp: append_eq_append_conv2 Cons_eq_append_conv)
    with assms(2) show ?thesis by (cases w) (auto simp: rx_ends_jsonArrayRe)
  qed
  have "rx_find jsonArrayRe 0 s = Some (0 + length pre, hd (rx_ends jsonArrayRe (CHR ''['' # mid @ CHR '']'' # post)))"
    by (rule rx_find_first [OF assms(1)]) (use none xs in \<open>auto simp: rx_ends_jsonArrayRe\<close>)
  with xs assms(1) show ?thesis by (simp add: FindStringIndex_def rx_ends_jsonArrayRe)
qed

lemma find_jsonArrayRe_None:
  assumes "FindStringIndex jsonArrayRe s = None"
  shows "\<not> (\<exists>u v w. s = u @ CHR ''['' # v @ CHR '']'' # w)"
proof
  assume "\<exists>u v w. s = u @ CHR ''['' # v @ CHR '']'' # w"
  then obtain u v w where s: "s = u @ CHR ''['' # v @ CHR '']'' # w" by blast
  then have "CHR ''['' \<in> set s" by simp
  then obtain pre t where pre: "s = pre @ CHR ''['' # t" "CHR ''['' \<notin> set pre"
    by (metis split_list_first)
  have "CHR '']'' \<in> set t"
    using first_split_suffix [OF s pre] by auto
  then obtain mid post where "t = mid @ CHR '']'' # post" "CHR '']'' \<notin> set post"
    using last_bracket by metis
  with find_jsonArrayRe [of s pre mid post] pre assms show False by simp
qed

text \<open>The extracted text runs from the first opening bracket to the last closing one.\<close>

lemma jsonArray_slice:
  assumes "FindStringIndex jsonArrayRe s = Some loc"
  shows "\<exists>pre mid post. s = pre @ CHR ''['' # mid @ CHR '']'' # post
           \<and> CHR ''['' \<notin> set pre \<and> CHR '']'' \<notin> set post
           \<and> str_slice s loc = CHR ''['' # mid @ [CHR '']'']"
proof -
  from assms obtain i e where f: "rx_find jsonArrayRe 0 s = Some (i, e)"
    by (auto simp: FindStringIndex_def split: option.splits)
  from rx_find_Some [OF f] obtain u v where uv: "s = u @ v" "rx_ends jsonArrayRe v \<noteq> []" by blast
  then obtain t where t: "v = CHR ''['' # t" "close_ends t \<noteq> []"
    by (auto simp: rx_ends_jsonArrayRe split: list.splits if_splits)
  then have "CHR '']'' \<in> set t" using close_ends_Nil by blast
  then have "CHR ''['' \<in> set s" and ex: "\<exists>u v w. s = u @ CHR ''['' # v @ CHR '']'' # w"
    using uv t by (auto, metis split_list)
  then obtain pre r where pre: "s = pre @ CHR ''['' # r" "CHR ''['' \<notin> set pre"
    by (metis split_list_first)
  have "CHR '']'' \<in> set r"
    using first_split_suffix [OF _ pre, of u t] uv(1) t(1) \<open>CHR '']'' \<in> set t\<close> by auto
  then obtain mid post where mp: "r = mid @ CHR '']'' # post" "CHR '']'' \<notin> set post"
    using last_bracket by metis
  with find_jsonArrayRe [of s pre mid post] pre assms
  have "loc = (length pre, length pre + length mid + 2)" by simp
  with pre mp show ?thesis by (intro exI [of _ pre] exI [of _ mid] exI [of _ post]) (simp add: str_slice_def)
qed

section \<open>Brace-free blocks\<close>

lemma set_ends_star_class:
  "set (rx_ends (RxSeq (RxStar p) (RxClass q)) v) = {post. \<exists>w c. v = w @ c # post \<and> list_all p w \<and> q c}"
  by (force simp: set_star_ends split: list.splits if_splits)

lemma set_ends_star_lit:
  "set (rx_ends (RxSeq (RxStar p) (rx_lit key r)) v) =
     {e. \<exists>u x. v = u @ key @ x \<and> list_all p u \<and> e \<in> set (rx_ends r x)}"
  by (force simp: set_star_ends HasPrefix_iff split: if_splits)

lemma rx_ends_blockRe:
  "rx_ends (blockRe key) s = (case s of [] \<Rightarrow> [] | c # t \<Rightarrow>
     if c = CHR ''{'' then rx_ends (RxSeq (RxStar (\<lambda>c. \<not> is_brace c))
       (rx_lit key (RxSeq (RxStar (\<lambda>c. \<not> is_brace c)) (RxClass (\<lambda>c. c = CHR ''}''))))) t else [])"
  by (cases s) (simp_all add: blockRe_def)

lemma set_rx_ends_blockRe:
  "set (rx_ends (blockRe key) s) =
     {post. \<exists>u w. s = CHR ''{'' # (u @ key @ w) @ CHR ''}'' # post
              \<and> list_all (\<lambda>c. \<not> is_brace c) u \<and> list_all (\<lambda>c. \<not> is_brace c) w}"
proof (cases s)
  case (Cons c t)
  show ?thesis
  proof (cases "c = CHR ''{''")
    case True
    then have "set (rx_ends (blockRe key) s) =
      {e. \<exists>u x. t = u @ key @ x \<and> list_all (\<lambda>c. \<not> is_brace c) u \<and>
        (\<exists>w c. x = w @ c # e \<and> list_all (\<lambda>c. \<not> is_brace c) w \<and> c = CHR ''}'')}"
      using Cons by (simp only: rx_ends_blockRe list.case set_ends_star_lit set_ends_star_class
          simp_thms if_True mem_Collect_eq)
    also have "\<dots> = {post. \<exists>u w. t = u @ key @ w @ CHR ''}'' # post
              \<and> list_all (\<lambda>c. \<not> is_brace c) u \<and> list_all (\<lambda>c. \<not> is_brace c) w}"
      (is "?L = ?R")
    proof
      show "?L \<subseteq> ?R"
      proof
        fix e assume "e \<in> ?L"
        then obtain u x w c where "t = u @ key @ x" "list_all (\<lambda>c. \<not> is_brace c) u"
          "x = w @ c # e" "list_all (\<lambda>c. \<not> is_brace c) w" "c = CHR ''}''" by auto
        then show "e \<in> ?R" by auto
      qed
      show "?R \<subseteq> ?L"
      proof
        fix e assume "e \<in> ?R"
        then obtain u w where t: "t = u @ key @ (w @ CHR ''}'' # e)"
          and u: "list_all (\<lambda>c. \<not> is_brace c) u" and w: "list_all (\<lambda>c. \<not> is_brace c) w" by auto
        show "e \<in> ?L" unfolding mem_Collect_eq
          by (intro exI [of _ u] exI [of _ "w @ CHR ''}'' # e"] exI [of _ w] exI [of _ "CHR ''}''"] conjI
              t u w refl)
      qed
    qed
    finally show ?thesis using True Cons by simp
  qed (use Cons in \<open>simp add: rx_ends_blockRe\<close>)
qed (simp add: rx_ends_blockRe)

text \<open>
  What a block expression finds: a block without inner braces that contains the key, and none
  starts further left.
\<close>

lemma block_slice:
  assumes key: "list_all (\<lambda>c. \<not> is_brace c) key"
    and "FindStringIndex (blockRe key) s = Some loc"
  shows "\<exists>pre body post. s = pre @ CHR ''{'' # body @ CHR ''}'' # post
           \<and> list_all (\<lambda>c. \<not> is_brace c) body \<and> str_Contains body key
           \<and> str_slice s loc = CHR ''{'' # body @ [CHR ''}'']"
proof -
  from assms(2) obtain i e where f: "rx_find (blockRe key) 0 s = Some (i, e)"
    and loc: "loc = (i, length s - length e)"
    by (auto simp: FindStringIndex_def split: option.splits)
  from rx_find_Some [OF f] obtain pre v where s: "s = pre @ v" "i = length pre"
    and e: "rx_ends (blockRe key) v \<noteq> []" "e = hd (rx_ends (blockRe key) v)" by auto
  then have "e \<in> set (rx_ends (blockRe key) v)" by simp
  then obtain u w where v: "v = CHR ''{'' # (u @ key @ w) @ CHR ''}'' # e"
    and uw: "list_all (\<lambda>c. \<not> is_brace c) u" "list_all (\<lambda>c. \<not> is_brace c) w"
    unfolding set_rx_ends_blockRe by blast
  have "str_Contains (u @ key @ w) key" by (auto simp: str_Contains_iff)
  moreover have "str_slice s loc = CHR ''{'' # (u @ key @ w) @ [CHR ''}'']"
    using s loc v by (simp add: str_slice_def)
  ultimately show ?thesis
    using s v uw key by (intro exI [of _ pre] exI [of _ "u @ key @ w"] exI [of _ e]) simp
qed

lemma block_found:
  assumes "s = pre @ CHR ''{'' # body @ CHR ''}'' # post"
    and "list_all (\<lambda>c. \<not> is_brace c) body" and "str_Contains body key"
  shows "FindStringIndex (blockRe key) s \<noteq> None"
proof
  assume "FindStringIndex (blockRe key) s = None"
  then have none: "rx_find (blockRe key) 0 s = None"
    by (auto simp: FindStringIndex_def split: option.splits)
  from assms(3) obtain u w where b: "body = u @ key @ w" by (auto simp: str_Contains_iff)
  with assms(2) have "post \<in> set (rx_ends (blockRe key) (CHR ''{'' # body @ CHR ''}'' # post))"
    unfolding set_rx_ends_blockRe by auto
  then have ne: "rx_ends (blockRe key) (drop (length pre) s) \<noteq> []"
    using assms(1) by auto
  have "\<exists>x. rx_find r i t = Some x" if "rx_ends r (drop k t) \<noteq> []" for r i k t
    using that
  proof (induction k arbitrary: i t)
    case 0
    then show ?case by (cases "rx_ends r t") (simp_all add: rx_find.simps [of r i])
  next
    case (Suc k)
    then show ?case
      by (cases "rx_ends r t"; cases t) (auto simp: rx_find.simps [of r i])
  qed
  from this [OF ne, of 0] none show False by simp
qed

section \<open>What the validators accept\<close>

lemma check_tasks_None:
  "check_tasks i ts = None \<longleftrightarrow> (\<forall>t \<in> set ts. task_ID t \<noteq> [] \<and> task_Description t \<noteq> [])"
  by (induction ts arbitrary: i) auto

text \<open>The JSON a well-behaved planner writes for a task.\<close>

definition task_json :: "task \<Rightarrow> json" where
  "task_json t = JObj [(''id'', JStr (task_ID t)), (''description'', JStr (task_Description t))]"

lemma field_values_task [simp]:
  "field_values ''id'' [(''id'', a), (''description'', b)] = [a]"
  "field_values ''description'' [(''id'', a), (''description'', b)] = [b]"
  by (simp_all add: field_values_def fold_char_def)

lemma dec_task_json [simp]: "dec_task (task_json t) = Some t"
  by (simp add: task_json_def)

lemma dec_task_elems_map: "dec_task_elems (map task_json ts) = Some ts"
  by (induction ts) simp_all

definition task_utf8 :: "task \<Rightarrow> bool" where
  "task_utf8 t \<longleftrightarrow> utf8_valid (task_ID t) \<and> utf8_valid (task_Description t)"

lemma json_fix_task: "task_utf8 t \<Longrightarrow> json_fix (task_json t) = task_json t"
  by (simp add: task_json_def task_utf8_def utf8_valid_def)

lemma unmarshal_tasks_print:
  assumes "\<forall>t \<in> set ts. task_utf8 t"
  shows "unmarshal_tasks (json_print (JArr (map task_json ts))) = Some ts"
proof -
  let ?v = "JArr (map task_json ts)"
  have ok: "json_nums_ok ?v" by (simp add: list_all_iff task_json_def)
  have d: "json_depth ?v \<le> maxNestingDepth"
    by (simp add: maxNestingDepth_def fold_max_le task_json_def)
  have "json_fix ?v = ?v" using assms by (simp add: json_fix_task)
  with json_roundtrip [OF ok d] have "json_parse (json_print ?v) = Some ?v" by metis
  then show ?thesis by (simp only: unmarshal_tasks_def option.case json.case dec_task_elems_map)
qed

lemma find_array:
  assumes "CHR ''['' \<notin> set pre" and "CHR '']'' \<notin> set post"
  shows "\<exists>loc. FindStringIndex jsonArrayRe (pre @ json_print (JArr vs) @ post) = Some loc \<and>
    str_slice (pre @ json_print (JArr vs) @ post) loc = json_print (JArr vs)"
proof -
  obtain mid where m: "json_print (JArr vs) = CHR ''['' # mid @ [CHR '']'']" by (cases vs) auto
  then have "pre @ json_print (JArr vs) @ post = pre @ CHR ''['' # mid @ CHR '']'' # post" by simp
  from find_jsonArrayRe [OF this assms] m show ?thesis by (simp add: str_slice_def)
qed

text \<open>
  (C40) The plan a planner writes is the plan the engine runs: a JSON array of tasks with an ID and
  a description, with any text around it that has no bracket on the way, is accepted and gives
  back exactly these tasks in their order.
\<close>

theorem plan_accepted:
  assumes "ts \<noteq> []" and "\<forall>t\<in>set ts. task_utf8 t \<and> task_ID t \<noteq> [] \<and> task_Description t \<noteq> []"
    and "CHR ''['' \<notin> set pre" and "CHR '']'' \<notin> set post"
  shows "ValidatePlanOutput jerr (pre @ json_print (JArr (map task_json ts)) @ post) = Inr ts"
proof -
  obtain loc where l: "FindStringIndex jsonArrayRe (pre @ json_print (JArr (map task_json ts)) @ post) = Some loc"
    "str_slice (pre @ json_print (JArr (map task_json ts)) @ post) loc = json_print (JArr (map task_json ts))"
    using find_array [OF assms(3,4)] by blast
  have "unmarshal_tasks (json_print (JArr (map task_json ts))) = Some ts" using assms(2) by (intro unmarshal_tasks_print) blast
  with l assms(1,2) check_tasks_None [of 0 ts] show ?thesis by (simp add: ValidatePlanOutput_def Let_def)
qed

theorem plan_accepted_witness:
  "ValidatePlanOutput errorf (''Plan: '' @ json_print (JArr (map task_json [\<lparr>task_ID = ''a'', task_Description = ''b''\<rparr>])) @ '' done.'') =
     Inr [\<lparr>task_ID = ''a'', task_Description = ''b''\<rparr>]"
proof -
  have "utf8_valid ''a''" "utf8_valid ''b''" by code_simp+
  with plan_accepted [of "[\<lparr>task_ID = ''a'', task_Description = ''b''\<rparr>]" "''Plan: ''" "'' done.''"] show ?thesis by (simp add: task_utf8_def)
qed

end
