(* ===== verification/Engine.thy ===== *)
theory Engine
  imports Workflow_Store Workflow_Validator
begin

text \<open>
  \<^verbatim>\<open>internal/workflow/engine.go\<close>: the research, plan, implement, merge pipeline. Every
  function is a program over \<^typ>\<open>'w eworld\<close> whose steps are the accesses to the store, to the
  stages in memory, to the variables the workers share, and to the session layer. The session
  layer, git and the clock are parameters (\<open>engine\<close>); their state is the world's \<open>ew_ext\<close>.

  The retry loop around \<^verbatim>\<open>CreateSession\<close> has no bound of its own where the context has no
  deadline; it carries fuel, and a goroutine still waiting when the fuel runs out is
  \<open>Blocked\<close>. \<open>createSession_enough\<close> says how much is enough.
\<close>

record 'w engine =
  en_se :: store_env
  en_maxWorkers :: int
  en_token :: string
  en_newID :: "'w \<Rightarrow> string result \<times> 'w"
  en_CreateSession :: "string \<Rightarrow> string \<Rightarrow> string \<Rightarrow> string \<Rightarrow> 'w \<Rightarrow> string result \<times> 'w"
    \<comment> \<open>role, prompt, repository, branch\<close>
  en_WaitForSession :: "string \<Rightarrow> 'w \<Rightarrow> string result \<times> 'w"
  en_sleep :: "nat \<Rightarrow> 'w \<Rightarrow> goerror option \<times> 'w"
    \<comment> \<open>the \<^verbatim>\<open>select\<close> between \<^verbatim>\<open>ctx.Done()\<close> and so many seconds: the context's error, if it ended\<close>
  en_mergeFn :: "string \<Rightarrow> string \<Rightarrow> string \<Rightarrow> string list \<Rightarrow> 'w \<Rightarrow> goerror option \<times> 'w"
    \<comment> \<open>repository, base branch, token, branches\<close>
  en_jerr :: "string \<Rightarrow> goerror"
  en_fuel :: nat

definition NewEngine :: "'w engine \<Rightarrow> 'w engine" where
  "NewEngine en = (if en_maxWorkers en \<le> 0 then en\<lparr>en_maxWorkers := 3\<rparr> else en)"

definition implementBranchName :: "string \<Rightarrow> nat \<Rightarrow> string" where
  "implementBranchName wfID stageIdx =
     (let short = (if length wfID > 8 then take 8 wfID else wfID)
      in ''implement/'' @ short @ ''-'' @ nat_str stageIdx)"

definition ext_act :: "('w \<Rightarrow> 'a \<times> 'w) \<Rightarrow> ('w eworld, 'a) prog" where
  "ext_act f = act (\<lambda>w. case f (ew_ext w) of (a, x) \<Rightarrow> (a, w\<lparr>ew_ext := x\<rparr>))"

section \<open>Submitting\<close>

definition initial_stages :: "string \<Rightarrow> stage list" where
  "initial_stages i =
     [new_stage (i @ ''-research'') KindResearch StagePending [],
      new_stage (i @ ''-plan'') KindPlan StagePending []]"

definition now :: "'w engine \<Rightarrow> ('w eworld, instant) prog" where
  "now en = act (\<lambda>w. (se_clock (en_se en) (ew_ticks w), w\<lparr>ew_ticks := Suc (ew_ticks w)\<rparr>))"

definition alloc_stages :: "stage list \<Rightarrow> ('w eworld, slice) prog" where
  "alloc_stages xs = act (\<lambda>w. case slice_new (ew_heap w) xs of (h, sl) \<Rightarrow> (sl, w\<lparr>ew_heap := h\<rparr>))"

text \<open>The result \<open>Inr id\<close> means that \<^verbatim>\<open>go e.run(e.serverCtx, id)\<close> has been started.\<close>

definition SubmitWorkflow :: "'w engine \<Rightarrow> wf_hdr \<Rightarrow> ('w eworld, string result) prog" where
  "SubmitWorkflow en wf0 =
     bind (ext_act (en_newID en)) (\<lambda>r.
     case r of
       Inl e \<Rightarrow> Done (Inl e)
     | Inr i \<Rightarrow>
         bind (now en) (\<lambda>t.
         bind (alloc_stages (initial_stages i)) (\<lambda>sl.
         let w1 = wf0\<lparr>wf_ID := i, wf_Status := StatusQueued, wf_CreatedAt := t, wf_Stages := sl\<rparr> in
         bind (store_Upsert (en_se en) w1) (\<lambda>e1.
         case e1 of
           Some e \<Rightarrow> Done (Inl (errorf_w ''persist queued workflow: '' e []))
         | None \<Rightarrow>
             bind (store_Upsert (en_se en) (w1\<lparr>wf_Status := StatusRunning\<rparr>)) (\<lambda>e2.
             case e2 of
               Some e \<Rightarrow> Done (Inl (errorf_w ''persist running workflow: '' e []))
             | None \<Rightarrow> Done (Inr i))))))"

definition nil_slice :: slice where
  "nil_slice = \<lparr>sl_addr = 0, sl_len = 0\<rparr>"

definition Submit :: "'w engine \<Rightarrow> string \<Rightarrow> string \<Rightarrow> string \<Rightarrow> ('w eworld, string result) prog" where
  "Submit en inp repoURL branch =
     SubmitWorkflow en
       \<lparr>wf_ID = [], wf_Input = inp, wf_RepoURL = repoURL, wf_Branch = branch, wf_Status = StatusQueued,
        wf_Stages = nil_slice, wf_Error = [], wf_Config = \<lparr>VerifierPrompt = []\<rparr>, wf_CreatedAt = 0,
        wf_UpdatedAt = 0\<rparr>"

section \<open>One stage\<close>

definition markStageFailed :: "'w engine \<Rightarrow> string \<Rightarrow> string \<Rightarrow> goerror \<Rightarrow> ('w eworld, goerror) prog" where
  "markStageFailed en wfID stageID cause =
     bind (store_Get wfID) (\<lambda>g.
     case g of
       None \<Rightarrow> Done cause
     | Some wfl \<Rightarrow>
         bind (stageIndex wfl stageID) (\<lambda>idx.
         case idx of
           None \<Rightarrow> Done cause
         | Some k \<Rightarrow>
             bind (set_stage wfl k (\<lambda>st. st\<lparr>st_Status := StageFailed\<rparr>)) (\<lambda>_.
             bind (set_stage wfl k (\<lambda>st. st\<lparr>st_Error := error_text cause\<rparr>)) (\<lambda>_.
             bind (store_Upsert (en_se en) wfl) (\<lambda>_. Done cause)))))"

text \<open>
  The loop that creates the session: \<open>Ret (Inr id)\<close> when it is left with a session,
  \<open>Ret (Inl e)\<close> when the stage has failed with \<open>e\<close>.
\<close>

fun createSession :: "'w engine \<Rightarrow> nat \<Rightarrow> string \<Rightarrow> string \<Rightarrow> stage_kind \<Rightarrow> string \<Rightarrow> wf_hdr \<Rightarrow>
    ('w eworld, string result progress) prog" where
  "createSession en 0 wfID stageID kind prompt wfl = Done Blocked"
| "createSession en (Suc fuel) wfID stageID kind prompt wfl =
     bind (ext_act (en_CreateSession en (stage_kind_str kind) prompt (wf_RepoURL wfl) (wf_Branch wfl))) (\<lambda>r.
     case r of
       Inr sessionID \<Rightarrow> Done (Ret (Inr sessionID))
     | Inl cerr \<Rightarrow>
         if \<not> str_Contains (error_text cerr) ''no slots available'' then
           bind (markStageFailed en wfID stageID (errorf_w ''create session: '' cerr [])) (\<lambda>e.
           Done (Ret (Inl e)))
         else
           bind (ext_act (en_sleep en 5)) (\<lambda>d.
           case d of
             Some e \<Rightarrow> bind (markStageFailed en wfID stageID e) (\<lambda>e. Done (Ret (Inl e)))
           | None \<Rightarrow> createSession en fuel wfID stageID kind prompt wfl))"

definition err_usage_limit :: goerror where
  "err_usage_limit = GoError ''usage limit reached'' [ErrUsageLimit]"

definition failed :: "'w engine \<Rightarrow> string \<Rightarrow> string \<Rightarrow> goerror \<Rightarrow> ('w eworld, goerror option progress) prog" where
  "failed en wfID stageID e = bind (markStageFailed en wfID stageID e) (\<lambda>c. Done (Ret (Some c)))"

text \<open>The part of \<^verbatim>\<open>runStage\<close> after the session exists.\<close>

definition finishStage :: "'w engine \<Rightarrow> string \<Rightarrow> string \<Rightarrow> string \<Rightarrow> ('w eworld, goerror option progress) prog" where
  "finishStage en wfID stageID sessionID =
     bind (ext_act (en_WaitForSession en sessionID)) (\<lambda>r.
     case r of
       Inl err \<Rightarrow>
         if errors_Is err ErrUsageLimit then
           failed en wfID stageID (errorf_w [] err_usage_limit ('' (session '' @ sessionID @ '')''))
         else failed en wfID stageID (errorf_w (''session '' @ sessionID @ '': '') err [])
     | Inr res \<Rightarrow>
         if IsUsageLimitError res then
           failed en wfID stageID
             (errorf_w [] err_usage_limit ('' (session '' @ sessionID @ '', detected in output)''))
         else
           bind (store_Get wfID) (\<lambda>g.
           case g of
             None \<Rightarrow> Done (Ret (Some (errorf (''workflow '' @ wfID @ '' not found after WaitForSession''))))
           | Some wfl \<Rightarrow>
               bind (stageIndex wfl stageID) (\<lambda>idx.
               case idx of
                 None \<Rightarrow> Done (Ret (Some (errorf (''stage '' @ stageID @ '' missing after WaitForSession''))))
               | Some k \<Rightarrow>
                   bind (set_stage wfl k (\<lambda>st. st\<lparr>st_Output := res\<rparr>)) (\<lambda>_.
                   bind (set_stage wfl k (\<lambda>st. st\<lparr>st_Status := StageDone\<rparr>)) (\<lambda>_.
                   bind (store_Upsert (en_se en) wfl) (\<lambda>e.
                   case e of
                     Some e \<Rightarrow> Done (Ret (Some (errorf_w (''persist stage '' @ stageID @ '' done: '') e [])))
                   | None \<Rightarrow> Done (Ret None)))))))"

definition recordSession :: "'w engine \<Rightarrow> string \<Rightarrow> string \<Rightarrow> string \<Rightarrow> ('w eworld, bool) prog" where
  "recordSession en wfID stageID sessionID =
     bind (store_Get wfID) (\<lambda>g.
     case g of
       None \<Rightarrow> Done False
     | Some wfl \<Rightarrow>
         bind (stageIndex wfl stageID) (\<lambda>idx.
         case idx of
           None \<Rightarrow> Done True
         | Some k \<Rightarrow>
             bind (set_stage wfl k (\<lambda>st. st\<lparr>st_SessionID := sessionID\<rparr>)) (\<lambda>_.
             bind (store_Upsert (en_se en) wfl) (\<lambda>_. Done True))))"

definition startStage :: "'w engine \<Rightarrow> string \<Rightarrow> string \<Rightarrow> string \<Rightarrow> ('w eworld, wf_hdr result) prog" where
  "startStage en wfID stageID prompt =
     bind (store_Get wfID) (\<lambda>g.
     case g of
       None \<Rightarrow> Done (Inl (errorf (''workflow '' @ wfID @ '' not found'')))
     | Some wfl \<Rightarrow>
         bind (stageIndex wfl stageID) (\<lambda>idx.
         case idx of
           None \<Rightarrow> Done (Inl (errorf (''stage '' @ stageID @ '' not found in workflow '' @ wfID)))
         | Some k \<Rightarrow>
             bind (set_stage wfl k (\<lambda>st. st\<lparr>st_Status := StageRunning\<rparr>)) (\<lambda>_.
             bind (set_stage wfl k (\<lambda>st. st\<lparr>st_Input := prompt\<rparr>)) (\<lambda>_.
             bind (store_Upsert (en_se en) wfl) (\<lambda>e.
             case e of
               Some e \<Rightarrow> Done (Inl (errorf_w (''persist stage '' @ stageID @ '' running: '') e []))
             | None \<Rightarrow> Done (Inr wfl))))))"

definition runStage :: "'w engine \<Rightarrow> string \<Rightarrow> string \<Rightarrow> stage_kind \<Rightarrow> string \<Rightarrow>
    ('w eworld, goerror option progress) prog" where
  "runStage en wfID stageID kind prompt =
     bind (startStage en wfID stageID prompt) (\<lambda>s.
     case s of
       Inl e \<Rightarrow> Done (Ret (Some e))
     | Inr wfl \<Rightarrow>
         bind (createSession en (en_fuel en) wfID stageID kind prompt wfl) (\<lambda>r.
         case r of
           Blocked \<Rightarrow> Done Blocked
         | Ret (Inl e) \<Rightarrow> Done (Ret (Some e))
         | Ret (Inr sessionID) \<Rightarrow>
             bind (recordSession en wfID stageID sessionID) (\<lambda>found.
             if \<not> found then
               Done (Ret (Some (errorf (''workflow '' @ wfID @ '' not found after CreateSession''))))
             else finishStage en wfID stageID sessionID)))"

fun pending_index :: "stage list \<Rightarrow> stage_kind \<Rightarrow> nat option" where
  "pending_index [] kind = None"
| "pending_index (st # sts) kind =
     (if st_Kind st = kind \<and> st_Status st = StagePending then Some 0
      else map_option Suc (pending_index sts kind))"

definition executeNamedStage :: "'w engine \<Rightarrow> string \<Rightarrow> stage_kind \<Rightarrow> (wf_hdr \<Rightarrow> string) \<Rightarrow>
    ('w eworld, string result progress) prog" where
  "executeNamedStage en wfID kind promptFn =
     bind (store_Get wfID) (\<lambda>g.
     case g of
       None \<Rightarrow> Done (Ret (Inl (errorf (''workflow '' @ wfID @ '' not found''))))
     | Some wfl \<Rightarrow>
         bind (read (\<lambda>w. pending_index (slice_list (ew_heap w) (wf_Stages wfl)) kind)) (\<lambda>idx.
         case idx of
           None \<Rightarrow> Done (Ret (Inl (errorf (''no pending '' @ stage_kind_str kind @ '' stage in workflow '' @ wfID))))
         | Some k \<Rightarrow>
             let prompt = promptFn wfl in
             bind (get_stage wfl k) (\<lambda>st.
             let stageID = st_ID st in
             bind (runStage en wfID stageID kind prompt) (\<lambda>r.
             case r of
               Blocked \<Rightarrow> Done Blocked
             | Ret (Some e) \<Rightarrow> Done (Ret (Inl e))
             | Ret None \<Rightarrow>
                 bind (store_Get wfID) (\<lambda>g2.
                 case g2 of
                   None \<Rightarrow> Done (Ret (Inl (errorf (''workflow '' @ wfID @ '' not found after '' @
                             stage_kind_str kind @ '' stage''))))
                 | Some wf2 \<Rightarrow>
                     bind (stageIndex wf2 stageID) (\<lambda>idx2.
                     case idx2 of
                       None \<Rightarrow> Done (Ret (Inl (errorf (''stage '' @ stageID @ '' not found after execution''))))
                     | Some k2 \<Rightarrow> bind (get_stage wf2 k2) (\<lambda>st2. Done (Ret (Inr (st_Output st2))))))))))"

definition failWorkflow :: "'w engine \<Rightarrow> string \<Rightarrow> goerror \<Rightarrow> ('w eworld, unit) prog" where
  "failWorkflow en i cause =
     bind (store_Get i) (\<lambda>g.
     case g of
       None \<Rightarrow> Done ()
     | Some wfl \<Rightarrow>
         bind (store_Upsert (en_se en) (wfl\<lparr>wf_Status := StatusFailed, wf_Error := error_text cause\<rparr>))
           (\<lambda>_. Done ()))"

section \<open>The pipeline\<close>

text \<open>The prompts read only the scalar fields, so they are the same for a header and for a value.\<close>

definition research_prompt :: "'s workflow \<Rightarrow> string" where
  "research_prompt wfl = ResearchPrompt (zero_stage_config
     \<lparr>sc_Goal := wf_Input wfl, sc_RepoURL := wf_RepoURL wfl, sc_Branch := wf_Branch wfl\<rparr>)"

definition plan_prompt :: "string \<Rightarrow> 's workflow \<Rightarrow> string" where
  "plan_prompt researchOutput wfl = PlanPrompt (zero_stage_config
     \<lparr>sc_Goal := wf_Input wfl, sc_RepoURL := wf_RepoURL wfl, sc_Branch := wf_Branch wfl,
      sc_PreviousOutput := researchOutput\<rparr>)"

text \<open>The implement stages of a list of tasks, numbered from \<open>i\<close>.\<close>

fun implement_stages :: "string \<Rightarrow> nat \<Rightarrow> task list \<Rightarrow> stage list" where
  "implement_stages wid i [] = []"
| "implement_stages wid i (t # ts) =
     new_stage (wid @ ''-implement-'' @ nat_str i) KindImplement StagePending (task_Description t)
       # implement_stages wid (Suc i) ts"

text \<open>\<^verbatim>\<open>for i, task := range tasks { wf.Stages = append(wf.Stages, ...) }\<close>: one append per task.\<close>

fun append_each :: "store_env \<Rightarrow> wf_hdr \<Rightarrow> stage list \<Rightarrow> ('w eworld, wf_hdr) prog" where
  "append_each se wfl [] = Done wfl"
| "append_each se wfl (st # sts) = bind (append_stages se wfl [st]) (\<lambda>wfl'. append_each se wfl' sts)"

text \<open>
  Everything up to the storing of the implement stages: \<open>Ret True\<close> when they are stored,
  \<open>Ret False\<close> when \<^verbatim>\<open>run\<close> has returned.
\<close>

definition run_plan :: "'w engine \<Rightarrow> string \<Rightarrow> ('w eworld, bool progress) prog" where
  "run_plan en wid =
     bind (executeNamedStage en wid KindResearch research_prompt) (\<lambda>r1.
     case r1 of
       Blocked \<Rightarrow> Done Blocked
     | Ret (Inl e) \<Rightarrow> bind (failWorkflow en wid e) (\<lambda>_. Done (Ret False))
     | Ret (Inr researchOutput) \<Rightarrow>
     bind (executeNamedStage en wid KindPlan (plan_prompt researchOutput)) (\<lambda>r2.
     case r2 of
       Blocked \<Rightarrow> Done Blocked
     | Ret (Inl e) \<Rightarrow> bind (failWorkflow en wid e) (\<lambda>_. Done (Ret False))
     | Ret (Inr planOutput) \<Rightarrow>
     (case ValidatePlanOutput (en_jerr en) planOutput of
       Inl e \<Rightarrow> bind (failWorkflow en wid (errorf_w ''plan validation: '' e [])) (\<lambda>_. Done (Ret False))
     | Inr tasks \<Rightarrow>
     bind (store_Get wid) (\<lambda>g.
     case g of
       None \<Rightarrow> Done (Ret False)
     | Some wfl \<Rightarrow>
     bind (append_each (en_se en) wfl (implement_stages wid 0 tasks)) (\<lambda>wfl'.
     bind (store_Upsert (en_se en) wfl') (\<lambda>u.
     case u of
       Some e \<Rightarrow> bind (failWorkflow en wid (errorf_w ''persist implement stages: '' e [])) (\<lambda>_. Done (Ret False))
     | None \<Rightarrow> Done (Ret True)))))))"

text \<open>
  Everything before the fan-out. \<open>Ret (Some wf)\<close>: the fan-out starts from \<open>wf\<close>;
  \<open>Ret None\<close>: \<^verbatim>\<open>run\<close> has returned.
\<close>

definition run_front :: "'w engine \<Rightarrow> string \<Rightarrow> ('w eworld, wf_hdr option progress) prog" where
  "run_front en wid =
     bind (run_plan en wid) (\<lambda>r.
     case r of
       Blocked \<Rightarrow> Done Blocked
     | Ret stored \<Rightarrow> if \<not> stored then Done (Ret None) else bind (store_Get wid) (\<lambda>g. Done (Ret g)))"

section \<open>An implement worker\<close>

text \<open>\<^verbatim>\<open>mu.Lock(); if firstErr == nil { firstErr = e }; mu.Unlock()\<close> on the variables of frame \<open>k\<close>.\<close>

definition set_firstErr :: "nat \<Rightarrow> goerror \<Rightarrow> ('w eworld, unit) prog" where
  "set_firstErr k e = modify (\<lambda>w. w\<lparr>ew_frames := (ew_frames w)[k :=
     (case fr_firstErr (ew_frames w ! k) of
        None \<Rightarrow> (ew_frames w ! k)\<lparr>fr_firstErr := Some e\<rparr>
      | Some _ \<Rightarrow> ew_frames w ! k)]\<rparr>)"

definition add_branch :: "nat \<Rightarrow> string \<Rightarrow> ('w eworld, unit) prog" where
  "add_branch k b = modify (\<lambda>w. w\<lparr>ew_frames := (ew_frames w)[k :=
     (ew_frames w ! k)\<lparr>fr_succeeded := fr_succeeded (ew_frames w ! k) @ [b]\<rparr>]\<rparr>)"

text \<open>
  Every way out of a worker's body ends in one of two actions: \<open>Some e\<close> records \<open>e\<close>
  unless an error is recorded already, \<open>None\<close> adds the branch to the succeeded ones.
\<close>

definition settle :: "nat \<Rightarrow> string \<Rightarrow> goerror option progress \<Rightarrow> ('w eworld, unit progress) prog" where
  "settle k branchName r =
     (case r of
        Blocked \<Rightarrow> Done Blocked
      | Ret (Some e) \<Rightarrow> bind (set_firstErr k e) (\<lambda>_. Done (Ret ()))
      | Ret None \<Rightarrow> bind (add_branch k branchName) (\<lambda>_. Done (Ret ())))"

definition implement_prompt :: "'s workflow \<Rightarrow> string \<Rightarrow> string \<Rightarrow> string" where
  "implement_prompt wfl branchName taskDesc = ImplementPrompt (zero_stage_config
     \<lparr>sc_Goal := wf_Input wfl, sc_RepoURL := wf_RepoURL wfl, sc_Branch := branchName,
      sc_BaseBranch := wf_Branch wfl, sc_PreviousOutput := taskDesc\<rparr>)"

definition verify_prompt :: "'s workflow \<Rightarrow> string \<Rightarrow> string \<Rightarrow> string \<Rightarrow> string" where
  "verify_prompt wfl branchName taskDesc implementSessionID = VerifyPrompt (zero_stage_config
     \<lparr>sc_Goal := wf_Input wfl, sc_RepoURL := wf_RepoURL wfl, sc_Branch := branchName,
      sc_PreviousOutput := taskDesc, sc_ImplementSession := implementSessionID,
      sc_VerifierPrompt := VerifierPrompt (wf_Config wfl)\<rparr>)"

text \<open>Adding the pending verify stage: load, append, store. \<open>False\<close>: the workflow is gone.\<close>

definition appendVerify :: "'w engine \<Rightarrow> string \<Rightarrow> string \<Rightarrow> ('w eworld, bool) prog" where
  "appendVerify en wid verifyStageID =
     bind (store_Get wid) (\<lambda>g.
     case g of
       None \<Rightarrow> Done False
     | Some wfl \<Rightarrow>
         bind (append_stages (en_se en) wfl [new_stage verifyStageID KindVerify StagePending []]) (\<lambda>wfl'.
         bind (store_Upsert (en_se en) wfl') (\<lambda>_. Done True)))"

text \<open>Recording the verify session on the implement stage.\<close>

definition recordVerifySession :: "'w engine \<Rightarrow> string \<Rightarrow> string \<Rightarrow> string \<Rightarrow> ('w eworld, unit) prog" where
  "recordVerifySession en wid stageID verifyStageID =
     bind (store_Get wid) (\<lambda>g.
     case g of
       None \<Rightarrow> Done ()
     | Some wfl \<Rightarrow>
         bind (stageIndex wfl verifyStageID) (\<lambda>v.
         bind (stageIndex wfl stageID) (\<lambda>i.
         case (v, i) of
           (Some vIdx, Some iIdx) \<Rightarrow>
             bind (get_stage wfl vIdx) (\<lambda>vst.
             bind (set_stage wfl iIdx (\<lambda>st. st\<lparr>st_VerifySessionID := st_SessionID vst\<rparr>)) (\<lambda>_.
             bind (store_Upsert (en_se en) wfl) (\<lambda>_. Done ())))
         | _ \<Rightarrow> Done ())))"

text \<open>The verifier's verdict on an implement stage whose verify stage has run.\<close>

definition judge :: "'w engine \<Rightarrow> string \<Rightarrow> string \<Rightarrow> string \<Rightarrow> ('w eworld, goerror option progress) prog" where
  "judge en wid stageID verifyOutput =
     (let reject = (\<lambda>issueMsg.
        bind (markStageFailed en wid stageID (errorf issueMsg)) (\<lambda>_.
        Done (Ret (Some (errorf (''implement stage '' @ stageID @ '': '' @ issueMsg))))))
      in case unmarshal_verifyResult (ExtractVerifyBlock verifyOutput) of
        None \<Rightarrow> reject (''verifier output not parseable: '' @ verifyOutput)
      | Some vr \<Rightarrow>
          if \<not> vr_Pass vr then reject (''verifier: '' @ str_Join (vr_Issues vr) ''; '')
          else Done (Ret None))"

text \<open>Reading the verdict: a verify stage that is not there counts as empty output.\<close>

definition verdict :: "'w engine \<Rightarrow> string \<Rightarrow> string \<Rightarrow> ('w eworld, goerror option progress) prog" where
  "verdict en wid stageID =
     bind (store_Get wid) (\<lambda>g.
     case g of
       None \<Rightarrow> Done (Ret (Some (errorf (''workflow '' @ wid @ '' not found after verify stage''))))
     | Some freshWF \<Rightarrow>
         bind (stageIndex freshWF (stageID @ ''-verify'')) (\<lambda>v.
         case v of
           None \<Rightarrow> judge en wid stageID []
         | Some vIdx \<Rightarrow> bind (get_stage freshWF vIdx) (\<lambda>vst. judge en wid stageID (st_Output vst))))"

definition verify_part :: "'w engine \<Rightarrow> string \<Rightarrow> string \<Rightarrow> string \<Rightarrow> ('w eworld, goerror option progress) prog" where
  "verify_part en wid stageID prompt =
     bind (appendVerify en wid (stageID @ ''-verify'')) (\<lambda>there.
     if \<not> there then Done (Ret (Some (errorf (''workflow '' @ wid @ '' not found before verify stage''))))
     else
       bind (runStage en wid (stageID @ ''-verify'') KindVerify prompt) (\<lambda>r.
       case r of
         Blocked \<Rightarrow> Done Blocked
       | Ret verifyRunErr \<Rightarrow>
           bind (recordVerifySession en wid stageID (stageID @ ''-verify'')) (\<lambda>_.
           case verifyRunErr of
             Some e \<Rightarrow> Done (Ret (Some e))
           | None \<Rightarrow> verdict en wid stageID)))"

text \<open>The implement stage's output and session, reloaded: \<open>Inl\<close> when they are gone.\<close>

definition reload :: "string \<Rightarrow> string \<Rightarrow> ('w eworld, (string \<times> string) result) prog" where
  "reload wid stageID =
     bind (store_Get wid) (\<lambda>g.
     case g of
       None \<Rightarrow> Done (Inl (errorf (''workflow '' @ wid @ '' not found after implement stage'')))
     | Some freshWF \<Rightarrow>
         bind (stageIndex freshWF stageID) (\<lambda>i.
         case i of
           None \<Rightarrow> Done (Inl (errorf (''implement stage '' @ stageID @ '' not found after execution'')))
         | Some implIdx \<Rightarrow>
             bind (get_stage freshWF implIdx) (\<lambda>sto.
             bind (get_stage freshWF implIdx) (\<lambda>sts.
             Done (Inr (st_Output sto, st_SessionID sts))))))"

definition implement_work :: "'w engine \<Rightarrow> string \<Rightarrow> wf_hdr \<Rightarrow> string \<Rightarrow> string \<Rightarrow> string \<Rightarrow>
    ('w eworld, goerror option progress) prog" where
  "implement_work en wid wfl stageID taskDesc branchName =
     bind (runStage en wid stageID KindImplement (implement_prompt wfl branchName taskDesc)) (\<lambda>r.
     case r of
       Blocked \<Rightarrow> Done Blocked
     | Ret (Some runErr) \<Rightarrow> Done (Ret (Some runErr))
     | Ret None \<Rightarrow>
         bind (reload wid stageID) (\<lambda>out.
         case out of
           Inl e \<Rightarrow> Done (Ret (Some e))
         | Inr (implOutput, implementSessionID) \<Rightarrow>
             (case ValidateImplementOutput implOutput of
                (structOK, structIssues) \<Rightarrow>
                  if \<not> structOK then
                    (let issueMsg = str_Join structIssues ''; '' in
                     bind (markStageFailed en wid stageID (errorf (''structural validation: '' @ issueMsg))) (\<lambda>_.
                     Done (Ret (Some (errorf (''implement stage '' @ stageID @ '' structural validation: '' @ issueMsg))))))
                  else verify_part en wid stageID (verify_prompt wfl branchName taskDesc implementSessionID))))"

definition implement_worker :: "'w engine \<Rightarrow> nat \<Rightarrow> string \<Rightarrow> wf_hdr \<Rightarrow> nat \<Rightarrow> nat \<Rightarrow>
    ('w eworld, unit progress) prog" where
  "implement_worker en k wid wfl stageIdx taskIdx =
     bind (get_stage wfl stageIdx) (\<lambda>st0.
     bind (get_stage wfl stageIdx) (\<lambda>st1.
     let stageID = st_ID st0; taskDesc = st_Input st1; branchName = implementBranchName wid taskIdx in
     bind (implement_work en wid wfl stageID taskDesc branchName) (settle k branchName)))"

text \<open>The loop that starts the workers: the index of each implement stage, and its number among them.\<close>

fun implement_jobs :: "nat \<Rightarrow> nat \<Rightarrow> stage list \<Rightarrow> (nat \<times> nat) list" where
  "implement_jobs i t [] = []"
| "implement_jobs i t (st # sts) =
     (if st_Kind st = KindImplement then (i, t) # implement_jobs (Suc i) (Suc t) sts
      else implement_jobs (Suc i) t sts)"

definition implement_workers :: "'w engine \<Rightarrow> nat \<Rightarrow> string \<Rightarrow> wf_hdr \<Rightarrow> stage list \<Rightarrow>
    ('w eworld, unit progress) prog list" where
  "implement_workers en k wid wfl stages =
     map (\<lambda>(i, t). implement_worker en k wid wfl i t) (implement_jobs 0 0 stages)"

section \<open>Merging\<close>

definition run_back :: "'w engine \<Rightarrow> nat \<Rightarrow> string \<Rightarrow> ('w eworld, unit) prog" where
  "run_back en k wid =
     (let mergeStageID = wid @ ''-merge'' in
      bind (store_Get wid) (\<lambda>g.
      case g of
        None \<Rightarrow> Done ()
      | Some wf1 \<Rightarrow>
      bind (append_stages (en_se en) wf1 [new_stage mergeStageID KindMerge StageRunning []]) (\<lambda>wf1.
      bind (store_Upsert (en_se en) wf1) (\<lambda>_.
      bind (read (\<lambda>w. fr_succeeded (ew_frames w ! k))) (\<lambda>branches.
      bind (ext_act (en_mergeFn en (wf_RepoURL wf1) (wf_Branch wf1) (en_token en) branches)) (\<lambda>mergeErr.
      bind (store_Get wid) (\<lambda>g2.
      case g2 of
        None \<Rightarrow> Done ()
      | Some wf2 \<Rightarrow>
      bind (stageIndex wf2 mergeStageID) (\<lambda>idx.
      bind (case idx of
              None \<Rightarrow> Done ()
            | Some i \<Rightarrow>
                (case mergeErr of
                   Some e \<Rightarrow>
                     bind (set_stage wf2 i (\<lambda>st. st\<lparr>st_Status := StageFailed\<rparr>)) (\<lambda>_.
                     set_stage wf2 i (\<lambda>st. st\<lparr>st_Error := error_text e\<rparr>))
                 | None \<Rightarrow> set_stage wf2 i (\<lambda>st. st\<lparr>st_Status := StageDone\<rparr>))) (\<lambda>_.
      bind (read (\<lambda>w. fr_firstErr (ew_frames w ! k))) (\<lambda>firstErr.
      let wf3 = (case (firstErr, mergeErr) of
                   (Some e, _) \<Rightarrow> wf2\<lparr>wf_Status := StatusFailed, wf_Error := error_text e\<rparr>
                 | (None, Some e) \<Rightarrow> wf2\<lparr>wf_Status := StatusFailed, wf_Error := error_text e\<rparr>
                 | (None, None) \<Rightarrow> wf2\<lparr>wf_Status := StatusDone\<rparr>)
      in bind (store_Upsert (en_se en) wf3) (\<lambda>_. Done ())))))))))))"

section \<open>A run among other goroutines\<close>

text \<open>
  \<^verbatim>\<open>run\<close> as a transition system: the front part, the workers behind the semaphore, the back
  part. \<open>E\<close> are the steps the rest of the server takes meanwhile; they cannot reach the
  variables of this run, which are allocated when the fan-out starts. The starting loop reads only the kinds of the stages, which
  no goroutine changes, so the workers are created together.
\<close>

datatype 'w run_phase =
    Front "('w eworld, wf_hdr option progress) prog"
  | Fan nat wf_hdr "('w eworld, unit) worker list"
  | Back nat nat "('w eworld, unit) prog"
  | Ended

definition empty_frame :: frame where
  "empty_frame = \<lparr>fr_firstErr = None, fr_succeeded = []\<rparr>"

fun own_frame_kept :: "'w run_phase \<Rightarrow> 'w eworld \<Rightarrow> 'w eworld \<Rightarrow> bool" where
  "own_frame_kept (Fan k wfl ws) w w' \<longleftrightarrow> k < length (ew_frames w') \<and> ew_frames w' ! k = ew_frames w ! k"
| "own_frame_kept (Back k n p) w w' \<longleftrightarrow> k < length (ew_frames w') \<and> ew_frames w' ! k = ew_frames w ! k"
| "own_frame_kept _ w w' \<longleftrightarrow> True"

inductive run_step :: "'w engine \<Rightarrow> string \<Rightarrow> ('w eworld \<Rightarrow> 'w eworld \<Rightarrow> bool) \<Rightarrow>
    'w run_phase \<times> 'w eworld \<Rightarrow> 'w run_phase \<times> 'w eworld \<Rightarrow> bool" for en wid E where
  rs_front: "f w = (p, w') \<Longrightarrow> run_step en wid E (Front (Step f), w) (Front p, w')"
| rs_return: "run_step en wid E (Front (Done (Ret None)), w) (Ended, w)"
| rs_fork: "stages = slice_list (ew_heap w) (wf_Stages wfl) \<Longrightarrow> k = length (ew_frames w) \<Longrightarrow>
     run_step en wid E (Front (Done (Ret (Some wfl))), w)
       (Fan k wfl (map Waiting (implement_workers en k wid wfl stages)), w\<lparr>ew_frames := ew_frames w @ [empty_frame]\<rparr>)"
| rs_fan: "fan_step (nat (en_maxWorkers en)) (\<lambda>_ _. False) (ws, w) (ws', w') \<Longrightarrow>
     run_step en wid E (Fan k wfl ws, w) (Fan k wfl ws', w')"
| rs_join: "all_finished ws \<Longrightarrow> run_step en wid E (Fan k wfl ws, w) (Back k (length ws) (run_back en k wid), w)"
| rs_back: "f w = (p, w') \<Longrightarrow> run_step en wid E (Back k n (Step f), w) (Back k n p, w')"
| rs_end: "run_step en wid E (Back k n (Done ()), w) (Ended, w)"
| rs_env: "E w w' \<Longrightarrow> own_frame_kept ph w w' \<Longrightarrow> run_step en wid E (ph, w) (ph, w')"

inductive_cases run_stepE: "run_step en wid E c d"

inductive run_reach :: "'w engine \<Rightarrow> string \<Rightarrow> ('w eworld \<Rightarrow> 'w eworld \<Rightarrow> bool) \<Rightarrow> 'w eworld \<Rightarrow>
    'w run_phase \<times> 'w eworld \<Rightarrow> bool" for en wid E w0 where
  rr_start: "run_reach en wid E w0 (Front (run_front en wid), w0)"
| rr_step: "run_reach en wid E w0 c \<Longrightarrow> run_step en wid E c d \<Longrightarrow> run_reach en wid E w0 d"

section \<open>Resuming\<close>

text \<open>
  The loop over the stages: \<open>is\<close> are the indices still to visit, \<open>n\<close> counts the stages
  reset. It writes through the slice of the loaded copy, which is the store's own array.
\<close>

fun resume_loop :: "wf_hdr \<Rightarrow> nat list \<Rightarrow> nat \<Rightarrow> ('w eworld, nat) prog" where
  "resume_loop wfl [] n = Done n"
| "resume_loop wfl (i # is) n =
     bind (get_stage wfl i) (\<lambda>st.
     if st_Status st = StageFailed \<and> st_Input st \<noteq> [] then
       bind (set_stage wfl i (\<lambda>st. st\<lparr>st_Status := StagePending\<rparr>)) (\<lambda>_.
       bind (set_stage wfl i (\<lambda>st. st\<lparr>st_Error := []\<rparr>)) (\<lambda>_.
       resume_loop wfl is (Suc n)))
     else resume_loop wfl is n)"

text \<open>\<open>None\<close> means that \<^verbatim>\<open>go e.resumeRun(e.serverCtx, wfID)\<close> has been started.\<close>

definition Resume :: "'w engine \<Rightarrow> string \<Rightarrow> ('w eworld, goerror option) prog" where
  "Resume en wfID =
     bind (store_Get wfID) (\<lambda>g.
     case g of
       None \<Rightarrow> Done (Some (errorf (''workflow '' @ wfID @ '' not found'')))
     | Some wfl \<Rightarrow>
         bind (resume_loop wfl [0..<sl_len (wf_Stages wfl)] 0) (\<lambda>resumable.
         if resumable = 0 then
           Done (Some (errorf (''workflow '' @ wfID @ '' has no resumable (failed+input) stages'')))
         else
           bind (store_Upsert (en_se en) (wfl\<lparr>wf_Status := StatusRunning, wf_Error := []\<rparr>)) (\<lambda>e.
           case e of
             Some e \<Rightarrow> Done (Some (errorf_w ''persist resume: '' e []))
           | None \<Rightarrow> Done None)))"

definition resume_jobs :: "stage list \<Rightarrow> stage list" where
  "resume_jobs stages = filter (\<lambda>st. st_Status st = StagePending \<and> st_Input st \<noteq> []) stages"

definition resume_worker :: "'w engine \<Rightarrow> nat \<Rightarrow> string \<Rightarrow> stage \<Rightarrow> ('w eworld, unit progress) prog" where
  "resume_worker en k wfID st =
     bind (runStage en wfID (st_ID st) (st_Kind st) (st_Input st)) (\<lambda>r.
     case r of
       Blocked \<Rightarrow> Done Blocked
     | Ret (Some runErr) \<Rightarrow> bind (set_firstErr k runErr) (\<lambda>_. Done (Ret ()))
     | Ret None \<Rightarrow> Done (Ret ()))"

definition resume_workers :: "'w engine \<Rightarrow> nat \<Rightarrow> string \<Rightarrow> stage list \<Rightarrow> ('w eworld, unit progress) prog list" where
  "resume_workers en k wfID stages = map (resume_worker en k wfID) (resume_jobs stages)"

definition resume_back :: "'w engine \<Rightarrow> nat \<Rightarrow> string \<Rightarrow> ('w eworld, unit) prog" where
  "resume_back en k wfID =
     bind (store_Get wfID) (\<lambda>g.
     case g of
       None \<Rightarrow> Done ()
     | Some wfl \<Rightarrow>
         bind (read (\<lambda>w. fr_firstErr (ew_frames w ! k))) (\<lambda>firstErr.
         bind (store_Upsert (en_se en)
           (case firstErr of
              Some e \<Rightarrow> wfl\<lparr>wf_Status := StatusFailed, wf_Error := error_text e\<rparr>
            | None \<Rightarrow> wfl\<lparr>wf_Status := StatusDone\<rparr>)) (\<lambda>_. Done ())))"

text \<open>
  \<^verbatim>\<open>resumeRun\<close> on a schedule that runs its workers one after the other; \<open>Blocked\<close> when a
  worker waits for a slot forever. The interleaved runs are those of \<open>resume_workers\<close> under
  \<open>fan_steps\<close>.
\<close>

fun run_workers :: "('w eworld, unit progress) prog list \<Rightarrow> ('w eworld, unit progress) prog" where
  "run_workers [] = Done (Ret ())"
| "run_workers (p # ps) = bind p (\<lambda>r. case r of Blocked \<Rightarrow> Done Blocked | Ret _ \<Rightarrow> run_workers ps)"

definition new_frame :: "('w eworld, nat) prog" where
  "new_frame = act (\<lambda>w. (length (ew_frames w), w\<lparr>ew_frames := ew_frames w @ [empty_frame]\<rparr>))"

definition resumeRun :: "'w engine \<Rightarrow> string \<Rightarrow> ('w eworld, unit progress) prog" where
  "resumeRun en wfID =
     bind (store_Get wfID) (\<lambda>g.
     case g of
       None \<Rightarrow> Done (Ret ())
     | Some wfl \<Rightarrow>
         bind new_frame (\<lambda>k.
         bind (read (\<lambda>w. slice_list (ew_heap w) (wf_Stages wfl))) (\<lambda>stages.
         bind (run_workers (resume_workers en k wfID stages)) (\<lambda>r.
         case r of
           Blocked \<Rightarrow> Done Blocked
         | Ret _ \<Rightarrow> bind (resume_back en k wfID) (\<lambda>_. Done (Ret ()))))))"

text \<open>\<^verbatim>\<open>run\<close> on the schedule without interleaving.\<close>

definition run_alone :: "'w engine \<Rightarrow> string \<Rightarrow> ('w eworld, unit progress) prog" where
  "run_alone en wid =
     bind (run_front en wid) (\<lambda>r.
     case r of
       Blocked \<Rightarrow> Done Blocked
     | Ret None \<Rightarrow> Done (Ret ())
     | Ret (Some wfl) \<Rightarrow>
         bind new_frame (\<lambda>k.
         bind (read (\<lambda>w. slice_list (ew_heap w) (wf_Stages wfl))) (\<lambda>stages.
         bind (run_workers (implement_workers en k wid wfl stages)) (\<lambda>r.
         case r of
           Blocked \<Rightarrow> Done Blocked
         | Ret _ \<Rightarrow> bind (run_back en k wid) (\<lambda>_. Done (Ret ()))))))"

text \<open>\<^verbatim>\<open>RecoverInProgress\<close>: the workflows for which a new \<^verbatim>\<open>run\<close> is started, in this order.\<close>

definition RecoverInProgress :: "('w eworld, string list) prog" where
  "RecoverInProgress = read (\<lambda>w.
     map wf_ID (filter (\<lambda>wfl. wf_Status wfl = StatusQueued \<or> wf_Status wfl = StatusRunning) (store_List w)))"

section \<open>The demonstration workflow\<close>

text \<open>\<^verbatim>\<open>InjectDemoWorkflow\<close>: \<open>Inr id\<close> means that \<^verbatim>\<open>runDemo\<close> has been started.\<close>

definition InjectDemoWorkflow :: "'w engine \<Rightarrow> ('w eworld, string result) prog" where
  "InjectDemoWorkflow en =
     bind (ext_act (en_newID en)) (\<lambda>r.
     case r of
       Inl e \<Rightarrow> Done (Inl e)
     | Inr i \<Rightarrow>
         bind (now en) (\<lambda>t.
         bind (alloc_stages (initial_stages i)) (\<lambda>sl.
         bind (store_Upsert (en_se en)
           \<lparr>wf_ID = i, wf_Input = ''demo: simulate a 3-task implement workflow'',
            wf_RepoURL = ''https://github.com/edwinavalos/rubbish.git'', wf_Branch = ''main'',
            wf_Status = StatusQueued, wf_Stages = sl, wf_Error = [], wf_Config = \<lparr>VerifierPrompt = []\<rparr>,
            wf_CreatedAt = t, wf_UpdatedAt = 0\<rparr>) (\<lambda>e.
         case e of
           Some e \<Rightarrow> Done (Inl (errorf_w ''persist demo workflow: '' e []))
         | None \<Rightarrow> Done (Inr i)))))"

text \<open>\<^verbatim>\<open>for i := range wf.Stages { if wf.Stages[i].ID == stageID { ... } }\<close>\<close>

fun demo_mark :: "wf_hdr \<Rightarrow> string \<Rightarrow> (stage \<Rightarrow> stage) list \<Rightarrow> nat list \<Rightarrow> ('w eworld, unit) prog" where
  "demo_mark wfl stageID fs [] = Done ()"
| "demo_mark wfl stageID fs (i # is) =
     bind (get_stage wfl i) (\<lambda>st.
     bind (if st_ID st = stageID then for_each fs (set_stage wfl i) else Done ()) (\<lambda>_.
     demo_mark wfl stageID fs is))"

definition demo_step :: "'w engine \<Rightarrow> string \<Rightarrow> string \<Rightarrow> stage_kind \<Rightarrow> nat \<Rightarrow> ('w eworld, bool) prog" where
  "demo_step en wid stageID kind dur =
     bind (store_Get wid) (\<lambda>g.
     case g of
       None \<Rightarrow> Done False
     | Some wf1 \<Rightarrow>
     bind (demo_mark wf1 stageID
             [\<lambda>st. st\<lparr>st_Status := StageRunning\<rparr>,
              \<lambda>st. st\<lparr>st_SessionID := ''demo-'' @ drop (length wid + 1) stageID\<rparr>]
             [0..<sl_len (wf_Stages wf1)]) (\<lambda>_.
     bind (store_Upsert (en_se en) (wf1\<lparr>wf_Status := StatusRunning\<rparr>)) (\<lambda>_.
     bind (ext_act (en_sleep en dur)) (\<lambda>d.
     case d of
       Some _ \<Rightarrow> Done False
     | None \<Rightarrow>
     bind (store_Get wid) (\<lambda>g2.
     case g2 of
       None \<Rightarrow> Done False
     | Some wf2 \<Rightarrow>
     bind (demo_mark wf2 stageID
             [\<lambda>st. st\<lparr>st_Status := StageDone\<rparr>,
              \<lambda>st. st\<lparr>st_Output := ''demo output for '' @ stage_kind_str kind\<rparr>]
             [0..<sl_len (wf_Stages wf2)]) (\<lambda>_.
     bind (store_Upsert (en_se en) wf2) (\<lambda>_. Done True)))))))"

definition demo_stages :: "string \<Rightarrow> stage list" where
  "demo_stages wid =
     [new_stage (wid @ ''-impl-0'') KindImplement StagePending ''task 1: refactor auth module'',
      new_stage (wid @ ''-impl-1'') KindImplement StagePending ''task 2: add rate limiting'',
      new_stage (wid @ ''-impl-2'') KindImplement StagePending ''task 3: update tests'']"

text \<open>
  \<^verbatim>\<open>runDemo\<close> in three parts: up to the fan-out (\<open>True\<close>: it starts), the three workers, and
  the end. \<open>runDemo\<close> is their composition on the schedule without interleaving.
\<close>

definition demo_front :: "'w engine \<Rightarrow> string \<Rightarrow> ('w eworld, bool) prog" where
  "demo_front en wid =
     bind (demo_step en wid (wid @ ''-research'') KindResearch 4) (\<lambda>a.
     if \<not> a then Done False else
     bind (demo_step en wid (wid @ ''-plan'') KindPlan 3) (\<lambda>b.
     if \<not> b then Done False else
     bind (store_Get wid) (\<lambda>g.
     case g of
       None \<Rightarrow> Done False
     | Some wfl \<Rightarrow>
         bind (append_stages (en_se en) wfl (demo_stages wid)) (\<lambda>wfl'.
         bind (store_Upsert (en_se en) wfl') (\<lambda>_. Done True)))))"

definition demo_worker :: "'w engine \<Rightarrow> string \<Rightarrow> string \<times> nat \<Rightarrow> ('w eworld, unit) prog" where
  "demo_worker en wid job = bind (demo_step en wid (fst job) KindImplement (snd job)) (\<lambda>_. Done ())"

definition demo_jobs :: "string \<Rightarrow> (string \<times> nat) list" where
  "demo_jobs wid = zip (map st_ID (demo_stages wid)) [7, 5, 9]"

definition demo_back :: "'w engine \<Rightarrow> string \<Rightarrow> ('w eworld, unit) prog" where
  "demo_back en wid =
     bind (store_Get wid) (\<lambda>g.
     case g of
       None \<Rightarrow> Done ()
     | Some wfl \<Rightarrow>
         bind (read (\<lambda>w. list_all (\<lambda>st. st_Status st = StageDone) (slice_list (ew_heap w) (wf_Stages wfl)))) (\<lambda>allDone.
         bind (store_Upsert (en_se en) (wfl\<lparr>wf_Status := (if allDone then StatusDone else StatusFailed)\<rparr>))
           (\<lambda>_. Done ())))"

definition runDemo :: "'w engine \<Rightarrow> string \<Rightarrow> ('w eworld, unit) prog" where
  "runDemo en wid =
     bind (demo_front en wid) (\<lambda>started.
     if \<not> started then Done () else
     bind (for_each (demo_jobs wid) (demo_worker en wid)) (\<lambda>_.
     demo_back en wid))"

end
