(* ===== verification/Engine_Specs.thy ===== *)
theory Engine_Specs
  imports Engine
begin

text \<open>
  What the engine's operations do to the abstract store when they run alone: each block that
  loads a workflow, changes it through its slice and stores it again is one change of one value.
  \<open>eff i g w w'\<close> says that the world went from \<open>w\<close> to \<open>w'\<close> by applying \<open>g\<close> to
  workflow \<open>i\<close>, touching neither the other workflows nor the shared variables nor the
  session layer. \<open>spec_runStage\<close> is the value-level specification of \<^verbatim>\<open>runStage\<close>, and
  \<open>exec_runStage\<close> is the refinement.
\<close>

definition eff :: "string \<Rightarrow> (wf_val \<Rightarrow> wf_val) \<Rightarrow> 'w eworld \<Rightarrow> 'w eworld \<Rightarrow> bool" where
  "eff i g w w' \<longleftrightarrow> heap_inv w' \<and> abs_store w' = (abs_store w)(i := map_option g (abs_store w i)) \<and>
     ew_ext w' = ew_ext w \<and> ew_frames w' = ew_frames w"

definition upd_stage :: "string \<Rightarrow> (stage \<Rightarrow> stage) \<Rightarrow> wf_val \<Rightarrow> wf_val" where
  "upd_stage sid f v =
     (case stage_index (wf_Stages v) sid of
        None \<Rightarrow> v
      | Some k \<Rightarrow> v\<lparr>wf_Stages := (wf_Stages v)[k := f (wf_Stages v ! k)]\<rparr>)"

definition quiet :: "store_env \<Rightarrow> 'w eworld \<Rightarrow> bool" where
  "quiet se w \<longleftrightarrow> fs_quiet (se_fs se) (se_dir se) ''.workflow-store-'' ''.tmp'' (se_path se) (ew_fs w)"

lemma effD:
  assumes "eff i g w w'"
  shows "heap_inv w'" "abs_store w' = (abs_store w)(i := map_option g (abs_store w i))"
    "ew_ext w' = ew_ext w" "ew_frames w' = ew_frames w"
  using assms by (auto simp: eff_def)

lemma eff_trans: "eff i g w w' \<Longrightarrow> eff i h w' w'' \<Longrightarrow> eff i (h \<circ> g) w w''"
  by (auto simp: eff_def option.map_comp)

lemma abs_get:
  "abs_store w i = Some v \<Longrightarrow> \<exists>hdr. gm_get (ew_data w) i = Some hdr \<and> v = core_view (ew_heap w) hdr"
  by (auto simp: abs_store_def core_view_def)

lemma abs_None: "abs_store w i = None \<longleftrightarrow> gm_get (ew_data w) i = None"
  by (simp add: abs_store_def)

lemma quiet_upsert:
  assumes "quiet se w"
  shows "fst (upsert se hdr w) = None" and "quiet se (snd (upsert se hdr w))"
  using save_file_quiet [OF assms [unfolded quiet_def]]
  by (auto simp: upsert_def workflow_save_def quiet_def Let_def split: prod.splits) (metis fst_conv snd_conv)+

lemma quiet_upd [simp]:
  "quiet se (w\<lparr>ew_heap := h\<rparr>) = quiet se w" "quiet se (w\<lparr>ew_ext := x\<rparr>) = quiet se w"
  by (simp_all add: quiet_def)

lemma set_eff:
  assumes "heap_inv w" and "gm_get (ew_data w) i = Some hdr"
    and "stage_index (slice_list (ew_heap w) (wf_Stages hdr)) sid = Some k"
  shows "eff i (upd_stage sid f) w (w\<lparr>ew_heap := slice_update (ew_heap w) (wf_Stages hdr) k f\<rparr>)"
proof -
  have ok: "slice_ok (ew_heap w) (wf_Stages hdr)" using assms(1,2) by (auto simp: heap_inv_def)
  then have k: "k < sl_len (wf_Stages hdr)" using stage_index_Some [OF assms(3)] by simp
  note s = set_stage_abs [OF assms(1,2) k refl, of f]
  show ?thesis
    using s assms(3) by (simp add: eff_def abs_store_Some [OF assms(2)] upd_stage_def)
qed

lemma upsert_eff:
  assumes "heap_inv w" and "gm_get (ew_data w) i = Some hdr" and "hdr_for w i hdr'"
    and "core_view (ew_heap w) hdr' = g (core_view (ew_heap w) hdr)"
  shows "eff i g w (snd (upsert se hdr' w))"
  using upsert_abs [OF assms(1,3)] assms(4) by (simp add: eff_def abs_store_Some [OF assms(2)])

lemma stage_index_upd:
  assumes "stage_index xs sid = Some k" and "st_ID (f (xs ! k)) = st_ID (xs ! k)"
  shows "stage_index (xs[k := f (xs ! k)]) sid' = stage_index xs sid'"
  using assms by (induction xs arbitrary: k) (auto split: if_splits nat.splits)

lemma upd_stage_comp:
  assumes "\<And>st. st_ID (f st) = st_ID st"
  shows "upd_stage sid g (upd_stage sid f v) = upd_stage sid (g \<circ> f) v"
proof (cases "stage_index (wf_Stages v) sid")
  case (Some k)
  then have "k < length (wf_Stages v)" using stage_index_Some by blast
  with Some stage_index_upd [OF Some, of f] assms show ?thesis by (simp add: upd_stage_def)
qed (simp add: upd_stage_def)

text \<open>Two writes to one stage, and then storing the header that was loaded.\<close>

lemma set_two_eff:
  assumes "heap_inv w" and "gm_get (ew_data w) i = Some hdr"
    and "stage_index (slice_list (ew_heap w) (wf_Stages hdr)) sid = Some k" and "\<And>st. st_ID (f st) = st_ID st"
  shows "eff i (upd_stage sid (g \<circ> f)) w (w\<lparr>ew_heap :=
           slice_update (slice_update (ew_heap w) (wf_Stages hdr) k f) (wf_Stages hdr) k g\<rparr>)"
proof -
  let ?w1 = "w\<lparr>ew_heap := slice_update (ew_heap w) (wf_Stages hdr) k f\<rparr>"
  have e1: "eff i (upd_stage sid f) w ?w1" using assms(1-3) by (rule set_eff)
  have ok: "slice_ok (ew_heap w) (wf_Stages hdr)" using assms(1,2) by (auto simp: heap_inv_def)
  have k: "k < sl_len (wf_Stages hdr)" using stage_index_Some [OF assms(3)] ok by simp
  have idx: "stage_index (slice_list (ew_heap ?w1) (wf_Stages hdr)) sid = Some k"
    using assms(3,4) stage_index_upd [OF assms(3), of f] by (simp add: slice_list_update [OF ok k])
  have "eff i (upd_stage sid g) ?w1 (?w1\<lparr>ew_heap := slice_update (ew_heap ?w1) (wf_Stages hdr) k g\<rparr>)"
    using effD(1) [OF e1] _ idx by (rule set_eff) (simp add: assms(2))
  then have e2: "eff i (upd_stage sid g) ?w1 (w\<lparr>ew_heap := slice_update (slice_update (ew_heap w) (wf_Stages hdr) k f) (wf_Stages hdr) k g\<rparr>)"
    by simp
  have "(upd_stage sid g) \<circ> (upd_stage sid f) = upd_stage sid (g \<circ> f)"
    using assms(4) by (simp add: fun_eq_iff upd_stage_comp)
  with eff_trans [OF e1 e2] show ?thesis by simp
qed

lemma write_eff:
  assumes "heap_inv w" and "gm_get (ew_data w) i = Some hdr"
    and "stage_index (slice_list (ew_heap w) (wf_Stages hdr)) sid = Some k" and "\<And>st. st_ID (f st) = st_ID st"
  shows "eff i (upd_stage sid (g \<circ> f)) w (snd (upsert se hdr (w\<lparr>ew_heap :=
           slice_update (slice_update (ew_heap w) (wf_Stages hdr) k f) (wf_Stages hdr) k g\<rparr>)))"
proof -
  let ?w2 = "w\<lparr>ew_heap := slice_update (slice_update (ew_heap w) (wf_Stages hdr) k f) (wf_Stages hdr) k g\<rparr>"
  have e2: "eff i (upd_stage sid (g \<circ> f)) w ?w2" using assms by (rule set_two_eff)
  have e3: "eff i id ?w2 (snd (upsert se hdr ?w2))"
    using effD(1) [OF e2] by (rule upsert_eff [of _ _ hdr]) (use assms(2) effD(1) [OF e2] in \<open>auto intro: hdr_forI\<close>)
  with eff_trans [OF e2 e3] show ?thesis by simp
qed

section \<open>Refinement\<close>

text \<open>
  A specification works on the abstract store and the session layer. \<open>refines en p a\<close>: from
  every well-formed world on which saving works, \<open>p\<close> run alone gives the result of \<open>a\<close>
  and the state of \<open>a\<close>, seen abstractly, and leaves the shared variables alone.
\<close>

type_synonym astore = "string \<Rightarrow> wf_val option"
type_synonym ('w, 'a) aprog = "astore \<times> 'w \<Rightarrow> 'a \<times> astore \<times> 'w"

definition view :: "'w eworld \<Rightarrow> astore \<times> 'w" where
  "view w = (abs_store w, ew_ext w)"

definition good :: "'w engine \<Rightarrow> 'w eworld \<Rightarrow> bool" where
  "good en w \<longleftrightarrow> heap_inv w \<and> quiet (en_se en) w"

definition refines :: "'w engine \<Rightarrow> ('w eworld, 'a) prog \<Rightarrow> ('w, 'a) aprog \<Rightarrow> bool" where
  "refines en p a \<longleftrightarrow> (\<forall>w. good en w \<longrightarrow>
     good en (snd (exec p w)) \<and> ew_frames (snd (exec p w)) = ew_frames w \<and>
     (fst (exec p w), view (snd (exec p w))) = a (view w))"

definition abind :: "('w, 'a) aprog \<Rightarrow> ('a \<Rightarrow> ('w, 'b) aprog) \<Rightarrow> ('w, 'b) aprog" where
  "abind a b s = (case a s of (r, s') \<Rightarrow> b r s')"

definition aret :: "'a \<Rightarrow> ('w, 'a) aprog" where
  "aret r s = (r, s)"

definition aext :: "('w \<Rightarrow> 'a \<times> 'w) \<Rightarrow> ('w, 'a) aprog" where
  "aext f s = (fst (f (snd s)), fst s, snd (f (snd s)))"

lemma refines_bind:
  assumes "refines en p a" and "\<And>r. refines en (k r) (b r)"
  shows "refines en (bind p k) (abind a b)"
  unfolding refines_def
proof (intro allI impI)
  fix w assume g: "good en w"
  let ?r = "fst (exec p w)" and ?w = "snd (exec p w)"
  have 1: "good en ?w" "ew_frames ?w = ew_frames w" "a (view w) = (?r, view ?w)"
    using assms(1) g unfolding refines_def by (metis (no_types))+
  then have 2: "good en (snd (exec (k ?r) ?w)) \<and> ew_frames (snd (exec (k ?r) ?w)) = ew_frames ?w \<and>
      (fst (exec (k ?r) ?w), view (snd (exec (k ?r) ?w))) = b ?r (view ?w)"
    using assms(2) [of ?r] unfolding refines_def by blast
  show "good en (snd (exec (bind p k) w)) \<and> ew_frames (snd (exec (bind p k) w)) = ew_frames w \<and>
      (fst (exec (bind p k) w), view (snd (exec (bind p k) w))) = abind a b (view w)"
    unfolding exec_bind using 1 2 by (simp add: abind_def)
qed

lemma refines_Done: "refines en (Done r) (aret r)"
  by (simp add: refines_def aret_def)

lemma refines_ext: "refines en (ext_act f) (aext f)"
  by (auto simp: refines_def ext_act_def aext_def view_def good_def quiet_def heap_inv_def abs_store_def fun_eq_iff
      split: prod.splits)

lemma refinesI:
  assumes "\<And>w. good en w \<Longrightarrow> \<exists>g. eff i g w (snd (exec p w)) \<and> quiet (en_se en) (snd (exec p w)) \<and>
     a (view w) = (fst (exec p w), (abs_store w)(i := map_option g (abs_store w i)), ew_ext w)"
  shows "refines en p a"
  unfolding refines_def
proof (intro allI impI)
  fix w assume "good en w"
  from assms [OF this] obtain g where g: "eff i g w (snd (exec p w))" "quiet (en_se en) (snd (exec p w))"
    "a (view w) = (fst (exec p w), (abs_store w)(i := map_option g (abs_store w i)), ew_ext w)" by blast
  with effD [OF g(1)] show "good en (snd (exec p w)) \<and> ew_frames (snd (exec p w)) = ew_frames w \<and>
      (fst (exec p w), view (snd (exec p w))) = a (view w)"
    by (simp add: good_def view_def)
qed

lemma eff_same: "heap_inv w \<Longrightarrow> map_option g (abs_store w i) = abs_store w i \<Longrightarrow> eff i g w w"
  by (simp add: eff_def fun_upd_idem)

lemma eff_absent: "heap_inv w \<Longrightarrow> gm_get (ew_data w) i = None \<Longrightarrow> eff i g w w"
  by (rule eff_same) (simp_all add: abs_store_def)

definition fail_stage :: "goerror \<Rightarrow> stage \<Rightarrow> stage" where
  "fail_stage e st = st\<lparr>st_Status := StageFailed, st_Error := error_text e\<rparr>"

lemmas block_simps = store_Get_def stageIndex_def set_stage_def get_stage_def store_Upsert_def good_def view_def

lemma upd_stage_missing: "stage_index (wf_Stages v) sid = None \<Longrightarrow> upd_stage sid f v = v"
  by (simp add: upd_stage_def)

text \<open>One write to a stage, then storing the header.\<close>

lemma write1_eff:
  assumes "heap_inv w" and "gm_get (ew_data w) i = Some hdr"
    and "stage_index (slice_list (ew_heap w) (wf_Stages hdr)) sid = Some k"
  shows "eff i (upd_stage sid f) w (snd (upsert se hdr (w\<lparr>ew_heap := slice_update (ew_heap w) (wf_Stages hdr) k f\<rparr>)))"
proof -
  let ?w1 = "w\<lparr>ew_heap := slice_update (ew_heap w) (wf_Stages hdr) k f\<rparr>"
  have e1: "eff i (upd_stage sid f) w ?w1" using assms by (rule set_eff)
  have e2: "eff i id ?w1 (snd (upsert se hdr ?w1))"
    using effD(1) [OF e1] by (rule upsert_eff [of _ _ hdr]) (use assms(2) effD(1) [OF e1] in \<open>auto intro: hdr_forI\<close>)
  show ?thesis using eff_trans [OF e1 e2] by simp
qed

lemma exec_block_cases:
  assumes "good en w"
  obtains (absent) "gm_get (ew_data w) i = None" "abs_store w i = None"
  | (missing) hdr where "gm_get (ew_data w) i = Some hdr" "abs_store w i = Some (core_view (ew_heap w) hdr)"
      "stage_index (slice_list (ew_heap w) (wf_Stages hdr)) sid = None"
  | (there) hdr k where "gm_get (ew_data w) i = Some hdr" "abs_store w i = Some (core_view (ew_heap w) hdr)"
      "stage_index (slice_list (ew_heap w) (wf_Stages hdr)) sid = Some k"
proof (cases "gm_get (ew_data w) i")
  case None
  then show ?thesis by (rule absent) (simp add: abs_None None)
next
  case (Some hdr)
  then show ?thesis
    by (cases "stage_index (slice_list (ew_heap w) (wf_Stages hdr)) sid") (auto simp: abs_store_Some intro: missing there)
qed

text \<open>The outcome of a block in which a stage is rewritten: \<open>there\<close> is whether workflow and stage exist.\<close>

definition ablock :: "string \<Rightarrow> string \<Rightarrow> (stage \<Rightarrow> stage) \<Rightarrow> 'a \<Rightarrow> 'a \<Rightarrow> 'a \<Rightarrow> ('w, 'a) aprog" where
  "ablock i sid f no_wf no_stage found s =
     (case fst s i of
        None \<Rightarrow> (no_wf, s)
      | Some v \<Rightarrow>
          (case stage_index (wf_Stages v) sid of
             None \<Rightarrow> (no_stage, s)
           | Some _ \<Rightarrow> (found, (fst s)(i \<mapsto> upd_stage sid f v), snd s)))"

lemma refines_block:
  assumes absent: "\<And>w. gm_get (ew_data w) i = None \<Longrightarrow> exec p w = (no_wf, w)"
    and missing: "\<And>w hdr. gm_get (ew_data w) i = Some hdr \<Longrightarrow>
      stage_index (slice_list (ew_heap w) (wf_Stages hdr)) sid = None \<Longrightarrow> exec p w = (no_stage, w)"
    and there: "\<And>w hdr k. gm_get (ew_data w) i = Some hdr \<Longrightarrow> good en w \<Longrightarrow>
      stage_index (slice_list (ew_heap w) (wf_Stages hdr)) sid = Some k \<Longrightarrow>
      fst (exec p w) = found \<and> quiet (en_se en) (snd (exec p w)) \<and> eff i (upd_stage sid f) w (snd (exec p w))"
  shows "refines en p (ablock i sid f no_wf no_stage found)"
proof (rule refinesI [of en i])
  fix w assume g: "good en w"
  then have h: "heap_inv w" "quiet (en_se en) w" by (auto simp: good_def)
  from g show "\<exists>g. eff i g w (snd (exec p w)) \<and> quiet (en_se en) (snd (exec p w)) \<and>
     ablock i sid f no_wf no_stage found (view w) =
       (fst (exec p w), (abs_store w)(i := map_option g (abs_store w i)), ew_ext w)"
  proof (cases rule: exec_block_cases [where i = i and sid = sid])
    case absent
    with h assms(1) [OF absent(1)] show ?thesis
      by (intro exI [of _ id]) (auto simp: ablock_def view_def fun_upd_idem intro: eff_absent)
  next
    case (missing hdr)
    with h assms(2) [OF missing(1,3)] show ?thesis
      by (intro exI [of _ id]) (auto simp: ablock_def view_def fun_upd_idem intro: eff_same)
  next
    case (there hdr k)
    with h assms(3) [OF there(1) g there(3)] show ?thesis
      by (intro exI [of _ "upd_stage sid f"]) (simp add: ablock_def view_def)
  qed
qed

lemma refines_record:
  "refines en (recordSession en i sid s) (ablock i sid (\<lambda>st. st\<lparr>st_SessionID := s\<rparr>) False True True)"
  by (rule refines_block) (auto simp: recordSession_def block_simps quiet_upsert intro: write1_eff)

definition done_stage :: "string \<Rightarrow> stage \<Rightarrow> stage" where
  "done_stage res st = st\<lparr>st_Status := StageDone, st_Output := res\<rparr>"

lemma fail_stage_comp:
  "fail_stage c = (\<lambda>st. st\<lparr>st_Error := error_text c\<rparr>) \<circ> (\<lambda>st. st\<lparr>st_Status := StageFailed\<rparr>)"
  by (simp add: fun_eq_iff fail_stage_def)

lemma done_stage_comp: "done_stage res = (\<lambda>st. st\<lparr>st_Status := StageDone\<rparr>) \<circ> (\<lambda>st. st\<lparr>st_Output := res\<rparr>)"
  by (simp add: fun_eq_iff done_stage_def)

lemma refines_mark: "refines en (markStageFailed en i sid c) (ablock i sid (fail_stage c) c c c)"
  unfolding fail_stage_comp
  by (rule refines_block) (auto simp: markStageFailed_def block_simps quiet_upsert intro!: write_eff)

text \<open>The specification of the rest of \<^verbatim>\<open>runStage\<close>, in the order of the code.\<close>

definition afail :: "string \<Rightarrow> string \<Rightarrow> goerror \<Rightarrow> ('w, goerror option progress) aprog" where
  "afail i sid e = ablock i sid (fail_stage e) (Ret (Some e)) (Ret (Some e)) (Ret (Some e))"

definition spec_finish :: "'w engine \<Rightarrow> string \<Rightarrow> string \<Rightarrow> string \<Rightarrow> ('w, goerror option progress) aprog" where
  "spec_finish en i sid sess =
     abind (aext (en_WaitForSession en sess)) (\<lambda>r.
     case r of
       Inl err \<Rightarrow>
         afail i sid (if errors_Is err ErrUsageLimit
                      then errorf_w [] err_usage_limit ('' (session '' @ sess @ '')'')
                      else errorf_w (''session '' @ sess @ '': '') err [])
     | Inr res \<Rightarrow>
         if IsUsageLimitError res then
           afail i sid (errorf_w [] err_usage_limit ('' (session '' @ sess @ '', detected in output)''))
         else
           ablock i sid (done_stage res)
             (Ret (Some (errorf (''workflow '' @ i @ '' not found after WaitForSession''))))
             (Ret (Some (errorf (''stage '' @ sid @ '' missing after WaitForSession''))))
             (Ret None))"

lemma abind_ablock: "abind (ablock i sid f a b c) (\<lambda>r. aret (h r)) = ablock i sid f (h a) (h b) (h c)"
  by (simp add: fun_eq_iff abind_def ablock_def aret_def split: option.splits)

lemma refines_failed: "refines en (failed en i sid e) (afail i sid e)"
proof -
  have "refines en (failed en i sid e) (abind (ablock i sid (fail_stage e) e e e) (\<lambda>c. aret (Ret (Some c))))"
    unfolding failed_def by (intro refines_bind refines_mark refines_Done)
  then show ?thesis by (simp add: abind_ablock afail_def)
qed

lemma refines_mark_done:
  "refines en
     (bind (store_Get i) (\<lambda>g. case g of
        None \<Rightarrow> Done (Ret (Some (errorf (''workflow '' @ i @ '' not found after WaitForSession''))))
      | Some wfl \<Rightarrow>
          bind (stageIndex wfl sid) (\<lambda>idx. case idx of
            None \<Rightarrow> Done (Ret (Some (errorf (''stage '' @ sid @ '' missing after WaitForSession''))))
          | Some k \<Rightarrow>
              bind (set_stage wfl k (\<lambda>st. st\<lparr>st_Output := res\<rparr>)) (\<lambda>_.
              bind (set_stage wfl k (\<lambda>st. st\<lparr>st_Status := StageDone\<rparr>)) (\<lambda>_.
              bind (store_Upsert (en_se en) wfl) (\<lambda>e. case e of
                Some e \<Rightarrow> Done (Ret (Some (errorf_w (''persist stage '' @ sid @ '' done: '') e [])))
              | None \<Rightarrow> Done (Ret None)))))))
     (ablock i sid (done_stage res)
       (Ret (Some (errorf (''workflow '' @ i @ '' not found after WaitForSession''))))
       (Ret (Some (errorf (''stage '' @ sid @ '' missing after WaitForSession'')))) (Ret None))"
  unfolding done_stage_comp
  by (rule refines_block) (auto simp: block_simps quiet_upsert intro!: write_eff)

lemma refines_finish: "refines en (finishStage en i sid sess) (spec_finish en i sid sess)"
  unfolding finishStage_def spec_finish_def
  by (rule refines_bind [OF refines_ext])
     (auto simp del: append_Cons split: sum.splits intro: refines_failed refines_mark_done)

fun spec_create :: "'w engine \<Rightarrow> nat \<Rightarrow> string \<Rightarrow> string \<Rightarrow> stage_kind \<Rightarrow> string \<Rightarrow> string \<Rightarrow> string \<Rightarrow>
    ('w, string result progress) aprog" where
  "spec_create en 0 i sid kind prompt repo branch = aret Blocked"
| "spec_create en (Suc n) i sid kind prompt repo branch =
     abind (aext (en_CreateSession en (stage_kind_str kind) prompt repo branch)) (\<lambda>r.
     case r of
       Inr sess \<Rightarrow> aret (Ret (Inr sess))
     | Inl cerr \<Rightarrow>
         if \<not> str_Contains (error_text cerr) ''no slots available'' then
           (let e = errorf_w ''create session: '' cerr []
            in ablock i sid (fail_stage e) (Ret (Inl e)) (Ret (Inl e)) (Ret (Inl e)))
         else
           abind (aext (en_sleep en 5)) (\<lambda>d.
           case d of
             Some e \<Rightarrow> ablock i sid (fail_stage e) (Ret (Inl e)) (Ret (Inl e)) (Ret (Inl e))
           | None \<Rightarrow> spec_create en n i sid kind prompt repo branch))"

lemma refines_mark_Inl:
  "refines en (bind (markStageFailed en i sid e) (\<lambda>e. Done (Ret (Inl e))))
     (ablock i sid (fail_stage e) (Ret (Inl e)) (Ret (Inl e)) (Ret (Inl e)))"
proof -
  have "refines en (bind (markStageFailed en i sid e) (\<lambda>e. Done (Ret (Inl e))))
      (abind (ablock i sid (fail_stage e) e e e) (\<lambda>e. aret (Ret (Inl e))))"
    by (intro refines_bind refines_mark refines_Done)
  then show ?thesis by (simp add: abind_ablock)
qed

lemma refines_create:
  "refines en (createSession en n i sid kind prompt hdr)
     (spec_create en n i sid kind prompt (wf_RepoURL hdr) (wf_Branch hdr))"
proof (induction n)
  case 0
  show ?case by (simp add: refines_Done)
next
  case (Suc n)
  have sleep: "refines en
      (bind (ext_act (en_sleep en 5)) (\<lambda>d. case d of
         Some e \<Rightarrow> bind (markStageFailed en i sid e) (\<lambda>e. Done (Ret (Inl e)))
       | None \<Rightarrow> createSession en n i sid kind prompt hdr))
      (abind (aext (en_sleep en 5)) (\<lambda>d. case d of
         Some e \<Rightarrow> ablock i sid (fail_stage e) (Ret (Inl e)) (Ret (Inl e)) (Ret (Inl e))
       | None \<Rightarrow> spec_create en n i sid kind prompt (wf_RepoURL hdr) (wf_Branch hdr)))"
    by (rule refines_bind [OF refines_ext]) (auto split: option.splits intro: refines_mark_Inl Suc)
  show ?case
    unfolding createSession.simps spec_create.simps
    by (rule refines_bind [OF refines_ext])
       (auto simp: Let_def simp del: append_Cons split: sum.splits intro: refines_mark_Inl refines_Done sleep)
qed

definition start_stage :: "string \<Rightarrow> stage \<Rightarrow> stage" where
  "start_stage prompt st = st\<lparr>st_Status := StageRunning, st_Input := prompt\<rparr>"

lemma start_stage_comp:
  "start_stage prompt = (\<lambda>st. st\<lparr>st_Input := prompt\<rparr>) \<circ> (\<lambda>st. st\<lparr>st_Status := StageRunning\<rparr>)"
  by (simp add: fun_eq_iff start_stage_def)

definition spec_session :: "'w engine \<Rightarrow> string \<Rightarrow> string \<Rightarrow> stage_kind \<Rightarrow> string \<Rightarrow> string \<Rightarrow> string \<Rightarrow>
    ('w, goerror option progress) aprog" where
  "spec_session en i sid kind prompt repo branch =
     abind (spec_create en (en_fuel en) i sid kind prompt repo branch) (\<lambda>r.
     case r of
       Blocked \<Rightarrow> aret Blocked
     | Ret (Inl e) \<Rightarrow> aret (Ret (Some e))
     | Ret (Inr sess) \<Rightarrow>
         abind (ablock i sid (\<lambda>st. st\<lparr>st_SessionID := sess\<rparr>) False True True) (\<lambda>found.
         if \<not> found then aret (Ret (Some (errorf (''workflow '' @ i @ '' not found after CreateSession''))))
         else spec_finish en i sid sess))"

text \<open>\<^verbatim>\<open>runStage\<close> on values.\<close>

definition spec_runStage :: "'w engine \<Rightarrow> string \<Rightarrow> string \<Rightarrow> stage_kind \<Rightarrow> string \<Rightarrow>
    ('w, goerror option progress) aprog" where
  "spec_runStage en i sid kind prompt s =
     (case fst s i of
        None \<Rightarrow> (Ret (Some (errorf (''workflow '' @ i @ '' not found''))), s)
      | Some v \<Rightarrow>
          (case stage_index (wf_Stages v) sid of
             None \<Rightarrow> (Ret (Some (errorf (''stage '' @ sid @ '' not found in workflow '' @ i))), s)
           | Some _ \<Rightarrow>
               spec_session en i sid kind prompt (wf_RepoURL v) (wf_Branch v)
                 ((fst s)(i \<mapsto> upd_stage sid (start_stage prompt) v), snd s)))"

lemma refines_session:
  "refines en
     (bind (createSession en (en_fuel en) i sid kind prompt hdr) (\<lambda>r.
      case r of
        Blocked \<Rightarrow> Done Blocked
      | Ret (Inl e) \<Rightarrow> Done (Ret (Some e))
      | Ret (Inr sess) \<Rightarrow>
          bind (recordSession en i sid sess) (\<lambda>found.
          if \<not> found then Done (Ret (Some (errorf (''workflow '' @ i @ '' not found after CreateSession''))))
          else finishStage en i sid sess)))
     (spec_session en i sid kind prompt (wf_RepoURL hdr) (wf_Branch hdr))"
  unfolding spec_session_def
proof (rule refines_bind [OF refines_create])
  fix r :: "string result progress"
  have rec: "refines en
      (bind (recordSession en i sid sess) (\<lambda>found.
        if \<not> found then Done (Ret (Some (errorf (''workflow '' @ i @ '' not found after CreateSession''))))
        else finishStage en i sid sess))
      (abind (ablock i sid (\<lambda>st. st\<lparr>st_SessionID := sess\<rparr>) False True True) (\<lambda>found.
        if \<not> found then aret (Ret (Some (errorf (''workflow '' @ i @ '' not found after CreateSession''))))
        else spec_finish en i sid sess))" for sess
    by (rule refines_bind [OF refines_record]) (auto simp del: append_Cons intro: refines_Done refines_finish)
  show "refines en (case r of Blocked \<Rightarrow> Done Blocked | Ret (Inl e) \<Rightarrow> Done (Ret (Some e))
      | Ret (Inr sess) \<Rightarrow> bind (recordSession en i sid sess) (\<lambda>found.
          if \<not> found then Done (Ret (Some (errorf (''workflow '' @ i @ '' not found after CreateSession''))))
          else finishStage en i sid sess))
    (case r of Blocked \<Rightarrow> aret Blocked | Ret (Inl e) \<Rightarrow> aret (Ret (Some e))
      | Ret (Inr sess) \<Rightarrow> abind (ablock i sid (\<lambda>st. st\<lparr>st_SessionID := sess\<rparr>) False True True) (\<lambda>found.
          if \<not> found then aret (Ret (Some (errorf (''workflow '' @ i @ '' not found after CreateSession''))))
          else spec_finish en i sid sess))"
    by (auto simp del: append_Cons split: progress.splits sum.splits intro: refines_Done rec)
qed

lemma refines_upto:
  assumes "good en w" and "fst (exec p w) = r" and "eff i g w (snd (exec p w))" and "quiet (en_se en) (snd (exec p w))"
    and "refines en (k r) a"
  shows "good en (snd (exec (bind p k) w))" "ew_frames (snd (exec (bind p k) w)) = ew_frames w"
    "(fst (exec (bind p k) w), view (snd (exec (bind p k) w))) =
       a ((abs_store w)(i := map_option g (abs_store w i)), ew_ext w)"
proof -
  have g: "good en (snd (exec p w))" using effD(1) [OF assms(3)] assms(4) by (simp add: good_def)
  have v: "view (snd (exec p w)) = ((abs_store w)(i := map_option g (abs_store w i)), ew_ext w)"
    using effD(2,3) [OF assms(3)] by (simp add: view_def)
  from assms(5) g have "good en (snd (exec (k r) (snd (exec p w)))) \<and>
      ew_frames (snd (exec (k r) (snd (exec p w)))) = ew_frames (snd (exec p w)) \<and>
      (fst (exec (k r) (snd (exec p w))), view (snd (exec (k r) (snd (exec p w))))) = a (view (snd (exec p w)))"
    unfolding refines_def by blast
  then show "good en (snd (exec (bind p k) w))" "ew_frames (snd (exec (bind p k) w)) = ew_frames w"
    "(fst (exec (bind p k) w), view (snd (exec (bind p k) w))) =
       a ((abs_store w)(i := map_option g (abs_store w i)), ew_ext w)"
    unfolding exec_bind assms(2) v using effD(4) [OF assms(3)] by simp_all
qed

lemma exec_startStage:
  assumes "good en w" "gm_get (ew_data w) i = Some hdr" "stage_index (slice_list (ew_heap w) (wf_Stages hdr)) sid = Some k"
  shows "fst (exec (startStage en i sid prompt) w) = Inr hdr"
    "eff i (upd_stage sid (start_stage prompt)) w (snd (exec (startStage en i sid prompt) w))"
    "quiet (en_se en) (snd (exec (startStage en i sid prompt) w))"
  using assms unfolding start_stage_comp
  by (auto simp: startStage_def block_simps quiet_upsert intro!: write_eff)

lemma refines_runStage: "refines en (runStage en i sid kind prompt) (spec_runStage en i sid kind prompt)"
  unfolding refines_def
proof (intro allI impI)
  fix w assume g: "good en w"
  then show "good en (snd (exec (runStage en i sid kind prompt) w)) \<and>
      ew_frames (snd (exec (runStage en i sid kind prompt) w)) = ew_frames w \<and>
      (fst (exec (runStage en i sid kind prompt) w), view (snd (exec (runStage en i sid kind prompt) w))) =
        spec_runStage en i sid kind prompt (view w)"
  proof (cases rule: exec_block_cases [where i = i and sid = sid])
    case absent
    with g show ?thesis by (simp add: runStage_def startStage_def block_simps spec_runStage_def)
  next
    case (missing hdr)
    with g show ?thesis by (simp add: runStage_def startStage_def block_simps spec_runStage_def)
  next
    case (there hdr k)
    note st = exec_startStage [OF g there(1,3), of prompt]
    define K where "K = (\<lambda>s. case s of Inl e \<Rightarrow> Done (Ret (Some e)) | Inr wfl \<Rightarrow>
          bind (createSession en (en_fuel en) i sid kind prompt wfl) (\<lambda>r.
          case r of
            Blocked \<Rightarrow> Done Blocked
          | Ret (Inl e) \<Rightarrow> Done (Ret (Some e))
          | Ret (Inr sessionID) \<Rightarrow>
              bind (recordSession en i sid sessionID) (\<lambda>found.
              if \<not> found then Done (Ret (Some (errorf (''workflow '' @ i @ '' not found after CreateSession''))))
              else finishStage en i sid sessionID)))"
    have run: "runStage en i sid kind prompt = bind (startStage en i sid prompt) K"
      unfolding runStage_def K_def ..
    have "refines en (K (Inr hdr)) (spec_session en i sid kind prompt (wf_RepoURL hdr) (wf_Branch hdr))"
      using refines_session unfolding K_def by simp
    note rest = refines_upto [where k = K, OF g st this]
    have "spec_runStage en i sid kind prompt (view w) =
        spec_session en i sid kind prompt (wf_RepoURL hdr) (wf_Branch hdr)
          ((abs_store w)(i := map_option (upd_stage sid (start_stage prompt)) (abs_store w i)), ew_ext w)"
      using there by (simp add: spec_runStage_def view_def)
    with rest show ?thesis unfolding run by simp
  qed
qed

end
