(* ===== verification/Engine_Fanout.thy ===== *)
theory Engine_Fanout
  imports Engine
begin

text \<open>
  What the fan-out of \<^verbatim>\<open>run\<close> and \<^verbatim>\<open>resumeRun\<close> guarantees under every interleaving of the
  workers with each other and with the rest of the server. The protocol between the goroutines
  is \<open>frame_grows\<close>: the first error stays once it is set, and branches are only added to the
  list of the succeeded ones. \<open>fr\<close> instantiates the rely-guarantee rules with it.
\<close>

definition keeps_frames :: "'w eworld \<Rightarrow> 'w eworld \<Rightarrow> bool" where
  "keeps_frames w w' \<longleftrightarrow> ew_frames w' = ew_frames w"

definition frame_grows :: "nat \<Rightarrow> string set \<Rightarrow> 'w eworld \<Rightarrow> 'w eworld \<Rightarrow> bool" where
  "frame_grows k B w w' \<longleftrightarrow> (k < length (ew_frames w) \<longrightarrow>
     k < length (ew_frames w') \<and>
     (fr_firstErr (ew_frames w ! k) \<noteq> None \<longrightarrow> fr_firstErr (ew_frames w' ! k) = fr_firstErr (ew_frames w ! k)) \<and>
     (\<exists>ys. fr_succeeded (ew_frames w' ! k) = fr_succeeded (ew_frames w ! k) @ ys \<and> set ys \<subseteq> B))"

interpretation fr: protocol "frame_grows k B" for k B
proof
  show "frame_grows k B s s" for s :: "'a eworld" by (simp add: frame_grows_def)
  show "frame_grows k B s1 s3" if "frame_grows k B s1 s2" "frame_grows k B s2 s3" for s1 s2 s3 :: "'a eworld"
    using that unfolding frame_grows_def by fastforce
qed

text \<open>What a worker for branch \<open>b\<close> leaves behind when it returns.\<close>

definition settled :: "nat \<Rightarrow> string \<Rightarrow> unit progress \<Rightarrow> 'w eworld \<Rightarrow> bool" where
  "settled k b r w \<longleftrightarrow> r = Blocked \<or>
     fr_firstErr (ew_frames w ! k) \<noteq> None \<or> b \<in> set (fr_succeeded (ew_frames w ! k))"

section \<open>Programs that leave the shared variables alone\<close>

lemma keeps_act: "(\<And>w. ew_frames (snd (f w)) = ew_frames w) \<Longrightarrow> prog_steps keeps_frames (act f)"
  by (rule prog_steps_act) (simp add: keeps_frames_def)

named_theorems keeps

lemma keeps_basic [keeps]:
  "prog_steps keeps_frames (Done a)"
  "prog_steps keeps_frames (read g)"
  "prog_steps keeps_frames (store_Upsert se wfl)"
  "prog_steps keeps_frames (store_Get i)"
  "prog_steps keeps_frames (stageIndex wfl i)"
  "prog_steps keeps_frames (get_stage wfl k)"
  "prog_steps keeps_frames (set_stage wfl k h)"
  "prog_steps keeps_frames (append_stages se wfl xs)"
  "prog_steps keeps_frames (ext_act x)"
  unfolding read_def store_Upsert_def store_Get_def stageIndex_def get_stage_def set_stage_def modify_def
    append_stages_def ext_act_def
  by (auto intro!: keeps_act split: prod.splits)

lemma keeps_markStageFailed [keeps]: "prog_steps keeps_frames (markStageFailed en i sid c)"
  unfolding markStageFailed_def by (intro prog_steps_bind keeps) (auto intro!: prog_steps_bind keeps split: option.splits)

lemma keeps_createSession [keeps]: "prog_steps keeps_frames (createSession en n i sid kind prompt wfl)"
  by (induction n) (auto intro!: prog_steps_bind keeps split: option.splits sum.splits)

lemma keeps_runStage [keeps]: "prog_steps keeps_frames (runStage en i sid kind prompt)"
  unfolding runStage_def startStage_def recordSession_def finishStage_def failed_def
  by (auto intro!: prog_steps_bind keeps split: option.splits sum.splits progress.splits)

lemma keeps_verify [keeps]:
  "prog_steps keeps_frames (appendVerify en i sid)"
  "prog_steps keeps_frames (recordVerifySession en i sid vid)"
  "prog_steps keeps_frames (judge en i sid out)"
  "prog_steps keeps_frames (reload i sid)"
  unfolding appendVerify_def recordVerifySession_def judge_def reload_def Let_def
  by (auto intro!: prog_steps_bind keeps split: option.splits)

lemma keeps_verdict [keeps]: "prog_steps keeps_frames (verdict en i sid)"
  unfolding verdict_def by (auto intro!: prog_steps_bind keeps split: option.splits)

lemma keeps_verify_part [keeps]: "prog_steps keeps_frames (verify_part en i sid q)"
  unfolding verify_part_def by (auto intro!: prog_steps_bind keeps split: option.splits progress.splits)

lemma keeps_implement_work [keeps]: "prog_steps keeps_frames (implement_work en i wfl sid task b)"
  unfolding implement_work_def Let_def
  by (auto intro!: prog_steps_bind keeps split: option.splits progress.splits sum.splits prod.splits)

section \<open>Workers\<close>

lemma keeps_grows: "keeps_frames w w' \<Longrightarrow> frame_grows k B w w'"
  by (simp add: keeps_frames_def frame_grows_def)

abbreviation has_frame :: "nat \<Rightarrow> 'w eworld \<Rightarrow> bool" where
  "has_frame k w \<equiv> k < length (ew_frames w)"

lemma ok_bind:
  assumes "prog_steps keeps_frames p" and "has_frame k s"
    and "\<And>a s. has_frame k s \<Longrightarrow> prog_ok (frame_grows k B) Q (c a) s"
  shows "prog_ok (frame_grows k B) Q (bind p c) s"
proof (rule fr.prog_ok_bind)
  have "prog_ok (frame_grows k B) (\<lambda>_. has_frame k) p s"
    using assms(1) keeps_grows
  proof (rule fr.prog_ok_steps)
    show "has_frame k s" by (rule assms(2))
    show "has_frame k u" if "frame_grows k B t u" "has_frame k t" for t u :: "'a eworld"
      using that by (simp add: frame_grows_def)
  qed
  then show "prog_ok (frame_grows k B) (\<lambda>a s. prog_ok (frame_grows k B) Q (c a) s) p s"
    by (rule fr.prog_ok_weaken) (rule assms(3))
qed

lemma settled_stable: "settled k b r w \<Longrightarrow> frame_grows k B w w' \<Longrightarrow> has_frame k w \<Longrightarrow> settled k b r w'"
  unfolding settled_def frame_grows_def by fastforce

text \<open>One write to the frame that settles the worker, as its last action.\<close>

lemma ok_last:
  assumes "has_frame k w" and "\<And>w. frame_grows k B w (g w)"
    and "\<And>w. has_frame k w \<Longrightarrow> settled k b (Ret ()) (g w)"
  shows "prog_ok (frame_grows k B) (settled k b) (bind (modify g) (\<lambda>_. Done (Ret ()))) w"
proof (rule fr.prog_ok_bind, unfold modify_def, rule fr.prog_ok_act)
  fix s1 assume s1: "frame_grows k B w s1"
  show "frame_grows k B s1 (snd ((), g s1))" by (simp add: assms(2))
  fix s2 assume s2: "frame_grows k B (snd ((), g s1)) s2"
  have h: "has_frame k s1" "has_frame k (g s1)" using assms(1,2) s1 by (auto simp: frame_grows_def)
  then have "settled k b (Ret ()) s3" if "frame_grows k B s2 s3" for s3
    using assms(3) s2 that by simp (blast intro: settled_stable fr.R_trans)
  then show "prog_ok (frame_grows k B) (settled k b) (Done (Ret ())) s2" by simp
qed

lemma set_firstErr_ok: "has_frame k w \<Longrightarrow>
    prog_ok (frame_grows k B) (settled k b) (bind (set_firstErr k e) (\<lambda>_. Done (Ret ()))) w"
  unfolding set_firstErr_def
  by (rule ok_last) (auto simp: frame_grows_def settled_def split: option.splits)

lemma add_branch_ok: "has_frame k w \<Longrightarrow> b \<in> B \<Longrightarrow>
    prog_ok (frame_grows k B) (settled k b) (bind (add_branch k b) (\<lambda>_. Done (Ret ()))) w"
  unfolding add_branch_def
  by (rule ok_last) (auto simp: frame_grows_def settled_def)

lemma settle_ok: "has_frame k w \<Longrightarrow> b \<in> B \<Longrightarrow> prog_ok (frame_grows k B) (settled k b) (settle k b r) w"
  unfolding settle_def
  by (auto simp: settled_def split: progress.splits option.splits intro: set_firstErr_ok add_branch_ok)

lemma implement_worker_ok:
  assumes "has_frame k w" and "implementBranchName wid t \<in> B"
  shows "prog_ok (frame_grows k B) (settled k (implementBranchName wid t)) (implement_worker en k wid wfl i t) w"
  unfolding implement_worker_def Let_def
  using assms by (intro ok_bind keeps settle_ok)

section \<open>The whole run\<close>

definition branches :: "string \<Rightarrow> nat \<Rightarrow> string list" where
  "branches wid n = map (implementBranchName wid) [0..<n]"

lemma implement_jobs_snd: "map snd (implement_jobs i t sts) = [t..<t + length (implement_jobs i t sts)]"
  by (induction i t sts rule: implement_jobs.induct) (auto simp: upt_rec)

lemma implement_jobs_nth: "(i', t') \<in> set (implement_jobs i t sts) \<Longrightarrow>
    i \<le> i' \<and> i' < i + length sts \<and> st_Kind (sts ! (i' - i)) = KindImplement"
  by (induction i t sts rule: implement_jobs.induct) (auto simp: nth_Cons' split: if_splits)

lemma implement_jobs_count: "length (implement_jobs i t sts) = length (filter (\<lambda>st. st_Kind st = KindImplement) sts)"
  by (induction i t sts rule: implement_jobs.induct) auto

definition merge_ready :: "string \<Rightarrow> nat \<Rightarrow> frame \<Rightarrow> bool" where
  "merge_ready wid n fr \<longleftrightarrow> set (fr_succeeded fr) \<subseteq> set (branches wid n) \<and>
     (fr_firstErr fr = None \<longrightarrow> set (fr_succeeded fr) = set (branches wid n))"

fun phase_inv :: "'w engine \<Rightarrow> string \<Rightarrow> 'w run_phase \<Rightarrow> 'w eworld \<Rightarrow> bool" where
  "phase_inv en wid (Fan k wfl ws) w \<longleftrightarrow> has_frame k w \<and> num_active ws \<le> nat (en_maxWorkers en) \<and>
     set (fr_succeeded (ew_frames w ! k)) \<subseteq> set (branches wid (length ws)) \<and>
     fr.workers_ok k (set (branches wid (length ws))) (\<lambda>t. settled k (implementBranchName wid t)) ws w"
| "phase_inv en wid (Back k n p) w \<longleftrightarrow> has_frame k w \<and> prog_steps keeps_frames p \<and> merge_ready wid n (ew_frames w ! k)"
| "phase_inv en wid _ w \<longleftrightarrow> True"

lemma keeps_run_back [keeps]: "prog_steps keeps_frames (run_back en k wid)"
  unfolding run_back_def Let_def
  by (auto intro!: prog_steps_bind keeps split: option.splits)

lemma fork_inv:
  assumes "k = length (ew_frames w)" and "w' = w\<lparr>ew_frames := ew_frames w @ [empty_frame]\<rparr>"
  shows "phase_inv en wid (Fan k wfl (map Waiting (implement_workers en k wid wfl stages))) w'"
proof -
  let ?js = "implement_jobs 0 0 stages"
  let ?ps = "implement_workers en k wid wfl stages"
  let ?B = "set (branches wid (length ?ps))"
  have h: "has_frame k w'" and e: "ew_frames w' ! k = empty_frame" using assms by simp_all
  have len: "length ?ps = length ?js" by (simp add: implement_workers_def)
  have "prog_ok (frame_grows k ?B) (settled k (implementBranchName wid t)) (?ps ! t) w'" if "t < length ?ps" for t
  proof -
    from that have "snd (?js ! t) = t"
      using implement_jobs_snd [of 0 0 stages] len by (metis add_0 nth_map nth_upt)
    then have "?ps ! t = implement_worker en k wid wfl (fst (?js ! t)) t"
      using that len by (auto simp: implement_workers_def case_prod_beta)
    then show ?thesis
      using that implement_worker_ok [OF h, of wid t ?B en wfl] by (auto simp: branches_def)
  qed
  then show ?thesis using h e by (simp add: fr.workers_ok_def empty_frame_def)
qed

lemma join_inv:
  assumes "phase_inv en wid (Fan k wfl ws) w" and "all_finished ws"
  shows "phase_inv en wid (Back k (length ws) (run_back en k wid)) w"
proof -
  from assms have ok: "fr.workers_ok k (set (branches wid (length ws))) (\<lambda>t. settled k (implementBranchName wid t)) ws w"
    by simp
  have "implementBranchName wid t \<in> set (fr_succeeded (ew_frames w ! k))"
    if "fr_firstErr (ew_frames w ! k) = None" "t < length ws" for t
    using fr.finished_ok [OF ok assms(2) that(2)] that(1) by (auto simp: settled_def)
  with assms(1) show ?thesis by (auto simp: merge_ready_def branches_def keeps_run_back)
qed

lemma fan_inv:
  assumes "phase_inv en wid (Fan k wfl ws) w" and "fan_step (nat (en_maxWorkers en)) (\<lambda>_ _. False) (ws, w) (ws', w')"
  shows "phase_inv en wid (Fan k wfl ws') w'"
proof -
  have a: "num_active ws' \<le> nat (en_maxWorkers en) \<and> length ws' = length ws"
    using fan_step_active [OF assms(2)] assms(1) by simp
  have "frame_grows k (set (branches wid (length ws))) w w' \<and>
      fr.workers_ok k (set (branches wid (length ws))) (\<lambda>t. settled k (implementBranchName wid t)) ws' w'"
    using fr.fan_step_ok [OF assms(2)] assms(1) by auto
  with a assms(1) show ?thesis by (auto simp: frame_grows_def)
qed

lemma env_inv:
  assumes "phase_inv en wid ph w" and "own_frame_kept ph w w'"
  shows "phase_inv en wid ph w'"
proof (cases ph)
  case (Fan k wfl ws)
  then have "frame_grows k (set (branches wid (length ws))) w w'" using assms by (auto simp: frame_grows_def)
  with Fan assms show ?thesis by (auto simp: fr.workers_ok_def intro: fr.worker_ok_stable)
qed (use assms in auto)

lemma run_step_inv:
  assumes "run_step en wid E c d" and "phase_inv en wid (fst c) (snd c)"
  shows "phase_inv en wid (fst d) (snd d)"
  using assms
proof (cases rule: run_step.cases)
  case (rs_fork stages w wfl k)
  have "phase_inv en wid (Fan k wfl (map Waiting (implement_workers en k wid wfl stages)))
      (w\<lparr>ew_frames := ew_frames w @ [empty_frame]\<rparr>)"
    using rs_fork(4) by (rule fork_inv) simp
  with rs_fork show ?thesis by (simp del: phase_inv.simps)
next
  case (rs_fan ws w ws' w' k wfl)
  from assms(2) have "phase_inv en wid (Fan k wfl ws) w" unfolding rs_fan(1) fst_conv snd_conv .
  then have "phase_inv en wid (Fan k wfl ws') w'" using rs_fan(3) by (rule fan_inv)
  then show ?thesis unfolding rs_fan(2) fst_conv snd_conv .
next
  case (rs_join ws k wfl w)
  from assms(2) have "phase_inv en wid (Fan k wfl ws) w" unfolding rs_join(1) fst_conv snd_conv .
  then have "phase_inv en wid (Back k (length ws) (run_back en k wid)) w" using rs_join(3) by (rule join_inv)
  then show ?thesis unfolding rs_join(2) fst_conv snd_conv .
next
  case (rs_back f w p w' k n)
  then have "prog_steps keeps_frames (Step f)" using assms(2) by simp
  then have "ew_frames w' = ew_frames w \<and> prog_steps keeps_frames p"
    using rs_back(3) prog_steps_Step [of keeps_frames f] by (metis fst_conv snd_conv keeps_frames_def)
  with rs_back assms(2) show ?thesis by simp
next
  case (rs_env w w' ph)
  from assms(2) have "phase_inv en wid ph w" unfolding rs_env(1) fst_conv snd_conv .
  then have "phase_inv en wid ph w'" using rs_env(4) by (rule env_inv)
  then show ?thesis unfolding rs_env(2) fst_conv snd_conv .
qed simp_all

lemma run_reach_inv: "run_reach en wid E w0 c \<Longrightarrow> phase_inv en wid (fst c) (snd c)"
proof (induction rule: run_reach.induct)
  case (rr_step c d)
  then show ?case using run_step_inv by blast
qed simp

end
