(* ===== verification/Engine_Run.thy ===== *)
theory Engine_Run
  imports Engine_Specs Engine_Fanout
begin

text \<open>
  The pipeline and resuming on values: \<^verbatim>\<open>failWorkflow\<close>, \<^verbatim>\<open>executeNamedStage\<close>, the front
  part of \<^verbatim>\<open>run\<close>, the merge stage and \<^verbatim>\<open>Resume\<close> refine specifications on the abstract
  store; the properties of the engine that hold for one goroutine follow from them.
\<close>

definition awf :: "string \<Rightarrow> (wf_val \<Rightarrow> wf_val) \<Rightarrow> ('w, unit) aprog" where
  "awf i g s = ((), (fst s)(i := map_option g (fst s i)), snd s)"

definition fail_wf :: "goerror \<Rightarrow> wf_val \<Rightarrow> wf_val" where
  "fail_wf e v = v\<lparr>wf_Status := StatusFailed, wf_Error := error_text e\<rparr>"

lemma hdr_for_upd [simp]:
  "hdr_for w i (hdr\<lparr>wf_Status := x\<rparr>) = hdr_for w i hdr" "hdr_for w i (hdr\<lparr>wf_Error := e\<rparr>) = hdr_for w i hdr"
  by (simp_all add: hdr_for_def)

lemma refines_fail: "refines en (failWorkflow en i e) (awf i (fail_wf e))"
proof (rule refinesI [of en i], rule exI [of _ "fail_wf e"])
  fix w assume g: "good en w"
  show "eff i (fail_wf e) w (snd (exec (failWorkflow en i e) w)) \<and> quiet (en_se en) (snd (exec (failWorkflow en i e) w)) \<and>
     awf i (fail_wf e) (view w) =
       (fst (exec (failWorkflow en i e) w), (abs_store w)(i := map_option (fail_wf e) (abs_store w i)), ew_ext w)"
  proof (cases "gm_get (ew_data w) i")
    case None
    with g show ?thesis by (auto simp: failWorkflow_def block_simps awf_def intro: eff_absent)
  next
    case (Some hdr)
    with g have "eff i (fail_wf e) w
        (snd (upsert (en_se en) (hdr\<lparr>wf_Status := StatusFailed, wf_Error := error_text e\<rparr>) w))"
      by (intro upsert_eff) (auto simp: good_def fail_wf_def intro: hdr_forI)
    with Some g show ?thesis by (simp add: failWorkflow_def block_simps awf_def quiet_upsert)
  qed
qed

section \<open>Named stages\<close>

definition out_of :: "string \<Rightarrow> string \<Rightarrow> stage_kind \<Rightarrow> ('w, string result progress) aprog" where
  "out_of i sid kind s =
     ((case fst s i of
         None \<Rightarrow> Ret (Inl (errorf (''workflow '' @ i @ '' not found after '' @ stage_kind_str kind @ '' stage'')))
       | Some v \<Rightarrow>
           (case stage_index (wf_Stages v) sid of
              None \<Rightarrow> Ret (Inl (errorf (''stage '' @ sid @ '' not found after execution'')))
            | Some k \<Rightarrow> Ret (Inr (st_Output (wf_Stages v ! k))))), s)"

definition spec_execute :: "'w engine \<Rightarrow> string \<Rightarrow> stage_kind \<Rightarrow> (wf_val \<Rightarrow> string) \<Rightarrow> ('w, string result progress) aprog" where
  "spec_execute en i kind promptFn s =
     (case fst s i of
        None \<Rightarrow> (Ret (Inl (errorf (''workflow '' @ i @ '' not found''))), s)
      | Some v \<Rightarrow>
          (case pending_index (wf_Stages v) kind of
             None \<Rightarrow> (Ret (Inl (errorf (''no pending '' @ stage_kind_str kind @ '' stage in workflow '' @ i))), s)
           | Some k \<Rightarrow>
               (let sid = st_ID (wf_Stages v ! k) in
                abind (spec_runStage en i sid kind (promptFn v)) (\<lambda>r.
                case r of
                  Blocked \<Rightarrow> aret Blocked
                | Ret (Some e) \<Rightarrow> aret (Ret (Inl e))
                | Ret None \<Rightarrow> out_of i sid kind) s)))"

lemma refines_out:
  "refines en
     (bind (store_Get i) (\<lambda>g2. case g2 of
        None \<Rightarrow> Done (Ret (Inl (errorf (''workflow '' @ i @ '' not found after '' @ stage_kind_str kind @ '' stage''))))
      | Some wf2 \<Rightarrow>
          bind (stageIndex wf2 sid) (\<lambda>idx2. case idx2 of
            None \<Rightarrow> Done (Ret (Inl (errorf (''stage '' @ sid @ '' not found after execution''))))
          | Some k2 \<Rightarrow> bind (get_stage wf2 k2) (\<lambda>st2. Done (Ret (Inr (st_Output st2)))))))
     (out_of i sid kind)"
  unfolding refines_def
  by (auto simp: block_simps out_of_def abs_None abs_store_Some split: option.splits)
     (auto simp: abs_store_def core_view_def wf_view_def)

lemma refines_execute:
  fixes en :: "'w engine"
  assumes p: "\<And>h hdr. promptFn hdr = promptV (core_view h hdr)"
  shows "refines en (executeNamedStage en i kind promptFn) (spec_execute en i kind promptV)"
  unfolding refines_def
proof (intro allI impI)
  fix w assume g: "good en w"
  define K :: "string \<Rightarrow> goerror option progress \<Rightarrow> ('w eworld, string result progress) prog" where "K sid = (\<lambda>r. case r of
      Blocked \<Rightarrow> Done Blocked
    | Ret (Some e) \<Rightarrow> Done (Ret (Inl e))
    | Ret None \<Rightarrow>
        bind (store_Get i) (\<lambda>g2. case g2 of
          None \<Rightarrow> Done (Ret (Inl (errorf (''workflow '' @ i @ '' not found after '' @ stage_kind_str kind @ '' stage''))))
        | Some wf2 \<Rightarrow>
            bind (stageIndex wf2 sid) (\<lambda>idx2. case idx2 of
              None \<Rightarrow> Done (Ret (Inl (errorf (''stage '' @ sid @ '' not found after execution''))))
            | Some k2 \<Rightarrow> bind (get_stage wf2 k2) (\<lambda>st2. Done (Ret (Inr (st_Output st2)))))))" for sid
  define A :: "string \<Rightarrow> goerror option progress \<Rightarrow> ('w, string result progress) aprog" where "A sid = (\<lambda>r. case r of
      Blocked \<Rightarrow> aret Blocked
    | Ret (Some e) \<Rightarrow> aret (Ret (Inl e))
    | Ret None \<Rightarrow> out_of i sid kind)" for sid
  have K: "refines en (K sid r) (A sid r)" for sid r
    unfolding K_def A_def using refines_out by (auto simp del: append_Cons split: progress.splits option.splits intro: refines_Done)
  have "refines en (bind (runStage en i sid kind q) (K sid)) (abind (spec_runStage en i sid kind q) (A sid))" for sid q
    by (intro refines_bind refines_runStage K)
  then have run: "good en (snd (exec (bind (runStage en i sid kind q) (K sid)) w)) \<and>
      ew_frames (snd (exec (bind (runStage en i sid kind q) (K sid)) w)) = ew_frames w \<and>
      (fst (exec (bind (runStage en i sid kind q) (K sid)) w), view (snd (exec (bind (runStage en i sid kind q) (K sid)) w))) =
        abind (spec_runStage en i sid kind q) (A sid) (view w)" for sid q
    using g unfolding refines_def by blast
  have ex: "executeNamedStage en i kind promptFn = bind (store_Get i) (\<lambda>g. case g of
       None \<Rightarrow> Done (Ret (Inl (errorf (''workflow '' @ i @ '' not found''))))
     | Some wfl \<Rightarrow>
         bind (read (\<lambda>w. pending_index (slice_list (ew_heap w) (wf_Stages wfl)) kind)) (\<lambda>idx. case idx of
           None \<Rightarrow> Done (Ret (Inl (errorf (''no pending '' @ stage_kind_str kind @ '' stage in workflow '' @ i))))
         | Some k \<Rightarrow> bind (get_stage wfl k) (\<lambda>st. bind (runStage en i (st_ID st) kind (promptFn wfl)) (K (st_ID st)))))"
    unfolding executeNamedStage_def K_def Let_def ..
  show "good en (snd (exec (executeNamedStage en i kind promptFn) w)) \<and>
      ew_frames (snd (exec (executeNamedStage en i kind promptFn) w)) = ew_frames w \<and>
      (fst (exec (executeNamedStage en i kind promptFn) w), view (snd (exec (executeNamedStage en i kind promptFn) w))) =
        spec_execute en i kind promptV (view w)"
  proof (cases "gm_get (ew_data w) i")
    case None
    with g show ?thesis unfolding ex by (simp add: block_simps spec_execute_def abs_store_def)
  next
    case (Some hdr)
    let ?pi = "pending_index (slice_list (ew_heap w) (wf_Stages hdr)) kind"
    show ?thesis
    proof (cases ?pi)
      case None
      with Some g show ?thesis unfolding ex by (simp add: block_simps spec_execute_def abs_store_Some [OF Some])
    next
      case k: (Some k)
      let ?sid = "st_ID (slice_list (ew_heap w) (wf_Stages hdr) ! k)"
      have 1: "exec (executeNamedStage en i kind promptFn) w = exec (bind (runStage en i ?sid kind (promptFn hdr)) (K ?sid)) w"
        unfolding ex using Some k by (simp add: store_Get_def get_stage_def del: exec_bind) (simp add: store_Get_def get_stage_def)
      have "spec_execute en i kind promptV (view w) = abind (spec_runStage en i ?sid kind (promptFn hdr)) (A ?sid) (view w)"
        using Some k by (simp add: spec_execute_def view_def abs_store_Some [OF Some] A_def Let_def p [of hdr "ew_heap w"])
      with run show ?thesis unfolding 1 by simp
    qed
  qed
qed

section \<open>Appending stages\<close>

definition append_wf :: "stage list \<Rightarrow> wf_val \<Rightarrow> wf_val" where
  "append_wf xs v = v\<lparr>wf_Stages := wf_Stages v @ xs\<rparr>"

text \<open>What appending leaves of the world, and of the header it returns.\<close>

definition appended :: "string \<Rightarrow> stage list \<Rightarrow> wf_hdr \<Rightarrow> 'w eworld \<Rightarrow> wf_hdr \<times> 'w eworld \<Rightarrow> bool" where
  "appended i xs hdr w r \<longleftrightarrow> heap_inv (snd r) \<and> abs_store (snd r) = abs_store w \<and> hdr_ext (snd r) i (fst r) \<and>
     core_view (ew_heap (snd r)) (fst r) = append_wf xs (core_view (ew_heap w) hdr) \<and>
     ew_data (snd r) = ew_data w \<and> ew_ext (snd r) = ew_ext w \<and> ew_frames (snd r) = ew_frames w \<and> ew_fs (snd r) = ew_fs w"

lemma append_stages_appended:
  assumes "heap_inv w" and "hdr_ext w i hdr"
  shows "appended i xs hdr w (exec (append_stages se hdr xs) w)"
proof -
  obtain h' sl' where ap: "slice_append (se_grow se) (ew_heap w) (wf_Stages hdr) xs = (h', sl')" by fastforce
  from append_abs [OF assms ap refl refl] show ?thesis
    by (simp add: appended_def append_stages_def ap append_wf_def)
qed

lemma append_each_appended:
  "heap_inv w \<Longrightarrow> hdr_ext w i hdr \<Longrightarrow> appended i xs hdr w (exec (append_each se hdr xs) w)"
proof (induction xs arbitrary: hdr w)
  case Nil
  then show ?case by (simp add: appended_def append_wf_def)
next
  case (Cons x xs)
  let ?r = "exec (append_stages se hdr [x]) w"
  have 1: "appended i [x] hdr w ?r" using Cons.prems by (rule append_stages_appended)
  then have "appended i xs (fst ?r) (snd ?r) (exec (append_each se (fst ?r) xs) (snd ?r))"
    by (intro Cons.IH) (simp_all add: appended_def)
  with 1 show ?case by (simp add: appended_def append_wf_def)
qed

lemma appended_upsert:
  assumes "appended i xs hdr w r" and "gm_get (ew_data w) i = Some hdr" and "quiet se w"
  shows "eff i (append_wf xs) w (snd (upsert se (fst r) (snd r)))" "fst (upsert se (fst r) (snd r)) = None"
    "quiet se (snd (upsert se (fst r) (snd r)))"
proof -
  note a = assms(1) [unfolded appended_def]
  have q: "quiet se (snd r)" using a assms(3) by (simp add: quiet_def)
  show "fst (upsert se (fst r) (snd r)) = None" "quiet se (snd (upsert se (fst r) (snd r)))"
    using quiet_upsert [OF q] by simp_all
  have "eff i (append_wf xs) (snd r) (snd (upsert se (fst r) (snd r)))"
  proof (rule upsert_eff)
    show "heap_inv (snd r)" "gm_get (ew_data (snd r)) i = Some hdr" using a assms(2) by simp_all
    show "hdr_for (snd r) i (fst r)" using a by (simp add: hdr_ext_def)
    have "Some (core_view (ew_heap (snd r)) hdr) = Some (core_view (ew_heap w) hdr)"
      using a assms(2) abs_store_Some [of w i hdr] abs_store_Some [of "snd r" i hdr] by simp
    then show "core_view (ew_heap (snd r)) (fst r) = append_wf xs (core_view (ew_heap (snd r)) hdr)"
      using a by simp
  qed
  then show "eff i (append_wf xs) w (snd (upsert se (fst r) (snd r)))"
    using a by (simp add: eff_def)
qed

definition aappend :: "string \<Rightarrow> stage list \<Rightarrow> 'a \<Rightarrow> 'a \<Rightarrow> ('w, 'a) aprog" where
  "aappend i xs no_wf found s =
     (case fst s i of None \<Rightarrow> (no_wf, s) | Some v \<Rightarrow> (found, (fst s)(i \<mapsto> append_wf xs v), snd s))"

lemma refines_append:
  assumes absent: "\<And>w. gm_get (ew_data w) i = None \<Longrightarrow> exec p w = (no_wf, w)"
    and there: "\<And>w hdr. gm_get (ew_data w) i = Some hdr \<Longrightarrow> good en w \<Longrightarrow>
      fst (exec p w) = found \<and> quiet (en_se en) (snd (exec p w)) \<and> eff i (append_wf xs) w (snd (exec p w))"
  shows "refines en p (aappend i xs no_wf found)"
proof (rule refinesI [of en i])
  fix w assume g: "good en w"
  show "\<exists>g. eff i g w (snd (exec p w)) \<and> quiet (en_se en) (snd (exec p w)) \<and>
     aappend i xs no_wf found (view w) = (fst (exec p w), (abs_store w)(i := map_option g (abs_store w i)), ew_ext w)"
  proof (cases "gm_get (ew_data w) i")
    case None
    with g absent [OF None] show ?thesis
      by (intro exI [of _ id])
         (auto simp: aappend_def view_def good_def abs_store_def fun_upd_idem option.map_id intro: eff_absent)
  next
    case (Some hdr)
    with g there [OF Some g] show ?thesis
      by (intro exI [of _ "append_wf xs"]) (simp add: aappend_def view_def abs_store_Some)
  qed
qed

lemma refines_appendVerify:
  "refines en (appendVerify en i vid) (aappend i [new_stage vid KindVerify StagePending []] False True)"
proof (rule refines_append)
  fix w :: "'a eworld" and hdr assume a: "gm_get (ew_data w) i = Some hdr" "good en w"
  then have "appended i [new_stage vid KindVerify StagePending []] hdr w
      (exec (append_stages (en_se en) hdr [new_stage vid KindVerify StagePending []]) w)"
    by (intro append_stages_appended) (auto simp: good_def intro: hdr_extI)
  from appended_upsert [OF this a(1), of "en_se en"] a
  show "fst (exec (appendVerify en i vid) w) = True \<and> quiet (en_se en) (snd (exec (appendVerify en i vid) w)) \<and>
      eff i (append_wf [new_stage vid KindVerify StagePending []]) w (snd (exec (appendVerify en i vid) w))"
    by (simp add: appendVerify_def store_Get_def store_Upsert_def good_def)
qed (simp add: appendVerify_def store_Get_def)

section \<open>The front of the pipeline\<close>

definition afail_wf :: "string \<Rightarrow> goerror \<Rightarrow> ('w, bool progress) aprog" where
  "afail_wf i e = abind (awf i (fail_wf e)) (\<lambda>_. aret (Ret False))"

definition spec_plan :: "'w engine \<Rightarrow> string \<Rightarrow> ('w, bool progress) aprog" where
  "spec_plan en i =
     abind (spec_execute en i KindResearch research_prompt) (\<lambda>r1.
     case r1 of
       Blocked \<Rightarrow> aret Blocked
     | Ret (Inl e) \<Rightarrow> afail_wf i e
     | Ret (Inr researchOutput) \<Rightarrow>
     abind (spec_execute en i KindPlan (plan_prompt researchOutput)) (\<lambda>r2.
     case r2 of
       Blocked \<Rightarrow> aret Blocked
     | Ret (Inl e) \<Rightarrow> afail_wf i e
     | Ret (Inr planOutput) \<Rightarrow>
     (case ValidatePlanOutput (en_jerr en) planOutput of
        Inl e \<Rightarrow> afail_wf i (errorf_w ''plan validation: '' e [])
      | Inr tasks \<Rightarrow> aappend i (implement_stages i 0 tasks) (Ret False) (Ret True))))"

lemma refines_afail: "refines en (bind (failWorkflow en i e) (\<lambda>_. Done (Ret False))) (afail_wf i e)"
  unfolding afail_wf_def by (intro refines_bind refines_fail refines_Done)

lemma refines_tasks:
  "refines en
     (bind (store_Get i) (\<lambda>g. case g of
        None \<Rightarrow> Done (Ret False)
      | Some wfl \<Rightarrow>
          bind (append_each (en_se en) wfl xs) (\<lambda>wfl'.
          bind (store_Upsert (en_se en) wfl') (\<lambda>u. case u of
            Some e \<Rightarrow> bind (failWorkflow en i (errorf_w ''persist implement stages: '' e [])) (\<lambda>_. Done (Ret False))
          | None \<Rightarrow> Done (Ret True)))))
     (aappend i xs (Ret False) (Ret True))"
proof (rule refines_append)
  fix w :: "'a eworld" and hdr assume a: "gm_get (ew_data w) i = Some hdr" "good en w"
  then have "appended i xs hdr w (exec (append_each (en_se en) hdr xs) w)"
    by (intro append_each_appended) (auto simp: good_def intro: hdr_extI)
  note u = appended_upsert [OF this a(1), of "en_se en"]
  let ?p = "bind (store_Get i) (\<lambda>g. case g of
        None \<Rightarrow> Done (Ret False)
      | Some wfl \<Rightarrow>
          bind (append_each (en_se en) wfl xs) (\<lambda>wfl'.
          bind (store_Upsert (en_se en) wfl') (\<lambda>u. case u of
            Some e \<Rightarrow> bind (failWorkflow en i (errorf_w ''persist implement stages: '' e [])) (\<lambda>_. Done (Ret False))
          | None \<Rightarrow> Done (Ret True))))"
  show "fst (exec ?p w) = Ret True \<and> quiet (en_se en) (snd (exec ?p w)) \<and> eff i (append_wf xs) w (snd (exec ?p w))"
    using a u by (simp add: store_Get_def store_Upsert_def good_def)
qed (simp add: store_Get_def)

lemma prompts_view: "research_prompt hdr = research_prompt (core_view h hdr)" "plan_prompt out hdr = plan_prompt out (core_view h hdr)"
  by (simp_all add: research_prompt_def plan_prompt_def)

lemma refines_named:
  "refines en (executeNamedStage en i k research_prompt) (spec_execute en i k research_prompt)"
  "refines en (executeNamedStage en i k (plan_prompt out)) (spec_execute en i k (plan_prompt out))"
  by (rule refines_execute, rule prompts_view)+

lemma refines_case:
  assumes "refines en Pb Ab" and "\<And>e. refines en (Pl e) (Al e)" and "\<And>y. refines en (Pr y) (Ar y)"
  shows "refines en (case r of Blocked \<Rightarrow> Pb | Ret (Inl e) \<Rightarrow> Pl e | Ret (Inr y) \<Rightarrow> Pr y)
    (case r of Blocked \<Rightarrow> Ab | Ret (Inl e) \<Rightarrow> Al e | Ret (Inr y) \<Rightarrow> Ar y)"
  using assms by (auto split: progress.splits sum.splits)

lemma refines_plan: "refines en (run_plan en i) (spec_plan en i)"
proof -
  have tasks: "refines en
      (case ValidatePlanOutput (en_jerr en) out of
         Inl e \<Rightarrow> bind (failWorkflow en i (errorf_w ''plan validation: '' e [])) (\<lambda>_. Done (Ret False))
       | Inr tasks \<Rightarrow>
         bind (store_Get i) (\<lambda>g. case g of
           None \<Rightarrow> Done (Ret False)
         | Some wfl \<Rightarrow>
             bind (append_each (en_se en) wfl (implement_stages i 0 tasks)) (\<lambda>wfl'.
             bind (store_Upsert (en_se en) wfl') (\<lambda>u. case u of
               Some e \<Rightarrow> bind (failWorkflow en i (errorf_w ''persist implement stages: '' e [])) (\<lambda>_. Done (Ret False))
             | None \<Rightarrow> Done (Ret True)))))
      (case ValidatePlanOutput (en_jerr en) out of
         Inl e \<Rightarrow> afail_wf i (errorf_w ''plan validation: '' e [])
       | Inr tasks \<Rightarrow> aappend i (implement_stages i 0 tasks) (Ret False) (Ret True))" for out
    by (cases "ValidatePlanOutput (en_jerr en) out")
       (simp_all only: sum.case refines_afail refines_tasks)
  show ?thesis
    unfolding run_plan_def spec_plan_def
    by (intro refines_bind refines_named refines_case refines_Done refines_afail tasks)
qed

lemma refines_progress:
  assumes "refines en Pb Ab" and "\<And>y. refines en (Pr y) (Ar y)"
  shows "refines en (case r of Blocked \<Rightarrow> Pb | Ret y \<Rightarrow> Pr y) (case r of Blocked \<Rightarrow> Ab | Ret y \<Rightarrow> Ar y)"
  using assms by (simp split: progress.splits)

lemma refines_option:
  assumes "refines en Pn An" and "\<And>y. refines en (Ps y) (As y)"
  shows "refines en (case r of None \<Rightarrow> Pn | Some y \<Rightarrow> Ps y) (case r of None \<Rightarrow> An | Some y \<Rightarrow> As y)"
  using assms by (simp split: option.splits)

lemma refines_sum:
  assumes "\<And>e. refines en (Pl e) (Al e)" and "\<And>y. refines en (Pr y) (Ar y)"
  shows "refines en (case r of Inl e \<Rightarrow> Pl e | Inr y \<Rightarrow> Pr y) (case r of Inl e \<Rightarrow> Al e | Inr y \<Rightarrow> Ar y)"
  using assms by (simp split: sum.splits)

lemma refines_if: "refines en P A \<Longrightarrow> refines en P' A' \<Longrightarrow> refines en (if b then P else P') (if b then A else A')"
  by simp

lemmas refines_rules = refines_bind refines_if refines_progress refines_option refines_sum refines_Done refines_runStage

section \<open>An implement worker\<close>

definition link_verify :: "string \<Rightarrow> string \<Rightarrow> wf_val \<Rightarrow> wf_val" where
  "link_verify sid vid v =
     (case stage_index (wf_Stages v) vid of
        None \<Rightarrow> v
      | Some a \<Rightarrow> upd_stage sid (\<lambda>st. st\<lparr>st_VerifySessionID := st_SessionID (wf_Stages v ! a)\<rparr>) v)"

lemma refines_link: "refines en (recordVerifySession en i sid vid) (awf i (link_verify sid vid))"
proof (rule refinesI [of en i], rule exI [of _ "link_verify sid vid"])
  fix w assume g: "good en w"
  let ?p = "recordVerifySession en i sid vid"
  have h: "heap_inv w" "quiet (en_se en) w" using g by (auto simp: good_def)
  have "eff i (link_verify sid vid) w (snd (exec ?p w)) \<and> quiet (en_se en) (snd (exec ?p w)) \<and> fst (exec ?p w) = ()"
  proof (cases "gm_get (ew_data w) i")
    case None
    with h show ?thesis by (auto simp: recordVerifySession_def block_simps intro: eff_absent)
  next
    case (Some hdr)
    let ?xs = "slice_list (ew_heap w) (wf_Stages hdr)"
    show ?thesis
    proof (cases "stage_index ?xs vid = None \<or> stage_index ?xs sid = None")
      case True
      then have "link_verify sid vid (core_view (ew_heap w) hdr) = core_view (ew_heap w) hdr"
        by (auto simp: link_verify_def upd_stage_def split: option.splits)
      then have "eff i (link_verify sid vid) w w"
        using h by (intro eff_same) (simp_all add: abs_store_Some [OF Some])
      with True Some h show ?thesis by (auto simp: recordVerifySession_def block_simps split: option.splits)
    next
      case False
      then obtain a b where ab: "stage_index ?xs vid = Some a" "stage_index ?xs sid = Some b" by auto
      let ?f = "\<lambda>st. st\<lparr>st_VerifySessionID := st_SessionID (?xs ! a)\<rparr>"
      let ?w' = "snd (upsert (en_se en) hdr (w\<lparr>ew_heap := slice_update (ew_heap w) (wf_Stages hdr) b ?f\<rparr>))"
      have "eff i (upd_stage sid ?f) w ?w'" using h(1) Some ab(2) by (rule write1_eff)
      moreover have "link_verify sid vid (core_view (ew_heap w) hdr) = upd_stage sid ?f (core_view (ew_heap w) hdr)"
        using ab by (simp add: link_verify_def)
      ultimately have "eff i (link_verify sid vid) w ?w'" by (simp add: eff_def abs_store_Some [OF Some])
      with Some ab h show ?thesis by (simp add: recordVerifySession_def block_simps quiet_upsert)
    qed
  qed
  then show "eff i (link_verify sid vid) w (snd (exec ?p w)) \<and> quiet (en_se en) (snd (exec ?p w)) \<and>
     awf i (link_verify sid vid) (view w) =
       (fst (exec ?p w), (abs_store w)(i := map_option (link_verify sid vid) (abs_store w i)), ew_ext w)"
    by (simp add: awf_def view_def)
qed

definition areject :: "string \<Rightarrow> string \<Rightarrow> string \<Rightarrow> string \<Rightarrow> ('w, goerror option progress) aprog" where
  "areject i sid shown msg =
     (let r = Ret (Some (errorf shown)) in ablock i sid (fail_stage (errorf msg)) r r r)"

lemma refines_reject:
  "refines en (bind (markStageFailed en i sid (errorf msg)) (\<lambda>_. Done (Ret (Some (errorf shown))))) (areject i sid shown msg)"
proof -
  have "refines en (bind (markStageFailed en i sid (errorf msg)) (\<lambda>_. Done (Ret (Some (errorf shown)))))
     (abind (ablock i sid (fail_stage (errorf msg)) (errorf msg) (errorf msg) (errorf msg)) (\<lambda>_. aret (Ret (Some (errorf shown)))))"
    by (intro refines_bind refines_mark refines_Done)
  then show ?thesis by (simp add: abind_ablock areject_def Let_def)
qed

definition spec_judge :: "string \<Rightarrow> string \<Rightarrow> string \<Rightarrow> ('w, goerror option progress) aprog" where
  "spec_judge i sid out =
     (let reject = (\<lambda>msg. areject i sid (''implement stage '' @ sid @ '': '' @ msg) msg) in
      case unmarshal_verifyResult (ExtractVerifyBlock out) of
        None \<Rightarrow> reject (''verifier output not parseable: '' @ out)
      | Some vr \<Rightarrow> if \<not> vr_Pass vr then reject (''verifier: '' @ str_Join (vr_Issues vr) ''; '') else aret (Ret None))"

lemma refines_judge: "refines en (judge en i sid out) (spec_judge i sid out)"
  unfolding judge_def spec_judge_def Let_def
  by (intro refines_rules refines_reject)

text \<open>The output of a stage in the store, empty when the stage is not there.\<close>

definition stage_output :: "wf_val \<Rightarrow> string \<Rightarrow> string" where
  "stage_output v sid = (case stage_index (wf_Stages v) sid of None \<Rightarrow> [] | Some k \<Rightarrow> st_Output (wf_Stages v ! k))"

definition spec_verdict :: "string \<Rightarrow> string \<Rightarrow> ('w, goerror option progress) aprog" where
  "spec_verdict i sid s =
     (case fst s i of
        None \<Rightarrow> (Ret (Some (errorf (''workflow '' @ i @ '' not found after verify stage''))), s)
      | Some v \<Rightarrow> spec_judge i sid (stage_output v (sid @ ''-verify'')) s)"

lemma refines_verdict: "refines en (verdict en i sid) (spec_verdict i sid)"
  unfolding refines_def
proof (intro allI impI)
  fix w assume g: "good en w"
  note j = refines_judge [unfolded refines_def, rule_format, OF g]
  show "good en (snd (exec (verdict en i sid) w)) \<and> ew_frames (snd (exec (verdict en i sid) w)) = ew_frames w \<and>
      (fst (exec (verdict en i sid) w), view (snd (exec (verdict en i sid) w))) = spec_verdict i sid (view w)"
  proof (cases "gm_get (ew_data w) i")
    case None
    with g show ?thesis by (simp add: verdict_def block_simps spec_verdict_def abs_store_def)
  next
    case (Some hdr)
    let ?out = "stage_output (core_view (ew_heap w) hdr) (sid @ ''-verify'')"
    have 1: "exec (verdict en i sid) w = exec (judge en i sid ?out) w"
      using Some by (auto simp: verdict_def store_Get_def stageIndex_def get_stage_def stage_output_def split: option.splits)
    have "spec_verdict i sid (view w) = spec_judge i sid ?out (view w)"
      by (simp add: spec_verdict_def view_def abs_store_Some [OF Some])
    with j [of i sid ?out] show ?thesis unfolding 1 by simp
  qed
qed

definition areload :: "string \<Rightarrow> string \<Rightarrow> ('w, (string \<times> string) result) aprog" where
  "areload i sid s =
     ((case fst s i of
         None \<Rightarrow> Inl (errorf (''workflow '' @ i @ '' not found after implement stage''))
       | Some v \<Rightarrow>
           (case stage_index (wf_Stages v) sid of
              None \<Rightarrow> Inl (errorf (''implement stage '' @ sid @ '' not found after execution''))
            | Some k \<Rightarrow> Inr (st_Output (wf_Stages v ! k), st_SessionID (wf_Stages v ! k)))), s)"

lemma refines_reload: "refines en (reload i sid) (areload i sid)"
  unfolding refines_def reload_def
  by (auto simp: block_simps areload_def abs_None abs_store_Some split: option.splits)
     (auto simp: abs_store_def core_view_def wf_view_def)

definition spec_verify :: "'w engine \<Rightarrow> string \<Rightarrow> string \<Rightarrow> string \<Rightarrow> ('w, goerror option progress) aprog" where
  "spec_verify en i sid prompt =
     abind (aappend i [new_stage (sid @ ''-verify'') KindVerify StagePending []] False True) (\<lambda>there.
     if \<not> there then aret (Ret (Some (errorf (''workflow '' @ i @ '' not found before verify stage''))))
     else
       abind (spec_runStage en i (sid @ ''-verify'') KindVerify prompt) (\<lambda>r.
       case r of
         Blocked \<Rightarrow> aret Blocked
       | Ret verifyRunErr \<Rightarrow>
           abind (awf i (link_verify sid (sid @ ''-verify''))) (\<lambda>_.
           case verifyRunErr of Some e \<Rightarrow> aret (Ret (Some e)) | None \<Rightarrow> spec_verdict i sid)))"

lemma refines_verify: "refines en (verify_part en i sid prompt) (spec_verify en i sid prompt)"
  unfolding verify_part_def spec_verify_def
  by (intro refines_rules refines_appendVerify refines_link refines_verdict)

text \<open>The body of an implement worker on values; \<open>wfl\<close> is the workflow at the start of the fan-out.\<close>

definition spec_work :: "'w engine \<Rightarrow> string \<Rightarrow> 's workflow \<Rightarrow> string \<Rightarrow> string \<Rightarrow> string \<Rightarrow>
    ('w, goerror option progress) aprog" where
  "spec_work en i wfl sid task branch =
     abind (spec_runStage en i sid KindImplement (implement_prompt wfl branch task)) (\<lambda>r.
     case r of
       Blocked \<Rightarrow> aret Blocked
     | Ret r1 \<Rightarrow>
         (case r1 of
            Some e \<Rightarrow> aret (Ret (Some e))
          | None \<Rightarrow>
              abind (areload i sid) (\<lambda>out.
              case out of
                Inl e \<Rightarrow> aret (Ret (Some e))
              | Inr os \<Rightarrow>
                  if \<not> fst (ValidateImplementOutput (fst os)) then
                    (let msg = str_Join (snd (ValidateImplementOutput (fst os))) ''; ''
                     in areject i sid (''implement stage '' @ sid @ '' structural validation: '' @ msg)
                          (''structural validation: '' @ msg))
                  else spec_verify en i sid (verify_prompt wfl branch task (snd os)))))"

lemma refines_work: "refines en (implement_work en i wfl sid task branch) (spec_work en i wfl sid task branch)"
  unfolding implement_work_def spec_work_def Let_def case_prod_beta
  by (intro refines_rules refines_reload refines_reject refines_verify)

section \<open>What a stage ends as\<close>

lemma ablock_there:
  "S i = Some v \<Longrightarrow> stage_index (wf_Stages v) sid = Some k \<Longrightarrow>
     ablock i sid f a b c (S, x) = (c, S(i \<mapsto> upd_stage sid f v), x)"
  by (simp add: ablock_def)

lemma upd_stage_there:
  assumes "stage_index (wf_Stages v) sid = Some k"
  shows "upd_stage sid f v = v\<lparr>wf_Stages := (wf_Stages v)[k := f (wf_Stages v ! k)]\<rparr>"
  using assms by (simp add: upd_stage_def)

lemma stage_index_upd_stage:
  "(\<And>st. st_ID (f st) = st_ID st) \<Longrightarrow> stage_index (wf_Stages (upd_stage sid f v)) sid' = stage_index (wf_Stages v) sid'"
  by (auto simp: upd_stage_def stage_index_upd split: option.splits)

text \<open>
  The stage \<open>st\<close> a run of \<^verbatim>\<open>runStage\<close> leaves behind, given its result: done with the output
  of a session that does not report the usage limit, or failed with the text of the error.
\<close>

fun stage_result :: "string \<Rightarrow> goerror option progress \<Rightarrow> stage \<Rightarrow> bool" where
  "stage_result prompt Blocked st \<longleftrightarrow> st_Status st = StageRunning \<and> st_Input st = prompt"
| "stage_result prompt (Ret None) st \<longleftrightarrow>
     st_Status st = StageDone \<and> st_Input st = prompt \<and> \<not> IsUsageLimitError (st_Output st)"
| "stage_result prompt (Ret (Some e)) st \<longleftrightarrow>
     st_Status st = StageFailed \<and> st_Input st = prompt \<and> st_Error st = error_text e"

definition only_stage :: "astore \<Rightarrow> string \<Rightarrow> string \<Rightarrow> astore \<Rightarrow> stage \<Rightarrow> bool" where
  "only_stage S i sid S' st \<longleftrightarrow> (\<exists>v k. S i = Some v \<and> stage_index (wf_Stages v) sid = Some k \<and>
     S' = S(i \<mapsto> v\<lparr>wf_Stages := (wf_Stages v)[k := st]\<rparr>) \<and> st_ID st = st_ID (wf_Stages v ! k) \<and>
     st_Kind st = st_Kind (wf_Stages v ! k))"

lemma only_stage_upd:
  assumes "only_stage S i sid S' st" and "\<And>st. st_ID (f st) = st_ID st" and "\<And>st. st_Kind (f st) = st_Kind st"
    and "ablock i sid f a b c (S', x) = (r, S'', x')"
  shows "r = c \<and> x' = x \<and> only_stage S i sid S'' (f st)"
proof -
  from assms(1) obtain v k where v: "S i = Some v" "stage_index (wf_Stages v) sid = Some k"
    "S' = S(i \<mapsto> v\<lparr>wf_Stages := (wf_Stages v)[k := st]\<rparr>)" "st_ID st = st_ID (wf_Stages v ! k)"
    "st_Kind st = st_Kind (wf_Stages v ! k)"
    by (auto simp: only_stage_def)
  have k: "k < length (wf_Stages v)" using stage_index_Some [OF v(2)] by simp
  have i: "stage_index ((wf_Stages v)[k := st]) sid = Some k"
    using stage_index_upd [OF v(2), of "\<lambda>_. st"] v(2,4) by simp
  then have "ablock i sid f a b c (S', x) = (c, S(i \<mapsto> v\<lparr>wf_Stages := (wf_Stages v)[k := f st]\<rparr>), x)"
    using k by (simp add: v(3) ablock_def upd_stage_def)
  with v assms(2-4) show ?thesis by (auto simp: only_stage_def)
qed

lemma only_stage_fail:
  assumes "only_stage S i sid S' st" and "st_Input st = prompt"
    and "ablock i sid (fail_stage e) a b c (S', x) = (r, S'', x')"
  shows "r = c \<and> x' = x \<and> (\<exists>st'. only_stage S i sid S'' st' \<and> stage_result prompt (Ret (Some e)) st')"
proof -
  from only_stage_upd [OF assms(1) _ _ assms(3)]
  have "r = c" "x' = x" "only_stage S i sid S'' (fail_stage e st)" by (auto simp: fail_stage_def)
  moreover have "stage_result prompt (Ret (Some e)) (fail_stage e st)" using assms(2) by (simp add: fail_stage_def)
  ultimately show ?thesis by blast
qed

lemma spec_create_result:
  assumes "only_stage S i sid S' st" and "st_Input st = prompt"
    and "spec_create en n i sid kind q repo branch (S', x) = (r, S'', x')"
  shows "case r of Ret (Inl e) \<Rightarrow> \<exists>st'. only_stage S i sid S'' st' \<and> stage_result prompt (Ret (Some e)) st'
         | _ \<Rightarrow> S'' = S'"
  using assms(3)
proof (induction n arbitrary: x)
  case 0
  then show ?case by (simp add: aret_def)
next
  case (Suc n)
  note f = only_stage_fail [OF assms(1,2)]
  obtain rc xc where c: "en_CreateSession en (stage_kind_str kind) q repo branch x = (rc, xc)" by fastforce
  obtain rs xs where sl: "en_sleep en 5 xc = (rs, xs)" by fastforce
  show ?case
  proof (cases rc)
    case (Inr sess)
    with c Suc.prems show ?thesis by (auto simp: abind_def aext_def aret_def)
  next
    case (Inl cerr)
    show ?thesis
    proof (cases "str_Contains (error_text cerr) ''no slots available''")
      case False
      with c Inl Suc.prems show ?thesis
        by (auto simp: abind_def aext_def Let_def dest!: f)
    next
      case True
      with c Inl sl Suc.prems Suc.IH show ?thesis
        by (cases rs) (auto simp: abind_def aext_def dest!: f)
    qed
  qed
qed

lemma spec_finish_result:
  assumes "only_stage S i sid S' st" and "st_Input st = prompt"
    and "spec_finish en i sid sess (S', x) = (r, S'', x')"
  shows "\<exists>st'. only_stage S i sid S'' st' \<and> stage_result prompt r st'"
proof -
  obtain rw xw where w: "en_WaitForSession en sess x = (rw, xw)" by fastforce
  note f = only_stage_fail [OF assms(1,2)]
  show ?thesis
  proof (cases rw)
    case (Inl err)
    with w assms(3) show ?thesis by (auto simp: spec_finish_def abind_def aext_def afail_def dest!: f split: if_splits)
  next
    case (Inr res)
    show ?thesis
    proof (cases "IsUsageLimitError res")
      case True
      with w Inr assms(3) show ?thesis by (auto simp: spec_finish_def abind_def aext_def afail_def dest!: f)
    next
      case False
      with w Inr assms(3) have "ablock i sid (done_stage res)
          (Ret (Some (errorf (''workflow '' @ i @ '' not found after WaitForSession''))))
          (Ret (Some (errorf (''stage '' @ sid @ '' missing after WaitForSession'')))) (Ret None) (S', xw) = (r, S'', x')"
        by (simp add: spec_finish_def abind_def aext_def)
      from only_stage_upd [OF assms(1) _ _ this]
      have "r = Ret None" "only_stage S i sid S'' (done_stage res st)" by (simp_all add: done_stage_def)
      moreover have "stage_result prompt (Ret None) (done_stage res st)"
        using False assms(2) by (simp add: done_stage_def)
      ultimately show ?thesis by blast
    qed
  qed
qed

lemma spec_runStage_result:
  assumes "S i = Some v" and "stage_index (wf_Stages v) sid = Some k"
    and "spec_runStage en i sid kind prompt (S, x) = (r, S', x')"
  shows "\<exists>st'. only_stage S i sid S' st' \<and> stage_result prompt r st'"
proof -
  let ?S1 = "S(i \<mapsto> upd_stage sid (start_stage prompt) v)" and ?st = "start_stage prompt (wf_Stages v ! k)"
  have 1: "only_stage S i sid ?S1 ?st"
    using assms(1,2) by (auto simp: only_stage_def upd_stage_def start_stage_def)
  have inp: "st_Input ?st = prompt" and run: "stage_result prompt Blocked ?st" by (simp_all add: start_stage_def)
  obtain rc S2 x2 where c: "spec_create en (en_fuel en) i sid kind prompt (wf_RepoURL v) (wf_Branch v) (?S1, x) = (rc, S2, x2)"
    by (metis prod_cases3)
  note cr = spec_create_result [OF 1 inp c]
  note sess = assms(3) [unfolded spec_runStage_def] c
  show ?thesis
  proof (cases rc)
    case Blocked
    with cr sess assms(1,2) 1 run show ?thesis by (auto simp: spec_session_def abind_def aret_def)
  next
    case (Ret y)
    show ?thesis
    proof (cases y)
      case (Inl e)
      with Ret cr sess assms(1,2) show ?thesis by (auto simp: spec_session_def abind_def aret_def)
    next
      case (Inr s)
      obtain f S3 x3 where b: "ablock i sid (\<lambda>st. st\<lparr>st_SessionID := s\<rparr>) False True True (S2, x2) = (f, S3, x3)"
        by (metis prod_cases3)
      have S2: "S2 = ?S1" using cr Ret Inr by simp
      from only_stage_upd [OF 1 _ _ b [unfolded S2]] have o: "f" "only_stage S i sid S3 (?st\<lparr>st_SessionID := s\<rparr>)" by simp_all
      from assms(1-3) c b Ret Inr o(1) have "spec_finish en i sid s (S3, x3) = (r, S', x')"
        by (simp add: spec_runStage_def spec_session_def abind_def)
      from spec_finish_result [OF o(2) _ this, of prompt] inp show ?thesis by simp
    qed
  qed
qed

end
