(* ===== verification/Engine_Resume.thy ===== *)
theory Engine_Resume
  imports Engine_Run
begin

text \<open>
  The ends of the pipeline on values: the merge stage and the final status of \<^verbatim>\<open>run\<close>, the
  stages \<^verbatim>\<open>Resume\<close> resets, and the end of \<^verbatim>\<open>resumeRun\<close>.
\<close>

section \<open>Merging\<close>

lemma abs_store_ext: "abs_store (w\<lparr>ew_ext := x\<rparr>) = abs_store w"
  by (simp add: abs_store_def fun_eq_iff)

definition merge_stage :: "goerror option \<Rightarrow> stage \<Rightarrow> stage" where
  "merge_stage me st =
     (case me of
        Some e \<Rightarrow> st\<lparr>st_Status := StageFailed, st_Error := error_text e\<rparr>
      | None \<Rightarrow> st\<lparr>st_Status := StageDone\<rparr>)"

definition final_status :: "goerror option \<Rightarrow> goerror option \<Rightarrow> 's workflow \<Rightarrow> 's workflow" where
  "final_status fe me v =
     (case (fe, me) of
        (Some e, _) \<Rightarrow> v\<lparr>wf_Status := StatusFailed, wf_Error := error_text e\<rparr>
      | (None, Some e) \<Rightarrow> v\<lparr>wf_Status := StatusFailed, wf_Error := error_text e\<rparr>
      | (None, None) \<Rightarrow> v\<lparr>wf_Status := StatusDone\<rparr>)"

definition final_wf :: "string \<Rightarrow> goerror option \<Rightarrow> goerror option \<Rightarrow> wf_val \<Rightarrow> wf_val" where
  "final_wf i fe me v = final_status fe me (upd_stage (i @ ''-merge'') (merge_stage me)
     (append_wf [new_stage (i @ ''-merge'') KindMerge StageRunning []] v))"

lemma final_view [simp]: "core_view h (final_status fe me hdr) = final_status fe me (core_view h hdr)"
  by (simp add: final_status_def split: option.splits)

lemma final_hdr [simp]: "hdr_for w i (final_status fe me hdr) = hdr_for w i hdr"
  by (simp add: final_status_def hdr_for_def split: option.splits)

text \<open>The end of \<^verbatim>\<open>run\<close> after the merge function has returned.\<close>

definition run_end :: "'w engine \<Rightarrow> nat \<Rightarrow> string \<Rightarrow> goerror option \<Rightarrow> ('w eworld, unit) prog" where
  "run_end en k wid mergeErr =
      bind (store_Get wid) (\<lambda>g2.
      case g2 of
        None \<Rightarrow> Done ()
      | Some wf2 \<Rightarrow>
      bind (stageIndex wf2 (wid @ ''-merge'')) (\<lambda>idx.
      bind (case idx of
              None \<Rightarrow> Done ()
            | Some i \<Rightarrow>
                (case mergeErr of
                   Some e \<Rightarrow>
                     bind (set_stage wf2 i (\<lambda>st. st\<lparr>st_Status := StageFailed\<rparr>)) (\<lambda>_.
                     set_stage wf2 i (\<lambda>st. st\<lparr>st_Error := error_text e\<rparr>))
                 | None \<Rightarrow> set_stage wf2 i (\<lambda>st. st\<lparr>st_Status := StageDone\<rparr>))) (\<lambda>_.
      bind (read (\<lambda>w. fr_firstErr (ew_frames w ! k))) (\<lambda>firstErr.
      bind (store_Upsert (en_se en) (final_status firstErr mergeErr wf2)) (\<lambda>_. Done ())))))"

lemma run_back_split:
  "run_back en k wid =
     bind (store_Get wid) (\<lambda>g.
      case g of
        None \<Rightarrow> Done ()
      | Some wf1 \<Rightarrow>
      bind (append_stages (en_se en) wf1 [new_stage (wid @ ''-merge'') KindMerge StageRunning []]) (\<lambda>wf1.
      bind (store_Upsert (en_se en) wf1) (\<lambda>_.
      bind (read (\<lambda>w. fr_succeeded (ew_frames w ! k))) (\<lambda>branches.
      bind (ext_act (en_mergeFn en (wf_RepoURL wf1) (wf_Branch wf1) (en_token en) branches)) (run_end en k wid)))))"
  unfolding run_back_def run_end_def final_status_def Let_def ..

lemma exec_run_end:
  assumes "good en w" and "abs_store w i = Some v"
  shows "quiet (en_se en) (snd (exec (run_end en k i me) w))"
    and "eff i (final_status (fr_firstErr (ew_frames w ! k)) me \<circ> upd_stage (i @ ''-merge'') (merge_stage me)) w
           (snd (exec (run_end en k i me) w))"
proof -
  let ?mid = "i @ ''-merge''" and ?fe = "fr_firstErr (ew_frames w ! k)"
  have h: "heap_inv w" "quiet (en_se en) w" using assms(1) by (auto simp: good_def)
  from assms(2) obtain hdr where hdr: "gm_get (ew_data w) i = Some hdr" using abs_get by blast
  let ?set = "\<lambda>idx. case idx of
              None \<Rightarrow> Done ()
            | Some i \<Rightarrow>
                (case me of
                   Some e \<Rightarrow>
                     bind (set_stage hdr i (\<lambda>st. st\<lparr>st_Status := StageFailed\<rparr>)) (\<lambda>_.
                     set_stage hdr i (\<lambda>st. st\<lparr>st_Error := error_text e\<rparr>))
                 | None \<Rightarrow> set_stage hdr i (\<lambda>st. st\<lparr>st_Status := StageDone\<rparr>))"
  let ?idx = "stage_index (slice_list (ew_heap w) (wf_Stages hdr)) ?mid"
  define w1 where "w1 = snd (exec (?set ?idx) w)"
  have w1: "eff i (upd_stage ?mid (merge_stage me)) w w1 \<and> ew_data w1 = ew_data w \<and> quiet (en_se en) w1"
  proof (cases ?idx)
    case None
    then have "upd_stage ?mid (merge_stage me) (core_view (ew_heap w) hdr) = core_view (ew_heap w) hdr"
      by (simp add: upd_stage_def)
    then have "eff i (upd_stage ?mid (merge_stage me)) w w"
      using h by (intro eff_same) (simp_all add: abs_store_Some [OF hdr])
    with None h show ?thesis by (simp add: w1_def)
  next
    case (Some n)
    show ?thesis
    proof (cases me)
      case None
      have "merge_stage None = (\<lambda>st. st\<lparr>st_Status := StageDone\<rparr>)" by (simp add: fun_eq_iff merge_stage_def)
      with set_eff [OF h(1) hdr Some] None Some h show ?thesis by (simp add: w1_def set_stage_def)
    next
      case (Some e)
      have "merge_stage (Some e) = (\<lambda>st. st\<lparr>st_Error := error_text e\<rparr>) \<circ> (\<lambda>st. st\<lparr>st_Status := StageFailed\<rparr>)"
        by (simp add: fun_eq_iff merge_stage_def)
      with set_two_eff [OF h(1) hdr \<open>?idx = Some n\<close>, of "\<lambda>st. st\<lparr>st_Status := StageFailed\<rparr>"] Some \<open>?idx = Some n\<close> h
      show ?thesis by (simp add: w1_def set_stage_def)
    qed
  qed
  then have e1: "eff i (upd_stage ?mid (merge_stage me)) w w1" and d1: "gm_get (ew_data w1) i = Some hdr"
    and q1: "quiet (en_se en) w1" using hdr by simp_all
  have e2: "eff i (final_status ?fe me) w1 (snd (upsert (en_se en) (final_status ?fe me hdr) w1))"
    using effD(1) [OF e1] d1 by (intro upsert_eff) (auto intro: hdr_forI)
  have ex: "exec (run_end en k i me) w = ((), snd (upsert (en_se en) (final_status ?fe me hdr) w1))"
    using hdr effD(4) [OF e1] unfolding run_end_def w1_def
    by (simp add: store_Get_def stageIndex_def store_Upsert_def)
  show "quiet (en_se en) (snd (exec (run_end en k i me) w))"
    unfolding ex using quiet_upsert(2) [OF q1] by simp
  show "eff i (final_status ?fe me \<circ> upd_stage ?mid (merge_stage me)) w (snd (exec (run_end en k i me) w))"
    unfolding ex snd_conv using e1 e2 by (rule eff_trans)
qed

lemma exec_run_back:
  assumes g: "good en w" and v: "abs_store w i = Some v"
    and m: "en_mergeFn en (wf_RepoURL v) (wf_Branch v) (en_token en) (fr_succeeded (ew_frames w ! k)) (ew_ext w) = (me, x')"
  shows "good en (snd (exec (run_back en k i) w))"
    and "abs_store (snd (exec (run_back en k i) w)) = (abs_store w)(i \<mapsto> final_wf i (fr_firstErr (ew_frames w ! k)) me v)"
    and "ew_ext (snd (exec (run_back en k i) w)) = x'"
proof -
  let ?ms = "[new_stage (i @ ''-merge'') KindMerge StageRunning []]"
  from v obtain hdr where hdr: "gm_get (ew_data w) i = Some hdr" "v = core_view (ew_heap w) hdr" using abs_get by blast
  let ?r = "exec (append_stages (en_se en) hdr ?ms) w"
  have ap: "appended i ?ms hdr w ?r"
    using g hdr(1) by (intro append_stages_appended) (auto simp: good_def intro: hdr_extI)
  then have c: "core_view (ew_heap (snd ?r)) (fst ?r) = append_wf ?ms v" by (simp add: appended_def hdr(2))
  have rb: "wf_RepoURL (fst ?r) = wf_RepoURL v" "wf_Branch (fst ?r) = wf_Branch v"
    using arg_cong [OF c, of wf_RepoURL] arg_cong [OF c, of wf_Branch] by (simp_all add: append_wf_def)
  define w1 where "w1 = snd (upsert (en_se en) (fst ?r) (snd ?r))"
  have q: "quiet (en_se en) w" using g by (simp add: good_def)
  note u = appended_upsert [OF ap hdr(1) q, folded w1_def]
  let ?w2 = "w1\<lparr>ew_ext := x'\<rparr>"
  have "heap_inv ?w2" using effD(1) [OF u(1)] by (simp add: heap_inv_def)
  then have g2: "good en ?w2" using u(3) by (simp add: good_def quiet_def)
  have a2: "abs_store ?w2 = (abs_store w)(i \<mapsto> append_wf ?ms v)"
    using effD(2) [OF u(1)] v by (simp add: abs_store_ext)
  have fr: "ew_frames ?w2 = ew_frames w" using effD(4) [OF u(1)] by simp
  have ex: "exec (run_back en k i) w = exec (run_end en k i me) ?w2"
    using hdr(1) rb m effD(3,4) [OF u(1)]
    by (simp add: run_back_split store_Get_def store_Upsert_def ext_act_def case_prod_beta flip: w1_def)
  note e = exec_run_end [OF g2, of i "append_wf ?ms v" k me]
  have s: "abs_store ?w2 i = Some (append_wf ?ms v)" by (simp add: a2)
  show "good en (snd (exec (run_back en k i) w))"
    unfolding ex using e [OF s] by (simp add: good_def eff_def)
  show "abs_store (snd (exec (run_back en k i) w)) = (abs_store w)(i \<mapsto> final_wf i (fr_firstErr (ew_frames w ! k)) me v)"
    unfolding ex effD(2) [OF e(2) [OF s]] by (simp add: a2 fr final_wf_def)
  show "ew_ext (snd (exec (run_back en k i) w)) = x'"
    unfolding ex effD(3) [OF e(2) [OF s]] by simp
qed

section \<open>Resuming\<close>

definition resumable :: "stage \<Rightarrow> bool" where
  "resumable st \<longleftrightarrow> st_Status st = StageFailed \<and> st_Input st \<noteq> []"

definition reset_stage :: "stage \<Rightarrow> stage" where
  "reset_stage st = (if resumable st then st\<lparr>st_Status := StagePending, st_Error := []\<rparr> else st)"

definition reset_at :: "nat \<Rightarrow> wf_val \<Rightarrow> wf_val" where
  "reset_at k v = v\<lparr>wf_Stages := (wf_Stages v)[k := reset_stage (wf_Stages v ! k)]\<rparr>"

lemma fold_reset: "k \<le> length (wf_Stages v) \<Longrightarrow>
    fold reset_at [0..<k] v = v\<lparr>wf_Stages := map reset_stage (take k (wf_Stages v)) @ drop k (wf_Stages v)\<rparr>"
proof (induction k)
  case (Suc k)
  then have d: "drop k (wf_Stages v) = wf_Stages v ! k # drop (Suc k) (wf_Stages v)"
    by (simp add: Cons_nth_drop_Suc)
  from Suc have "fold reset_at [0..<Suc k] v =
      reset_at k (v\<lparr>wf_Stages := map reset_stage (take k (wf_Stages v)) @ drop k (wf_Stages v)\<rparr>)" by simp
  also have "\<dots> = v\<lparr>wf_Stages := map reset_stage (take (Suc k) (wf_Stages v)) @ drop (Suc k) (wf_Stages v)\<rparr>"
    using Suc.prems unfolding d by (simp add: reset_at_def nth_append list_update_append take_Suc_conv_app_nth)
  finally show ?case .
qed simp

lemma reset_all: "fold reset_at [0..<length (wf_Stages v)] v = v\<lparr>wf_Stages := map reset_stage (wf_Stages v)\<rparr>"
  by (simp add: fold_reset)

text \<open>One iteration, when the stage is resumable.\<close>

lemma reset_eff:
  assumes "heap_inv w" and "gm_get (ew_data w) i = Some hdr" and "k < sl_len (wf_Stages hdr)"
    and "resumable (slice_list (ew_heap w) (wf_Stages hdr) ! k)"
  shows "eff i (reset_at k) w (w\<lparr>ew_heap := slice_update (slice_update (ew_heap w) (wf_Stages hdr) k
           (\<lambda>st. st\<lparr>st_Status := StagePending\<rparr>)) (wf_Stages hdr) k (\<lambda>st. st\<lparr>st_Error := []\<rparr>)\<rparr>)"
proof -
  let ?f = "\<lambda>st. st\<lparr>st_Status := StagePending\<rparr>" and ?g = "\<lambda>st :: stage. st\<lparr>st_Error := []\<rparr>"
  let ?w1 = "w\<lparr>ew_heap := slice_update (ew_heap w) (wf_Stages hdr) k ?f\<rparr>"
  have ok: "slice_ok (ew_heap w) (wf_Stages hdr)" using assms(1,2) by (auto simp: heap_inv_def)
  note s1 = set_stage_abs [OF assms(1-3) refl, of ?f]
  have d1: "gm_get (ew_data ?w1) i = Some hdr" using assms(2) by simp
  note s2 = set_stage_abs [OF s1(1) d1 assms(3) refl, of ?g]
  show ?thesis
    using s2 s1(2) assms(3,4) ok
    by (simp add: eff_def abs_store_Some [OF assms(2)] reset_at_def reset_stage_def slice_list_update)
       (simp add: core_view_def wf_view_def)
qed

lemma reset_at_same: "\<not> resumable (wf_Stages v ! k) \<Longrightarrow> reset_at k v = v"
  by (simp add: reset_at_def reset_stage_def)

lemma exec_resume_loop:
  "heap_inv w \<Longrightarrow> gm_get (ew_data w) i = Some hdr \<Longrightarrow> (\<And>k. k \<in> set ks \<Longrightarrow> k < sl_len (wf_Stages hdr)) \<Longrightarrow> distinct ks \<Longrightarrow>
     fst (exec (resume_loop hdr ks n) w) =
       n + length (filter (\<lambda>k. resumable (slice_list (ew_heap w) (wf_Stages hdr) ! k)) ks) \<and>
     ew_data (snd (exec (resume_loop hdr ks n) w)) = ew_data w \<and> ew_fs (snd (exec (resume_loop hdr ks n) w)) = ew_fs w \<and>
     eff i (fold reset_at ks) w (snd (exec (resume_loop hdr ks n) w))"
proof (induction ks arbitrary: n w)
  case Nil
  have "eff i (\<lambda>v. v) w w" using Nil(1) by (rule eff_same) (simp add: option.map_ident)
  then show ?case by (simp add: id_def)
next
  case (Cons k ks)
  let ?xs = "slice_list (ew_heap w) (wf_Stages hdr)"
  have k: "k < sl_len (wf_Stages hdr)" using Cons.prems(3) by simp
  show ?case
  proof (cases "resumable (?xs ! k)")
    case False
    then have "reset_at k (core_view (ew_heap w) hdr) = core_view (ew_heap w) hdr" by (simp add: reset_at_same)
    then have same: "eff i g w w' \<longleftrightarrow> eff i (g \<circ> reset_at k) w w'" for g w'
      using Cons.prems(2) by (simp add: eff_def abs_store_Some)
    have eq: "exec (resume_loop hdr (k # ks) n) w = exec (resume_loop hdr ks n) w"
      using False by (auto simp: get_stage_def resumable_def)
    from False Cons.IH [of w n] Cons.prems same [of "fold reset_at ks"] show ?thesis
      unfolding eq by (simp add: comp_def)
  next
    case True
    let ?w' = "w\<lparr>ew_heap := slice_update (slice_update (ew_heap w) (wf_Stages hdr) k
           (\<lambda>st. st\<lparr>st_Status := StagePending\<rparr>)) (wf_Stages hdr) k (\<lambda>st. st\<lparr>st_Error := []\<rparr>)\<rparr>"
    have e: "eff i (reset_at k) w ?w'" using Cons.prems(1,2) k True by (rule reset_eff)
    have ok: "slice_ok (ew_heap w) (wf_Stages hdr)" using Cons.prems(1,2) by (auto simp: heap_inv_def)
    have xs: "slice_list (ew_heap ?w') (wf_Stages hdr) ! j = ?xs ! j" if "j \<in> set ks" for j
      using that Cons.prems(4) k ok by (auto simp: slice_list_update nth_list_update)
    then have c: "filter (\<lambda>k. resumable (slice_list (ew_heap ?w') (wf_Stages hdr) ! k)) ks =
        filter (\<lambda>k. resumable (?xs ! k)) ks"
      by (intro filter_cong refl) simp
    have eq: "exec (resume_loop hdr (k # ks) n) w = exec (resume_loop hdr ks (Suc n)) ?w'"
      using True by (simp add: get_stage_def set_stage_def resumable_def)
    from True c Cons.IH [of ?w' "Suc n"] Cons.prems effD(1) [OF e] eff_trans [OF e, of "fold reset_at ks"]
    show ?thesis unfolding eq by (simp add: comp_def)
  qed
qed

definition running_wf :: "wf_val \<Rightarrow> wf_val" where
  "running_wf v = v\<lparr>wf_Status := StatusRunning, wf_Error := []\<rparr>"

lemma filter_upt_nth: "length (filter (\<lambda>k. P (xs ! k)) [0..<length xs]) = length (filter P xs)"
  using arg_cong [OF filter_map [of P "nth xs" "[0..<length xs]"], of length] by (simp add: map_nth comp_def)

text \<open>The whole of \<^verbatim>\<open>Resume\<close> on values.\<close>

definition spec_Resume :: "string \<Rightarrow> ('w, goerror option) aprog" where
  "spec_Resume i s =
     (case fst s i of
        None \<Rightarrow> (Some (errorf (''workflow '' @ i @ '' not found'')), s)
      | Some v \<Rightarrow>
          if filter resumable (wf_Stages v) = [] then
            (Some (errorf (''workflow '' @ i @ '' has no resumable (failed+input) stages'')), s)
          else (None, (fst s)(i \<mapsto> running_wf (v\<lparr>wf_Stages := map reset_stage (wf_Stages v)\<rparr>)), snd s))"

lemma refines_Resume: "refines en (Resume en i) (spec_Resume i)"
proof (rule refinesI [of en i])
  fix w assume g: "good en w"
  have h: "heap_inv w" "quiet (en_se en) w" using g by (auto simp: good_def)
  show "\<exists>g. eff i g w (snd (exec (Resume en i) w)) \<and> quiet (en_se en) (snd (exec (Resume en i) w)) \<and>
     spec_Resume i (view w) = (fst (exec (Resume en i) w), (abs_store w)(i := map_option g (abs_store w i)), ew_ext w)"
  proof (cases "gm_get (ew_data w) i")
    case None
    with h show ?thesis
      by (intro exI [of _ id])
         (auto simp: Resume_def block_simps spec_Resume_def abs_store_def fun_upd_idem option.map_id intro: eff_absent)
  next
    case (Some hdr)
    let ?xs = "slice_list (ew_heap w) (wf_Stages hdr)"
    have ok: "slice_ok (ew_heap w) (wf_Stages hdr)" using h(1) Some by (auto simp: heap_inv_def)
    then have len: "length ?xs = sl_len (wf_Stages hdr)" by simp
    let ?l = "exec (resume_loop hdr [0..<sl_len (wf_Stages hdr)] 0) w"
    note loop = exec_resume_loop [OF h(1) Some, of "[0..<sl_len (wf_Stages hdr)]" 0]
    have n: "fst ?l = length (filter resumable ?xs)"
      using loop filter_upt_nth [of resumable ?xs] len by simp
    have e: "eff i (fold reset_at [0..<sl_len (wf_Stages hdr)]) w (snd ?l)" and d: "gm_get (ew_data (snd ?l)) i = Some hdr"
      and q: "quiet (en_se en) (snd ?l)" using loop Some h(2) by (simp_all add: quiet_def)
    have v: "map_option (fold reset_at [0..<sl_len (wf_Stages hdr)]) (abs_store w i) =
        Some ((core_view (ew_heap w) hdr)\<lparr>wf_Stages := map reset_stage ?xs\<rparr>)"
      using reset_all [of "core_view (ew_heap w) hdr"] len by (simp add: abs_store_Some [OF Some])
    show ?thesis
    proof (cases "filter resumable ?xs = []")
      case True
      then have "map reset_stage ?xs = ?xs" by (auto simp: filter_empty_conv reset_stage_def intro: map_idI)
      with v have same: "map_option (fold reset_at [0..<sl_len (wf_Stages hdr)]) (abs_store w i) = abs_store w i"
        by (simp add: abs_store_Some [OF Some])
      have "exec (Resume en i) w =
          (Some (errorf (''workflow '' @ i @ '' has no resumable (failed+input) stages'')), snd ?l)"
        using Some n True by (simp add: Resume_def store_Get_def)
      with e q True same show ?thesis
        by (intro exI [of _ "fold reset_at [0..<sl_len (wf_Stages hdr)]"])
           (simp add: spec_Resume_def view_def abs_store_Some [OF Some] fun_upd_idem)
    next
      case False
      let ?hdr = "hdr\<lparr>wf_Status := StatusRunning, wf_Error := []\<rparr>"
      have e2: "eff i running_wf (snd ?l) (snd (upsert (en_se en) ?hdr (snd ?l)))"
        using effD(1) [OF e] d by (intro upsert_eff) (auto simp: running_wf_def intro: hdr_forI)
      have "exec (Resume en i) w = (None, snd (upsert (en_se en) ?hdr (snd ?l)))"
        using Some n False quiet_upsert(1) [OF q] by (simp add: Resume_def store_Get_def store_Upsert_def)
      with eff_trans [OF e e2] quiet_upsert(2) [OF q] v False show ?thesis
        by (intro exI [of _ "running_wf \<circ> fold reset_at [0..<sl_len (wf_Stages hdr)]"])
           (simp add: spec_Resume_def view_def abs_store_Some [OF Some] o_def)
    qed
  qed
qed

end
