(* ===== verification/Engine_Props.thy ===== *)
theory Engine_Props
  imports Engine_Resume
begin

text \<open>
  The properties of the workflow engine, with the concrete engine and world on which their
  hypotheses are shown to hold: a session layer that answers every role with a well-formed
  output, and a store with one freshly submitted workflow.
\<close>

section \<open>A concrete engine and world\<close>

definition ex_plan :: string where
  \<open>ex_plan = ''[{"id":"a","description":"b"}]''\<close>

definition ex_impl :: string where
  \<open>ex_impl = ''{"committed":true,"commit_sha":"c","build_ok":true}''\<close>

definition ex_verify :: string where
  \<open>ex_verify = ''{"pass":true,"issues":[]}''\<close>

definition ex_out :: "string \<Rightarrow> string" where
  "ex_out role =
     (if role = ''research'' then ''notes''
      else if role = ''plan'' then ex_plan
      else if role = ''implement'' then ex_impl
      else ex_verify)"

definition ex_se :: store_env where
  "ex_se = \<lparr>se_fs = \<lparr>fe_fault = \<lambda>_. None, fe_short = \<lambda>_. 0, fe_rand = \<lambda>_. ''x''\<rparr>, se_dir = ''d'',
     se_base = ''wf.json'', se_clock = int, se_grow = \<lambda>n. 2 * n\<rparr>"

definition ex_engine :: "unit engine" where
  "ex_engine = \<lparr>en_se = ex_se, en_maxWorkers = 3, en_token = [], en_newID = \<lambda>x. (Inr ''w'', x),
     en_CreateSession = \<lambda>role _ _ _ x. (Inr role, x), en_WaitForSession = \<lambda>s x. (Inr (ex_out s), x),
     en_sleep = \<lambda>_ x. (None, x), en_mergeFn = \<lambda>_ _ _ _ x. (None, x), en_jerr = errorf, en_fuel = 1\<rparr>"

definition ex_hdr :: wf_hdr where
  "ex_hdr = \<lparr>wf_ID = ''w'', wf_Input = ''goal'', wf_RepoURL = ''repo'', wf_Branch = ''main'',
     wf_Status = StatusRunning, wf_Stages = \<lparr>sl_addr = 0, sl_len = 2\<rparr>, wf_Error = [],
     wf_Config = \<lparr>VerifierPrompt = []\<rparr>, wf_CreatedAt = 0, wf_UpdatedAt = 0\<rparr>"

definition ex_world :: "unit eworld" where
  "ex_world = \<lparr>ew_heap = [initial_stages ''w''], ew_data = [(''w'', ex_hdr)],
     ew_fs = \<lparr>fs_files = [], fs_ops = 0\<rparr>, ew_ticks = 0, ew_frames = [], ew_ext = ()\<rparr>"

lemma ex_good: "good ex_engine ex_world"
  by (simp add: good_def heap_inv_def ex_world_def ex_hdr_def slice_ok_def initial_stages_def gm_wf_def quiet_def
      fs_quiet_def ex_engine_def ex_se_def se_path_def split: if_splits)

lemma ex_verify_ok: "unmarshal_verifyResult (ExtractVerifyBlock ex_verify) = Some \<lparr>vr_Pass = True, vr_Issues = []\<rparr>"
  by code_simp

lemma ex_impl_ok: "ValidateImplementOutput ex_impl = (True, [])"
  by code_simp

lemma ex_plan_ok: "ValidatePlanOutput errorf ex_plan = Inr [\<lparr>task_ID = ''a'', task_Description = ''b''\<rparr>]"
  by code_simp

lemma ex_no_limit: "\<not> IsUsageLimitError (ex_out role)"
proof -
  have "\<not> IsUsageLimitError ''notes''" "\<not> IsUsageLimitError ex_plan" "\<not> IsUsageLimitError ex_impl" "\<not> IsUsageLimitError ex_verify"
    by code_simp+
  then show ?thesis by (simp add: ex_out_def)
qed

section \<open>One stage\<close>

text \<open>The stage a successful session leaves.\<close>

definition ok_stage :: "string \<Rightarrow> string \<Rightarrow> string \<Rightarrow> stage \<Rightarrow> stage" where
  "ok_stage prompt sess res st =
     st\<lparr>st_Status := StageDone, st_Input := prompt, st_SessionID := sess, st_Output := res\<rparr>"

lemma spec_runStage_ok:
  assumes "S i = Some v" and "stage_index (wf_Stages v) sid = Some k" and "en_fuel en > 0"
    and "en_CreateSession en (stage_kind_str kind) prompt (wf_RepoURL v) (wf_Branch v) x = (Inr sess, x1)"
    and "en_WaitForSession en sess x1 = (Inr res, x2)" and "\<not> IsUsageLimitError res"
  shows "spec_runStage en i sid kind prompt (S, x) = (Ret None, S(i \<mapsto> upd_stage sid (ok_stage prompt sess res) v), x2)"
proof -
  from assms(3) obtain n where n: "en_fuel en = Suc n" using gr0_conv_Suc by blast
  let ?v1 = "upd_stage sid (start_stage prompt) v"
  let ?v2 = "upd_stage sid (\<lambda>st. st\<lparr>st_SessionID := sess\<rparr>) ?v1"
  have i1: "stage_index (wf_Stages ?v1) sid = Some k"
    using assms(2) by (simp add: stage_index_upd_stage start_stage_def)
  have i2: "stage_index (wf_Stages ?v2) sid = Some k"
    using i1 by (simp add: stage_index_upd_stage)
  have "upd_stage sid (done_stage res) ?v2 =
      upd_stage sid (done_stage res \<circ> ((\<lambda>st. st\<lparr>st_SessionID := sess\<rparr>) \<circ> start_stage prompt)) v"
    by (subst (2) upd_stage_comp, simp add: start_stage_def, subst upd_stage_comp, simp_all add: start_stage_def)
  also have "done_stage res \<circ> ((\<lambda>st. st\<lparr>st_SessionID := sess\<rparr>) \<circ> start_stage prompt) = ok_stage prompt sess res"
    by (simp add: fun_eq_iff done_stage_def start_stage_def ok_stage_def)
  finally have ok: "upd_stage sid (done_stage res) ?v2 = upd_stage sid (ok_stage prompt sess res) v" .
  show ?thesis
    using assms(1,2,4-6) i1 i2
    by (simp add: spec_runStage_def spec_session_def n abind_def aext_def aret_def ablock_def spec_finish_def ok)
qed

lemma ex_abs: "abs_store ex_world ''w'' = Some (core_view (ew_heap ex_world) ex_hdr)"
  by (rule abs_store_Some) (simp add: ex_world_def)

lemma ex_stages: "wf_Stages (core_view (ew_heap ex_world) ex_hdr) = initial_stages ''w''"
  by (simp add: ex_world_def ex_hdr_def slice_list_def initial_stages_def)

lemma ex_run:
  assumes "S i = Some v" and "stage_index (wf_Stages v) sid = Some k"
  shows "spec_runStage ex_engine i sid kind prompt (S, x) =
    (Ret None, S(i \<mapsto> upd_stage sid (ok_stage prompt (stage_kind_str kind) (ex_out (stage_kind_str kind))) v), x)"
  using assms ex_no_limit by (intro spec_runStage_ok) (auto simp: ex_engine_def)

text \<open>
  (C11) \<^verbatim>\<open>runStage\<close> run alone refines its specification on values: whatever the session layer
  answers, its result and the workflows it leaves in the store are those of \<open>spec_runStage\<close>.
\<close>

theorem runStage_refines:
  assumes "good en w"
  shows "(fst (exec (runStage en wfID stageID kind prompt) w), view (snd (exec (runStage en wfID stageID kind prompt) w))) =
           spec_runStage en wfID stageID kind prompt (view w) \<and>
         good en (snd (exec (runStage en wfID stageID kind prompt) w))"
  using refines_runStage assms unfolding refines_def by blast

theorem runStage_refines_witness:
  "good ex_engine ex_world \<and>
   fst (exec (runStage ex_engine ''w'' ''w-research'' KindResearch ''p'') ex_world) = Ret None"
proof -
  have "spec_runStage ex_engine ''w'' ''w-research'' KindResearch ''p'' (view ex_world) =
      (Ret None, (abs_store ex_world)(''w'' \<mapsto> upd_stage ''w-research'' (ok_stage ''p'' ''research'' (ex_out ''research''))
        (core_view (ew_heap ex_world) ex_hdr)), ew_ext ex_world)"
    unfolding view_def by (rule ex_run [where k = 0 and S = "abs_store ex_world" and i = "''w''", OF ex_abs, of "''w-research''" KindResearch, unfolded stage_kind_str.simps])
      (simp only: ex_stages, simp add: initial_stages_def)
  with runStage_refines [OF ex_good, of "''w''" "''w-research''" KindResearch "''p''"] ex_good show ?thesis by simp
qed

text \<open>
  (C19) The stage that \<^verbatim>\<open>runStage\<close> was called on ends done, with an output that does not report
  the usage limit, exactly when it returns nil; on an error it ends failed with the error's text,
  and its prompt stays in \<^verbatim>\<open>Input\<close>, so that it can be resumed. Nothing else in the store changes.
\<close>

theorem runStage_outcome:
  assumes "good en w" and "abs_store w wfID = Some v" and "stage_index (wf_Stages v) stageID = Some k"
    and "exec (runStage en wfID stageID kind prompt) w = (r, w')"
  shows "\<exists>st. abs_store w' = (abs_store w)(wfID \<mapsto> v\<lparr>wf_Stages := (wf_Stages v)[k := st]\<rparr>) \<and>
     st_ID st = stageID \<and> stage_result prompt r st"
proof -
  have "spec_runStage en wfID stageID kind prompt (abs_store w, ew_ext w) = (r, abs_store w', ew_ext w')"
    using refines_runStage [of en wfID stageID kind prompt] assms(1,4) unfolding refines_def view_def by (metis fst_conv snd_conv)
  from spec_runStage_result [OF assms(2,3) this] obtain st where
    st: "only_stage (abs_store w) wfID stageID (abs_store w') st" "stage_result prompt r st" by blast
  with assms(2,3) stage_index_Some [OF assms(3)] show ?thesis by (auto simp: only_stage_def)
qed

theorem runStage_outcome_witness:
  "\<exists>st. abs_store (snd (exec (runStage ex_engine ''w'' ''w-research'' KindResearch ''p'') ex_world)) =
       (abs_store ex_world)(''w'' \<mapsto> (core_view (ew_heap ex_world) ex_hdr)
          \<lparr>wf_Stages := (wf_Stages (core_view (ew_heap ex_world) ex_hdr))[0 := st]\<rparr>) \<and>
     st_ID st = ''w-research'' \<and> stage_result ''p'' (fst (exec (runStage ex_engine ''w'' ''w-research'' KindResearch ''p'') ex_world)) st"
proof (rule runStage_outcome [OF ex_good ex_abs])
  show "stage_index (wf_Stages (core_view (ew_heap ex_world) ex_hdr)) ''w-research'' = Some 0"
    by (simp only: ex_stages) (simp add: initial_stages_def)
qed simp

section \<open>The pipeline\<close>

lemma pending_index_Some: "pending_index xs kind = Some k \<Longrightarrow> k < length xs \<and> st_Kind (xs ! k) = kind \<and> st_Status (xs ! k) = StagePending"
  by (induction xs arbitrary: k) (auto split: if_splits)

lemma stage_index_mem: "st \<in> set xs \<Longrightarrow> \<exists>k. stage_index xs (st_ID st) = Some k"
  by (induction xs) auto

lemma spec_execute_keeps:
  assumes "S i = Some v" and "spec_execute en i kind pf (S, x) = (r, S', x')"
  shows "\<exists>v'. S' i = Some v' \<and> length (wf_Stages v') = length (wf_Stages v) \<and> wf_Status v' = wf_Status v \<and>
    (\<forall>j. j \<noteq> i \<longrightarrow> S' j = S j)"
proof (cases "pending_index (wf_Stages v) kind")
  case None
  with assms show ?thesis by (auto simp: spec_execute_def)
next
  case (Some k)
  let ?sid = "st_ID (wf_Stages v ! k)"
  obtain r1 S1 x1 where run: "spec_runStage en i ?sid kind (pf v) (S, x) = (r1, S1, x1)" by (metis prod_cases3)
  obtain j where j: "stage_index (wf_Stages v) ?sid = Some j"
    using stage_index_mem pending_index_Some [OF Some] nth_mem by blast
  from spec_runStage_result [OF assms(1) j run] obtain st where
    "S1 = S(i \<mapsto> v\<lparr>wf_Stages := (wf_Stages v)[j := st]\<rparr>)"
    using assms(1) j by (auto simp: only_stage_def)
  moreover have "S' = S1" using assms Some run
    by (auto simp: spec_execute_def Let_def abind_def aret_def out_of_def split: progress.splits option.splits)
  ultimately show ?thesis by simp
qed

text \<open>What the front leaves of a workflow that had \<open>n\<close> stages.\<close>

definition plan_result :: "'w engine \<Rightarrow> string \<Rightarrow> nat \<Rightarrow> bool progress \<Rightarrow> astore \<Rightarrow> bool" where
  "plan_result en i n r S \<longleftrightarrow> (\<exists>v. S i = Some v \<and>
     (r = Ret False \<longrightarrow> wf_Status v = StatusFailed) \<and>
     (r = Ret True \<longrightarrow> (\<exists>out tasks. ValidatePlanOutput (en_jerr en) out = Inr tasks \<and>
        drop n (wf_Stages v) = implement_stages i 0 tasks)))"

lemma afail_result: "T i = Some u \<Longrightarrow> afail_wf i e (T, x) = (r, S, y) \<Longrightarrow> plan_result en i n r S"
  by (auto simp: afail_wf_def abind_def awf_def aret_def fail_wf_def plan_result_def)

lemma tasks_result:
  assumes "S i = Some u" and "length (wf_Stages u) = n"
    and "(case ValidatePlanOutput (en_jerr en) out of
            Inl e \<Rightarrow> afail_wf i (errorf_w ''plan validation: '' e [])
          | Inr tasks \<Rightarrow> aappend i (implement_stages i 0 tasks) (Ret False) (Ret True)) (S, x) = (r, S', x')"
  shows "plan_result en i n r S'"
proof (cases "ValidatePlanOutput (en_jerr en) out")
  case (Inl e)
  then show ?thesis using assms(3) by (simp add: afail_result [where T = S and i = i, OF assms(1)])
next
  case (Inr tasks)
  with assms have "r = Ret True" "S' i = Some (append_wf (implement_stages i 0 tasks) u)" by (auto simp: aappend_def)
  with Inr assms(2) show ?thesis by (auto simp: plan_result_def append_wf_def)
qed

lemma plan_result_case:
  assumes "S i = Some u" and "case_progress (aret Blocked) (case_sum (afail_wf i) f) r1 (S, x) = (r, S', x')"
    and "\<And>out. r1 = Ret (Inr out) \<Longrightarrow> f out (S, x) = (r, S', x') \<Longrightarrow> plan_result en i n r S'"
  shows "plan_result en i n r S'"
  using assms
proof (cases r1)
  case Blocked
  with assms show ?thesis by (auto simp: plan_result_def aret_def)
next
  case (Ret y)
  then show ?thesis using assms by (cases y) (auto intro: afail_result [where T = S])
qed

lemma spec_plan_result:
  assumes "S i = Some v" and "spec_plan en i (S, x) = (r, S', x')"
  shows "plan_result en i (length (wf_Stages v)) r S'"
proof -
  obtain r1 S1 x1 where 1: "spec_execute en i KindResearch research_prompt (S, x) = (r1, S1, x1)" by (metis prod_cases3)
  from spec_execute_keeps [where S = S and i = i, OF assms(1) 1] obtain v1 where
    v1: "S1 i = Some v1" "length (wf_Stages v1) = length (wf_Stages v)" by blast
  show ?thesis
  proof (rule plan_result_case [where S = S1 and i = i, OF v1(1)])
    show "case_progress (aret Blocked) (case_sum (afail_wf i) (\<lambda>out.
        abind (spec_execute en i KindPlan (plan_prompt out)) (\<lambda>r2. case_progress (aret Blocked) (case_sum (afail_wf i) (\<lambda>out2.
          case ValidatePlanOutput (en_jerr en) out2 of
            Inl e \<Rightarrow> afail_wf i (errorf_w ''plan validation: '' e [])
          | Inr tasks \<Rightarrow> aappend i (implement_stages i 0 tasks) (Ret False) (Ret True))) r2))) r1 (S1, x1) = (r, S', x')"
      using assms(2) 1 unfolding spec_plan_def by (simp add: abind_def [of "spec_execute en i KindResearch research_prompt"])
  next
    fix out
    obtain r2 S2 x2 where 2: "spec_execute en i KindPlan (plan_prompt out) (S1, x1) = (r2, S2, x2)" by (metis prod_cases3)
    from spec_execute_keeps [where S = S1 and i = i, OF v1(1) 2] v1(2) obtain v2 where
      v2: "S2 i = Some v2" "length (wf_Stages v2) = length (wf_Stages v)" by auto
    assume "abind (spec_execute en i KindPlan (plan_prompt out)) (\<lambda>r2. case_progress (aret Blocked) (case_sum (afail_wf i) (\<lambda>out2.
          case ValidatePlanOutput (en_jerr en) out2 of
            Inl e \<Rightarrow> afail_wf i (errorf_w ''plan validation: '' e [])
          | Inr tasks \<Rightarrow> aappend i (implement_stages i 0 tasks) (Ret False) (Ret True))) r2) (S1, x1) = (r, S', x')"
    then show "plan_result en i (length (wf_Stages v)) r S'"
      unfolding abind_def 2 prod.case by (rule plan_result_case [where S = S2 and i = i, OF v2(1)]) (rule tasks_result [where S = S2 and i = i, OF v2])
  qed
qed


lemma ex_execute:
  assumes "S i = Some v" and "pending_index (wf_Stages v) kind = Some k"
    and "stage_index (wf_Stages v) (st_ID (wf_Stages v ! k)) = Some k"
  shows "spec_execute ex_engine i kind pf (S, x) =
    (Ret (Inr (ex_out (stage_kind_str kind))),
     S(i \<mapsto> v\<lparr>wf_Stages := (wf_Stages v)[k := ok_stage (pf v) (stage_kind_str kind) (ex_out (stage_kind_str kind)) (wf_Stages v ! k)]\<rparr>), x)"
proof -
  let ?sid = "st_ID (wf_Stages v ! k)"
  let ?f = "ok_stage (pf v) (stage_kind_str kind) (ex_out (stage_kind_str kind))"
  have k: "k < length (wf_Stages v)" using pending_index_Some [OF assms(2)] by simp
  note r = ex_run [where S = S and i = i, OF assms(1,3), of kind "pf v" x]
  have i: "stage_index (wf_Stages (upd_stage ?sid ?f v)) ?sid = Some k"
    using assms(3) by (simp add: stage_index_upd_stage ok_stage_def)
  have "st_Output (wf_Stages (upd_stage ?sid ?f v) ! k) = ex_out (stage_kind_str kind)"
    using assms(3) k by (simp add: upd_stage_def ok_stage_def)
  then show ?thesis
    using assms r i by (simp add: spec_execute_def Let_def abind_def out_of_def upd_stage_def)
qed

definition ex_research :: stage where
  "ex_research = ok_stage (research_prompt ex_hdr) ''research'' ''notes'' (new_stage ''w-research'' KindResearch StagePending [])"

definition ex_planned :: stage where
  "ex_planned = ok_stage (plan_prompt ''notes'' ex_hdr) ''plan'' ex_plan (new_stage ''w-plan'' KindPlan StagePending [])"

definition ex_task :: stage where
  "ex_task = new_stage ''w-implement-0'' KindImplement StagePending ''b''"

abbreviation ex_v :: wf_val where
  "ex_v \<equiv> core_view (ew_heap ex_world) ex_hdr"

lemma ex_spec_plan:
  "spec_plan ex_engine ''w'' (abs_store ex_world, ()) =
    (Ret True, (abs_store ex_world)(''w'' \<mapsto> ex_v\<lparr>wf_Stages := [ex_research, ex_planned, ex_task]\<rparr>), ())"
proof -
  have p: "research_prompt ex_v = research_prompt ex_hdr"
    "plan_prompt ''notes'' (ex_v\<lparr>wf_Stages := xs\<rparr>) = plan_prompt ''notes'' ex_hdr" for xs
    by (simp_all add: research_prompt_def plan_prompt_def)
  have 1: "spec_execute ex_engine ''w'' KindResearch research_prompt (abs_store ex_world, ()) =
      (Ret (Inr ''notes''), (abs_store ex_world)(''w'' \<mapsto> ex_v\<lparr>wf_Stages :=
         [ex_research, new_stage ''w-plan'' KindPlan StagePending []]\<rparr>), ())"
    by (subst ex_execute [where k = 0 and S = "abs_store ex_world" and i = "''w''", OF ex_abs])
       (simp_all only: ex_stages, simp_all add: initial_stages_def ex_out_def ex_research_def p)
  have 2: "spec_execute ex_engine ''w'' KindPlan (plan_prompt ''notes'') ((abs_store ex_world)(''w'' \<mapsto> ex_v\<lparr>wf_Stages :=
         [ex_research, new_stage ''w-plan'' KindPlan StagePending []]\<rparr>), ()) =
      (Ret (Inr ex_plan), (abs_store ex_world)(''w'' \<mapsto> ex_v\<lparr>wf_Stages := [ex_research, ex_planned]\<rparr>), ())"
    by (subst ex_execute [where k = 1 and S = "(abs_store ex_world)(''w'' \<mapsto> y)" and i = "''w''" for y, OF fun_upd_same])
       (simp_all add: ex_research_def ok_stage_def ex_out_def ex_planned_def p)
  have n: "nat_str 0 = ''0''" by code_simp
  have j: "en_jerr ex_engine = errorf" by (simp add: ex_engine_def)
  show ?thesis
    unfolding spec_plan_def
    by (simp add: abind_def 1 2 ex_plan_ok aappend_def append_wf_def ex_task_def n j)
qed

lemma ex_spec_work:
  assumes v: "v = ex_v\<lparr>wf_Stages := [ex_research, ex_planned, ex_task]\<rparr>" and S: "S ''w'' = Some v"
  shows "fst (spec_work ex_engine ''w'' wfl ''w-implement-0'' task b (S, ())) = Ret None"
proof -
  let ?q1 = "implement_prompt wfl b task" and ?q2 = "verify_prompt wfl b task ''implement''"
  let ?impl = "ok_stage ?q1 ''implement'' ex_impl ex_task"
  let ?v1 = "ex_v\<lparr>wf_Stages := [ex_research, ex_planned, ?impl]\<rparr>"
  let ?new = "new_stage ''w-implement-0-verify'' KindVerify StagePending []"
  let ?v2 = "ex_v\<lparr>wf_Stages := [ex_research, ex_planned, ?impl, ?new]\<rparr>"
  let ?v3 = "ex_v\<lparr>wf_Stages := [ex_research, ex_planned, ?impl, ok_stage ?q2 ''verify'' ex_verify ?new]\<rparr>"
  note st = ex_research_def ex_planned_def ex_task_def ok_stage_def ex_out_def upd_stage_def
  have 1: "spec_runStage ex_engine ''w'' ''w-implement-0'' KindImplement ?q1 (S, ()) = (Ret None, S(''w'' \<mapsto> ?v1), ())"
    using ex_run [where S = S and i = "''w''" and k = 2, OF S, of "''w-implement-0''" KindImplement ?q1 "()"]
    by (simp add: v st)
  have 2: "spec_runStage ex_engine ''w'' ''w-implement-0-verify'' KindVerify ?q2 (S(''w'' \<mapsto> ?v2), ()) =
      (Ret None, S(''w'' \<mapsto> ?v3), ())"
    using ex_run [where S = "S(''w'' \<mapsto> ?v2)" and i = "''w''" and k = 3, OF fun_upd_same,
        of "''w-implement-0-verify''" KindVerify ?q2 "()"]
    by (simp add: st)
  have 3: "areload ''w'' ''w-implement-0'' (S(''w'' \<mapsto> ?v1), ()) = (Inr (ex_impl, ''implement''), S(''w'' \<mapsto> ?v1), ())"
    by (simp add: areload_def st)
  have 4: "aappend ''w'' [?new] False True (S(''w'' \<mapsto> ?v1), ()) = (True, S(''w'' \<mapsto> ?v2), ())"
    by (simp add: aappend_def append_wf_def)
  obtain v4 where 5: "awf ''w'' (link_verify ''w-implement-0'' ''w-implement-0-verify'') (S(''w'' \<mapsto> ?v3), ()) = ((), S(''w'' \<mapsto> v4), ())"
    and v4: "stage_output v4 ''w-implement-0-verify'' = ex_verify"
    by (auto simp: awf_def link_verify_def st stage_output_def)
  have 6: "fst (spec_verdict ''w'' ''w-implement-0'' (S(''w'' \<mapsto> v4), ())) = Ret None"
    by (simp add: spec_verdict_def v4 spec_judge_def ex_verify_ok aret_def)
  show ?thesis
    by (simp add: spec_work_def spec_verify_def abind_def 1 2 3 4 5 6 ex_impl_ok)
qed

section \<open>The fan-out\<close>

lemma front_reach:
  "run_reach en wid E w0 (Front p, w) \<Longrightarrow> run_reach en wid E w0 (Front (Done (fst (exec p w))), snd (exec p w))"
proof (induction p arbitrary: w rule: prog_induct)
  case (Step f)
  have "run_step en wid E (Front (Step f), w) (Front (fst (f w)), snd (f w))" by (rule rs_front) simp
  with Step.prems have "run_reach en wid E w0 (Front (fst (f w)), snd (f w))" by (rule rr_step)
  from Step.IH [OF this] show ?case by (simp del: exec.simps)
qed simp

lemma worker_reach:
  "run_reach en wid E w0 (Fan k wfl ws, w) \<Longrightarrow> i < length ws \<Longrightarrow> ws ! i = Active p \<Longrightarrow> fst (exec p w) = Ret a \<Longrightarrow>
     run_reach en wid E w0 (Fan k wfl (ws[i := Finished a]), snd (exec p w))"
proof (induction p arbitrary: w ws rule: prog_induct)
  case (Done r)
  then have "run_step en wid E (Fan k wfl ws, w) (Fan k wfl (ws[i := Finished a]), w)"
    by (intro rs_fan fan_release) simp_all
  with Done show ?case by (auto intro: rr_step)
next
  case (Step f)
  have "run_step en wid E (Fan k wfl ws, w) (Fan k wfl (ws[i := Active (fst (f w))]), snd (f w))"
    using Step.prems(2,3) by (intro rs_fan fan_run [where f = f]) simp_all
  with Step.prems(1) have "run_reach en wid E w0 (Fan k wfl (ws[i := Active (fst (f w))]), snd (f w))" by (rule rr_step)
  from Step.IH [OF this] Step.prems show ?case by (simp del: exec.simps)
qed

text \<open>A complete run of the concrete engine, up to the merge stage.\<close>

lemma ex_front:
  obtains hdr w where "exec (run_front ex_engine ''w'') ex_world = (Ret (Some hdr), w)" "good ex_engine w"
    "ew_frames w = []" "gm_get (ew_data w) ''w'' = Some hdr"
    "core_view (ew_heap w) hdr = ex_v\<lparr>wf_Stages := [ex_research, ex_planned, ex_task]\<rparr>"
    "abs_store w ''w'' = Some (ex_v\<lparr>wf_Stages := [ex_research, ex_planned, ex_task]\<rparr>)"
proof -
  let ?p = "exec (run_plan ex_engine ''w'') ex_world"
  have v: "view ex_world = (abs_store ex_world, ())" by (simp add: view_def)
  have r: "good ex_engine (snd ?p)" "ew_frames (snd ?p) = ew_frames ex_world"
    "(fst ?p, view (snd ?p)) = spec_plan ex_engine ''w'' (view ex_world)"
    using refines_plan [of ex_engine "''w''"] ex_good unfolding refines_def by blast+
  then have f: "fst ?p = Ret True"
    and a: "abs_store (snd ?p) ''w'' = Some (ex_v\<lparr>wf_Stages := [ex_research, ex_planned, ex_task]\<rparr>)"
    unfolding v ex_spec_plan by (simp_all add: view_def)
  from abs_get [OF a] obtain hdr where hdr: "gm_get (ew_data (snd ?p)) ''w'' = Some hdr"
    "core_view (ew_heap (snd ?p)) hdr = ex_v\<lparr>wf_Stages := [ex_research, ex_planned, ex_task]\<rparr>" by auto
  have "exec (run_front ex_engine ''w'') ex_world = (Ret (Some hdr), snd ?p)"
    using f hdr(1) by (simp add: run_front_def store_Get_def)
  with that [of hdr "snd ?p"] hdr r(1,2) a show thesis by (simp add: ex_world_def)
qed


lemma ex_fork:
  obtains hdr w where "good ex_engine w" "gm_get (ew_data w) ''w'' = Some hdr" "ew_frames w = [empty_frame]"
    "abs_store w ''w'' = Some (ex_v\<lparr>wf_Stages := [ex_research, ex_planned, ex_task]\<rparr>)"
    "run_reach ex_engine ''w'' (\<lambda>_ _. False) ex_world (Fan 0 hdr [Waiting (implement_worker ex_engine 0 ''w'' hdr 2 0)], w)"
proof -
  obtain hdr w where ex: "exec (run_front ex_engine ''w'') ex_world = (Ret (Some hdr), w)" and r: "good ex_engine w"
    and fr: "ew_frames w = []" and hdr: "gm_get (ew_data w) ''w'' = Some hdr"
      "core_view (ew_heap w) hdr = ex_v\<lparr>wf_Stages := [ex_research, ex_planned, ex_task]\<rparr>"
    and a: "abs_store w ''w'' = Some (ex_v\<lparr>wf_Stages := [ex_research, ex_planned, ex_task]\<rparr>)"
    by (rule ex_front)
  have st: "slice_list (ew_heap (w)) (wf_Stages hdr) = [ex_research, ex_planned, ex_task]"
    using arg_cong [OF hdr(2), of wf_Stages] by simp
  have jobs: "implement_workers ex_engine 0 ''w'' hdr [ex_research, ex_planned, ex_task] = [implement_worker ex_engine 0 ''w'' hdr 2 0]"
    by (simp add: implement_workers_def ex_research_def ex_planned_def ex_task_def ok_stage_def numeral_2_eq_2)
  let ?w = "w\<lparr>ew_frames := ew_frames (w) @ [empty_frame]\<rparr>"
  have 1: "run_reach ex_engine ''w'' (\<lambda>_ _. False) ex_world (Front (Done (Ret (Some hdr))), w)"
    using front_reach [OF rr_start, of ex_engine "''w''" _ ex_world] by (simp add: ex)
  have "run_step ex_engine ''w'' (\<lambda>_ _. False) (Front (Done (Ret (Some hdr))), w)
      (Fan 0 hdr (map Waiting (implement_workers ex_engine 0 ''w'' hdr [ex_research, ex_planned, ex_task])), ?w)"
    by (rule rs_fork) (simp_all add: st fr)
  from rr_step [OF 1 this]
  have "run_reach ex_engine ''w'' (\<lambda>_ _. False) ex_world (Fan 0 hdr [Waiting (implement_worker ex_engine 0 ''w'' hdr 2 0)], ?w)"
    by (simp add: jobs)
  moreover have "good ex_engine ?w" using r by (simp add: good_def heap_inv_def quiet_def)
  moreover have "abs_store ?w ''w'' = Some (ex_v\<lparr>wf_Stages := [ex_research, ex_planned, ex_task]\<rparr>)"
    using a by (simp add: abs_store_def)
  ultimately show thesis using that [of ?w hdr] hdr(1) fr by simp
qed

lemma ex_finish:
  obtains w where "run_reach ex_engine ''w'' (\<lambda>_ _. False) ex_world (Back 0 1 (run_back ex_engine 0 ''w''), w)"
    "ew_frames w = [\<lparr>fr_firstErr = None, fr_succeeded = [implementBranchName ''w'' 0]\<rparr>]"
proof -
  obtain hdr w where w: "good ex_engine w" "gm_get (ew_data w) ''w'' = Some hdr" "ew_frames w = [empty_frame]"
    "abs_store w ''w'' = Some (ex_v\<lparr>wf_Stages := [ex_research, ex_planned, ex_task]\<rparr>)"
    "run_reach ex_engine ''w'' (\<lambda>_ _. False) ex_world (Fan 0 hdr [Waiting (implement_worker ex_engine 0 ''w'' hdr 2 0)], w)"
    by (rule ex_fork)
  let ?p = "implement_worker ex_engine 0 ''w'' hdr 2 0" and ?b = "implementBranchName ''w'' 0"
  let ?work = "implement_work ex_engine ''w'' hdr ''w-implement-0'' ''b'' ?b"
  have c: "core_view (ew_heap w) hdr = ex_v\<lparr>wf_Stages := [ex_research, ex_planned, ex_task]\<rparr>"
    using abs_store_Some [OF w(2)] w(4) by simp
  have "slice_list (ew_heap w) (wf_Stages hdr) = [ex_research, ex_planned, ex_task]"
    using arg_cong [OF c, of wf_Stages] by simp
  then have ex: "exec ?p w = exec (settle 0 ?b (fst (exec ?work w))) (snd (exec ?work w))"
    by (simp add: implement_worker_def get_stage_def ex_task_def Let_def)
  have r: "ew_frames (snd (exec ?work w)) = ew_frames w"
    "(fst (exec ?work w), view (snd (exec ?work w))) = spec_work ex_engine ''w'' hdr ''w-implement-0'' ''b'' ?b (view w)"
    using refines_work [of ex_engine "''w''" hdr "''w-implement-0''" "''b''" ?b] w(1) unfolding refines_def by blast+
  have v: "view w = (abs_store w, ())" by (simp add: view_def)
  have "fst (exec ?work w) = Ret None"
    using r(2) ex_spec_work [OF refl, of "abs_store w" hdr "''b''" ?b] w(4) unfolding v by (metis fst_conv)
  then have fin: "fst (exec ?p w) = Ret ()"
    and fr: "ew_frames (snd (exec ?p w)) = [\<lparr>fr_firstErr = None, fr_succeeded = [?b]\<rparr>]"
    unfolding ex using r(1) w(3) by (simp_all add: settle_def add_branch_def empty_frame_def)
  have "run_step ex_engine ''w'' (\<lambda>_ _. False) (Fan 0 hdr [Waiting ?p], w) (Fan 0 hdr ([Waiting ?p][0 := Active ?p]), w)"
    by (intro rs_fan fan_acquire) (simp_all add: num_active_def ex_engine_def)
  from rr_step [OF w(5) this]
  have "run_reach ex_engine ''w'' (\<lambda>_ _. False) ex_world (Fan 0 hdr [Active ?p], w)" by simp
  from worker_reach [OF this, of 0 ?p "()"] fin
  have f: "run_reach ex_engine ''w'' (\<lambda>_ _. False) ex_world (Fan 0 hdr [Finished ()], snd (exec ?p w))" by simp
  have "run_step ex_engine ''w'' (\<lambda>_ _. False) (Fan 0 hdr [Finished ()], snd (exec ?p w))
      (Back 0 (length [Finished () :: (unit eworld, unit) worker]) (run_back ex_engine 0 ''w''), snd (exec ?p w))"
    by (rule rs_join) (simp add: all_finished_def)
  from rr_step [OF f this] fr show thesis using that by simp
qed





section \<open>The end of a run\<close>

text \<open>
  (C20) The back of \<^verbatim>\<open>run\<close> calls the merge function once, with the branches that succeeded, and
  then stores the final status: done exactly when no worker recorded an error and the merge
  returned none; otherwise failed, with the first worker error before the merge error. The merge
  stage it appended records the merge's own outcome.
\<close>

theorem run_back_final:
  assumes "good en w" and "abs_store w wid = Some v"
    and "en_mergeFn en (wf_RepoURL v) (wf_Branch v) (en_token en) (fr_succeeded (ew_frames w ! k)) (ew_ext w) = (mergeErr, x')"
    and "wid @ ''-merge'' \<notin> st_ID ` set (wf_Stages v)"
  shows "\<exists>v'. abs_store (snd (exec (run_back en k wid) w)) = (abs_store w)(wid \<mapsto> v') \<and>
     ew_ext (snd (exec (run_back en k wid) w)) = x' \<and>
     (wf_Status v' = StatusDone \<longleftrightarrow> fr_firstErr (ew_frames w ! k) = None \<and> mergeErr = None) \<and>
     (wf_Status v' \<noteq> StatusDone \<longrightarrow> wf_Status v' = StatusFailed \<and>
        wf_Error v' = error_text (case fr_firstErr (ew_frames w ! k) of Some e \<Rightarrow> e | None \<Rightarrow> the mergeErr)) \<and>
     wf_Stages v' = wf_Stages v @ [merge_stage mergeErr (new_stage (wid @ ''-merge'') KindMerge StageRunning [])]"
proof -
  let ?v' = "final_wf wid (fr_firstErr (ew_frames w ! k)) mergeErr v"
  have idx: "stage_index (xs @ [new_stage i K s inp]) i = Some (length xs)" if "i \<notin> st_ID ` set xs" for xs i K s inp
    using that by (induction xs) auto
  have "wf_Stages ?v' = wf_Stages v @ [merge_stage mergeErr (new_stage (wid @ ''-merge'') KindMerge StageRunning [])]"
    using idx [OF assms(4)] by (simp add: final_wf_def final_status_def upd_stage_def append_wf_def split: option.splits)
  with exec_run_back(2,3) [OF assms(1-3)] show ?thesis
    by (intro exI [of _ ?v']) (auto simp: final_wf_def final_status_def split: option.splits)
qed

theorem run_back_final_witness:
  "\<exists>v'. abs_store (snd (exec (run_back ex_engine 0 ''w'') (ex_world\<lparr>ew_frames := [empty_frame]\<rparr>))) ''w'' = Some v' \<and>
     wf_Status v' = StatusDone"
proof -
  let ?w = "ex_world\<lparr>ew_frames := [empty_frame]\<rparr>"
  have g: "good ex_engine ?w" using ex_good by (simp add: good_def heap_inv_def quiet_def)
  have a: "abs_store ?w ''w'' = Some ex_v" using ex_abs by (simp add: abs_store_def)
  have m: "en_mergeFn ex_engine (wf_RepoURL ex_v) (wf_Branch ex_v) (en_token ex_engine) (fr_succeeded (ew_frames ?w ! 0)) (ew_ext ?w) = (None, ())"
    by (simp add: ex_engine_def)
  have n: "''w'' @ ''-merge'' \<notin> st_ID ` set (wf_Stages ex_v)"
    unfolding ex_stages by (simp add: initial_stages_def)
  from run_back_final [OF g a m n] show ?thesis by (auto simp: empty_frame_def)
qed

section \<open>Resuming\<close>

text \<open>
  (C21) \<^verbatim>\<open>Resume\<close> resets to pending, with the error cleared, exactly the stages that failed after
  their prompt was stored, leaves the others alone, and marks the workflow running; if there is no
  such stage, or no such workflow, it returns an error and changes nothing.
\<close>

theorem Resume_resets:
  assumes "good en w"
  shows "(fst (exec (Resume en wfID) w), abs_store (snd (exec (Resume en wfID) w))) =
    (case abs_store w wfID of
       None \<Rightarrow> (Some (errorf (''workflow '' @ wfID @ '' not found'')), abs_store w)
     | Some v \<Rightarrow>
         if \<exists>st \<in> set (wf_Stages v). st_Status st = StageFailed \<and> st_Input st \<noteq> [] then
           (None, (abs_store w)(wfID \<mapsto> v\<lparr>wf_Stages := map (\<lambda>st. if st_Status st = StageFailed \<and> st_Input st \<noteq> []
                                    then st\<lparr>st_Status := StagePending, st_Error := []\<rparr> else st) (wf_Stages v),
              wf_Status := StatusRunning, wf_Error := []\<rparr>))
         else (Some (errorf (''workflow '' @ wfID @ '' has no resumable (failed+input) stages'')), abs_store w))"
proof -
  have e: "(filter resumable xs = []) = (\<not> (\<exists>st \<in> set xs. st_Status st = StageFailed \<and> st_Input st \<noteq> []))" for xs
    by (auto simp: filter_empty_conv resumable_def)
  have r: "reset_stage = (\<lambda>st. if st_Status st = StageFailed \<and> st_Input st \<noteq> []
      then st\<lparr>st_Status := StagePending, st_Error := []\<rparr> else st)"
    by (simp add: fun_eq_iff reset_stage_def resumable_def)
  have sp: "(fst (exec (Resume en wfID) w), view (snd (exec (Resume en wfID) w))) = spec_Resume wfID (view w)"
    using refines_Resume [of en wfID] assms unfolding refines_def by blast
  show ?thesis
  proof (cases "abs_store w wfID")
    case None
    with sp show ?thesis by (simp add: spec_Resume_def view_def)
  next
    case (Some v)
    show ?thesis
    proof (cases "\<exists>st \<in> set (wf_Stages v). st_Status st = StageFailed \<and> st_Input st \<noteq> []")
      case True
      with e have ne: "filter resumable (wf_Stages v) \<noteq> []" by blast
      with sp True Some show ?thesis by (simp add: spec_Resume_def view_def r running_wf_def)
    next
      case False
      with e have "filter resumable (wf_Stages v) = []" by blast
      with sp False Some show ?thesis by (simp add: spec_Resume_def view_def)
    qed
  qed
qed

theorem Resume_resets_witness:
  "good ex_engine ex_world \<and> fst (exec (Resume ex_engine ''w'') ex_world) =
     Some (errorf (''workflow '' @ ''w'' @ '' has no resumable (failed+input) stages''))"
proof -
  have "\<not> (\<exists>st \<in> set (wf_Stages ex_v). st_Status st = StageFailed \<and> st_Input st \<noteq> [])"
    unfolding ex_stages by (simp add: initial_stages_def)
  with Resume_resets [OF ex_good, of "''w''"] ex_good ex_abs show ?thesis by (simp del: core_view_sel)
qed

end
