(* ===== verification/Engine_Limits.thy ===== *)
theory Engine_Limits
  imports Engine_Props
begin

text \<open>
  Behaviours of the engine at its edges: how long \<^verbatim>\<open>runStage\<close> waits for a slot, what an
  unlucky interleaving does to the stages, and what resuming and recovering do to a workflow
  that is not where they expect it.
\<close>

section \<open>Waiting for a slot\<close>

text \<open>One round of the retry loop: the state after a refusal and five seconds, if it goes on.\<close>

definition retry_round :: "'w engine \<Rightarrow> stage_kind \<Rightarrow> string \<Rightarrow> string \<Rightarrow> string \<Rightarrow> 'w \<Rightarrow> 'w option" where
  "retry_round en kind prompt repo branch x =
     (case en_CreateSession en (stage_kind_str kind) prompt repo branch x of
        (Inr _, _) \<Rightarrow> None
      | (Inl cerr, x1) \<Rightarrow>
          if \<not> str_Contains (error_text cerr) ''no slots available'' then None
          else (case en_sleep en 5 x1 of (Some _, _) \<Rightarrow> None | (None, x2) \<Rightarrow> Some x2))"

fun retry_rounds :: "'w engine \<Rightarrow> stage_kind \<Rightarrow> string \<Rightarrow> string \<Rightarrow> string \<Rightarrow> nat \<Rightarrow> 'w \<Rightarrow> 'w option" where
  "retry_rounds en kind prompt repo branch 0 x = Some x"
| "retry_rounds en kind prompt repo branch (Suc n) x =
     (case retry_round en kind prompt repo branch x of
        None \<Rightarrow> None
      | Some x' \<Rightarrow> retry_rounds en kind prompt repo branch n x')"

lemma ablock_Ret [simp]: "fst (ablock i sid f (Ret a) (Ret b) (Ret c) s) \<noteq> Blocked"
  by (simp add: ablock_def split: option.splits)

lemma spec_finish_Ret [simp]: "fst (spec_finish en i sid s y) \<noteq> Blocked"
  by (auto simp: spec_finish_def abind_def aext_def afail_def split: sum.splits)

lemma spec_create_Blocked:
  "fst (spec_create en n i sid kind prompt repo branch (S, x)) = Blocked \<longleftrightarrow>
     retry_rounds en kind prompt repo branch n x \<noteq> None"
proof (induction n arbitrary: x)
  case 0
  show ?case by (simp add: aret_def)
next
  case (Suc n)
  obtain rc x1 where c: "en_CreateSession en (stage_kind_str kind) prompt repo branch x = (rc, x1)" by fastforce
  obtain d x2 where d: "en_sleep en 5 x1 = (d, x2)" by fastforce
  show ?case
  proof (cases rc)
    case (Inr s)
    with c show ?thesis by (simp add: abind_def aext_def aret_def retry_round_def)
  next
    case (Inl cerr)
    with c d Suc.IH show ?thesis
      by (cases d) (auto simp: abind_def aext_def retry_round_def Let_def)
  qed
qed



section \<open>A lost stage\<close>

text \<open>
  (C39) Two workers that add their verify stages at the same time: on the interleaving in which
  both load the workflow before either stores it, both believe that their stage is there, and the
  first one's is gone, whether or not the append was in place.
\<close>

theorem appendVerify_lost:
  assumes "heap_inv w" and "gm_get (ew_data w) wid = Some hdr"
    and "run_schedule [0, 1, 0, 1, 0, 1] ([appendVerify en wid a, appendVerify en wid b], w) = (ps, w')"
  shows "ps = [Done True, Done True] \<and>
    map_option wf_Stages (abs_store w' wid) =
      Some (slice_list (ew_heap w) (wf_Stages hdr) @ [new_stage b KindVerify StagePending []])"
proof -
  let ?g = "se_grow (en_se en)"
  obtain h1 sl1 where 1: "slice_append ?g (ew_heap w) (wf_Stages hdr) [new_stage a KindVerify StagePending []] = (h1, sl1)" by fastforce
  obtain h2 sl2 where 2: "slice_append ?g h1 (wf_Stages hdr) [new_stage b KindVerify StagePending []] = (h2, sl2)" by fastforce
  have ok: "slice_ok (ew_heap w) (wf_Stages hdr)" using assms(1,2) by (auto simp: heap_inv_def)
  note A = slice_append_ok [OF ok 1]
  note B = slice_append_ok [OF A(4) 2]
  have i: "wf_ID hdr = wid" using stored_ID [OF assms(1,2)] .
  let ?w2 = "w\<lparr>ew_heap := h2\<rparr>"
  let ?w3 = "snd (upsert (en_se en) (hdr\<lparr>wf_Stages := sl1\<rparr>) ?w2)"
  have run: "run_schedule [0, 1, 0, 1, 0, 1] ([appendVerify en wid a, appendVerify en wid b], w) =
      ([Done True, Done True], snd (upsert (en_se en) (hdr\<lparr>wf_Stages := sl2\<rparr>) ?w3))"
    using assms(2) 1 2
    by (simp add: appendVerify_def store_Get_def read_def act_def append_stages_def store_Upsert_def)
  have "slice_list h2 sl2 = slice_list (ew_heap w) (wf_Stages hdr) @ [new_stage b KindVerify StagePending []]"
    using B(2) A(3) by simp
  with assms(3) run i show ?thesis
    by (auto simp: abs_store_def wf_view_def)
qed

theorem appendVerify_lost_witness:
  "\<exists>w'. map_option wf_Stages (abs_store w' ''w'') =
      Some (initial_stages ''w'' @ [new_stage ''y'' KindVerify StagePending []]) \<and>
     run_schedule [0, 1, 0, 1, 0, 1] ([appendVerify ex_engine ''w'' ''x'', appendVerify ex_engine ''w'' ''y''], ex_world) =
       ([Done True, Done True], w')"
proof -
  have h: "heap_inv ex_world" "gm_get (ew_data ex_world) ''w'' = Some ex_hdr"
    using ex_good by (simp_all add: good_def ex_world_def)
  obtain ps w' where r: "run_schedule [0, 1, 0, 1, 0, 1]
      ([appendVerify ex_engine ''w'' ''x'', appendVerify ex_engine ''w'' ''y''], ex_world) = (ps, w')" by fastforce
  from appendVerify_lost [OF h r] ex_stages r show ?thesis by auto
qed

section \<open>Recovering a workflow that has started\<close>

text \<open>
  After a restart, \<^verbatim>\<open>RecoverInProgress\<close> starts \<^verbatim>\<open>run\<close> again for a running workflow; if its
  research stage is no longer pending, \<^verbatim>\<open>run\<close> marks the workflow failed at once, whatever stages
  are done or running.
\<close>

theorem recover_fails_started:
  assumes "good en w" and "abs_store w wid = Some v" and "wf_Status v = StatusRunning"
    and "pending_index (wf_Stages v) KindResearch = None"
  shows "wid \<in> set (fst (exec RecoverInProgress w)) \<and>
    fst (exec (run_front en wid) w) = Ret None \<and>
    abs_store (snd (exec (run_front en wid) w)) = (abs_store w)(wid \<mapsto>
      v\<lparr>wf_Status := StatusFailed, wf_Error := ''no pending research stage in workflow '' @ wid\<rparr>)"
proof -
  have h: "heap_inv w" using assms(1) by (simp add: good_def)
  from abs_get [OF assms(2)] obtain hdr where hdr: "gm_get (ew_data w) wid = Some hdr" "v = core_view (ew_heap w) hdr" by blast
  have "hdr \<in> snd ` set (ew_data w)" using map_of_SomeD [OF hdr(1)] by force
  moreover have "wf_Status hdr = StatusRunning" using assms(3) hdr(2) by simp
  ultimately have rec: "wid \<in> set (fst (exec RecoverInProgress w))"
    using stored_ID [OF h hdr(1)] by (force simp: RecoverInProgress_def store_List_def)
  let ?p = "exec (run_plan en wid) w"
  have "spec_plan en wid (abs_store w, ew_ext w) = (Ret False, (abs_store w)(wid \<mapsto>
      v\<lparr>wf_Status := StatusFailed, wf_Error := ''no pending research stage in workflow '' @ wid\<rparr>), ew_ext w)"
    using assms(2,4)
    by (simp add: spec_plan_def abind_def spec_execute_def afail_wf_def awf_def aret_def fail_wf_def)
  then have "fst ?p = Ret False" "abs_store (snd ?p) = (abs_store w)(wid \<mapsto>
      v\<lparr>wf_Status := StatusFailed, wf_Error := ''no pending research stage in workflow '' @ wid\<rparr>)"
    using refines_plan [of en wid] assms(1) unfolding refines_def view_def by (metis Pair_inject)+
  with rec show ?thesis by (simp add: run_front_def)
qed

text \<open>The world of \<open>ex_world\<close> with other stages.\<close>

definition ex_with :: "stage list \<Rightarrow> unit eworld" where
  "ex_with stages = ex_world\<lparr>ew_heap := [stages]\<rparr>"

lemma ex_with_good: "length stages = 2 \<Longrightarrow> good ex_engine (ex_with stages)"
  by (simp add: good_def heap_inv_def ex_with_def ex_world_def ex_hdr_def slice_ok_def gm_wf_def quiet_def
      fs_quiet_def ex_engine_def ex_se_def se_path_def split: if_splits)

lemma ex_with_abs:
  "length stages = 2 \<Longrightarrow> abs_store (ex_with stages) ''w'' = Some (core_view [stages] ex_hdr) \<and>
     wf_Stages (core_view [stages] ex_hdr) = stages"
  using abs_store_Some [of "ex_with stages" "''w''" ex_hdr] by (simp add: ex_with_def ex_world_def ex_hdr_def slice_list_def)

theorem recover_fails_started_witness:
  "''w'' \<in> set (fst (exec RecoverInProgress (ex_with [ex_research, ex_planned]))) \<and>
   fst (exec (run_front ex_engine ''w'') (ex_with [ex_research, ex_planned])) = Ret None"
proof -
  let ?v = "core_view [[ex_research, ex_planned]] ex_hdr"
  have a: "abs_store (ex_with [ex_research, ex_planned]) ''w'' = Some ?v" "wf_Stages ?v = [ex_research, ex_planned]"
    using ex_with_abs [of "[ex_research, ex_planned]"] by simp_all
  have p: "pending_index (wf_Stages ?v) KindResearch = None"
    unfolding a(2) by (simp add: ex_research_def ex_planned_def ok_stage_def)
  have "wf_Status ?v = StatusRunning" by (simp add: ex_hdr_def)
  from recover_fails_started [OF ex_with_good a(1) this p] show ?thesis by simp
qed

section \<open>Resuming a workflow before its plan\<close>

lemma exec_resume_back:
  assumes "good en w" and "abs_store w i = Some v"
  shows "eff i (final_status (fr_firstErr (ew_frames w ! k)) None) w (snd (exec (resume_back en k i) w))"
proof -
  have h: "heap_inv w" using assms(1) by (simp add: good_def)
  from abs_get [OF assms(2)] obtain hdr where hdr: "gm_get (ew_data w) i = Some hdr" by blast
  let ?fe = "fr_firstErr (ew_frames w ! k)"
  have "exec (resume_back en k i) w = ((), snd (upsert (en_se en) (final_status ?fe None hdr) w))"
    using hdr by (simp add: resume_back_def store_Get_def store_Upsert_def final_status_def split: option.splits)
  then show ?thesis
    using h hdr by (simp add: upsert_eff hdr_forI)
qed

text \<open>
  A workflow whose research stage failed with its prompt stored, as it does at the usage
  limit, and whose plan stage has not run: resuming it runs the research stage again and, if that
  succeeds, stores the workflow as done, with the plan stage still pending and no implement stage.
\<close>

theorem resume_ends_without_plan:
  assumes "good en w" and "abs_store w wfID = Some v" and "wf_Stages v = [rs, pl]"
    and "st_Status rs = StageFailed" and "st_Input rs \<noteq> []" and "st_Status pl = StagePending" and "st_Input pl = []"
    and "en_fuel en > 0"
    and "en_CreateSession en (stage_kind_str (st_Kind rs)) (st_Input rs) (wf_RepoURL v) (wf_Branch v) (ew_ext w) = (Inr sess, x1)"
    and "en_WaitForSession en sess x1 = (Inr res, x2)" and "\<not> IsUsageLimitError res"
  shows "fst (exec (bind (Resume en wfID) (\<lambda>_. resumeRun en wfID)) w) = Ret () \<and>
    (\<exists>v' rs'. abs_store (snd (exec (bind (Resume en wfID) (\<lambda>_. resumeRun en wfID)) w)) wfID = Some v' \<and>
       wf_Status v' = StatusDone \<and> wf_Stages v' = [rs', pl] \<and> st_Status rs' = StageDone)"
proof -
  let ?rs = "rs\<lparr>st_Status := StagePending, st_Error := []\<rparr>" and ?sid = "st_ID rs"
  let ?v1 = "running_wf (v\<lparr>wf_Stages := [?rs, pl]\<rparr>)"
  let ?w1 = "snd (exec (Resume en wfID) w)"
  have "spec_Resume wfID (view w) = (None, (abs_store w)(wfID \<mapsto> ?v1), ew_ext w)"
    using assms(2-7) by (simp add: spec_Resume_def view_def resumable_def reset_stage_def)
  then have w1: "good en ?w1" "abs_store ?w1 wfID = Some ?v1" "ew_ext ?w1 = ew_ext w"
    using refines_Resume [of en wfID] assms(1) unfolding refines_def view_def by (metis Pair_inject fun_upd_same)+
  from abs_get [OF w1(2)] obtain hdr where hdr: "gm_get (ew_data ?w1) wfID = Some hdr" "core_view (ew_heap ?w1) hdr = ?v1" by metis
  have st: "slice_list (ew_heap ?w1) (wf_Stages hdr) = [?rs, pl]"
    using arg_cong [OF hdr(2), of wf_Stages] by (simp add: running_wf_def)
  let ?k = "length (ew_frames ?w1)"
  define w2 where "w2 = ?w1\<lparr>ew_frames := ew_frames ?w1 @ [empty_frame]\<rparr>"
  have w2: "good en w2" "abs_store w2 wfID = Some ?v1" "ew_ext w2 = ew_ext w" "ew_frames w2 ! ?k = empty_frame"
    using w1 by (simp_all add: w2_def good_def heap_inv_def quiet_def abs_store_def)
  have st2: "slice_list (ew_heap w2) (wf_Stages hdr) = [?rs, pl]" using st by (simp add: w2_def)
  let ?run = "runStage en wfID ?sid (st_Kind rs) (st_Input rs)"
  have "stage_index (wf_Stages ?v1) ?sid = Some 0" by (simp add: running_wf_def)
  from spec_runStage_ok [where S = "abs_store w2" and i = wfID, OF w2(2) this assms(8), of "st_Kind rs" "st_Input rs" "ew_ext w" sess x1 res x2]
  have "spec_runStage en wfID ?sid (st_Kind rs) (st_Input rs) (view w2) =
      (Ret None, (abs_store w2)(wfID \<mapsto> upd_stage ?sid (ok_stage (st_Input rs) sess res) ?v1), x2)"
    using assms(9-11) w2(3) by (simp add: view_def running_wf_def)
  then have run: "fst (exec ?run w2) = Ret None" "good en (snd (exec ?run w2))" "ew_frames (snd (exec ?run w2)) = ew_frames w2"
    "abs_store (snd (exec ?run w2)) wfID = Some (upd_stage ?sid (ok_stage (st_Input rs) sess res) ?v1)"
    using refines_runStage [of en wfID ?sid "st_Kind rs" "st_Input rs"] w2(1) unfolding refines_def view_def
    by (metis Pair_inject fun_upd_same)+
  have ex: "exec (bind (Resume en wfID) (\<lambda>_. resumeRun en wfID)) w = (Ret (), snd (exec (resume_back en ?k wfID) (snd (exec ?run w2))))"
    using hdr(1) st2 run(1) assms(5,7)
    by (simp add: resumeRun_def store_Get_def new_frame_def resume_workers_def resume_jobs_def resume_worker_def flip: w2_def)
  have "fr_firstErr (ew_frames (snd (exec ?run w2)) ! ?k) = None" using run(3) w2(4) by (simp add: empty_frame_def)
  with effD(2) [OF exec_resume_back [OF run(2,4), of ?k]] run(4)
  show ?thesis unfolding ex
    by (simp add: final_status_def upd_stage_def running_wf_def ok_stage_def)
qed

theorem resume_ends_without_plan_witness:
  "\<exists>rs pl. fst (exec (bind (Resume ex_engine ''w'') (\<lambda>_. resumeRun ex_engine ''w'')) (ex_with [rs, pl])) = Ret () \<and>
     st_Status pl = StagePending \<and> st_Status rs = StageFailed"
proof -
  let ?rs = "(new_stage ''w-research'' KindResearch StageFailed ''p'')\<lparr>st_Error := ''usage limit reached''\<rparr>"
  let ?pl = "new_stage ''w-plan'' KindPlan StagePending []"
  let ?v = "core_view [[?rs, ?pl]] ex_hdr"
  have a: "abs_store (ex_with [?rs, ?pl]) ''w'' = Some ?v" "wf_Stages ?v = [?rs, ?pl]"
    using ex_with_abs [of "[?rs, ?pl]"] by simp_all
  have "fst (exec (bind (Resume ex_engine ''w'') (\<lambda>_. resumeRun ex_engine ''w'')) (ex_with [?rs, ?pl])) = Ret ()"
    by (rule resume_ends_without_plan [OF ex_with_good a, where sess = "''research''" and res = "ex_out ''research''", THEN conjunct1])
       (simp_all add: ex_engine_def ex_no_limit)
  then show ?thesis by (intro exI [of _ ?rs] exI [of _ ?pl]) simp
qed

end
