(* ===== verification/Host.thy ===== *)
theory Host
  imports Go_Text
begin

text \<open>
  The host as the program drives it: commands, directories and the context of a call, behind an
  environment the theorems quantify over; and \<^verbatim>\<open>filepath.Clean\<close> and \<^verbatim>\<open>filepath.Join\<close>.
\<close>

record 'x host =
  hx_exec :: "string \<Rightarrow> string list \<Rightarrow> 'x \<Rightarrow> (string \<times> goerror option) \<times> 'x"
    \<comment> \<open>\<^verbatim>\<open>exec.Command(...).CombinedOutput()\<close> in a directory (empty: the process's own)\<close>
  hx_ctxErr :: "'x \<Rightarrow> goerror option \<times> 'x" \<comment> \<open>\<^verbatim>\<open>ctx.Err()\<close>\<close>
  hx_stat :: "string \<Rightarrow> 'x \<Rightarrow> goerror option \<times> 'x"
  hx_MkdirAll :: "string \<Rightarrow> 'x \<Rightarrow> goerror option \<times> 'x"
  hx_RemoveAll :: "string \<Rightarrow> 'x \<Rightarrow> goerror option \<times> 'x"
  hx_Remove :: "string \<Rightarrow> 'x \<Rightarrow> goerror option \<times> 'x"
  hx_MkdirTemp :: "string \<Rightarrow> 'x \<Rightarrow> string result \<times> 'x"

text \<open>The same call on a host that also keeps a log: without an entry, and with one made of the result.\<close>

definition aside :: "('x \<Rightarrow> 'r \<times> 'x) \<Rightarrow> 'x \<times> 'd list \<Rightarrow> 'r \<times> ('x \<times> 'd list)" where
  "aside f = (\<lambda>(x, ds). (case f x of (r, x1) \<Rightarrow> (r, (x1, ds))))"

definition noting :: "('r \<Rightarrow> 'd) \<Rightarrow> ('x \<Rightarrow> 'r \<times> 'x) \<Rightarrow> 'x \<times> 'd list \<Rightarrow> 'r \<times> ('x \<times> 'd list)" where
  "noting d f = (\<lambda>(x, ds). (case f x of (r, x1) \<Rightarrow> (r, (x1, ds @ [d r]))))"

lemma aside_apply [simp]: "aside f (x, ds) = (fst (f x), (snd (f x), ds))"
  by (simp add: aside_def case_prod_unfold)

lemma noting_apply [simp]: "noting d f (x, ds) = (fst (f x), (snd (f x), ds @ [d (fst (f x))]))"
  by (simp add: noting_def case_prod_unfold)

text \<open>\<^verbatim>\<open>fmt\<close> of a string slice under \<^verbatim>\<open>%v\<close>.\<close>

definition fmt_slice :: "string list \<Rightarrow> string" where
  "fmt_slice xs = ''['' @ str_Join xs '' '' @ '']''"

section \<open>Paths\<close>

text \<open>The elements of a cleaned path, last first.\<close>

definition clean_step :: "bool \<Rightarrow> string \<Rightarrow> string list \<Rightarrow> string list" where
  "clean_step rooted e acc =
     (if e = [] \<or> e = ''.'' then acc
      else if e = ''..'' then
        (case acc of
           [] \<Rightarrow> if rooted then [] else [''..'']
         | a # as \<Rightarrow> if a = ''..'' then ''..'' # acc else as)
      else e # acc)"

definition path_Clean :: "string \<Rightarrow> string" where
  "path_Clean s =
     (let rooted = HasPrefix s ''/'';
          out = str_Join (rev (fold (clean_step rooted) (Split1 s (CHR ''/'')) [])) ''/''
      in if rooted then ''/'' @ out else if out = [] then ''.'' else out)"

definition path_Join :: "string \<Rightarrow> string \<Rightarrow> string" where
  "path_Join a b =
     (if a = [] \<and> b = [] then [] else if a = [] then path_Clean b else if b = [] then path_Clean a
      else path_Clean (a @ ''/'' @ b))"

text \<open>A path in cleaned form: rooted, with elements that name something.\<close>

definition plain :: "string \<Rightarrow> bool" where
  "plain e \<longleftrightarrow> e \<noteq> [] \<and> e \<noteq> ''.'' \<and> e \<noteq> ''..'' \<and> CHR ''/'' \<notin> set e"

definition rooted_path :: "string list \<Rightarrow> string" where
  "rooted_path es = ''/'' @ str_Join es ''/''"

lemma Split1_append: "Split1 (s @ [c] @ t) c = Split1 s c @ Split1 t c"
proof (induction s)
  case (Cons x s)
  then show ?case by (cases "Split1 s c") (simp_all add: Split1_ne)
qed simp

lemma Split1_none: "c \<notin> set s \<Longrightarrow> Split1 s c = [s]"
  by (induction s) auto

lemma Split1_Join_plain:
  "es \<noteq> [] \<Longrightarrow> list_all (\<lambda>e. CHR ''/'' \<notin> set e) es \<Longrightarrow> Split1 (str_Join es ''/'') (CHR ''/'') = es"
proof (induction es rule: induct_list012)
  case (3 x y xs)
  then show ?case using Split1_append [of x "CHR ''/''" "str_Join (y # xs) ''/''"] by (simp add: Split1_none)
qed (simp_all add: Split1_none)

lemma fold_clean_plain: "list_all plain es \<Longrightarrow> fold (clean_step r) es acc = rev es @ acc"
  by (induction es arbitrary: acc) (auto simp: clean_step_def plain_def)

lemma path_Clean_rooted:
  assumes "list_all plain es"
  shows "path_Clean (rooted_path es) = rooted_path es"
proof -
  have "list_all (\<lambda>e. CHR ''/'' \<notin> set e) es" using assms by (auto simp: list_all_iff plain_def)
  then have "Split1 (rooted_path es) (CHR ''/'') = [] # (if es = [] then [[]] else es)"
    using Split1_Join_plain [of es] by (auto simp: rooted_path_def)
  then show ?thesis using assms
    by (auto simp: path_Clean_def Let_def HasPrefix_def rooted_path_def fold_clean_plain clean_step_def)
qed

lemma str_Join_snoc: "es \<noteq> [] \<Longrightarrow> str_Join (es @ [e]) sep = str_Join es sep @ sep @ e"
proof (induction es rule: induct_list012)
  case (3 x y xs)
  then show ?case by simp
qed simp_all

lemma path_Join_rooted:
  assumes "list_all plain es" and "es \<noteq> []" and "plain e"
  shows "path_Join (rooted_path es) e = rooted_path (es @ [e])"
proof -
  have "rooted_path es @ ''/'' @ e = rooted_path (es @ [e])"
    using assms(2) by (simp add: rooted_path_def str_Join_snoc)
  moreover have "rooted_path es \<noteq> []" "e \<noteq> []" using assms(3) by (simp_all add: rooted_path_def plain_def)
  ultimately show ?thesis using path_Clean_rooted [of "es @ [e]"] assms by (simp add: path_Join_def)
qed

end
