(* ===== verification/Gitutil.thy ===== *)
theory Gitutil
  imports Host
begin

text \<open>
  \<^verbatim>\<open>internal/gitutil\<close>: repository names and authenticated URLs, the cache of bare repositories
  with its per-session clones, and the merge of implement branches. Every git command is run by
  the host; the model fixes which commands are run, in which order, and what is made of their
  outcome. (The mutex of \<^verbatim>\<open>repoLock\<close> is in \<^verbatim>\<open>Repo_Cache\<close>; log output is left out.)
\<close>

section \<open>Names and URLs\<close>

definition RepoName :: "string \<Rightarrow> string" where
  "RepoName url0 =
     (let url = TrimSuffix (TrimRight url0 ''/'') ''.git'' in
      case LastIndexAny url ''/:'' of
        None \<Rightarrow> []
      | Some idx \<Rightarrow> if idx = length url - 1 then [] else drop (idx + 1) url)"

definition injectToken :: "string \<Rightarrow> string \<Rightarrow> string" where
  "injectToken rawURL token =
     (if token = [] then rawURL
      else if \<not> HasPrefix rawURL ''https://'' then rawURL
      else
        (let rest = TrimPrefix rawURL ''https://'';
             rest' = (case str_Index rest ''@'' of Some at \<Rightarrow> drop (at + 1) rest | None \<Rightarrow> rest)
         in ''https://'' @ ''oauth2:'' @ token @ ''@'' @ rest'))"

section \<open>The repository cache\<close>

record repocache =
  rc_reposDir :: string
  rc_workspacesDir :: string

definition BareRepoPath :: "repocache \<Rightarrow> string \<Rightarrow> string" where
  "BareRepoPath c repoName = path_Join (rc_reposDir c) (repoName @ ''.git'')"

definition WorkspaceDir :: "repocache \<Rightarrow> string \<Rightarrow> string" where
  "WorkspaceDir c sessionID = path_Join (rc_workspacesDir c) sessionID"

definition WorkspaceRepoDir :: "repocache \<Rightarrow> string \<Rightarrow> string \<Rightarrow> string" where
  "WorkspaceRepoDir c sessionID repoName = path_Join (WorkspaceDir c sessionID) repoName"

definition runInRepo :: "'x host \<Rightarrow> string \<Rightarrow> string list \<Rightarrow> 'x \<Rightarrow> goerror option \<times> 'x" where
  "runInRepo h repoPath args x =
     (case hx_exec h repoPath args x of
        ((out, Some e), x1) \<Rightarrow> (Some (errorf_w (fmt_slice args @ '': '' @ out @ '': '') e []), x1)
      | ((_, None), x1) \<Rightarrow> (None, x1))"

definition EnsureBareRepo :: "'x host \<Rightarrow> repocache \<Rightarrow> string \<Rightarrow> string \<Rightarrow> string \<Rightarrow> 'x \<Rightarrow> string result \<times> 'x" where
  "EnsureBareRepo h c repoURL repoName token x =
     (case hx_MkdirAll h (rc_reposDir c) x of
        (Some e, x1) \<Rightarrow> (Inl (errorf_w (''create repos dir '' @ rc_reposDir c @ '': '') e []), x1)
      | (None, x1) \<Rightarrow>
          (let barePath = BareRepoPath c repoName;
               authURL = (if token \<noteq> [] then injectToken repoURL token else repoURL)
           in case hx_stat h barePath x1 of
                (Some e, x2) \<Rightarrow>
                  if errors_Is e ErrNotExist then
                    (case hx_exec h [] [''git'', ''clone'', ''--bare'', ''--'', authURL, barePath] x2 of
                       ((out, Some e2), x3) \<Rightarrow> (Inl (errorf_w (''git clone --bare '' @ repoURL @ '': '' @ out @ '': '') e2 []), x3)
                     | ((_, None), x3) \<Rightarrow>
                         (Inr barePath, snd (runInRepo h barePath [''git'', ''config'', ''remote.origin.fetch'', ''+refs/heads/*:refs/heads/*''] x3)))
                  else (Inl (errorf_w (''stat '' @ barePath @ '': '') e []), x2)
              | (None, x2) \<Rightarrow>
                  (Inr barePath, snd (hx_exec h [] [''git'', ''-C'', barePath, ''fetch'', ''--prune'', authURL, ''+refs/heads/*:refs/heads/*''] x2))))"

definition LocalClone :: "'x host \<Rightarrow> repocache \<Rightarrow> string \<Rightarrow> string \<Rightarrow> string \<Rightarrow> string \<Rightarrow> string \<Rightarrow> 'x \<Rightarrow> string result \<times> 'x" where
  "LocalClone h c barePath sessionID repoName branch repoURL x =
     (let wsDir = WorkspaceDir c sessionID in
      case hx_MkdirAll h wsDir x of
        (Some e, x1) \<Rightarrow> (Inl (errorf_w (''create workspace dir '' @ wsDir @ '': '') e []), x1)
      | (None, x1) \<Rightarrow>
          (let dest = WorkspaceRepoDir c sessionID repoName;
               args = [''clone'', ''--local''] @ (if branch \<noteq> [] then [''-b'', branch] else []) @ [''--'', barePath, dest]
           in case hx_exec h [] (''git'' # args) x1 of
                ((out, Some e), x2) \<Rightarrow> (Inl (errorf_w (''git clone --local '' @ barePath @ '': '' @ out @ '': '') e []), x2)
              | ((_, None), x2) \<Rightarrow>
                  (let x3 = (if repoURL \<noteq> [] then snd (hx_exec h [] [''git'', ''-C'', dest, ''remote'', ''set-url'', ''origin'', repoURL] x2) else x2);
                       x4 = snd (hx_exec h [] [''chown'', ''-R'', ''1000:1000'', dest] x3)
                   in (Inr dest, x4))))"

definition CleanupWorkspace :: "'x host \<Rightarrow> repocache \<Rightarrow> string \<Rightarrow> 'x \<Rightarrow> 'x" where
  "CleanupWorkspace h c sessionID x = snd (hx_RemoveAll h (WorkspaceDir c sessionID) x)"

section \<open>Merging implement branches\<close>

definition git_run :: "'x host \<Rightarrow> string \<Rightarrow> string list \<Rightarrow> 'x \<Rightarrow> goerror option \<times> 'x" where
  "git_run h dir args x =
     (case hx_exec h dir (''git'' # args) x of
        ((out, Some e), x1) \<Rightarrow> (Some (errorf_w (''git '' @ fmt_slice args @ '': '') e (CHR 0x0A # out)), x1)
      | ((_, None), x1) \<Rightarrow> (None, x1))"

fun git_all :: "'x host \<Rightarrow> string \<Rightarrow> string list list \<Rightarrow> 'x \<Rightarrow> goerror option \<times> 'x" where
  "git_all h dir [] x = (None, x)"
| "git_all h dir (args # cmds) x =
     (case git_run h dir args x of
        (Some e, x1) \<Rightarrow> (Some e, x1)
      | (None, x1) \<Rightarrow> git_all h dir cmds x1)"

text \<open>The loop over the branches, with the branches merged and failed so far.\<close>

fun merge_loop :: "'x host \<Rightarrow> string \<Rightarrow> string \<Rightarrow> string list \<Rightarrow> string list \<Rightarrow> string list \<Rightarrow> 'x \<Rightarrow> (string list \<times> string list) \<times> 'x" where
  "merge_loop h dir authURL [] merged failed x = ((merged, failed), x)"
| "merge_loop h dir authURL (branch # bs) merged failed x =
     (case hx_ctxErr h x of
        (Some _, x1) \<Rightarrow> ((merged, failed), x1)
      | (None, x1) \<Rightarrow>
          (case git_run h dir [''fetch'', authURL, branch @ '':'' @ branch] x1 of
             (Some _, x2) \<Rightarrow> merge_loop h dir authURL bs merged (failed @ [branch]) x2
           | (None, x2) \<Rightarrow>
               (case git_run h dir [''merge'', ''--no-ff'', branch] x2 of
                  (Some _, x3) \<Rightarrow>
                    merge_loop h dir authURL bs merged (failed @ [branch]) (snd (git_run h dir [''merge'', ''--abort''] x3))
                | (None, x3) \<Rightarrow> merge_loop h dir authURL bs (merged @ [branch]) failed x3)))"

definition push_merged :: "'x host \<Rightarrow> string \<Rightarrow> string \<Rightarrow> string \<Rightarrow> string list \<Rightarrow> 'x \<Rightarrow> goerror option \<times> 'x" where
  "push_merged h dir authURL baseBranch merged x =
     (if length merged > 0 then
        (case git_run h dir [''push'', authURL, baseBranch] x of
           (Some e, x1) \<Rightarrow> (Some (errorf_w (''push '' @ baseBranch @ '': '') e []), x1)
         | (None, x1) \<Rightarrow> (None, fold (\<lambda>branch x. snd (git_run h dir [''push'', authURL, ''--delete'', branch] x)) merged x1))
      else (None, x))"

definition MergeImplementBranches ::
  "'x host \<Rightarrow> string \<Rightarrow> string \<Rightarrow> string \<Rightarrow> string list \<Rightarrow> 'x \<Rightarrow> (string list \<times> string list \<times> goerror option) \<times> 'x" where
  "MergeImplementBranches h repoURL baseBranch token branches x =
     (if length branches = 0 then (([], [], None), x)
      else
        (case hx_ctxErr h x of
           (Some e, x1) \<Rightarrow> (([], [], Some e), x1)
         | (None, x1) \<Rightarrow>
             (case hx_MkdirTemp h ''rubbish-merge-*'' x1 of
                (Inl e, x2) \<Rightarrow> (([], [], Some (errorf_w ''merge workspace: '' e [])), x2)
              | (Inr tmpDir, x2) \<Rightarrow>
                  (let authURL = injectToken repoURL token;
                       (r, x3) =
                         (case git_all h tmpDir [[''clone'', authURL, ''.''], [''config'', ''user.email'', ''rubbish-merge@localhost''],
                                  [''config'', ''user.name'', ''Rubbish Merge''], [''checkout'', baseBranch]] x2 of
                            (Some e, x4) \<Rightarrow> (([], [], Some e), x4)
                          | (None, x4) \<Rightarrow>
                              (case merge_loop h tmpDir authURL branches [] [] x4 of
                                 ((merged, failed), x5) \<Rightarrow>
                                   (case push_merged h tmpDir authURL baseBranch merged x5 of
                                      (err, x6) \<Rightarrow> ((merged, failed, err), x6))))
                   in (r, snd (hx_RemoveAll h tmpDir x3))))))"

end
