(* ===== verification/Gitutil_Props.thy ===== *)
theory Gitutil_Props
  imports Gitutil
begin

text \<open>
  Properties of \<^verbatim>\<open>internal/gitutil\<close>: repository names, credentials in URLs, where clones are put,
  and how branches are merged.
\<close>

section \<open>Repository names\<close>

lemma LastIndexAny_Some:
  "LastIndexAny s cs = Some i \<Longrightarrow> i < length s \<and> s ! i \<in> set cs \<and> set (drop (i + 1) s) \<inter> set cs = {}"
proof (induction s arbitrary: i)
  case (Cons c s)
  have none: "LastIndexAny t cs = None \<Longrightarrow> set t \<inter> set cs = {}" for t
    by (induction t) (auto split: option.splits if_splits)
  from Cons none [of s] show ?case by (auto split: option.splits if_splits)
qed simp

lemma LastIndexAny_append:
  "c \<in> set cs \<Longrightarrow> set t \<inter> set cs = {} \<Longrightarrow> LastIndexAny (s @ c # t) cs = Some (length s)"
proof (induction s)
  case Nil
  have "LastIndexAny t cs = None" using Nil(2) by (induction t) auto
  with Nil show ?case by simp
qed simp

lemma TrimRight_append:
  "set t \<subseteq> set cs \<Longrightarrow> s = [] \<or> last s \<notin> set cs \<Longrightarrow> TrimRight (s @ t) cs = s"
proof -
  assume t: "set t \<subseteq> set cs" and s: "s = [] \<or> last s \<notin> set cs"
  have "dropWhile (\<lambda>c. c \<in> set cs) (rev t @ rev s) = dropWhile (\<lambda>c. c \<in> set cs) (rev s)"
    using t by (intro dropWhile_append2) auto
  moreover have "dropWhile (\<lambda>c. c \<in> set cs) (rev s) = rev s"
    using s by (cases s rule: rev_cases) auto
  ultimately show ?thesis by (simp add: TrimRight_def)
qed

text \<open>
  \<^verbatim>\<open>RepoName\<close> gives the last element of a clone URL in every form the program accepts: after a
  slash or a colon, with or without the suffix \<^verbatim>\<open>.git\<close>, with any number of trailing slashes.
\<close>

theorem RepoName_last:
  assumes "sep = CHR ''/'' \<or> sep = CHR '':''" and "name \<noteq> []" and "set name \<inter> {CHR ''/'', CHR '':''} = {}"
    and "\<not> HasSuffix name ''.git''"
  shows "RepoName (pre @ [sep] @ name @ str_Repeat ''/'' n) = name \<and>
    RepoName (pre @ [sep] @ name @ ''.git'' @ str_Repeat ''/'' n) = name"
proof -
  let ?u = "pre @ [sep] @ name"
  have sl: "set (str_Repeat ''/'' n) \<subseteq> set ''/''" by (auto simp: str_Repeat_def)
  have "last name \<noteq> CHR ''/''" using assms(3) last_in_set [OF assms(2)] by auto
  then have l: "last ?u \<notin> set ''/''" using assms(2) by simp
  have r1: "TrimRight (?u @ str_Repeat ''/'' n) ''/'' = ?u" using TrimRight_append [OF sl, of ?u] l by blast
  have r2: "TrimRight ((?u @ ''.git'') @ str_Repeat ''/'' n) ''/'' = ?u @ ''.git''"
    using TrimRight_append [OF sl, of "?u @ ''.git''"] by simp
  have ns: "\<not> HasSuffix ?u ''.git''"
  proof
    assume "HasSuffix ?u ''.git''"
    then obtain t where t: "?u = t @ ''.git''" by (auto simp: HasSuffix_iff)
    then have "sep # name = ''.git'' \<or> length name \<ge> 4 \<and> HasSuffix name ''.git'' \<or> length name < 4 \<and> sep \<in> set ''.git''"
      by (auto simp: append_eq_append_conv2 Cons_eq_append_conv append_eq_Cons_conv HasSuffix_iff)
    with assms(1,4) show False by auto
  qed
  have trim: "TrimSuffix ?u ''.git'' = ?u" "TrimSuffix (?u @ ''.git'') ''.git'' = ?u"
    using ns by (simp_all add: TrimSuffix_def del: append_assoc)
  have idx: "LastIndexAny ?u ''/:'' = Some (length pre)"
    using LastIndexAny_append [of sep "''/:''" name pre] assms(1,3) by auto
  show ?thesis
    using r1 r2 trim idx assms(2) by (simp add: RepoName_def Let_def)
qed

theorem RepoName_last_witness:
  "RepoName (''https://github.com/edwinavalos'' @ ''/'' @ ''rubbish'' @ ''.git'' @ str_Repeat ''/'' 1) = ''rubbish''"
  using RepoName_last [of "CHR ''/''" "''rubbish''" "''https://github.com/edwinavalos''" 1]
  by (simp add: HasSuffix_def HasPrefix_def)

section \<open>Credentials\<close>

lemma str_Index_at: "CHR ''@'' \<notin> set u \<Longrightarrow> str_Index (u @ CHR ''@'' # v) ''@'' = Some (length u)"
  by (induction u) (auto simp: HasPrefix_def)

lemma str_Index_no_at: "CHR ''@'' \<notin> set u \<Longrightarrow> str_Index u ''@'' = None"
  by (induction u) (auto simp: HasPrefix_def)

text \<open>
  A token replaces the credentials of an \<^verbatim>\<open>https\<close> URL, whether it had none or had some, so
  injecting a second token leaves no trace of the first.
\<close>

theorem injectToken_replaces:
  assumes "token \<noteq> []" and "CHR ''@'' \<notin> set cred" and "CHR ''@'' \<notin> set rest"
  shows "injectToken (''https://'' @ rest) token = ''https://oauth2:'' @ token @ ''@'' @ rest \<and>
    injectToken (''https://'' @ cred @ ''@'' @ rest) token = ''https://oauth2:'' @ token @ ''@'' @ rest"
  using assms str_Index_at [OF assms(2), of rest] str_Index_no_at [OF assms(3)]
  by (simp add: injectToken_def HasPrefix_def TrimPrefix_def Let_def)

theorem injectToken_replaces_witness:
  "injectToken (''https://'' @ ''oldtoken'' @ ''@'' @ ''github.com/user/repo.git'') ''ghp_new'' =
     ''https://oauth2:'' @ ''ghp_new'' @ ''@'' @ ''github.com/user/repo.git''"
  using injectToken_replaces [of "''ghp_new''" "''oldtoken''" "''github.com/user/repo.git''"] by simp

text \<open>But an \<^verbatim>\<open>@\<close> in the path is taken for the end of credentials, and the host is lost.\<close>

lemma injectToken_at_in_path:
  "injectToken ''https://github.com/user/repo@v1'' ''t'' = ''https://oauth2:t@v1''"
  by (simp add: injectToken_def HasPrefix_def TrimPrefix_def Let_def)

section \<open>Where clones go\<close>

text \<open>
  A session's clone lies directly inside the session's own workspace directory, which is what
  \<^verbatim>\<open>CleanupWorkspace\<close> removes, for a session ID and a repository name that are ordinary names.
\<close>

theorem clone_in_workspace:
  assumes "rc_workspacesDir c = rooted_path es" and "es \<noteq> []" and "list_all plain es" and "plain sid" and "plain name"
    and "LocalClone h c bare sid name branch url x = (Inr dest, x')"
  shows "dest = rooted_path (es @ [sid, name]) \<and> CleanupWorkspace h c sid y = snd (hx_RemoveAll h (rooted_path (es @ [sid])) y)"
proof -
  have w: "WorkspaceDir c sid = rooted_path (es @ [sid])"
    using path_Join_rooted [OF assms(3,2,4)] assms(1) by (simp add: WorkspaceDir_def)
  have "WorkspaceRepoDir c sid name = rooted_path ((es @ [sid]) @ [name])"
    unfolding WorkspaceRepoDir_def w using assms by (intro path_Join_rooted) simp_all
  then show ?thesis using assms(6) w
    by (auto simp: LocalClone_def Let_def CleanupWorkspace_def split: prod.splits option.splits)
qed

definition ok_host :: "unit host" where
  "ok_host = \<lparr>hx_exec = \<lambda>_ _ x. (([], None), x), hx_ctxErr = \<lambda>x. (None, x), hx_stat = \<lambda>_ x. (None, x),
     hx_MkdirAll = \<lambda>_ x. (None, x), hx_RemoveAll = \<lambda>_ x. (None, x), hx_Remove = \<lambda>_ x. (None, x), hx_MkdirTemp = \<lambda>_ x. (Inr ''/tmp/m'', x)\<rparr>"

theorem clone_in_workspace_witness:
  "\<exists>dest. LocalClone ok_host \<lparr>rc_reposDir = ''/r'', rc_workspacesDir = rooted_path [''w'']\<rparr> ''b'' ''s'' ''n'' [] [] () = (Inr dest, ()) \<and>
     dest = rooted_path [''w'', ''s'', ''n'']"
proof -
  let ?c = "\<lparr>rc_reposDir = ''/r'', rc_workspacesDir = rooted_path [''w'']\<rparr>"
  obtain dest where "LocalClone ok_host ?c ''b'' ''s'' ''n'' [] [] () = (Inr dest, ())"
    by (simp add: LocalClone_def ok_host_def)
  with clone_in_workspace [OF _ _ _ _ _ this, of "[''w'']"] show ?thesis by (simp add: plain_def)
qed

text \<open>A bare repository that exists is used even when it could not be updated, and whatever its URL.\<close>

lemma EnsureBareRepo_stale:
  assumes "hx_MkdirAll h (rc_reposDir c) x = (None, x1)" and "hx_stat h (BareRepoPath c name) x1 = (None, x2)"
  shows "fst (EnsureBareRepo h c url name token x) = Inr (BareRepoPath c name)"
  using assms by (simp add: EnsureBareRepo_def Let_def)

section \<open>Merging\<close>

lemma merge_loop_shuffle:
  assumes "merge_loop h dir url bs merged failed x = ((merged', failed'), x')"
  shows "\<exists>n m f. merged' = merged @ m \<and> failed' = failed @ f \<and> take n bs \<in> shuffles m f \<and>
    ((\<forall>y. fst (hx_ctxErr h y) = None) \<longrightarrow> n = length bs)"
  using assms
proof (induction bs arbitrary: merged failed x)
  case Nil
  then show ?case by auto
next
  case (Cons b bs)
  obtain c x1 where c: "hx_ctxErr h x = (c, x1)" by fastforce
  show ?case
  proof (cases c)
    case (Some e)
    with c have "\<not> (\<forall>y. fst (hx_ctxErr h y) = None)" by (metis fst_conv option.distinct(1))
    with Some Cons.prems c show ?thesis by (intro exI [of _ 0] exI [of _ "[]"]) auto
  next
    case None
    from Cons.prems c None obtain x2 where
      "merge_loop h dir url bs (merged @ [b]) failed x2 = ((merged', failed'), x') \<or>
       merge_loop h dir url bs merged (failed @ [b]) x2 = ((merged', failed'), x')"
      by (auto split: prod.splits option.splits)
    then show ?thesis
    proof
      assume "merge_loop h dir url bs (merged @ [b]) failed x2 = ((merged', failed'), x')"
      from Cons.IH [OF this] obtain n m f where "merged' = (merged @ [b]) @ m" "failed' = failed @ f" "take n bs \<in> shuffles m f"
        "(\<forall>y. fst (hx_ctxErr h y) = None) \<longrightarrow> n = length bs" by blast
      then show ?thesis
        by (intro exI [of _ "Suc n"] exI [of _ "b # m"] exI [of _ f]) (auto intro: Cons_in_shuffles_leftI)
    next
      assume "merge_loop h dir url bs merged (failed @ [b]) x2 = ((merged', failed'), x')"
      from Cons.IH [OF this] obtain n m f where "merged' = merged @ m" "failed' = (failed @ [b]) @ f" "take n bs \<in> shuffles m f"
        "(\<forall>y. fst (hx_ctxErr h y) = None) \<longrightarrow> n = length bs" by blast
      then show ?thesis
        by (intro exI [of _ "Suc n"] exI [of _ m] exI [of _ "b # f"]) (auto intro: Cons_in_shuffles_rightI)
    qed
  qed
qed

text \<open>
  When \<^verbatim>\<open>MergeImplementBranches\<close> gets as far as merging, the branches it reports merged and the
  ones it reports failed are, in their order, all the branches up to the point where the context
  ended; with a live context every branch is reported exactly once. It fails after that only if
  the push fails, and pushes only if it merged something.
\<close>

theorem merge_reports_all:
  assumes "MergeImplementBranches h url base token branches x = ((merged, failed, err), x')"
    and "merged \<noteq> [] \<or> failed \<noteq> []"
  shows "\<exists>n. take n branches \<in> shuffles merged failed \<and>
    ((\<forall>y. fst (hx_ctxErr h y) = None) \<longrightarrow> branches \<in> shuffles merged failed) \<and>
    (\<forall>e. err = Some e \<longrightarrow> merged \<noteq> [] \<and> (\<exists>e'. e = errorf_w (''push '' @ base @ '': '') e' []))"
proof -
  let ?url = "injectToken url token"
  from assms obtain tmp x4 x5 x6 where l: "merge_loop h tmp ?url branches [] [] x4 = ((merged, failed), x5)"
    and p: "push_merged h tmp ?url base merged x5 = (err, x6)"
    unfolding MergeImplementBranches_def by (auto simp: Let_def split: if_splits prod.splits option.splits sum.splits)
  from merge_loop_shuffle [OF l] obtain n where n: "take n branches \<in> shuffles merged failed"
    "(\<forall>y. fst (hx_ctxErr h y) = None) \<longrightarrow> n = length branches" by auto
  have "merged \<noteq> [] \<and> (\<exists>e'. e = errorf_w (''push '' @ base @ '': '') e' [])" if "err = Some e" for e
    using p that by (auto simp: push_merged_def split: if_splits prod.splits option.splits)
  with n show ?thesis by (intro exI [of _ n]) auto
qed

text \<open>A host on which the branch \<^verbatim>\<open>b\<close> conflicts.\<close>

definition conflict_host :: "unit host" where
  "conflict_host = ok_host\<lparr>hx_exec := \<lambda>_ cmd x. (([], if cmd = [''git'', ''merge'', ''--no-ff'', ''b''] then Some (errorf ''conflict'') else None), x)\<rparr>"

lemma conflict_merge: "MergeImplementBranches conflict_host ''u'' ''main'' [] [''a'', ''b''] () = (([''a''], [''b''], None), ())"
  by (simp add: MergeImplementBranches_def conflict_host_def ok_host_def git_run_def push_merged_def Let_def)

theorem merge_reports_all_witness:
  "MergeImplementBranches conflict_host ''u'' ''main'' [] [''a'', ''b''] () = (([''a''], [''b''], None), ()) \<and>
   [''a'', ''b''] \<in> shuffles [''a''] [''b'']"
  using merge_reports_all [OF conflict_merge] conflict_merge by (auto simp: conflict_host_def ok_host_def)

end
