(* ===== verification/Merge_Stage.thy ===== *)
theory Merge_Stage
  imports Gitutil_Props Engine_Props
begin

text \<open>
  The merge stage of a workflow with \<^verbatim>\<open>gitutil.MergeImplementBranches\<close> as its merge function, which is
  how \<^verbatim>\<open>NewEngine\<close> sets it up: \<^verbatim>\<open>run\<close> keeps only the error of the three results.
\<close>

definition merge_fn :: "'x host \<Rightarrow> string \<Rightarrow> string \<Rightarrow> string \<Rightarrow> string list \<Rightarrow> 'x \<Rightarrow> goerror option \<times> 'x" where
  "merge_fn h repoURL baseBranch token bs x =
     (case MergeImplementBranches h repoURL baseBranch token bs x of ((_, _, err), x1) \<Rightarrow> (err, x1))"

text \<open>
  Branches that conflict are not an error of the merge, and \<^verbatim>\<open>run\<close> drops the list of them: a
  workflow whose workers all succeeded ends done, and its merge stage done, although branches were
  left unmerged.
\<close>

theorem conflicts_end_done:
  assumes "good en w" and "abs_store w wid = Some v" and "en_mergeFn en = merge_fn h"
    and "MergeImplementBranches h (wf_RepoURL v) (wf_Branch v) (en_token en) (fr_succeeded (ew_frames w ! k)) (ew_ext w) =
      ((merged, unmerged, None), x')"
    and "unmerged \<noteq> []" and "fr_firstErr (ew_frames w ! k) = None" and "wid @ ''-merge'' \<notin> st_ID ` set (wf_Stages v)"
  shows "\<exists>v'. abs_store (snd (exec (run_back en k wid) w)) wid = Some v' \<and> wf_Status v' = StatusDone \<and>
    st_Status (last (wf_Stages v')) = StageDone"
proof -
  have "en_mergeFn en (wf_RepoURL v) (wf_Branch v) (en_token en) (fr_succeeded (ew_frames w ! k)) (ew_ext w) = (None, x')"
    using assms(3,4) by (simp add: merge_fn_def)
  from exec_run_back(2) [OF assms(1,2) this] assms(6)
  have "abs_store (snd (exec (run_back en k wid) w)) wid = Some (final_wf wid None None v)" by simp
  moreover have "wf_Status (final_wf wid None None v) = StatusDone" by (simp add: final_wf_def final_status_def)
  moreover have "st_Status (last (wf_Stages (final_wf wid None None v))) = StageDone"
  proof -
    have idx: "stage_index (xs @ [new_stage i K s inp]) i = Some (length xs)" if "i \<notin> st_ID ` set xs" for xs i K s inp
      using that by (induction xs) auto
    show ?thesis using idx [OF assms(7)] by (simp add: final_wf_def final_status_def upd_stage_def append_wf_def merge_stage_def)
  qed
  ultimately show ?thesis by blast
qed

theorem conflicts_end_done_witness:
  "\<exists>v'. abs_store (snd (exec (run_back (ex_engine\<lparr>en_mergeFn := merge_fn conflict_host\<rparr>) 0 ''w'')
       (ex_world\<lparr>ew_frames := [\<lparr>fr_firstErr = None, fr_succeeded = [''a'', ''b'']\<rparr>]\<rparr>))) ''w'' = Some v' \<and> wf_Status v' = StatusDone"
proof -
  let ?en = "ex_engine\<lparr>en_mergeFn := merge_fn conflict_host\<rparr>"
  let ?w = "ex_world\<lparr>ew_frames := [\<lparr>fr_firstErr = None, fr_succeeded = [''a'', ''b'']\<rparr>]\<rparr>"
  have g: "good ?en ?w" using ex_good by (simp add: good_def heap_inv_def quiet_def)
  have a: "abs_store ?w ''w'' = Some ex_v" using ex_abs by (simp add: abs_store_def)
  have m: "MergeImplementBranches conflict_host (wf_RepoURL ex_v) (wf_Branch ex_v) (en_token ?en) (fr_succeeded (ew_frames ?w ! 0)) (ew_ext ?w) =
      (([''a''], [''b''], None), ())"
    by (simp add: ex_engine_def ex_hdr_def MergeImplementBranches_def conflict_host_def ok_host_def git_run_def push_merged_def Let_def)
  have n: "''w'' @ ''-merge'' \<notin> st_ID ` set (wf_Stages ex_v)"
    unfolding ex_stages by (simp add: initial_stages_def)
  from conflicts_end_done [OF g a _ m _ _ n] show ?thesis by auto
qed

end
