(* ===== verification/Snapshot.thy ===== *)
theory Snapshot
  imports Goroutines Go_Fs Go_Text
begin

text \<open>
  \<^verbatim>\<open>internal/compute/firecracker/snapshot.go\<close>: thin-volume snapshots of the base image, one per
  session. The device mapper is reached through commands (\<^verbatim>\<open>dmRunner.run\<close>), whose outcome is up to
  an environment; \<open>sn_log\<close> records the commands issued, for the theorems to speak of.
  \<^verbatim>\<open>CreateSnapshot\<close> and \<^verbatim>\<open>DeleteSnapshot\<close> release the lock between commands, so they are programs
  whose steps interleave.
\<close>

record 'x snap_env =
  sv_fs :: fs_env
  sv_pool :: string \<comment> \<open>\<^verbatim>\<open>poolDevice\<close>\<close>
  sv_idPath :: string
  sv_uid :: string \<comment> \<open>\<^verbatim>\<open>deviceUID\<close>\<close>
  sv_dm :: "string list \<Rightarrow> 'x \<Rightarrow> (string \<times> goerror option) \<times> 'x" \<comment> \<open>\<^verbatim>\<open>dm.run\<close>\<close>
  sv_stat :: "string \<Rightarrow> 'x \<Rightarrow> goerror option \<times> 'x" \<comment> \<open>\<^verbatim>\<open>os.Stat\<close>\<close>
  sv_quote :: "string \<Rightarrow> string" \<comment> \<open>the verb \<^verbatim>\<open>%q\<close>\<close>
  sv_atoi_err :: "string \<Rightarrow> goerror" \<comment> \<open>the error of a failed number conversion\<close>

record 'x snap =
  sn_base :: int
  sn_next :: int
  sn_sessions :: "(string, int) gomap"
  sn_fs :: fs
  sn_dm :: 'x
  sn_log :: "string list list"

section \<open>Commands\<close>

definition dm_run :: "'x snap_env \<Rightarrow> string list \<Rightarrow> 'x snap \<Rightarrow> (string \<times> goerror option) \<times> 'x snap" where
  "dm_run env cmd s = (case sv_dm env cmd (sn_dm s) of (r, x) \<Rightarrow> (r, s\<lparr>sn_dm := x, sn_log := sn_log s @ [cmd]\<rparr>))"

definition run_dm :: "'x snap_env \<Rightarrow> ('x snap \<Rightarrow> string list) \<Rightarrow> ('x snap, string \<times> goerror option) prog" where
  "run_dm env cmd = act (\<lambda>s. dm_run env (cmd s) s)"

definition message :: "'x snap_env \<Rightarrow> string \<Rightarrow> string list" where
  "message env msg = [''sudo'', ''dmsetup'', ''message'', sv_pool env, ''0'', msg]"

definition create_msg :: "int \<Rightarrow> int \<Rightarrow> string" where
  "create_msg v base = ''create_snap '' @ Itoa v @ '' '' @ Itoa base"

definition delete_msg :: "int \<Rightarrow> string" where
  "delete_msg v = ''delete '' @ Itoa v"

definition dev_name :: "string \<Rightarrow> string" where
  "dev_name sid = ''rubbish-session-'' @ sid"

definition remove_cmd :: "string \<Rightarrow> string list" where
  "remove_cmd sid = [''sudo'', ''dmsetup'', ''remove'', dev_name sid]"

section \<open>Starting up\<close>

definition session_device :: "'x snap_env \<Rightarrow> string \<Rightarrow> 'x snap \<Rightarrow> 'x snap" where
  "session_device env line s =
     (case Fields line of
        [] \<Rightarrow> s
      | name # _ \<Rightarrow>
          if \<not> HasPrefix name ''rubbish-session-'' then s
          else
            (case dm_run env [''sudo'', ''dmsetup'', ''table'', name] s of
               ((_, Some _), s1) \<Rightarrow> s1
             | ((tbl, None), s1) \<Rightarrow>
                 (let tFields = Fields tbl in
                  if length tFields < 5 then s1
                  else (case Atoi (tFields ! 4) of
                          None \<Rightarrow> s1
                        | Some volID \<Rightarrow> s1\<lparr>sn_sessions := gm_set (TrimPrefix name ''rubbish-session-'') volID (sn_sessions s1)\<rparr>))))"

definition reconcile :: "'x snap_env \<Rightarrow> int \<Rightarrow> 'x snap \<Rightarrow> 'x snap" where
  "reconcile env volID s =
     (if volID \<ge> sn_next s then
        (let next = volID + 1 in
         s\<lparr>sn_next := next, sn_fs := snd (WriteFile (sv_fs env) (sv_idPath env) (Itoa next) (sn_fs s))\<rparr>)
      else s)"

definition discoverState :: "'x snap_env \<Rightarrow> 'x snap \<Rightarrow> goerror option \<times> 'x snap" where
  "discoverState env s =
     (case dm_run env [''sudo'', ''dmsetup'', ''table'', ''rubbish-base-ro''] s of
        ((out, Some e), s1) \<Rightarrow> (Some (errorf_w (''dmsetup table rubbish-base: '' @ out @ '': '') e []), s1)
      | ((out, None), s1) \<Rightarrow>
          (let fields = Fields out in
           if length fields < 5 \<or> fields ! 2 \<noteq> ''thin''
           then (Some (errorf (''unexpected rubbish-base-ro table: '' @ sv_quote env (TrimSpace out))), s1)
           else
             (case Atoi (fields ! 4) of
                None \<Rightarrow> (Some (errorf_w (''parse base vol ID from '' @ sv_quote env (fields ! 4) @ '': '') (sv_atoi_err env (fields ! 4)) []), s1)
              | Some baseVolID \<Rightarrow>
                  (let s2 = s1\<lparr>sn_base := baseVolID\<rparr> in
                   case dm_run env [''sudo'', ''dmsetup'', ''ls''] s2 of
                     ((_, Some _), s3) \<Rightarrow> (None, s3)
                   | ((lsOut, None), s3) \<Rightarrow>
                       (let s4 = fold (session_device env) (Split1 lsOut (CHR 0x0A)) s3
                        in (None, fold (reconcile env) (map snd (sn_sessions s4)) s4))))))"

definition newSnapshotManager :: "'x snap_env \<Rightarrow> fs \<Rightarrow> 'x \<Rightarrow> 'x snap result \<times> fs \<times> 'x" where
  "newSnapshotManager env fs0 x =
     (case sv_stat env (sv_pool env) x of
        (Some e, x1) \<Rightarrow> (Inl (errorf_w (''pool device '' @ sv_pool env @ '' not found: '') e []), fs0, x1)
      | (None, x1) \<Rightarrow>
          (case ReadFile (sv_fs env) (sv_idPath env) fs0 of (data, fs1) \<Rightarrow>
             (let next = (case data of
                            Inl _ \<Rightarrow> 2
                          | Inr b \<Rightarrow> (case Atoi (TrimSpace b) of None \<Rightarrow> 2 | Some n \<Rightarrow> if n \<ge> 2 then n else 2));
                  sm = \<lparr>sn_base = -1, sn_next = next, sn_sessions = [], sn_fs = fs1, sn_dm = x1, sn_log = []\<rparr>
              in case discoverState env sm of
                   (Some e, s) \<Rightarrow> (Inl e, sn_fs s, sn_dm s)
                 | (None, s) \<Rightarrow>
                     if sn_base s < 0
                     then (Inl (errorf (''rubbish-base-ro not found '' @ [CHR 0xE2, CHR 0x80, CHR 0x94] @ '' run setup-storage.sh to import the base image'')), sn_fs s, sn_dm s)
                     else (Inr s, sn_fs s, sn_dm s))))"

section \<open>Creating and deleting\<close>

definition BaseSize :: "'x snap_env \<Rightarrow> ('x snap, int result) prog" where
  "BaseSize env =
     bind (run_dm env (\<lambda>_. [''sudo'', ''blockdev'', ''--getsz'', ''/dev/mapper/rubbish-base-ro''])) (\<lambda>(out, err).
     case err of
       Some e \<Rightarrow> Done (Inl (errorf_w (''blockdev --getsz: '' @ out @ '': '') e []))
     | None \<Rightarrow>
         Done (case Atoi (TrimSpace out) of
                 None \<Rightarrow> Inl (errorf_w (''parse sector count '' @ sv_quote env (TrimSpace out) @ '': '') (sv_atoi_err env (TrimSpace out)) [])
               | Some sectors \<Rightarrow> Inr sectors))"

text \<open>Taking a volume ID, under the lock: the counter only moves if its file was written.\<close>

definition reserve :: "'x snap_env \<Rightarrow> ('x snap, int result) prog" where
  "reserve env = act (\<lambda>s.
     let volID = sn_next s; next = volID + 1 in
     case WriteFile (sv_fs env) (sv_idPath env) (Itoa next) (sn_fs s) of
       (Some e, fs') \<Rightarrow> (Inl (errorf_w ''persist next-volume-id: '' e []), s\<lparr>sn_fs := fs'\<rparr>)
     | (None, fs') \<Rightarrow> (Inr volID, s\<lparr>sn_next := next, sn_fs := fs'\<rparr>))"

definition attach :: "'x snap_env \<Rightarrow> string \<Rightarrow> int \<Rightarrow> int \<Rightarrow> ('x snap, string result) prog" where
  "attach env sid volID sectors =
     bind (run_dm env (\<lambda>_. remove_cmd sid)) (\<lambda>_.
     bind (run_dm env (\<lambda>_. [''sudo'', ''dmsetup'', ''create'', dev_name sid, ''--uid'', sv_uid env, ''--table'',
             ''0 '' @ Itoa sectors @ '' thin '' @ sv_pool env @ '' '' @ Itoa volID])) (\<lambda>(out, err).
     case err of
       Some e \<Rightarrow>
         bind (run_dm env (\<lambda>_. message env (delete_msg volID))) (\<lambda>_.
         Done (Inl (errorf_w (''dmsetup create '' @ dev_name sid @ '': '' @ out @ '': '') e [])))
     | None \<Rightarrow>
         bind (modify (\<lambda>s. s\<lparr>sn_sessions := gm_set sid volID (sn_sessions s)\<rparr>)) (\<lambda>_.
         Done (Inr (''/dev/mapper/'' @ dev_name sid)))))"

definition after_create :: "'x snap_env \<Rightarrow> string \<Rightarrow> int \<Rightarrow> string \<times> goerror option \<Rightarrow> ('x snap, string result) prog" where
  "after_create env sid volID = (\<lambda>(out, err).
     case err of
       Some e \<Rightarrow> Done (Inl (errorf_w (''dmsetup create_snap (vol '' @ Itoa volID @ ''): '' @ out @ '': '') e []))
     | None \<Rightarrow>
         bind (BaseSize env) (\<lambda>r.
         case r of
           Inl e \<Rightarrow>
             bind (run_dm env (\<lambda>_. message env (delete_msg volID))) (\<lambda>_.
             Done (Inl (errorf_w ''base size: '' e [])))
         | Inr sectors \<Rightarrow> attach env sid volID sectors))"

definition create_volume :: "'x snap_env \<Rightarrow> string \<Rightarrow> int \<Rightarrow> ('x snap, string result) prog" where
  "create_volume env sid volID =
     bind (run_dm env (\<lambda>s. message env (create_msg volID (sn_base s)))) (after_create env sid volID)"

definition CreateSnapshot :: "'x snap_env \<Rightarrow> string \<Rightarrow> ('x snap, string result) prog" where
  "CreateSnapshot env sid =
     bind (reserve env) (\<lambda>r.
     case r of
       Inl e \<Rightarrow> Done (Inl e)
     | Inr volID \<Rightarrow> create_volume env sid volID)"

text \<open>\<^verbatim>\<open>DeleteSnapshot\<close> collects the errors of its commands and carries on. (Its pause of 500 ms changes nothing.)\<close>

definition DeleteSnapshot :: "'x snap_env \<Rightarrow> string \<Rightarrow> ('x snap, goerror option) prog" where
  "DeleteSnapshot env sid =
     bind (read (\<lambda>s. gm_get (sn_sessions s) sid)) (\<lambda>v.
     case v of
       None \<Rightarrow> Done (Some (errorf (''no snapshot for session '' @ sid)))
     | Some volID \<Rightarrow>
         bind (run_dm env (\<lambda>_. remove_cmd sid)) (\<lambda>(out, err).
         bind (case err of
                 None \<Rightarrow> Done []
               | Some _ \<Rightarrow>
                   bind (run_dm env (\<lambda>_. [''sudo'', ''dmsetup'', ''remove'', ''--force'', dev_name sid])) (\<lambda>(out2, err2).
                   Done (case err2 of
                           None \<Rightarrow> []
                         | Some e2 \<Rightarrow> [''dmsetup remove '' @ dev_name sid @ '': '' @ out @ '' / force: '' @ out2 @ '': '' @ error_text e2])))
              (\<lambda>errs.
         bind (run_dm env (\<lambda>_. message env (delete_msg volID))) (\<lambda>(out3, err3).
         let errs' = errs @ (case err3 of
                               None \<Rightarrow> []
                             | Some e \<Rightarrow> [''dmsetup delete vol '' @ Itoa volID @ '': '' @ out3 @ '': '' @ error_text e])
         in bind (modify (\<lambda>s. s\<lparr>sn_sessions := gm_del sid (sn_sessions s)\<rparr>)) (\<lambda>_.
            Done (if length errs' > 0
                  then Some (errorf (''delete snapshot '' @ sid @ '': '' @ str_Join errs' ''; ''))
                  else None))))))"

end
