(* ===== verification/Snapshot_Props.thy ===== *)
theory Snapshot_Props
  imports Snapshot
begin

text \<open>
  Properties of the snapshot manager: volume IDs are never used twice, however creations and
  deletions interleave; what creating and deleting a snapshot does on every path; and that the
  counter is ahead of every volume found at startup.
\<close>

section \<open>Commands are told apart\<close>

lemma nat_str_no_space: "CHR '' '' \<notin> set (nat_str n)"
  using nat_str_digits [of n] by (auto simp: list_all_iff is_digit_def)

lemma Itoa_no_space: "CHR '' '' \<notin> set (Itoa i)"
  using nat_str_no_space by (auto simp: Itoa_def)

lemma create_msg_inject: "create_msg v b = create_msg w c \<Longrightarrow> v = w"
proof -
  assume "create_msg v b = create_msg w c"
  then have "Itoa v @ CHR '' '' # Itoa b = Itoa w @ CHR '' '' # Itoa c" by (simp add: create_msg_def)
  then have "Cut1 (Itoa v @ CHR '' '' # Itoa b) (CHR '' '') = Cut1 (Itoa w @ CHR '' '' # Itoa c) (CHR '' '')" by simp
  then have "Itoa v = Itoa w" by (simp add: Cut1_append Itoa_no_space)
  then show ?thesis by simp
qed

definition creates :: "'x snap_env \<Rightarrow> string list \<Rightarrow> int \<Rightarrow> bool" where
  "creates env cmd v \<longleftrightarrow> (\<exists>b. cmd = message env (create_msg v b))"

lemma creates_inject: "creates env cmd v \<Longrightarrow> creates env cmd w \<Longrightarrow> v = w"
  using create_msg_inject by (auto simp: creates_def message_def)

lemma not_creates [simp]:
  "\<not> creates env (remove_cmd sid) v" "\<not> creates env (message env (delete_msg u)) v"
  "\<not> creates env [''sudo'', ''blockdev'', x, y] v" "\<not> creates env (a # ''dmsetup'' # ''create'' # xs) v"
  "\<not> creates env (a # ''dmsetup'' # ''remove'' # xs) v"
  by (auto simp: creates_def message_def remove_cmd_def delete_msg_def create_msg_def)

section \<open>Volume IDs under every interleaving\<close>

datatype snap_request = Create string | Delete string

fun serve :: "'x snap_env \<Rightarrow> snap_request \<Rightarrow> ('x snap, unit) prog" where
  "serve env (Create sid) = bind (CreateSnapshot env sid) (\<lambda>_. Done ())"
| "serve env (Delete sid) = bind (DeleteSnapshot env sid) (\<lambda>_. Done ())"

text \<open>A step that neither takes an ID nor creates a volume.\<close>

definition no_create :: "'x snap_env \<Rightarrow> 'x snap \<Rightarrow> 'x snap \<Rightarrow> bool" where
  "no_create env s t \<longleftrightarrow> sn_next t = sn_next s \<and>
     (sn_log t = sn_log s \<or> (\<exists>cmd. sn_log t = sn_log s @ [cmd] \<and> (\<forall>v. \<not> creates env cmd v)))"

lemma run_dm_no_create [intro]:
  assumes "\<And>s v. \<not> creates env (cmd s) v"
  shows "prog_steps (no_create env) (run_dm env cmd)"
  unfolding run_dm_def
  by (rule prog_steps_act) (use assms in \<open>auto simp: no_create_def dm_run_def split: prod.splits\<close>)

lemma modify_no_create [intro]: "prog_steps (no_create env) (modify (\<lambda>s. s\<lparr>sn_sessions := f (sn_sessions s)\<rparr>))"
  unfolding modify_def by (rule prog_steps_act) (simp add: no_create_def)

lemma read_no_create [intro]: "prog_steps (no_create env) (read f)"
  unfolding read_def by (rule prog_steps_act) (simp add: no_create_def)

lemma BaseSize_no_create [intro]: "prog_steps (no_create env) (BaseSize env)"
  unfolding BaseSize_def by (intro prog_steps_bind run_dm_no_create) (auto split: option.splits)

lemma attach_no_create [intro]: "prog_steps (no_create env) (attach env sid v n)"
  unfolding attach_def by (auto intro!: prog_steps_bind run_dm_no_create modify_no_create split: option.splits)

lemma Delete_no_create [intro]: "prog_steps (no_create env) (DeleteSnapshot env sid)"
  unfolding DeleteSnapshot_def
  by (auto intro!: prog_steps_bind run_dm_no_create modify_no_create read_no_create split: option.splits simp: Let_def)

text \<open>Where a request is: not started, holding an ID it has taken, or past creating the volume.\<close>

datatype phase = Fresh | Holding int | Past

fun in_phase :: "'x snap_env \<Rightarrow> phase \<Rightarrow> ('x snap, unit) prog \<Rightarrow> bool" where
  "in_phase env Fresh p = (\<exists>sid. p = serve env (Create sid))"
| "in_phase env (Holding v) p = (\<exists>sid. p = bind (create_volume env sid v) (\<lambda>_. Done ()))"
| "in_phase env Past p = prog_steps (no_create env) p"

definition volumes_ok :: "'x snap_env \<Rightarrow> phase list \<Rightarrow> 'x snap \<Rightarrow> bool" where
  "volumes_ok env phs s \<longleftrightarrow>
     (\<forall>i j v w. i < j \<and> j < length (sn_log s) \<and> creates env (sn_log s ! i) v \<and> creates env (sn_log s ! j) w \<longrightarrow> v \<noteq> w) \<and>
     (\<forall>i v. i < length (sn_log s) \<and> creates env (sn_log s ! i) v \<longrightarrow> v < sn_next s) \<and>
     (\<forall>i v. i < length phs \<and> phs ! i = Holding v \<longrightarrow> v < sn_next s \<and> (\<forall>k < length (sn_log s). \<not> creates env (sn_log s ! k) v)) \<and>
     (\<forall>i j v. i < length phs \<and> j < length phs \<and> phs ! i = Holding v \<and> phs ! j = Holding v \<longrightarrow> i = j)"

definition snap_inv :: "'x snap_env \<Rightarrow> ('x snap, unit) prog list \<times> 'x snap \<Rightarrow> bool" where
  "snap_inv env c \<longleftrightarrow> (\<exists>phs. length phs = length (fst c) \<and>
     (\<forall>i < length phs. in_phase env (phs ! i) (fst c ! i)) \<and> volumes_ok env phs (snd c))"

lemma volumes_ok_hold:
  "volumes_ok env phs s \<Longrightarrow> i < length phs \<Longrightarrow> phs ! i = Holding v \<Longrightarrow>
     v < sn_next s \<and> (\<forall>k < length (sn_log s). \<not> creates env (sn_log s ! k) v)"
  by (simp add: volumes_ok_def)

lemma volumes_ok_log:
  "volumes_ok env phs s \<Longrightarrow> i < j \<Longrightarrow> j < length (sn_log s) \<Longrightarrow> creates env (sn_log s ! i) v \<Longrightarrow>
     creates env (sn_log s ! j) w \<Longrightarrow> v \<noteq> w"
  unfolding volumes_ok_def by (drule conjunct1) blast

lemma volumes_ok_same:
  "volumes_ok env phs s \<Longrightarrow> i < length phs \<Longrightarrow> j < length phs \<Longrightarrow> phs ! i = Holding v \<Longrightarrow> phs ! j = Holding v \<Longrightarrow> i = j"
  unfolding volumes_ok_def by blast

lemma volumes_ok_quiet:
  assumes "volumes_ok env phs s" and "no_create env s t" and "\<And>v. ph \<noteq> Holding v" and "i < length phs"
  shows "volumes_ok env (phs[i := ph]) t"
proof -
  have nx: "sn_next t = sn_next s" using assms(2) by (simp add: no_create_def)
  have log: "k < length (sn_log s) \<and> sn_log t ! k = sn_log s ! k" if "k < length (sn_log t)" "creates env (sn_log t ! k) v" for k v
    using assms(2) that by (auto simp: no_create_def nth_append less_Suc_eq split: if_splits)
  have hold: "phs ! k = Holding v" if "phs[i := ph] ! k = Holding v" for k v
    using assms(3,4) that by (cases "k = i") auto
  show ?thesis
    unfolding volumes_ok_def nx length_list_update
  proof (intro conjI allI impI; elim conjE)
    fix a b v w assume *: "a < b" "b < length (sn_log t)" "creates env (sn_log t ! a) v" "creates env (sn_log t ! b) w"
    then have "a < length (sn_log t)" by simp
    from log [OF this *(3)] log [OF *(2,4)] * assms(1) show "v \<noteq> w" unfolding volumes_ok_def by metis
  next
    fix k v assume *: "k < length (sn_log t)" "creates env (sn_log t ! k) v"
    from log [OF this] * assms(1) show "v < sn_next s" unfolding volumes_ok_def by metis
  next
    fix k v assume *: "k < length phs" "phs[i := ph] ! k = Holding v"
    note h = volumes_ok_hold [OF assms(1) *(1) hold [OF *(2)]]
    then show "v < sn_next s" by simp
    fix m assume m: "m < length (sn_log t)"
    from log [OF m] h show "\<not> creates env (sn_log t ! m) v" by metis
  next
    fix a b v assume *: "a < length phs" "b < length phs" "phs[i := ph] ! a = Holding v" "phs[i := ph] ! b = Holding v"
    show "a = b" by (rule volumes_ok_same [OF assms(1) *(1,2) hold [OF *(3)] hold [OF *(4)]])
  qed
qed

lemma volumes_ok_reserve:
  assumes "volumes_ok env phs s" and "sn_next t = sn_next s + 1" and "sn_log t = sn_log s" and "i < length phs"
  shows "volumes_ok env (phs[i := Holding (sn_next s)]) t"
proof -
  have v: "v < sn_next s" if "k < length phs" "phs ! k = Holding v" for k v using assms(1) that unfolding volumes_ok_def by blast
  show ?thesis
    using assms v unfolding volumes_ok_def by (simp add: nth_list_update) (smt (verit))
qed

lemma volumes_ok_create:
  assumes "volumes_ok env phs s" and "phs ! i = Holding v" and "i < length phs" and "sn_next t = sn_next s"
    and "sn_log t = sn_log s @ [cmd]" and "creates env cmd v"
  shows "volumes_ok env (phs[i := Past]) t"
proof -
  have own: "w = v" if "creates env cmd w" for w using creates_inject [OF that assms(6)] .
  have v: "v < sn_next s" "\<forall>k < length (sn_log s). \<not> creates env (sn_log s ! k) v"
    using assms(1-3) unfolding volumes_ok_def by blast+
  have hold: "k \<noteq> i \<and> phs ! k = Holding w" if "phs[i := Past] ! k = Holding w" for k w
    using that assms(3) by (cases "k = i") auto
  have other: "w \<noteq> v" if "k < length phs" "phs[i := Past] ! k = Holding w" for k w
    using hold [OF that(2)] that(1) assms(1-3) unfolding volumes_ok_def by blast
  show ?thesis
    unfolding volumes_ok_def assms(4,5) length_list_update
  proof (intro conjI allI impI; elim conjE)
    fix a b u w assume *: "a < b" "b < length (sn_log s @ [cmd])" "creates env ((sn_log s @ [cmd]) ! a) u" "creates env ((sn_log s @ [cmd]) ! b) w"
    show "u \<noteq> w"
    proof (cases "b = length (sn_log s)")
      case True
      with * have "w = v" "creates env (sn_log s ! a) u" "a < length (sn_log s)" using own by (simp_all add: nth_append)
      with v show ?thesis by blast
    next
      case False
      with * assms(1) show ?thesis unfolding volumes_ok_def by (simp add: nth_append less_Suc_eq)
    qed
  next
    fix k w assume "k < length (sn_log s @ [cmd])" "creates env ((sn_log s @ [cmd]) ! k) w"
    with v own assms(1) show "w < sn_next s" unfolding volumes_ok_def by (auto simp: nth_append less_Suc_eq split: if_splits)
  next
    fix k w assume *: "k < length phs" "phs[i := Past] ! k = Holding w"
    from volumes_ok_hold [OF assms(1) *(1)] hold [OF *(2)]
    have h: "w < sn_next s \<and> (\<forall>k < length (sn_log s). \<not> creates env (sn_log s ! k) w)" by simp
    then show "w < sn_next s" by simp
    fix m assume m: "m < length (sn_log s @ [cmd])"
    from h m own other [OF *] show "\<not> creates env ((sn_log s @ [cmd]) ! m) w" by (auto simp: nth_append less_Suc_eq split: if_splits)
  next
    fix a b w assume *: "a < length phs" "b < length phs" "phs[i := Past] ! a = Holding w" "phs[i := Past] ! b = Holding w"
    show "a = b" by (rule volumes_ok_same [OF assms(1) *(1,2)]) (use hold [OF *(3)] hold [OF *(4)] in simp_all)
  qed
qed

lemma serve_step:
  assumes "in_phase env ph (Step f)" and "f s = (p', t)" and "volumes_ok env phs s" and "i < length phs" and "phs ! i = ph"
  shows "\<exists>ph'. in_phase env ph' p' \<and> volumes_ok env (phs[i := ph']) t"
proof (cases ph)
  case Fresh
  with assms(1) obtain sid where p: "Step f = bind (CreateSnapshot env sid) (\<lambda>_. Done ())" by auto
  obtain e fs' where w: "WriteFile (sv_fs env) (sv_idPath env) (Itoa (sn_next s + 1)) (sn_fs s) = (e, fs')" by fastforce
  show ?thesis
  proof (cases e)
    case None
    with p w assms(2) have "p' = bind (create_volume env sid (sn_next s)) (\<lambda>_. Done ())" "t = s\<lparr>sn_next := sn_next s + 1, sn_fs := fs'\<rparr>"
      by (auto simp: CreateSnapshot_def reserve_def act_def Let_def bind_assoc)
    then have "in_phase env (Holding (sn_next s)) p'" "volumes_ok env (phs[i := Holding (sn_next s)]) t"
      using volumes_ok_reserve [OF assms(3) _ _ assms(4), of t] by auto
    then show ?thesis by blast
  next
    case (Some x)
    with p w assms(2) have "p' = Done ()" "t = s\<lparr>sn_fs := fs'\<rparr>"
      by (auto simp: CreateSnapshot_def reserve_def act_def Let_def bind_assoc)
    then have "in_phase env Past p'" "volumes_ok env (phs[i := Past]) t"
      using volumes_ok_quiet [OF assms(3) _ _ assms(4), of t Past] by (auto simp: no_create_def)
    then show ?thesis by blast
  qed
next
  case (Holding v)
  with assms(1) obtain sid where p: "Step f = bind (create_volume env sid v) (\<lambda>_. Done ())" by auto
  let ?cmd = "message env (create_msg v (sn_base s))"
  obtain out err x where r: "sv_dm env ?cmd (sn_dm s) = ((out, err), x)" by (metis surj_pair)
  have "prog_steps (no_create env) (after_create env sid v (out, err))"
    unfolding after_create_def by (auto intro!: prog_steps_bind run_dm_no_create split: option.splits sum.splits)
  then have past: "prog_steps (no_create env) (bind (after_create env sid v (out, err)) (\<lambda>_. Done ()))"
    by (rule prog_steps_bind) simp
  from p r assms(2) have t: "t = s\<lparr>sn_dm := x, sn_log := sn_log s @ [?cmd]\<rparr>" and "in_phase env Past p'"
    using past by (auto simp: create_volume_def run_dm_def act_def dm_run_def bind_assoc)
  moreover have "volumes_ok env (phs[i := Past]) t"
    using Holding assms(4,5) by (intro volumes_ok_create [OF assms(3)]) (auto simp: t creates_def)
  ultimately show ?thesis by blast
next
  case Past
  with assms(1,2) have "no_create env s t" "in_phase env Past p'"
    by (auto simp: prog_steps_Step simp del: prog_steps.simps) (metis fst_conv snd_conv)+
  with volumes_ok_quiet [OF assms(3) _ _ assms(4), of t Past] show ?thesis by blast
qed

lemma snap_inv_step:
  assumes "pool_step c d" and "snap_inv env c"
  shows "snap_inv env d"
proof -
  obtain ps s where c: "c = (ps, s)" by fastforce
  from assms(2) c obtain phs where phs: "length phs = length ps" "\<forall>i < length phs. in_phase env (phs ! i) (ps ! i)" "volumes_ok env phs s"
    by (auto simp: snap_inv_def)
  from assms(1) c obtain i f p' t where i: "i < length ps" "ps ! i = Step f" "f s = (p', t)" and d: "d = (ps[i := p'], t)"
    by (auto elim: pool_stepE)
  from i phs(1,2) have "in_phase env (phs ! i) (Step f)" by metis
  from serve_step [OF this i(3) phs(3)] i(1) phs(1) obtain ph' where
    "in_phase env ph' p'" "volumes_ok env (phs[i := ph']) t" by auto
  with phs d show ?thesis unfolding snap_inv_def
    by (intro exI [of _ "phs[i := ph']"]) (use i(1) in \<open>auto simp: nth_list_update\<close>)
qed

lemma snap_inv_steps: "pool_steps c d \<Longrightarrow> snap_inv env c \<Longrightarrow> snap_inv env d"
  by (induction rule: pool_steps.induct) (auto intro: snap_inv_step)

text \<open>
  (C12) However any number of \<^verbatim>\<open>CreateSnapshot\<close> and \<^verbatim>\<open>DeleteSnapshot\<close> calls interleave, and whatever
  the device mapper and the file system answer, no volume ID is used in two \<^verbatim>\<open>create_snap\<close>
  messages.
\<close>

theorem snapshot_ids_unique:
  assumes "pool_steps (map (serve env) reqs, s) (ps, t)" and "sn_log s = []" and "i < j" and "j < length (sn_log t)"
    and "sn_log t ! i = message env (create_msg v b)" and "sn_log t ! j = message env (create_msg w c)"
  shows "v \<noteq> w"
proof -
  let ?ph = "\<lambda>r. case r of Create _ \<Rightarrow> Fresh | Delete _ \<Rightarrow> Past"
  have "in_phase env (?ph r) (serve env r)" for r
    by (cases r) (auto intro!: prog_steps_bind)
  moreover have "volumes_ok env (map ?ph reqs) s"
    using assms(2) by (auto simp: volumes_ok_def split: snap_request.splits)
  ultimately have "snap_inv env (map (serve env) reqs, s)"
    unfolding snap_inv_def by (intro exI [of _ "map ?ph reqs"]) simp
  from snap_inv_steps [OF assms(1) this] obtain phs where "volumes_ok env phs t" by (auto simp: snap_inv_def)
  from volumes_ok_log [OF this assms(3,4)] assms(5,6) show ?thesis by (auto simp: creates_def)
qed

text \<open>A host on which every command succeeds, and prints a table line.\<close>

definition ok_env :: "unit snap_env" where
  "ok_env = \<lparr>sv_fs = \<lparr>fe_fault = \<lambda>_. None, fe_short = \<lambda>_. 0, fe_rand = \<lambda>_. []\<rparr>, sv_pool = ''pool'', sv_idPath = ''id'', sv_uid = ''0'',
     sv_dm = \<lambda>cmd x. ((if cmd = [''sudo'', ''dmsetup'', ''ls''] then ''rubbish-session-z'' else ''0 8 thin pool 7'', None), x),
     sv_stat = \<lambda>_ x. (None, x), sv_quote = id, sv_atoi_err = errorf\<rparr>"

definition ok_snap :: "unit snap" where
  "ok_snap = \<lparr>sn_base = 1, sn_next = 2, sn_sessions = [], sn_fs = \<lparr>fs_files = [], fs_ops = 0\<rparr>, sn_dm = (), sn_log = []\<rparr>"

theorem snapshot_ids_unique_witness:
  "\<exists>ps t. pool_steps (map (serve ok_env) [Create ''a'', Create ''b''], ok_snap) (ps, t) \<and> length (sn_log t) = 2 \<and>
     sn_log t ! 0 = message ok_env (create_msg 2 1) \<and> sn_log t ! 1 = message ok_env (create_msg 3 1) \<and> (2 :: int) \<noteq> 3"
proof -
  let ?c = "(map (serve ok_env) [Create ''a'', Create ''b''], ok_snap)"
  let ?d = "run_schedule [0, 1, 0, 1] ?c"
  have log: "sn_log (snd ?d) = [message ok_env (create_msg 2 1), message ok_env (create_msg 3 1)]"
    by (simp add: ok_snap_def ok_env_def CreateSnapshot_def reserve_def create_volume_def run_dm_def act_def dm_run_def
        WriteFile_def WriteTemp_def fs_tick_def Let_def message_def)
  have "pool_steps ?c ?d" by (rule run_schedule_steps)
  then have steps: "pool_steps ?c (fst ?d, snd ?d)" by simp
  from snapshot_ids_unique [OF steps, of 0 1 2 1 3 1] log steps show ?thesis
    by (intro exI [of _ "fst ?d"] exI [of _ "snd ?d"]) (simp add: ok_snap_def)
qed

section \<open>One snapshot\<close>

lemma dm_run_sel [simp]:
  "sn_base (snd (dm_run env cmd s)) = sn_base s" "sn_next (snd (dm_run env cmd s)) = sn_next s"
  "sn_sessions (snd (dm_run env cmd s)) = sn_sessions s" "sn_fs (snd (dm_run env cmd s)) = sn_fs s"
  "sn_log (snd (dm_run env cmd s)) = sn_log s @ [cmd]"
  by (simp_all add: dm_run_def split: prod.splits)

lemma exec_run_dm [simp]: "exec (run_dm env cmd) s = dm_run env (cmd s) s"
  by (simp add: run_dm_def)

lemma BaseSize_sel [simp]:
  "sn_next (snd (exec (BaseSize env) s)) = sn_next s" "sn_sessions (snd (exec (BaseSize env) s)) = sn_sessions s"
  "sn_fs (snd (exec (BaseSize env) s)) = sn_fs s"
  by (auto simp: BaseSize_def split: prod.splits option.splits)

lemma attach_outcome:
  assumes "exec (attach env sid v n) s = (r, t)"
  shows "sn_next t = sn_next s \<and> sn_fs t = sn_fs s \<and>
    (case r of
       Inr dev \<Rightarrow> dev = ''/dev/mapper/'' @ dev_name sid \<and> sn_sessions t = gm_set sid v (sn_sessions s)
     | Inl e \<Rightarrow> sn_sessions t = sn_sessions s \<and> last (sn_log t) = message env (delete_msg v))"
  using assms by (auto simp: attach_def split: prod.splits option.splits)

text \<open>
  \<^verbatim>\<open>CreateSnapshot\<close> either returns the session's device, with a fresh volume recorded for the
  session and the counter moved on, on disk too; or it returns an error, records nothing, and has
  either created no volume or asked for its deletion as its last command.
\<close>

theorem CreateSnapshot_outcome:
  "case exec (CreateSnapshot env sid) s of (r, t) \<Rightarrow>
     (case r of
        Inr dev \<Rightarrow> dev = ''/dev/mapper/'' @ dev_name sid \<and> sn_sessions t = gm_set sid (sn_next s) (sn_sessions s) \<and>
          sn_next t = sn_next s + 1 \<and> fs_get (sn_fs t) (sv_idPath env) = Some (Itoa (sn_next s + 1))
      | Inl e \<Rightarrow> sn_sessions t = sn_sessions s \<and>
          (sn_log t = sn_log s \<or> sn_log t = sn_log s @ [message env (create_msg (sn_next s) (sn_base s))] \<or>
           last (sn_log t) = message env (delete_msg (sn_next s))))"
proof -
  let ?v = "sn_next s"
  obtain w fs' where w: "WriteFile (sv_fs env) (sv_idPath env) (Itoa (?v + 1)) (sn_fs s) = (w, fs')" by fastforce
  show ?thesis
  proof (cases w)
    case (Some e)
    with w show ?thesis by (simp add: CreateSnapshot_def reserve_def Let_def)
  next
    case None
    let ?s1 = "s\<lparr>sn_next := ?v + 1, sn_fs := fs'\<rparr>"
    let ?s2 = "snd (dm_run env (message env (create_msg ?v (sn_base s))) ?s1)"
    let ?s3 = "snd (exec (BaseSize env) ?s2)"
    have f: "fs_get fs' (sv_idPath env) = Some (Itoa (?v + 1))" using WriteFile_ok w None by simp
    have ex: "exec (CreateSnapshot env sid) s =
        exec (after_create env sid ?v (fst (dm_run env (message env (create_msg ?v (sn_base s))) ?s1))) ?s2"
      using w None by (simp add: CreateSnapshot_def reserve_def Let_def create_volume_def)
    obtain out err where o: "fst (dm_run env (message env (create_msg ?v (sn_base s))) ?s1) = (out, err)" by fastforce
    show ?thesis
    proof (cases err)
      case (Some e)
      with ex o show ?thesis by (simp add: after_create_def)
    next
      case n: None
      show ?thesis
      proof (cases "fst (exec (BaseSize env) ?s2)")
        case (Inl e)
        with ex o n show ?thesis by (simp add: after_create_def)
      next
        case (Inr k)
        obtain r t where a: "exec (attach env sid ?v k) ?s3 = (r, t)" by fastforce
        with ex o n Inr have "exec (CreateSnapshot env sid) s = (r, t)" by (simp add: after_create_def)
        with attach_outcome [OF a] f show ?thesis by (auto split: sum.splits)
      qed
    qed
  qed
qed

text \<open>
  \<^verbatim>\<open>DeleteSnapshot\<close> of a session without a snapshot is an error and issues no command. Otherwise
  it forgets the session whatever the commands answer, tries to remove the device first, and
  always asks for the volume's deletion last.
\<close>

theorem DeleteSnapshot_outcome:
  "case exec (DeleteSnapshot env sid) s of (r, t) \<Rightarrow>
     sn_next t = sn_next s \<and> sn_sessions t = gm_del sid (sn_sessions s) \<and>
     (case gm_get (sn_sessions s) sid of
        None \<Rightarrow> r = Some (errorf (''no snapshot for session '' @ sid)) \<and> t = s
      | Some v \<Rightarrow> (\<exists>force. sn_log t = sn_log s @ [remove_cmd sid] @ force @ [message env (delete_msg v)] \<and>
          set force \<subseteq> {[''sudo'', ''dmsetup'', ''remove'', ''--force'', dev_name sid]}))"
proof (cases "gm_get (sn_sessions s) sid")
  case None
  then have "gm_del sid (sn_sessions s) = sn_sessions s" by (simp add: map_of_eq_None_iff delete_idem)
  with None show ?thesis by (simp add: DeleteSnapshot_def)
next
  case (Some v)
  then show ?thesis
    by (cases "snd (fst (dm_run env (remove_cmd sid) s))") (auto simp: DeleteSnapshot_def Let_def split: prod.splits)
qed

section \<open>Starting up\<close>

lemma reconcile_next: "sn_next s \<le> sn_next (reconcile env v s) \<and> v < sn_next (reconcile env v s) \<and>
    sn_sessions (reconcile env v s) = sn_sessions s \<and> sn_base (reconcile env v s) = sn_base s"
  by (simp add: reconcile_def Let_def)

lemma reconcile_all:
  "sn_next s \<le> sn_next (fold (reconcile env) vs s) \<and> (\<forall>v \<in> set vs. v < sn_next (fold (reconcile env) vs s)) \<and>
   sn_sessions (fold (reconcile env) vs s) = sn_sessions s \<and> sn_base (fold (reconcile env) vs s) = sn_base s"
proof (induction vs arbitrary: s)
  case (Cons v vs)
  from Cons [of "reconcile env v s"] reconcile_next [of s env v] show ?case by auto
qed simp

lemma session_device_sel [simp]:
  "sn_next (session_device env line s) = sn_next s" "sn_base (session_device env line s) = sn_base s"
  by (auto simp: session_device_def Let_def dm_run_def split: list.splits option.splits prod.splits)

lemma session_devices_sel [simp]:
  "sn_next (fold (session_device env) lines s) = sn_next s" "sn_base (fold (session_device env) lines s) = sn_base s"
  by (induction lines arbitrary: s) simp_all

lemma discoverState_next:
  assumes "discoverState env s = (None, t)" and "sn_sessions s = []"
  shows "sn_next s \<le> sn_next t \<and> (\<forall>v \<in> set (map snd (sn_sessions t)). v < sn_next t)"
proof -
  let ?cmd = "[''sudo'', ''dmsetup'', ''table'', ''rubbish-base-ro'']"
  obtain out err s1 where 1: "dm_run env ?cmd s = ((out, err), s1)" by (metis surj_pair)
  with assms(1) obtain b where b: "Atoi (Fields out ! 4) = Some b"
    by (auto simp: discoverState_def Let_def split: option.splits if_splits)
  let ?s2 = "s1\<lparr>sn_base := b\<rparr>"
  obtain ls err2 s3 where 2: "dm_run env [''sudo'', ''dmsetup'', ''ls''] ?s2 = ((ls, err2), s3)" by (metis surj_pair)
  have s1: "sn_next s1 = sn_next s" "sn_sessions s1 = []" using 1 dm_run_sel [of env ?cmd s] assms(2) by simp_all
  then have s3: "sn_next s3 = sn_next s" "sn_sessions s3 = []"
    using 2 dm_run_sel [of env "[''sudo'', ''dmsetup'', ''ls'']" ?s2] by simp_all
  let ?s4 = "fold (session_device env) (Split1 ls (CHR 0x0A)) s3"
  from assms(1) 1 2 b consider "t = s3" | "t = fold (reconcile env) (map snd (sn_sessions ?s4)) ?s4"
    by (auto simp: discoverState_def Let_def split: option.splits if_splits)
  then show ?thesis
  proof cases
    case 1
    with s3 show ?thesis by simp
  next
    case 2
    with reconcile_all [of ?s4 env "map snd (sn_sessions ?s4)"] s3(1) show ?thesis by simp
  qed
qed

text \<open>
  A snapshot manager that starts has found the base volume, and its counter is at least 2 and
  past the volume of every session device it found, whatever the counter file said: the next
  volume it creates collides with none of them.
\<close>

theorem newSnapshotManager_ahead:
  assumes "newSnapshotManager env fs0 x = (Inr s, fs1, x1)"
  shows "0 \<le> sn_base s \<and> 2 \<le> sn_next s \<and> (\<forall>(sid, v) \<in> set (sn_sessions s). v < sn_next s)"
proof -
  obtain sm where d: "discoverState env sm = (None, s)" and sm: "sn_sessions sm = []" "2 \<le> sn_next sm" and b: "0 \<le> sn_base s"
    using assms
    by (auto simp: newSnapshotManager_def Let_def split: prod.splits option.splits sum.splits if_splits)
  from discoverState_next [OF d sm(1)] sm(2) b show ?thesis by force
qed

theorem newSnapshotManager_ahead_witness:
  "\<exists>s fs1. newSnapshotManager ok_env \<lparr>fs_files = [], fs_ops = 0\<rparr> () = (Inr s, fs1, ()) \<and> sn_sessions s = [(''z'', 7)] \<and> 7 < sn_next s"
proof -
  have "case newSnapshotManager ok_env \<lparr>fs_files = [], fs_ops = 0\<rparr> () of (Inr s, fs1, x) \<Rightarrow> sn_sessions s = [(''z'', 7)] | _ \<Rightarrow> False"
    by code_simp
  then obtain s fs1 where s: "newSnapshotManager ok_env \<lparr>fs_files = [], fs_ops = 0\<rparr> () = (Inr s, fs1, ())" "sn_sessions s = [(''z'', 7)]"
    by (auto split: prod.splits sum.splits)
  from newSnapshotManager_ahead [OF s(1)] s show ?thesis by auto
qed

end
