(* ===== verification/Session_State.thy ===== *)
theory Session_State
  imports Prelude
begin

text \<open>
  The session life cycle of \<^verbatim>\<open>internal/session/statemachine.go\<close>: the states, the table
  of legal transitions, the machine with its hooks, and \<^verbatim>\<open>Transition\<close>. A
  \<^verbatim>\<open>session.State\<close> is a string in Go, and one converted from a stored row can be any
  string, so the datatype has a constructor for every other value.
\<close>

type_synonym time = int \<comment> \<open>nanoseconds since the epoch\<close>

datatype state =
    StateProvisioning
  | StateBooting
  | StateWaitingSSH
  | StateConfiguring
  | StateReady
  | StateStopping
  | StateStopped
  | StateFailed
  | OtherState string

fun state_str :: "state \<Rightarrow> string" where
  "state_str StateProvisioning = ''provisioning''"
| "state_str StateBooting = ''booting''"
| "state_str StateWaitingSSH = ''waiting_ssh''"
| "state_str StateConfiguring = ''configuring''"
| "state_str StateReady = ''ready''"
| "state_str StateStopping = ''stopping''"
| "state_str StateStopped = ''stopped''"
| "state_str StateFailed = ''failed''"
| "state_str (OtherState s) = s"

definition known_states :: "state list" where
  "known_states =
     [StateProvisioning, StateBooting, StateWaitingSSH, StateConfiguring, StateReady,
      StateStopping, StateStopped, StateFailed]"

text \<open>The conversion \<^verbatim>\<open>session.State(row.Status)\<close>.\<close>

definition state_of :: "string \<Rightarrow> state" where
  "state_of s = (case find (\<lambda>st. state_str st = s) known_states of
                   Some st \<Rightarrow> st | None \<Rightarrow> OtherState s)"

fun validTransitions :: "state \<Rightarrow> state list" where
  "validTransitions StateProvisioning = [StateBooting, StateFailed]"
| "validTransitions StateBooting = [StateWaitingSSH, StateFailed]"
| "validTransitions StateWaitingSSH = [StateConfiguring, StateFailed]"
| "validTransitions StateConfiguring = [StateReady, StateFailed]"
| "validTransitions StateReady = [StateStopping]"
| "validTransitions StateStopping = [StateStopped]"
| "validTransitions _ = []"

record 'h state_machine =
  sm_current :: state
  sm_enteredAt :: time
  sm_hooks :: "'h list"

definition sm_New :: "state \<Rightarrow> time \<Rightarrow> 'h state_machine" where
  "sm_New initial now = \<lparr>sm_current = initial, sm_enteredAt = now, sm_hooks = []\<rparr>"

definition OnTransition :: "'h \<Rightarrow> 'h state_machine \<Rightarrow> 'h state_machine" where
  "OnTransition fn sm = sm\<lparr>sm_hooks := sm_hooks sm @ [fn]\<rparr>"

fun scan_allowed :: "state list \<Rightarrow> state \<Rightarrow> bool" where
  "scan_allowed [] to = False"
| "scan_allowed (s # ss) to = (if s = to then True else scan_allowed ss to)"

definition invalid_transition :: "state \<Rightarrow> state \<Rightarrow> goerror" where
  "invalid_transition from to =
     errorf_w [] (GoError ''invalid state transition'' [ErrInvalidTransition])
       ('': '' @ state_str from @ '' '' @ [CHR 0xE2, CHR 0x86, CHR 0x92] @ '' '' @ state_str to)"

text \<open>
  \<^verbatim>\<open>Transition\<close> reads the clock twice: \<open>now1\<close> for \<^verbatim>\<open>time.Since\<close> and \<open>now2\<close> for
  the new \<^verbatim>\<open>enteredAt\<close>. The last component lists the hook calls it makes after
  releasing the lock, in order.
\<close>

definition Transition ::
  "state \<Rightarrow> time \<Rightarrow> time \<Rightarrow> 'h state_machine \<Rightarrow>
     goerror option \<times> 'h state_machine \<times> ('h \<times> state \<times> state \<times> int) list" where
  "Transition to now1 now2 sm =
     (let from = sm_current sm in
      if \<not> scan_allowed (validTransitions from) to then
        (Some (invalid_transition from to), sm, [])
      else
        (let elapsed = now1 - sm_enteredAt sm;
             sm' = sm\<lparr>sm_current := to, sm_enteredAt := now2\<rparr>
         in (None, sm', map (\<lambda>h. (h, from, to, elapsed)) (sm_hooks sm))))"

text \<open>The states a machine enters when the transitions \<open>reqs\<close> are requested in order, with what the clock says.\<close>

fun visited :: "'h state_machine \<Rightarrow> (state \<times> time \<times> time) list \<Rightarrow> state list" where
  "visited sm [] = []"
| "visited sm ((to, now1, now2) # reqs) =
     (case Transition to now1 now2 sm of
        (None, sm', calls) \<Rightarrow> to # visited sm' reqs
      | (Some e, sm', calls) \<Rightarrow> visited sm' reqs)"

section \<open>Lemmas\<close>

lemma scan_allowed_iff [simp]: "scan_allowed ss to \<longleftrightarrow> to \<in> set ss"
  by (induction ss) auto

lemma state_of_str [simp]:
  "st \<in> set known_states \<Longrightarrow> state_of (state_str st) = st"
proof -
  have "list_all (\<lambda>st. state_of (state_str st) = st) known_states" by code_simp
  then show "st \<in> set known_states \<Longrightarrow> state_of (state_str st) = st" by (simp add: list_all_iff)
qed

lemma state_str_of [simp]: "state_str (state_of s) = s"
proof (cases "find (\<lambda>st. state_str st = s) known_states")
  case None
  then show ?thesis by (simp add: state_of_def)
next
  case (Some st)
  then have "state_str st = s" by (auto simp: find_Some_iff)
  with Some show ?thesis by (simp add: state_of_def)
qed

lemma validTransitions_known: "to \<in> set (validTransitions fr) \<Longrightarrow> to \<in> set known_states"
  by (cases fr) (auto simp: known_states_def)

lemma Transition_ok_iff: "fst (Transition to n1 n2 sm) = None \<longleftrightarrow> to \<in> set (validTransitions (sm_current sm))"
  by (simp add: Transition_def Let_def)

text \<open>The position of a state on the way to its end, which every transition increases.\<close>

fun rank :: "state \<Rightarrow> nat" where
  "rank StateProvisioning = 0"
| "rank StateBooting = 1"
| "rank StateWaitingSSH = 2"
| "rank StateConfiguring = 3"
| "rank StateReady = 4"
| "rank StateStopping = 5"
| "rank _ = 6"

lemma rank_increases: "to \<in> set (validTransitions fr) \<Longrightarrow> rank fr < rank to"
  by (cases fr) auto

lemma rank_le_6: "rank s \<le> 6"
  by (cases s) auto

text \<open>The two ways a life cycle can go on from each state.\<close>

definition happy_path :: "state list" where
  "happy_path = [StateProvisioning, StateBooting, StateWaitingSSH, StateConfiguring, StateReady,
                 StateStopping, StateStopped]"

definition lifecycle_tail :: "state \<Rightarrow> state list \<Rightarrow> bool" where
  "lifecycle_tail s ss \<longleftrightarrow>
     (\<exists>k. ss = take k (drop (Suc (rank s)) happy_path)) \<or>
     (\<exists>k. ss = take k (drop (Suc (rank s)) (take 4 happy_path)) @ [StateFailed] \<and> rank s < 4)"

lemma lifecycle_tail_Nil [simp]: "lifecycle_tail s []"
  by (auto simp: lifecycle_tail_def intro: exI [of _ 0])

lemma lifecycle_tail_step:
  assumes "to \<in> set (validTransitions s)" and "lifecycle_tail to ss"
  shows "lifecycle_tail s (to # ss)"
proof (cases "to = StateFailed")
  case True
  with assms have "ss = []" and "rank s < 4"
    by (cases s, auto simp: lifecycle_tail_def happy_path_def)+
  with True show ?thesis by (auto simp: lifecycle_tail_def intro: exI [of _ 0])
next
  case False
  with assms have drop: "drop (Suc (rank s)) happy_path = to # drop (Suc (rank to)) happy_path"
    by (cases s) (auto simp: happy_path_def)
  from assms(2) consider
      (ok) k where "ss = take k (drop (Suc (rank to)) happy_path)"
    | (fail) k where "ss = take k (drop (Suc (rank to)) (take 4 happy_path)) @ [StateFailed]" "rank to < 4"
    by (auto simp: lifecycle_tail_def)
  then show ?thesis
  proof cases
    case ok
    with drop have "to # ss = take (Suc k) (drop (Suc (rank s)) happy_path)" by simp
    then show ?thesis unfolding lifecycle_tail_def by blast
  next
    case fail
    with assms False have "rank s < 4"
      and "drop (Suc (rank s)) (take 4 happy_path) = to # drop (Suc (rank to)) (take 4 happy_path)"
      by (cases s, auto simp: happy_path_def)+
    with fail(1) have "to # ss = take (Suc k) (drop (Suc (rank s)) (take 4 happy_path)) @ [StateFailed]"
      by simp
    with \<open>rank s < 4\<close> show ?thesis unfolding lifecycle_tail_def by blast
  qed
qed

lemma lifecycle_tail_length: "lifecycle_tail s ss \<Longrightarrow> length ss + rank s \<le> 6"
  by (cases s) (auto simp: lifecycle_tail_def happy_path_def)

lemma visited_tail: "lifecycle_tail (sm_current sm) (visited sm reqs)"
  by (induction sm reqs rule: visited.induct) (auto simp: Transition_def Let_def lifecycle_tail_step)

text \<open>
  (C28) However many callers request transitions, in whatever order, a session's machine only goes
  forward: the states it enters are an initial part of the way from provisioning over ready to
  stopped, or of the way up to configuring followed by failed, so it never enters a state twice
  and makes at most six transitions.
\<close>

theorem machine_goes_forward:
  "lifecycle_tail (sm_current sm) (visited sm reqs) \<and> length (visited sm reqs) + rank (sm_current sm) \<le> 6"
  by (simp add: visited_tail lifecycle_tail_length)

end
