(* ===== verification/Session_Store.thy ===== *)
theory Session_Store
  imports Go_Json_Decode Go_Fs "HOL-Library.List_Lexorder" "HOL-Library.Char_ord"
begin

text \<open>
  \<^verbatim>\<open>internal/sessionstore\<close>: the persisted rows, the \<^verbatim>\<open>Store\<close> interface as the operations a
  client calls, and \<^verbatim>\<open>JSONStore\<close>, which keeps two maps and mirrors them in one JSON file. The
  file is shared with other processes: readers reload it before they answer.
\<close>

section \<open>Rows\<close>

record row =
  row_ID :: string
  row_Slot :: int
  row_Status :: string
  row_RepoURL :: string
  row_Branch :: string
  row_ErrorMsg :: string
  row_DevMode :: bool
  row_CreatedAt :: instant
  row_UpdatedAt :: instant
  row_Role :: string
  row_Prompt :: string
  row_Result :: string

record favorite =
  fav_ID :: string
  fav_Name :: string
  fav_RepoURL :: string
  fav_Branch :: string
  fav_CreatedAt :: instant

text \<open>The methods of the interface \<^verbatim>\<open>Store\<close>, over the state \<open>'st\<close> an implementation keeps.\<close>

record 'st store_ops =
  so_Upsert :: "row \<Rightarrow> 'st \<Rightarrow> goerror option \<times> 'st"
  so_Get :: "string \<Rightarrow> 'st \<Rightarrow> row option result \<times> 'st"
  so_List :: "'st \<Rightarrow> row list result \<times> 'st"
  so_Delete :: "string \<Rightarrow> 'st \<Rightarrow> goerror option \<times> 'st"
  so_UpsertFavorite :: "favorite \<Rightarrow> 'st \<Rightarrow> goerror option \<times> 'st"
  so_DeleteFavorite :: "string \<Rightarrow> 'st \<Rightarrow> goerror option \<times> 'st"
  so_ListFavorites :: "'st \<Rightarrow> favorite list result \<times> 'st"

section \<open>The file format\<close>

text \<open>\<^verbatim>\<open>Row\<close> has no JSON tags, so its keys are the field names; \<^verbatim>\<open>Favorite\<close> has tags.\<close>

definition row_json :: "row \<Rightarrow> json" where
  "row_json r = JObj
     [(''ID'', JStr (row_ID r)), (''Slot'', JNum (Itoa (row_Slot r))), (''Status'', JStr (row_Status r)),
      (''RepoURL'', JStr (row_RepoURL r)), (''Branch'', JStr (row_Branch r)), (''ErrorMsg'', JStr (row_ErrorMsg r)),
      (''DevMode'', JBool (row_DevMode r)), (''CreatedAt'', JStr (rfc3339 (row_CreatedAt r))),
      (''UpdatedAt'', JStr (rfc3339 (row_UpdatedAt r))), (''Role'', JStr (row_Role r)),
      (''Prompt'', JStr (row_Prompt r)), (''Result'', JStr (row_Result r))]"

definition favorite_json :: "favorite \<Rightarrow> json" where
  "favorite_json f = JObj
     [(''id'', JStr (fav_ID f)), (''name'', JStr (fav_Name f)), (''repo_url'', JStr (fav_RepoURL f)),
      (''branch'', JStr (fav_Branch f)), (''created_at'', JStr (rfc3339 (fav_CreatedAt f)))]"

text \<open>The zero \<^verbatim>\<open>time.Time\<close>, the first of January of year 1.\<close>

definition zero_time :: instant where
  "zero_time = - 62135596800 * 1000000000"

definition zero_row :: row where
  "zero_row = \<lparr>row_ID = [], row_Slot = 0, row_Status = [], row_RepoURL = [], row_Branch = [], row_ErrorMsg = [],
     row_DevMode = False, row_CreatedAt = zero_time, row_UpdatedAt = zero_time, row_Role = [], row_Prompt = [], row_Result = []\<rparr>"

fun dec_row :: "json \<Rightarrow> row option" where
  "dec_row (JObj ms) =
     Option.bind (dec_string [] (field_values ''ID'' ms)) (\<lambda>i.
     Option.bind (dec_int 0 (field_values ''Slot'' ms)) (\<lambda>slot.
     Option.bind (dec_string [] (field_values ''Status'' ms)) (\<lambda>status.
     Option.bind (dec_string [] (field_values ''RepoURL'' ms)) (\<lambda>url.
     Option.bind (dec_string [] (field_values ''Branch'' ms)) (\<lambda>branch.
     Option.bind (dec_string [] (field_values ''ErrorMsg'' ms)) (\<lambda>err.
     Option.bind (dec_bool False (field_values ''DevMode'' ms)) (\<lambda>dev.
     Option.bind (dec_time zero_time (field_values ''CreatedAt'' ms)) (\<lambda>created.
     Option.bind (dec_time zero_time (field_values ''UpdatedAt'' ms)) (\<lambda>updated.
     Option.bind (dec_string [] (field_values ''Role'' ms)) (\<lambda>role.
     Option.bind (dec_string [] (field_values ''Prompt'' ms)) (\<lambda>prompt.
     Option.bind (dec_string [] (field_values ''Result'' ms)) (\<lambda>res.
     Some \<lparr>row_ID = i, row_Slot = slot, row_Status = status, row_RepoURL = url, row_Branch = branch,
       row_ErrorMsg = err, row_DevMode = dev, row_CreatedAt = created, row_UpdatedAt = updated, row_Role = role,
       row_Prompt = prompt, row_Result = res\<rparr>))))))))))))"
| "dec_row JNull = Some zero_row"
| "dec_row _ = None"

fun dec_favorite :: "json \<Rightarrow> favorite option" where
  "dec_favorite (JObj ms) =
     Option.bind (dec_string [] (field_values ''id'' ms)) (\<lambda>i.
     Option.bind (dec_string [] (field_values ''name'' ms)) (\<lambda>n.
     Option.bind (dec_string [] (field_values ''repo_url'' ms)) (\<lambda>url.
     Option.bind (dec_string [] (field_values ''branch'' ms)) (\<lambda>b.
     Option.bind (dec_time zero_time (field_values ''created_at'' ms)) (\<lambda>t.
     Some \<lparr>fav_ID = i, fav_Name = n, fav_RepoURL = url, fav_Branch = b, fav_CreatedAt = t\<rparr>)))))"
| "dec_favorite JNull = Some \<lparr>fav_ID = [], fav_Name = [], fav_RepoURL = [], fav_Branch = [], fav_CreatedAt = zero_time\<rparr>"
| "dec_favorite _ = None"

record storeData =
  sd_Sessions :: "(string, row) gomap"
  sd_Favorites :: "(string, favorite) gomap"

text \<open>\<^verbatim>\<open>json.Marshal\<close> writes map keys in order, and refuses a year outside 0 to 9999.\<close>

definition year_error :: goerror where
  "year_error = errorf ''json: error calling MarshalJSON for type time.Time: Time.MarshalJSON: year outside of range [0,9999]''"

definition data_json :: "storeData \<Rightarrow> json" where
  "data_json d = JObj
     [(''sessions'', JObj (map (\<lambda>kv. (fst kv, row_json (snd kv))) (sort_key fst (sd_Sessions d)))),
      (''favorites'', JObj (map (\<lambda>kv. (fst kv, favorite_json (snd kv))) (sort_key fst (sd_Favorites d))))]"

definition marshal_store :: "storeData \<Rightarrow> string result" where
  "marshal_store d =
     (if list_all (\<lambda>kv. time_ok (row_CreatedAt (snd kv)) \<and> time_ok (row_UpdatedAt (snd kv))) (sd_Sessions d)
         \<and> list_all (\<lambda>kv. time_ok (fav_CreatedAt (snd kv))) (sd_Favorites d)
      then Inr (json_print (data_json d))
      else Inl year_error)"

text \<open>
  \<^verbatim>\<open>json.Unmarshal\<close> into a \<^verbatim>\<open>storeData\<close> whose maps are \<open>s0\<close> and \<open>f0\<close> (\<^const>\<open>None\<close> for nil): an
  object adds to a map it finds.
\<close>

definition unmarshal_store ::
  "(string, row) gomap option \<Rightarrow> (string, favorite) gomap option \<Rightarrow> string \<Rightarrow>
     ((string, row) gomap option \<times> (string, favorite) gomap option) option" where
  "unmarshal_store s0 f0 b =
     (case json_parse b of
        Some (JObj ms) \<Rightarrow>
          (case (dec_map dec_row s0 (field_values ''sessions'' ms), dec_map dec_favorite f0 (field_values ''favorites'' ms)) of
             (Some s, Some f) \<Rightarrow> Some (s, f)
           | _ \<Rightarrow> None)
      | Some JNull \<Rightarrow> Some (s0, f0)
      | _ \<Rightarrow> None)"

section \<open>JSONStore\<close>

record js_env =
  je_fs :: fs_env
  je_dir :: string
  je_base :: string \<comment> \<open>the store's path is \<^verbatim>\<open>dir/base\<close>\<close>

definition je_path :: "js_env \<Rightarrow> string" where
  "je_path je = je_dir je @ ''/'' @ je_base je"

record jsonstore =
  js_data :: storeData
  js_fs :: fs

definition empty_data :: storeData where
  "empty_data = \<lparr>sd_Sessions = [], sd_Favorites = []\<rparr>"

definition store_Open :: "js_env \<Rightarrow> fs \<Rightarrow> storeData result \<times> fs" where
  "store_Open je fs0 =
     (case ReadFile (je_fs je) (je_path je) fs0 of
        (Inl e, fs1) \<Rightarrow> (if errors_Is e ErrNotExist then Inr empty_data else Inl (errorf_w ''read store: '' e []), fs1)
      | (Inr b, fs1) \<Rightarrow>
          (Inr (if length b > 0 then
                  (case unmarshal_store (Some []) (Some []) b of
                     None \<Rightarrow> empty_data
                   | Some (s, f) \<Rightarrow> \<lparr>sd_Sessions = (case s of None \<Rightarrow> [] | Some m \<Rightarrow> m),
                                     sd_Favorites = (case f of None \<Rightarrow> [] | Some m \<Rightarrow> m)\<rparr>)
                else empty_data), fs1))"

definition store_labels :: save_labels where
  "store_labels =
     \<lparr>lb_create = ''create temp store: '', lb_write = ''write temp store: '', lb_close = ''close temp store: '',
      lb_rename = ''rename temp store: ''\<rparr>"

definition js_save :: "js_env \<Rightarrow> jsonstore \<Rightarrow> goerror option \<times> jsonstore" where
  "js_save je s =
     (case marshal_store (js_data s) of
        Inl e \<Rightarrow> (Some (errorf_w ''marshal store: '' e []), s)
      | Inr b \<Rightarrow>
          (case save_file (je_fs je) store_labels (je_dir je) ''.store-'' ''.tmp'' (je_path je) b (js_fs s) of
             (err, fs') \<Rightarrow> (err, s\<lparr>js_fs := fs'\<rparr>)))"

definition set_sessions :: "((string, row) gomap \<Rightarrow> (string, row) gomap) \<Rightarrow> jsonstore \<Rightarrow> jsonstore" where
  "set_sessions f s = s\<lparr>js_data := (js_data s)\<lparr>sd_Sessions := f (sd_Sessions (js_data s))\<rparr>\<rparr>"

definition set_favorites :: "((string, favorite) gomap \<Rightarrow> (string, favorite) gomap) \<Rightarrow> jsonstore \<Rightarrow> jsonstore" where
  "set_favorites f s = s\<lparr>js_data := (js_data s)\<lparr>sd_Favorites := f (sd_Favorites (js_data s))\<rparr>\<rparr>"

definition js_Upsert :: "js_env \<Rightarrow> row \<Rightarrow> jsonstore \<Rightarrow> goerror option \<times> jsonstore" where
  "js_Upsert je r s = js_save je (set_sessions (gm_set (row_ID r) r) s)"

definition js_Delete :: "js_env \<Rightarrow> string \<Rightarrow> jsonstore \<Rightarrow> goerror option \<times> jsonstore" where
  "js_Delete je i s = js_save je (set_sessions (gm_del i) s)"

definition js_reload :: "js_env \<Rightarrow> jsonstore \<Rightarrow> jsonstore" where
  "js_reload je s =
     (case ReadFile (je_fs je) (je_path je) (js_fs s) of
        (Inl e, fs1) \<Rightarrow> s\<lparr>js_fs := fs1\<rparr>
      | (Inr b, fs1) \<Rightarrow>
          if length b = 0 then s\<lparr>js_fs := fs1\<rparr>
          else
            (case unmarshal_store None None b of
               None \<Rightarrow> s\<lparr>js_fs := fs1\<rparr>
             | Some (ss, ff) \<Rightarrow>
                 s\<lparr>js_fs := fs1,
                   js_data := \<lparr>sd_Sessions = (case ss of None \<Rightarrow> sd_Sessions (js_data s) | Some m \<Rightarrow> m),
                               sd_Favorites = (case ff of None \<Rightarrow> sd_Favorites (js_data s) | Some m \<Rightarrow> m)\<rparr>\<rparr>))"

definition js_Get :: "js_env \<Rightarrow> string \<Rightarrow> jsonstore \<Rightarrow> row option result \<times> jsonstore" where
  "js_Get je i s0 = (let s = js_reload je s0 in (Inr (gm_get (sd_Sessions (js_data s)) i), s))"

definition js_List :: "js_env \<Rightarrow> jsonstore \<Rightarrow> row list result \<times> jsonstore" where
  "js_List je s0 = (let s = js_reload je s0 in (Inr (sort_key row_CreatedAt (map snd (sd_Sessions (js_data s)))), s))"

definition js_UpsertFavorite :: "js_env \<Rightarrow> favorite \<Rightarrow> jsonstore \<Rightarrow> goerror option \<times> jsonstore" where
  "js_UpsertFavorite je f s = js_save je (set_favorites (gm_set (fav_ID f) f) s)"

definition js_DeleteFavorite :: "js_env \<Rightarrow> string \<Rightarrow> jsonstore \<Rightarrow> goerror option \<times> jsonstore" where
  "js_DeleteFavorite je i s = js_save je (set_favorites (gm_del i) s)"

definition js_ListFavorites :: "js_env \<Rightarrow> jsonstore \<Rightarrow> favorite list result \<times> jsonstore" where
  "js_ListFavorites je s0 = (let s = js_reload je s0 in (Inr (sort_key fav_CreatedAt (map snd (sd_Favorites (js_data s)))), s))"

definition js_ops :: "js_env \<Rightarrow> jsonstore store_ops" where
  "js_ops je = \<lparr>so_Upsert = js_Upsert je, so_Get = js_Get je, so_List = js_List je, so_Delete = js_Delete je,
     so_UpsertFavorite = js_UpsertFavorite je, so_DeleteFavorite = js_DeleteFavorite je, so_ListFavorites = js_ListFavorites je\<rparr>"

end
