(* ===== verification/Vm.thy ===== *)
theory Vm
  imports Host Goroutines
begin

text \<open>
  \<^verbatim>\<open>internal/vm\<close>: the resources derived from a slot, waiting for a machine to come up or go away,
  stopping one that an earlier server process started, and cleaning up after orphans. Processes,
  sockets and the clock are the host's.
\<close>

section \<open>Slots\<close>

definition hex_upper :: "nat \<Rightarrow> char" where
  "hex_upper n = (if n < 10 then char_of (48 + n) else char_of (55 + n))"

fun hex_str :: "nat \<Rightarrow> string" where
  "hex_str n = (if n < 16 then [hex_upper n] else hex_str (n div 16) @ [hex_upper (n mod 16)])"

declare hex_str.simps [simp del]

text \<open>The verb \<^verbatim>\<open>%02X\<close>; a sign counts towards the width.\<close>

definition hex02 :: "int \<Rightarrow> string" where
  "hex02 i = (if i < 0 then ''-'' @ hex_str (nat (- i))
              else if i < 16 then ''0'' @ hex_str (nat i) else hex_str (nat i))"

definition SlotTAP :: "int \<Rightarrow> string" where
  "SlotTAP slot = ''tap'' @ Itoa slot"

definition SlotMAC :: "int \<Rightarrow> string" where
  "SlotMAC slot = ''AA:FC:00:00:00:'' @ hex02 (slot + 1)"

definition SlotIP :: "int \<Rightarrow> string" where
  "SlotIP slot = ''172.16.0.'' @ Itoa (slot + 2)"

definition SlotSocket :: "int \<Rightarrow> string" where
  "SlotSocket slot = ''/tmp/rubbish-fc-'' @ Itoa slot @ ''.sock''"

definition VMSSHPort :: int where "VMSSHPort = 22"

section \<open>The host\<close>

datatype signal = SIGTERM | SIGKILL | Signal0

record 'x vm_host =
  vh_host :: "'x host"
  vh_output :: "string list \<Rightarrow> 'x \<Rightarrow> (string \<times> goerror option) \<times> 'x" \<comment> \<open>\<^verbatim>\<open>exec.Command(...).Output()\<close>\<close>
  vh_signal :: "int \<Rightarrow> signal \<Rightarrow> 'x \<Rightarrow> goerror option \<times> 'x"
  vh_now :: "'x \<Rightarrow> int \<times> 'x" \<comment> \<open>\<^verbatim>\<open>time.Now()\<close>\<close>
  vh_sleep :: "int \<Rightarrow> 'x \<Rightarrow> 'x"
  vh_dial :: "string \<Rightarrow> int \<Rightarrow> 'x \<Rightarrow> goerror option \<times> 'x" \<comment> \<open>connect within a timeout, and close\<close>
  vh_select :: "int \<Rightarrow> 'x \<Rightarrow> goerror option \<times> 'x" \<comment> \<open>wait for the context's end or a delay\<close>
  vh_glob :: "string \<Rightarrow> 'x \<Rightarrow> string list \<times> 'x" \<comment> \<open>\<^verbatim>\<open>filepath.Glob\<close>, base names\<close>
  vh_scan :: "string \<Rightarrow> int option" \<comment> \<open>\<^verbatim>\<open>fmt.Sscanf\<close> with \<^verbatim>\<open>rubbish-fc-%d.sock\<close>\<close>

definition millis :: int where "millis = 1000000"

text \<open>
  The loop \<^verbatim>\<open>for time.Now().Before(deadline) { ... }\<close>. The fuel bounds the iterations: \<open>Blocked\<close>
  means it ran out, and \<open>poll_returns\<close> says how much is enough.
\<close>

fun poll :: "nat \<Rightarrow> 'x vm_host \<Rightarrow> int \<Rightarrow> ('x \<Rightarrow> 'r option \<times> 'x) \<Rightarrow> 'x \<Rightarrow> 'r option progress \<times> 'x" where
  "poll 0 h deadline body x = (Blocked, x)"
| "poll (Suc n) h deadline body x =
     (case vh_now h x of (now, x1) \<Rightarrow>
        if now < deadline then
          (case body x1 of
             (Some r, x2) \<Rightarrow> (Ret (Some r), x2)
           | (None, x2) \<Rightarrow> poll n h deadline body x2)
        else (Ret None, x1))"

section \<open>Waiting\<close>

text \<open>\<^verbatim>\<open>net.JoinHostPort\<close> of an address without a colon.\<close>

definition ssh_addr :: "string \<Rightarrow> string" where
  "ssh_addr ip = ip @ '':'' @ Itoa VMSSHPort"

definition WaitForSSH :: "nat \<Rightarrow> 'x vm_host \<Rightarrow> int \<Rightarrow> 'x \<Rightarrow> goerror option progress \<times> 'x" where
  "WaitForSSH fuel h slot x =
     (let addr = ssh_addr (SlotIP slot) in
      case vh_now h x of (now, x1) \<Rightarrow>
        (case poll fuel h (now + 60 * 1000 * millis) (\<lambda>x.
                case vh_dial h addr (1000 * millis) x of
                  (None, x2) \<Rightarrow> (Some None, x2)
                | (Some _, x2) \<Rightarrow>
                    (case vh_select h (100 * millis) x2 of
                       (Some e, x3) \<Rightarrow> (Some (Some e), x3)
                     | (None, x3) \<Rightarrow> (None, x3))) x1 of
           (Blocked, x4) \<Rightarrow> (Blocked, x4)
         | (Ret (Some r), x4) \<Rightarrow> (Ret r, x4)
         | (Ret None, x4) \<Rightarrow> (Ret (Some (errorf (''ssh on '' @ addr @ '' did not open within 60s''))), x4)))"

definition WaitForVMDead :: "nat \<Rightarrow> 'x vm_host \<Rightarrow> string \<Rightarrow> 'x \<Rightarrow> unit progress \<times> 'x" where
  "WaitForVMDead fuel h ip x =
     (let addr = ssh_addr ip in
      case vh_now h x of (now, x1) \<Rightarrow>
        (case poll fuel h (now + 5 * 1000 * millis) (\<lambda>x.
                case vh_dial h addr (200 * millis) x of
                  (Some _, x2) \<Rightarrow> (Some (), x2)
                | (None, x2) \<Rightarrow> (None, vh_sleep h (100 * millis) x2)) x1 of
           (Blocked, x4) \<Rightarrow> (Blocked, x4)
         | (Ret _, x4) \<Rightarrow> (Ret (), x4)))"

definition killProcess :: "nat \<Rightarrow> 'x vm_host \<Rightarrow> int \<Rightarrow> 'x \<Rightarrow> unit progress \<times> 'x" where
  "killProcess fuel h pid x =
     (case vh_signal h pid SIGTERM x of (_, x1) \<Rightarrow>
        (case vh_now h x1 of (now, x2) \<Rightarrow>
           (case poll fuel h (now + 2 * 1000 * millis) (\<lambda>x.
                   case vh_signal h pid Signal0 x of
                     (Some _, x3) \<Rightarrow> (Some (), x3)
                   | (None, x3) \<Rightarrow> (None, vh_sleep h (100 * millis) x3)) x2 of
              (Blocked, x4) \<Rightarrow> (Blocked, x4)
            | (Ret (Some _), x4) \<Rightarrow> (Ret (), x4)
            | (Ret None, x4) \<Rightarrow> (Ret (), snd (vh_signal h pid SIGKILL x4)))))"

section \<open>Orphans and detached machines\<close>

definition setupTAP :: "'x vm_host \<Rightarrow> string \<Rightarrow> 'x \<Rightarrow> goerror option \<times> 'x" where
  "setupTAP h name x =
     (case hx_exec (vh_host h) [] [''sudo'', ''/usr/local/bin/rubbish-tap-up'', name] x of
        ((out, Some e), x1) \<Rightarrow> (Some (errorf_w (''rubbish-tap-up '' @ name @ '': '' @ out @ '': '') e []), x1)
      | ((_, None), x1) \<Rightarrow> (None, x1))"

definition teardownTAP :: "'x vm_host \<Rightarrow> string \<Rightarrow> 'x \<Rightarrow> 'x" where
  "teardownTAP h name x = snd (hx_exec (vh_host h) [] [''sudo'', ''/usr/local/bin/rubbish-tap-down'', name] x)"

definition IsSocketAlive :: "'x vm_host \<Rightarrow> int \<Rightarrow> 'x \<Rightarrow> bool \<times> 'x" where
  "IsSocketAlive h slot x =
     (let sock = SlotSocket slot in
      case hx_stat (vh_host h) sock x of
        (Some _, x1) \<Rightarrow> (False, x1)
      | (None, x1) \<Rightarrow>
          (case vh_output h [''lsof'', ''-t'', sock] x1 of
             ((_, Some _), x2) \<Rightarrow> (False, x2)
           | ((out, None), x2) \<Rightarrow> (TrimSpace out \<noteq> [], x2)))"

text \<open>Killing the process that \<^verbatim>\<open>lsof\<close> names, if its output is one number.\<close>

definition kill_holder :: "nat \<Rightarrow> 'x vm_host \<Rightarrow> string \<Rightarrow> 'x \<Rightarrow> unit progress \<times> 'x" where
  "kill_holder fuel h sock x =
     (case vh_output h [''lsof'', ''-t'', sock] x of
        ((_, Some _), x1) \<Rightarrow> (Ret (), x1)
      | ((out, None), x1) \<Rightarrow>
          (case Atoi (TrimSpace out) of
             None \<Rightarrow> (Ret (), x1)
           | Some pid \<Rightarrow> killProcess fuel h pid x1))"

definition DetachedVM_Stop :: "nat \<Rightarrow> 'x vm_host \<Rightarrow> int \<Rightarrow> 'x \<Rightarrow> goerror option progress \<times> 'x" where
  "DetachedVM_Stop fuel h slot x =
     (case kill_holder fuel h (SlotSocket slot) x of
        (Blocked, x1) \<Rightarrow> (Blocked, x1)
      | (Ret _, x1) \<Rightarrow>
          (Ret None, snd (hx_Remove (vh_host h) (SlotSocket slot) (teardownTAP h (SlotTAP slot) x1))))"

definition slotsForCleanup :: "'x vm_host \<Rightarrow> int \<Rightarrow> 'x \<Rightarrow> int list \<times> 'x" where
  "slotsForCleanup h maxSlots x =
     (if maxSlots > 0 then (map int [0..<nat maxSlots], x)
      else (case vh_glob h ''/tmp/rubbish-fc-*.sock'' x of
              (matches, x1) \<Rightarrow> (List.map_filter (vh_scan h) matches, x1)))"

text \<open>One slot of the clean-up: the errors collected so far and whether a wait ran out of fuel.\<close>

definition cleanup_slot :: "nat \<Rightarrow> 'x vm_host \<Rightarrow> int \<Rightarrow> 'x \<Rightarrow> string list progress \<times> 'x" where
  "cleanup_slot fuel h slot x =
     (let sock = SlotSocket slot in
      case hx_stat (vh_host h) sock x of (st, x1) \<Rightarrow>
        if (case st of Some e \<Rightarrow> errors_Is e ErrNotExist | None \<Rightarrow> False) then (Ret [], x1)
        else
          (case kill_holder fuel h sock x1 of
             (Blocked, x2) \<Rightarrow> (Blocked, x2)
           | (Ret _, x2) \<Rightarrow>
               (case hx_Remove (vh_host h) sock (teardownTAP h (SlotTAP slot) x2) of
                  (Some e, x3) \<Rightarrow>
                    (Ret (if errors_Is e ErrNotExist then [] else [''slot '' @ Itoa slot @ '' remove socket: '' @ error_text e]), x3)
                | (None, x3) \<Rightarrow> (Ret [], x3))))"

fun cleanup_slots :: "nat \<Rightarrow> 'x vm_host \<Rightarrow> (int \<Rightarrow> bool) \<Rightarrow> int list \<Rightarrow> string list \<Rightarrow> 'x \<Rightarrow> string list progress \<times> 'x" where
  "cleanup_slots fuel h skip [] errs x = (Ret errs, x)"
| "cleanup_slots fuel h skip (slot # slots) errs x =
     (if skip slot then cleanup_slots fuel h skip slots errs x
      else
        (case cleanup_slot fuel h slot x of
           (Blocked, x1) \<Rightarrow> (Blocked, x1)
         | (Ret es, x1) \<Rightarrow> cleanup_slots fuel h skip slots (errs @ es) x1))"

definition cleanupOrphansExcept :: "nat \<Rightarrow> 'x vm_host \<Rightarrow> int \<Rightarrow> (int \<Rightarrow> bool) \<Rightarrow> 'x \<Rightarrow> goerror option progress \<times> 'x" where
  "cleanupOrphansExcept fuel h maxSlots skip x =
     (case slotsForCleanup h maxSlots x of (slots, x1) \<Rightarrow>
        (case cleanup_slots fuel h skip slots [] x1 of
           (Blocked, x2) \<Rightarrow> (Blocked, x2)
         | (Ret errs, x2) \<Rightarrow> (Ret (if length errs > 0 then Some (errorf (str_Join errs ''; '')) else None), x2)))"

section \<open>Slots do not share resources\<close>

definition hex_digit_val :: "char \<Rightarrow> nat" where
  "hex_digit_val c = (if of_char c < (58 :: nat) then of_char c - 48 else of_char c - 55)"

definition hex_str_val :: "string \<Rightarrow> nat" where
  "hex_str_val s = foldl (\<lambda>n c. 16 * n + hex_digit_val c) 0 s"

lemma hex_digit_val_upper: "n < 16 \<Longrightarrow> hex_digit_val (hex_upper n) = n"
  by (simp add: hex_digit_val_def hex_upper_def)

lemma hex_str_val_hex_str: "hex_str_val (hex_str n) = n"
proof (induction n rule: hex_str.induct)
  case (1 n)
  then show ?case by (cases "n < 16") (simp_all add: hex_str.simps [of n] hex_str_val_def hex_digit_val_upper)
qed

lemma hex02_inject: "0 \<le> i \<Longrightarrow> 0 \<le> j \<Longrightarrow> hex02 i = hex02 j \<Longrightarrow> i = j"
proof -
  have z: "hex_str_val (''0'' @ t) = hex_str_val t" for t by (simp add: hex_str_val_def hex_digit_val_def)
  have v: "hex_str_val (hex02 k) = nat k" if "0 \<le> k" for k
    using that z hex_str_val_hex_str by (simp add: hex02_def)
  assume "0 \<le> i" "0 \<le> j" "hex02 i = hex02 j"
  with v [of i] v [of j] show ?thesis by simp
qed

text \<open>
  Two slots share neither TAP device, nor MAC address, nor IP address, nor socket path.
\<close>

theorem slot_resources_distinct:
  assumes "0 \<le> i" and "0 \<le> j" and "i \<noteq> j"
  shows "SlotTAP i \<noteq> SlotTAP j \<and> SlotMAC i \<noteq> SlotMAC j \<and> SlotIP i \<noteq> SlotIP j \<and> SlotSocket i \<noteq> SlotSocket j"
  using assms hex02_inject [of "i + 1" "j + 1"] by (auto simp: SlotTAP_def SlotMAC_def SlotIP_def SlotSocket_def)

theorem slot_resources_distinct_witness:
  "SlotTAP 0 \<noteq> SlotTAP 3 \<and> SlotMAC 0 \<noteq> SlotMAC 3 \<and> SlotIP 0 \<noteq> SlotIP 3 \<and> SlotSocket 0 \<noteq> SlotSocket 3"
  using slot_resources_distinct [of 0 3] by simp

section \<open>The waits end\<close>

lemma poll_returns:
  assumes now: "\<And>x. fst (vh_now h x) = T x \<and> T x \<le> T (snd (vh_now h x))"
    and body: "\<And>x x'. body x = (None, x') \<Longrightarrow> T x + d \<le> T x'"
  shows "deadline - T x \<le> int n * d \<Longrightarrow> fst (poll (Suc n) h deadline body x) \<noteq> Blocked"
proof (induction n arbitrary: x)
  case 0
  then show ?case using now [of x] by (cases "vh_now h x") simp
next
  case (Suc n)
  obtain t x1 where t: "vh_now h x = (t, x1)" by fastforce
  obtain r x2 where b: "body x1 = (r, x2)" by fastforce
  show ?case
  proof (cases "t < deadline \<and> r = None")
    case True
    have "T x + d \<le> T x2" using body [of x1 x2] b True now [of x] t by simp
    with Suc.prems have "deadline - T x2 \<le> int n * d" by (simp add: algebra_simps)
    from Suc.IH [OF this] True t b show ?thesis by (simp del: poll.simps(2) add: poll.simps(2) [of "Suc n"])
  next
    case False
    with t b show ?thesis by (auto split: option.splits)
  qed
qed

text \<open>
  On a host whose clock does not go back, and on which a pause takes at least its length, none of
  the waits goes on for ever: waiting for SSH ends within 602 attempts, waiting for a machine to
  die within 52, and killing a process within 22.
\<close>

theorem waits_return:
  assumes now: "\<And>x. fst (vh_now h x) = T x \<and> T x \<le> T (snd (vh_now h x))"
    and sleep: "\<And>d x. T x + d \<le> T (vh_sleep h d x)"
    and dial: "\<And>a d x. T x \<le> T (snd (vh_dial h a d x))"
    and sel: "\<And>d x x'. vh_select h d x = (None, x') \<Longrightarrow> T x + d \<le> T x'"
    and sig: "\<And>p g x. T x \<le> T (snd (vh_signal h p g x))"
  shows "fst (WaitForSSH 602 h slot x) \<noteq> Blocked \<and> fst (WaitForVMDead 52 h ip x) \<noteq> Blocked \<and>
    fst (killProcess 22 h pid x) \<noteq> Blocked"
proof -
  obtain t x1 where t: "vh_now h x = (t, x1)" by fastforce
  then have tx: "t = T x" "T x \<le> T x1" using now [of x] by simp_all
  have ssh: "fst (poll 602 h (t + 60 * 1000 * millis) (\<lambda>x.
                case vh_dial h (ssh_addr (SlotIP slot)) (1000 * millis) x of
                  (None, x2) \<Rightarrow> (Some None, x2)
                | (Some _, x2) \<Rightarrow>
                    (case vh_select h (100 * millis) x2 of
                       (Some e, x3) \<Rightarrow> (Some (Some e), x3)
                     | (None, x3) \<Rightarrow> (None, x3))) x1) \<noteq> Blocked" (is "fst (poll 602 h ?dl ?b x1) \<noteq> Blocked")
  proof -
    have "T y + 100 * millis \<le> T y'" if "?b y = (None, y')" for y y'
      using that dial [of y "ssh_addr (SlotIP slot)" "1000 * millis"] sel
      by (auto split: prod.splits option.splits) fastforce
    from poll_returns [of h T ?b "100 * millis" ?dl x1 601, OF now this] tx show ?thesis by (simp add: millis_def)
  qed
  have dead: "fst (poll 52 h (t + 5 * 1000 * millis) (\<lambda>x.
                case vh_dial h (ssh_addr ip) (200 * millis) x of
                  (Some _, x2) \<Rightarrow> (Some (), x2)
                | (None, x2) \<Rightarrow> (None, vh_sleep h (100 * millis) x2)) x1) \<noteq> Blocked" (is "fst (poll 52 h ?dl ?b x1) \<noteq> Blocked")
  proof -
    have "T y + 100 * millis \<le> T y'" if "?b y = (None, y')" for y y'
      using that dial [of y "ssh_addr ip" "200 * millis"] sleep
      by (auto split: prod.splits option.splits) (meson add_mono_thms_linordered_semiring(3) order_trans)
    from poll_returns [of h T ?b "100 * millis" ?dl x1 51, OF now this] tx show ?thesis by (simp add: millis_def)
  qed
  obtain g y1 where g: "vh_signal h pid SIGTERM x = (g, y1)" by fastforce
  obtain u y2 where u: "vh_now h y1 = (u, y2)" by fastforce
  then have uy: "u = T y1" "T y1 \<le> T y2" using now [of y1] by simp_all
  have kill: "fst (poll 22 h (u + 2 * 1000 * millis) (\<lambda>x.
                   case vh_signal h pid Signal0 x of
                     (Some _, x3) \<Rightarrow> (Some (), x3)
                   | (None, x3) \<Rightarrow> (None, vh_sleep h (100 * millis) x3)) y2) \<noteq> Blocked" (is "fst (poll 22 h ?dl ?b y2) \<noteq> Blocked")
  proof -
    have "T y + 100 * millis \<le> T y'" if "?b y = (None, y')" for y y'
      using that sig [of y pid Signal0] sleep
      by (auto split: prod.splits option.splits) (meson add_mono_thms_linordered_semiring(3) order_trans)
    from poll_returns [of h T ?b "100 * millis" ?dl y2 21, OF now this] uy show ?thesis by (simp add: millis_def)
  qed
  show ?thesis
    using ssh dead kill t g u
    by (auto simp: WaitForSSH_def WaitForVMDead_def killProcess_def Let_def split: prod.splits progress.splits option.splits)
qed

definition clock_host :: "int vm_host" where
  "clock_host = \<lparr>vh_host = \<lparr>hx_exec = \<lambda>_ _ x. (([], None), x), hx_ctxErr = \<lambda>x. (None, x), hx_stat = \<lambda>_ x. (None, x),
       hx_MkdirAll = \<lambda>_ x. (None, x), hx_RemoveAll = \<lambda>_ x. (None, x), hx_Remove = \<lambda>_ x. (None, x), hx_MkdirTemp = \<lambda>_ x. (Inr [], x)\<rparr>,
     vh_output = \<lambda>_ x. (([], None), x), vh_signal = \<lambda>_ _ x. (None, x), vh_now = \<lambda>x. (x, x), vh_sleep = \<lambda>d x. x + d,
     vh_dial = \<lambda>_ _ x. (Some (errorf ''refused''), x), vh_select = \<lambda>d x. (None, x + d), vh_glob = \<lambda>_ x. ([], x), vh_scan = \<lambda>_. None\<rparr>"

theorem waits_return_witness:
  "fst (WaitForSSH 602 clock_host 0 0) \<noteq> Blocked \<and> fst (WaitForVMDead 52 clock_host (SlotIP 0) 0) \<noteq> Blocked \<and>
   fst (killProcess 22 clock_host 7 0) \<noteq> Blocked"
  by (rule waits_return [where T = id]) (simp_all add: clock_host_def)

section \<open>A socket held by two processes\<close>

text \<open>
  \<^verbatim>\<open>lsof -t\<close> prints one process ID per line. When it prints two, the output is not a number:
  no process is killed, but the TAP device is torn down and the socket removed all the same.
\<close>

lemma two_holders_not_killed:
  assumes "vh_output h [''lsof'', ''-t'', SlotSocket slot] x = ((out, None), x1)" and "Atoi (TrimSpace out) = None"
  shows "DetachedVM_Stop fuel h slot x =
    (Ret None, snd (hx_Remove (vh_host h) (SlotSocket slot) (teardownTAP h (SlotTAP slot) x1)))"
  using assms by (simp add: DetachedVM_Stop_def kill_holder_def)

lemma two_holders_output: "Atoi (TrimSpace (''12'' @ [CHR 0x0A] @ ''13'' @ [CHR 0x0A])) = None"
  by code_simp

end
