(* ===== verification/Profile.thy ===== *)
theory Profile
  imports Go_Json_Decode Go_Fs
begin

text \<open>
  \<^verbatim>\<open>internal/profile/store.go\<close>: the stored tokens, loading and saving them, and masking. Also the
  \<^verbatim>\<open>GET\<close> and \<^verbatim>\<open>PUT\<close> of \<^verbatim>\<open>/api/profile\<close> in \<^verbatim>\<open>cmd/poc/main.go\<close>, which are the only callers of \<^verbatim>\<open>Save\<close>.
  Error texts of \<^verbatim>\<open>encoding/json\<close> come from the parameter \<open>jerr\<close>.
\<close>

record profile =
  ClaudeOAuthToken :: string
  GitHubToken :: string

definition no_profile :: profile where
  "no_profile = \<lparr>ClaudeOAuthToken = [], GitHubToken = []\<rparr>"

definition profile_json :: "profile \<Rightarrow> json" where
  "profile_json p = JObj [(''claude_oauth_token'', JStr (ClaudeOAuthToken p)), (''github_token'', JStr (GitHubToken p))]"

definition unmarshal_profile :: "string \<Rightarrow> profile option" where
  "unmarshal_profile b =
     (case json_parse b of
        Some (JObj ms) \<Rightarrow>
          (case (dec_string [] (field_values ''claude_oauth_token'' ms), dec_string [] (field_values ''github_token'' ms)) of
             (Some c, Some g) \<Rightarrow> Some \<lparr>ClaudeOAuthToken = c, GitHubToken = g\<rparr>
           | _ \<Rightarrow> None)
      | Some JNull \<Rightarrow> Some no_profile
      | _ \<Rightarrow> None)"

record prof_env =
  pe_fs :: fs_env
  pe_dir :: string
  pe_base :: string \<comment> \<open>the file is \<^verbatim>\<open>dir/base\<close>\<close>
  pe_jerr :: "string \<Rightarrow> goerror"

definition pe_path :: "prof_env \<Rightarrow> string" where
  "pe_path pe = pe_dir pe @ ''/'' @ pe_base pe"

definition profile_Load :: "prof_env \<Rightarrow> fs \<Rightarrow> profile result \<times> fs" where
  "profile_Load pe s =
     (case ReadFile (pe_fs pe) (pe_path pe) s of
        (Inl e, s1) \<Rightarrow> (if errors_Is e ErrNotExist then Inr no_profile else Inl e, s1)
      | (Inr data, s1) \<Rightarrow>
          (if length data = 0 then Inr no_profile
           else (case unmarshal_profile data of None \<Rightarrow> Inl (pe_jerr pe data) | Some p \<Rightarrow> Inr p), s1))"

text \<open>\<^verbatim>\<open>Save\<close> passes the errors of the file system on as they are.\<close>

definition no_labels :: save_labels where
  "no_labels = \<lparr>lb_create = [], lb_write = [], lb_close = [], lb_rename = []\<rparr>"

definition profile_Save :: "prof_env \<Rightarrow> profile \<Rightarrow> fs \<Rightarrow> goerror option \<times> fs" where
  "profile_Save pe p s =
     save_file (pe_fs pe) no_labels (pe_dir pe) ''.profile-'' ''.tmp'' (pe_path pe) (json_print (profile_json p)) s"

definition MaskToken :: "string \<Rightarrow> string" where
  "MaskToken token =
     (if length token \<le> 4 then token
      else str_Repeat ''*'' (length token - 4) @ drop (length token - 4) token)"

section \<open>The handlers\<close>

text \<open>\<^verbatim>\<open>GET /api/profile\<close>, with \<^verbatim>\<open>mgr.prof\<close> set: the response body.\<close>

definition get_profile :: "prof_env \<Rightarrow> fs \<Rightarrow> (string, string) gomap \<times> fs" where
  "get_profile pe s =
     (case profile_Load pe s of
        (Inr p, s1) \<Rightarrow> ([(''claude_oauth_token'', MaskToken (ClaudeOAuthToken p)), (''github_token'', MaskToken (GitHubToken p))], s1)
      | (Inl _, s1) \<Rightarrow> ([(''claude_oauth_token'', []), (''github_token'', [])], s1))"

text \<open>
  \<^verbatim>\<open>PUT /api/profile\<close> of a decoded body: the status code. \<^verbatim>\<open>existing, _ := mgr.prof.Load()\<close> goes on
  with the zero profile when loading fails.
\<close>

definition put_profile :: "prof_env \<Rightarrow> profile \<Rightarrow> fs \<Rightarrow> nat \<times> fs" where
  "put_profile pe body s =
     (case profile_Load pe s of (loaded, s1) \<Rightarrow>
        (let existing = (case loaded of Inr p \<Rightarrow> p | Inl _ \<Rightarrow> no_profile);
             p1 = (if ClaudeOAuthToken body \<noteq> [] then existing\<lparr>ClaudeOAuthToken := ClaudeOAuthToken body\<rparr> else existing);
             p2 = (if GitHubToken body \<noteq> [] then p1\<lparr>GitHubToken := GitHubToken body\<rparr> else p1)
         in case profile_Save pe p2 s1 of
              (Some _, s2) \<Rightarrow> (500, s2)
            | (None, s2) \<Rightarrow> (204, s2)))"

section \<open>Saving and loading\<close>

definition profile_ok :: "profile \<Rightarrow> bool" where
  "profile_ok p \<longleftrightarrow> utf8_valid (ClaudeOAuthToken p) \<and> utf8_valid (GitHubToken p)"

abbreviation prof_quiet :: "prof_env \<Rightarrow> fs \<Rightarrow> bool" where
  "prof_quiet pe s \<equiv> fs_quiet (pe_fs pe) (pe_dir pe) ''.profile-'' ''.tmp'' (pe_path pe) s"

lemma unmarshal_profile_json: "profile_ok p \<Longrightarrow> unmarshal_profile (json_print (profile_json p)) = Some p"
proof -
  assume ok: "profile_ok p"
  have "json_nums_ok (profile_json p)" by (simp add: profile_json_def)
  moreover have "json_depth (profile_json p) \<le> maxNestingDepth" by (simp add: profile_json_def maxNestingDepth_def)
  ultimately have "json_parse (json_print (profile_json p)) = Some (json_fix (profile_json p))" by (rule json_roundtrip)
  then show ?thesis
    using ok by (simp add: unmarshal_profile_def profile_json_def profile_ok_def utf8_valid_def field_values_def fold_char_def utf8_fix_ascii)
qed

lemma Load_saved:
  assumes "fs_get s (pe_path pe) = Some (json_print (profile_json p))" and "profile_ok p" and "\<And>n. fe_fault (pe_fs pe) n = None"
  shows "fst (profile_Load pe s) = Inr p"
  using assms unmarshal_profile_json [OF assms(2)] by (simp add: profile_Load_def ReadFile_def profile_json_def)

lemma Save_writes:
  assumes "prof_quiet pe s" and "profile_Save pe p s = (e, s')"
  shows "e = None \<and> fs_get s' (pe_path pe) = Some (json_print (profile_json p)) \<and> prof_quiet pe s'"
proof -
  have q: "e = None" "prof_quiet pe s'"
    using save_file_quiet [OF assms(1), of no_labels "json_print (profile_json p)"] assms(2) by (simp_all add: profile_Save_def)
  with save_file_atomic(1) [of s "pe_path pe" "pe_dir pe" "''.profile-''" "''.tmp''"] assms show ?thesis
    by (fastforce simp: profile_Save_def fs_quiet_def)
qed

text \<open>
  On a working file system \<^verbatim>\<open>Load\<close> gives back what \<^verbatim>\<open>Save\<close> stored; and a \<^verbatim>\<open>Save\<close> that fails
  leaves the stored profile as it was.
\<close>

theorem profile_roundtrip:
  assumes "fs_get s (pe_path pe) \<noteq> None \<or> (\<forall>r. pe_path pe \<noteq> pe_dir pe @ ''/.profile-'' @ r @ ''.tmp'')"
    and "profile_Save pe p s = (e, s')"
  shows "(e \<noteq> None \<longrightarrow> fs_get s' (pe_path pe) = fs_get s (pe_path pe)) \<and>
    (prof_quiet pe s \<and> profile_ok p \<longrightarrow> e = None \<and> fst (profile_Load pe s') = Inr p)"
proof -
  have "fs_get s' (pe_path pe) = (if e = None then Some (json_print (profile_json p)) else fs_get s (pe_path pe))"
    using save_file_atomic(1) [of s "pe_path pe" "pe_dir pe" "''.profile-''" "''.tmp''"] assms by (simp add: profile_Save_def)
  moreover have "e = None \<and> fst (profile_Load pe s') = Inr p" if "prof_quiet pe s" "profile_ok p"
    using Save_writes [OF that(1) assms(2)] that(2) Load_saved by (auto simp: fs_quiet_def)
  ultimately show ?thesis by auto
qed

definition ex_pe :: prof_env where
  "ex_pe = \<lparr>pe_fs = \<lparr>fe_fault = \<lambda>_. None, fe_short = \<lambda>_. 0, fe_rand = \<lambda>_. ''x''\<rparr>, pe_dir = ''d'', pe_base = ''profile.json'', pe_jerr = errorf\<rparr>"

definition ex_disk :: fs where
  "ex_disk = \<lparr>fs_files = [], fs_ops = 0\<rparr>"

lemma ex_prof_quiet: "prof_quiet ex_pe ex_disk"
  by (simp add: fs_quiet_def ex_pe_def ex_disk_def pe_path_def)

theorem profile_roundtrip_witness:
  "\<exists>s'. profile_Save ex_pe \<lparr>ClaudeOAuthToken = ''c'', GitHubToken = ''g''\<rparr> ex_disk = (None, s') \<and>
     fst (profile_Load ex_pe s') = Inr \<lparr>ClaudeOAuthToken = ''c'', GitHubToken = ''g''\<rparr>"
proof -
  let ?p = "\<lparr>ClaudeOAuthToken = ''c'', GitHubToken = ''g''\<rparr>"
  obtain e s' where sv: "profile_Save ex_pe ?p ex_disk = (e, s')" by fastforce
  have "pe_path ex_pe \<noteq> pe_dir ex_pe @ ''/.profile-'' @ r @ ''.tmp''" for r by (simp add: ex_pe_def pe_path_def)
  from profile_roundtrip [OF disjI2 sv] this ex_prof_quiet sv show ?thesis by (simp add: profile_ok_def utf8_valid_def)
qed

section \<open>Masking\<close>

text \<open>
  A masked token has the length of the token and agrees with it only on the last four
  characters: of a longer token nothing else is shown. One of at most four characters is shown.
\<close>

theorem MaskToken_hides:
  "length (MaskToken t) = length t \<and>
   (if length t \<le> 4 then MaskToken t = t
    else take (length t - 4) (MaskToken t) = replicate (length t - 4) (CHR ''*'') \<and>
         drop (length t - 4) (MaskToken t) = drop (length t - 4) t)"
proof -
  have r: "str_Repeat ''*'' n = replicate n (CHR ''*'')" for n by (induction n) (simp_all add: str_Repeat_def)
  show ?thesis by (auto simp: MaskToken_def r)
qed

section \<open>Updating\<close>

text \<open>
  \<^verbatim>\<open>PUT /api/profile\<close> replaces the tokens that are given and keeps the stored ones otherwise, when
  the stored profile can be read.
\<close>

theorem put_merges:
  assumes "prof_quiet pe s" and "fst (profile_Load pe s) = Inr p" and "profile_ok p" and "profile_ok body"
    and "put_profile pe body s = (code, s')"
  shows "code = 204 \<and> fst (profile_Load pe s') =
    Inr \<lparr>ClaudeOAuthToken = (if ClaudeOAuthToken body = [] then ClaudeOAuthToken p else ClaudeOAuthToken body),
         GitHubToken = (if GitHubToken body = [] then GitHubToken p else GitHubToken body)\<rparr>"
proof -
  let ?q = "\<lparr>ClaudeOAuthToken = (if ClaudeOAuthToken body = [] then ClaudeOAuthToken p else ClaudeOAuthToken body),
         GitHubToken = (if GitHubToken body = [] then GitHubToken p else GitHubToken body)\<rparr>"
  obtain s1 where s1: "profile_Load pe s = (Inr p, s1)" using assms(2) by (metis prod.collapse)
  then have q1: "prof_quiet pe s1"
    using assms(1) by (auto simp: profile_Load_def ReadFile_def fs_quiet_def split: option.splits if_splits)
  obtain e s2 where sv: "profile_Save pe ?q s1 = (e, s2)" by fastforce
  note w = Save_writes [OF q1 sv]
  have "put_profile pe body s = (204, s2)"
    using s1 sv w by (cases p) (auto simp: put_profile_def Let_def)
  moreover have "profile_ok ?q" using assms(3,4) by (simp add: profile_ok_def)
  ultimately show ?thesis using w assms(1,5) Load_saved [of s2 pe ?q] by (auto simp: fs_quiet_def)
qed

theorem put_merges_witness:
  "\<exists>s'. put_profile ex_pe \<lparr>ClaudeOAuthToken = ''c'', GitHubToken = []\<rparr> ex_disk = (204, s') \<and>
     fst (profile_Load ex_pe s') = Inr \<lparr>ClaudeOAuthToken = ''c'', GitHubToken = []\<rparr>"
proof -
  let ?b = "\<lparr>ClaudeOAuthToken = ''c'', GitHubToken = []\<rparr>"
  have l: "fst (profile_Load ex_pe ex_disk) = Inr no_profile" by (simp add: profile_Load_def ReadFile_def ex_pe_def ex_disk_def errors_Is_def)
  obtain code s' where p: "put_profile ex_pe ?b ex_disk = (code, s')" by fastforce
  from put_merges [OF ex_prof_quiet l _ _ p] p show ?thesis by (simp add: profile_ok_def utf8_valid_def no_profile_def)
qed

text \<open>
  When the stored profile exists but cannot be parsed, \<^verbatim>\<open>PUT\<close> of one token succeeds and wipes the
  other: the merge that keeps omitted fields starts from nothing.
\<close>

theorem put_wipes_unreadable:
  assumes "prof_quiet pe s" and "fs_get s (pe_path pe) = Some b" and "b \<noteq> []" and "unmarshal_profile b = None"
    and "utf8_valid tok" and "put_profile pe \<lparr>ClaudeOAuthToken = tok, GitHubToken = []\<rparr> s = (code, s')"
  shows "code = 204 \<and> fst (profile_Load pe s') = Inr \<lparr>ClaudeOAuthToken = tok, GitHubToken = []\<rparr>"
proof -
  have f: "fe_fault (pe_fs pe) n = None" for n using assms(1) by (simp add: fs_quiet_def)
  have l: "profile_Load pe s = (Inl (pe_jerr pe b), fs_tick s)" using assms(2-4) f by (simp add: profile_Load_def ReadFile_def)
  have q1: "prof_quiet pe (fs_tick s)" using assms(1) by (simp add: fs_quiet_def)
  let ?q = "\<lparr>ClaudeOAuthToken = tok, GitHubToken = []\<rparr>"
  obtain e s2 where sv: "profile_Save pe ?q (fs_tick s) = (e, s2)" by fastforce
  note w = Save_writes [OF q1 sv]
  have "put_profile pe ?q s = (204, s2)" using l sv w by (auto simp: put_profile_def Let_def no_profile_def)
  moreover have "profile_ok ?q" using assms(5) by (simp add: profile_ok_def utf8_valid_def)
  ultimately show ?thesis using w f assms(6) Load_saved [of s2 pe ?q] by auto
qed

theorem put_wipes_unreadable_witness:
  "\<exists>s'. put_profile ex_pe \<lparr>ClaudeOAuthToken = ''c'', GitHubToken = []\<rparr> \<lparr>fs_files = [(''d/profile.json'', ''{'')], fs_ops = 0\<rparr> = (204, s') \<and>
     fst (profile_Load ex_pe s') = Inr \<lparr>ClaudeOAuthToken = ''c'', GitHubToken = []\<rparr>"
proof -
  let ?s = "\<lparr>fs_files = [(''d/profile.json'', ''{'')], fs_ops = 0\<rparr>"
  have q: "prof_quiet ex_pe ?s" by (simp add: fs_quiet_def ex_pe_def pe_path_def)
  have b: "fs_get ?s (pe_path ex_pe) = Some ''{''" by (simp add: ex_pe_def pe_path_def)
  have u: "unmarshal_profile ''{'' = None" by code_simp
  have t: "utf8_valid ''c''" by (simp add: utf8_valid_def)
  obtain code s' where p: "put_profile ex_pe \<lparr>ClaudeOAuthToken = ''c'', GitHubToken = []\<rparr> ?s = (code, s')" by fastforce
  from put_wipes_unreadable [OF q b _ u t p] p show ?thesis by simp
qed

end
