(* ===== verification/Launch_Text.thy ===== *)
theory Launch_Text
  imports Go_Json_Decode
begin

text \<open>
  The pure functions of \<^verbatim>\<open>cmd/poc/main.go\<close> around launching a session: quoting for the shell,
  normalising repository URLs, reading the output of \<^verbatim>\<open>claude -p\<close>, and Go's base64, with a model
  of how a POSIX shell reads quoted words, against which the quoting is proved.
\<close>

definition nl :: string where "nl = [CHR 0x0A]"
definition bslash :: string where "bslash = [CHR 0x5C]"
definition squote :: string where "squote = [CHR 0x27]"
definition dquote :: string where "dquote = [CHR 0x22]"

section \<open>Quoting\<close>

definition shellQuote :: "string \<Rightarrow> string" where
  "shellQuote s = squote @ ReplaceAll1 s (CHR 0x27) (squote @ dquote @ squote @ dquote @ squote) @ squote"

text \<open>
  One word of a POSIX shell command: single quotes keep everything up to the next one; double
  quotes and unquoted text are read here only where they have no other special character, which
  is \<^const>\<open>None\<close> otherwise. The rest after a blank is returned too.
\<close>

definition sh_special :: "char \<Rightarrow> bool" where
  "sh_special c \<longleftrightarrow> c \<in> set ''$`&|;<>()*?[#~=%!'' \<or> c = CHR 0x5C \<or> c = CHR 0x0A"

datatype sh_mode = Bare | Single | Double

fun sh_word :: "sh_mode \<Rightarrow> string \<Rightarrow> (string \<times> string) option" where
  "sh_word Bare [] = Some ([], [])"
| "sh_word Bare (c # s) =
     (if c = CHR '' '' then Some ([], s)
      else if c = CHR 0x27 then sh_word Single s
      else if c = CHR 0x22 then sh_word Double s
      else if sh_special c then None
      else map_option (map_prod ((#) c) id) (sh_word Bare s))"
| "sh_word Single [] = None"
| "sh_word Single (c # s) =
     (if c = CHR 0x27 then sh_word Bare s else map_option (map_prod ((#) c) id) (sh_word Single s))"
| "sh_word Double [] = None"
| "sh_word Double (c # s) =
     (if c = CHR 0x22 then sh_word Bare s
      else if c = CHR ''$'' \<or> c = CHR ''`'' \<or> c = CHR 0x5C then None
      else map_option (map_prod ((#) c) id) (sh_word Double s))"

lemma sh_word_quoted:
  "sh_word Single (ReplaceAll1 s (CHR 0x27) (squote @ dquote @ squote @ dquote @ squote) @ CHR 0x27 # rest) =
     map_option (map_prod ((@) s) id) (sh_word Bare rest)"
proof (induction s)
  case Nil
  show ?case by (cases "sh_word Bare rest") (auto simp: ReplaceAll1_def)
next
  case (Cons c s)
  have "sh_word Single (ReplaceAll1 (c # s) (CHR 0x27) (squote @ dquote @ squote @ dquote @ squote) @ CHR 0x27 # rest) =
      map_option (map_prod ((#) c) id)
        (sh_word Single (ReplaceAll1 s (CHR 0x27) (squote @ dquote @ squote @ dquote @ squote) @ CHR 0x27 # rest))"
    by (simp add: ReplaceAll1_def squote_def dquote_def)
  with Cons show ?case by (simp add: option.map_comp prod.map_comp comp_def id_def)
qed

text \<open>
  Whatever bytes a string has, a shell reads its quoted form as exactly that one word: a prompt
  cannot break out of the command it is put in.
\<close>

theorem shellQuote_one_word:
  "sh_word Bare (shellQuote s) = Some (s, []) \<and> sh_word Bare (shellQuote s @ '' '' @ rest) = Some (s, rest)"
  using sh_word_quoted [of s "[]"] sh_word_quoted [of s "CHR '' '' # rest"] by (simp add: shellQuote_def squote_def)

section \<open>Repository URLs\<close>

definition normalizeRepoURL :: "string \<Rightarrow> string" where
  "normalizeRepoURL rawURL =
     (if HasPrefix rawURL ''git@'' then
        (let s = TrimPrefix rawURL ''git@'';
             s' = (case str_Index s '':'' of Some idx \<Rightarrow> take idx s @ ''/'' @ drop (idx + 1) s | None \<Rightarrow> s)
         in ''https://'' @ s')
      else rawURL)"

lemma str_Index_colon: "CHR '':'' \<notin> set u \<Longrightarrow> str_Index (u @ CHR '':'' # v) '':'' = Some (length u)"
  by (induction u) (auto simp: HasPrefix_def)

text \<open>
  An SSH URL becomes the HTTPS URL of the same host and path, any other URL is left alone, and
  normalising twice changes nothing more.
\<close>

theorem normalizeRepoURL_https:
  assumes "CHR '':'' \<notin> set host"
  shows "normalizeRepoURL (''git@'' @ host @ '':'' @ path) = ''https://'' @ host @ ''/'' @ path \<and>
    normalizeRepoURL (normalizeRepoURL u) = normalizeRepoURL u"
proof
  show "normalizeRepoURL (''git@'' @ host @ '':'' @ path) = ''https://'' @ host @ ''/'' @ path"
    using str_Index_colon [OF assms, of path] by (simp add: normalizeRepoURL_def HasPrefix_def TrimPrefix_def Let_def)
  show "normalizeRepoURL (normalizeRepoURL u) = normalizeRepoURL u"
    by (simp add: normalizeRepoURL_def [of u] Let_def) (simp add: normalizeRepoURL_def HasPrefix_def)
qed

theorem normalizeRepoURL_https_witness:
  "normalizeRepoURL (''git@'' @ ''github.com'' @ '':'' @ ''user/repo.git'') = ''https://'' @ ''github.com'' @ ''/'' @ ''user/repo.git''"
  using normalizeRepoURL_https [of "''github.com''" "''user/repo.git''"] by simp

section \<open>The output of claude\<close>

definition unmarshal_claude :: "string \<Rightarrow> (string \<times> bool) option" where
  "unmarshal_claude b =
     (case json_parse b of
        Some (JObj ms) \<Rightarrow>
          (case (dec_string [] (field_values ''result'' ms), dec_bool False (field_values ''is_error'' ms)) of
             (Some r, Some e) \<Rightarrow> Some (r, e)
           | _ \<Rightarrow> None)
      | Some JNull \<Rightarrow> Some ([], False)
      | _ \<Rightarrow> None)"

definition parseClaudeJSON :: "string \<Rightarrow> string \<times> bool" where
  "parseClaudeJSON stdout0 =
     (let stdout = TrimSpace stdout0 in
      if stdout = [] then ([], False)
      else (case unmarshal_claude stdout of None \<Rightarrow> (stdout, False) | Some (r, e) \<Rightarrow> (r, e)))"

section \<open>Base64\<close>

definition b64_alphabet :: string where
  "b64_alphabet = ''ABCDEFGHIJKLMNOPQRSTUVWXYZabcdefghijklmnopqrstuvwxyz0123456789+/''"

definition b64_char :: "nat \<Rightarrow> char" where
  "b64_char n = b64_alphabet ! n"

fun base64 :: "string \<Rightarrow> string" where
  "base64 [] = []"
| "base64 [a] = [b64_char (byte a div 4), b64_char (byte a mod 4 * 16), CHR ''='', CHR ''='']"
| "base64 [a, b] =
     [b64_char (byte a div 4), b64_char (byte a mod 4 * 16 + byte b div 16), b64_char (byte b mod 16 * 4), CHR ''='']"
| "base64 (a # b # c # s) =
     [b64_char (byte a div 4), b64_char (byte a mod 4 * 16 + byte b div 16), b64_char (byte b mod 16 * 4 + byte c div 64),
      b64_char (byte c mod 64)] @ base64 s"

end
