(* ===== verification/Session_Manager.thy ===== *)
theory Session_Manager
  imports Session_State Session_Store Goroutines Gitutil Vm Profile Launch_Text Workflow_Validator
begin

text \<open>
  The session manager of \<^verbatim>\<open>cmd/poc/main.go\<close>. A \<^verbatim>\<open>*Session\<close> is an address in the list of all
  session objects, so a goroutine keeps its object when the session has left the map. Every
  function is a program whose steps are its critical sections, its state machine calls, its
  store calls and its calls to the interfaces \<^verbatim>\<open>snapshotter\<close>, \<^verbatim>\<open>vmLauncher\<close>, \<^verbatim>\<open>vmHandle\<close> and
  \<^verbatim>\<open>setupRunner\<close>, which are parameters. A \<^verbatim>\<open>go\<close> statement puts a task in \<open>mw_tasks\<close>;
  \<open>mw_calls\<close> records the calls to the interfaces, for the theorems. Logging is left out.
\<close>

section \<open>State\<close>

datatype vm_handle = Launched int | Detached int \<comment> \<open>a machine in a slot, or one of an earlier process\<close>

record session =
  ss_ID :: string
  ss_Slot :: int
  ss_RepoURL :: string
  ss_Branch :: string
  ss_DevMode :: bool
  ss_CreatedAt :: instant
  ss_Error :: string
  ss_Role :: string
  ss_Prompt :: string
  ss_Result :: string
  ss_workspacePath :: string
  ss_sm :: "unit state_machine" \<comment> \<open>with its one hook, which persists the session\<close>
  ss_v :: "vm_handle option"
  ss_bridge :: "string option" \<comment> \<open>the address it connects to\<close>

datatype call =
    CallCancel string
  | CallCreateSnapshot string
  | CallDeleteSnapshot string
  | CallInject string
  | CallLaunch int
  | CallWaitForSSH int
  | CallVmStop vm_handle
  | CallWaitDead string
  | CallRunSetup string "string list" \<comment> \<open>the user and the commands\<close>
  | CallRunCapture string
  | CallCleanupWorkspace string

datatype task = Boot nat string | Cleanup nat string

record ('st, 'x) mworld =
  mw_heap :: "session list"
  mw_sessions :: "(string, nat) gomap"
  mw_used :: "(int, bool) gomap" \<comment> \<open>\<^verbatim>\<open>usedSlots\<close>\<close>
  mw_store :: 'st
  mw_fs :: fs
  mw_ticks :: nat
  mw_tasks :: "task list"
  mw_calls :: "call list"
  mw_panic :: bool \<comment> \<open>a nil pointer was used\<close>
  mw_ext :: 'x

record ('st, 'x) mgr =
  mg_maxSlots :: int
  mg_store :: "'st store_ops option"
  mg_prof :: "prof_env option"
  mg_fsenv :: fs_env
  mg_credPath :: string
  mg_signer :: "string option" \<comment> \<open>its public key in \<^verbatim>\<open>authorized_keys\<close> form\<close>
  mg_devHostIP :: string
  mg_repoCache :: "repocache option"
  mg_host :: "'x host"
  mg_clock :: "nat \<Rightarrow> instant"
  mg_quote :: "string \<Rightarrow> string" \<comment> \<open>the verb \<^verbatim>\<open>%q\<close>\<close>
  mg_uuid :: "'x \<Rightarrow> string \<times> 'x"
  mg_cancel :: "string \<Rightarrow> 'x \<Rightarrow> 'x" \<comment> \<open>ends the session's context\<close>
  mg_CreateSnapshot :: "string \<Rightarrow> 'x \<Rightarrow> string result \<times> 'x"
  mg_DeleteSnapshot :: "string \<Rightarrow> 'x \<Rightarrow> goerror option \<times> 'x"
  mg_Inject :: "string \<Rightarrow> string \<Rightarrow> string \<Rightarrow> 'x \<Rightarrow> goerror option \<times> 'x"
  mg_Launch :: "int \<Rightarrow> string \<Rightarrow> int \<Rightarrow> 'x \<Rightarrow> goerror option \<times> 'x"
  mg_WaitForSSH :: "int \<Rightarrow> 'x \<Rightarrow> goerror option \<times> 'x"
  mg_VmStop :: "vm_handle \<Rightarrow> 'x \<Rightarrow> goerror option \<times> 'x"
  mg_WaitForVMDead :: "string \<Rightarrow> 'x \<Rightarrow> 'x"
  mg_RunSetup :: "string \<Rightarrow> string \<Rightarrow> string list \<Rightarrow> 'x \<Rightarrow> goerror option \<times> 'x" \<comment> \<open>user, address, commands\<close>
  mg_RunCapture :: "string \<Rightarrow> string \<Rightarrow> 'x \<Rightarrow> (string \<times> string \<times> goerror option) \<times> 'x"
  mg_tick :: "'x \<Rightarrow> goerror option \<times> 'x" \<comment> \<open>wait for the ticker, or the error of a context that ended\<close>
  mg_IsSocketAlive :: "int \<Rightarrow> 'x \<Rightarrow> bool \<times> 'x"
  mg_CleanupOrphans :: "(int \<Rightarrow> bool) \<Rightarrow> 'x \<Rightarrow> goerror option \<times> 'x" \<comment> \<open>\<^verbatim>\<open>vm.CleanupOrphansExcept\<close>\<close>

section \<open>Steps\<close>

definition ext_call :: "call \<Rightarrow> ('x \<Rightarrow> 'a \<times> 'x) \<Rightarrow> (('st, 'x) mworld, 'a) prog" where
  "ext_call c f = act (\<lambda>w. case f (mw_ext w) of (a, x) \<Rightarrow> (a, w\<lparr>mw_ext := x, mw_calls := mw_calls w @ [c]\<rparr>))"

definition get_sess :: "nat \<Rightarrow> (('st, 'x) mworld, session) prog" where
  "get_sess a = read (\<lambda>w. mw_heap w ! a)"

definition upd_heap :: "nat \<Rightarrow> (session \<Rightarrow> session) \<Rightarrow> ('st, 'x) mworld \<Rightarrow> ('st, 'x) mworld" where
  "upd_heap a f w = w\<lparr>mw_heap := (mw_heap w)[a := f (mw_heap w ! a)]\<rparr>"

definition upd_sess :: "nat \<Rightarrow> (session \<Rightarrow> session) \<Rightarrow> (('st, 'x) mworld, unit) prog" where
  "upd_sess a f = modify (upd_heap a f)"

definition go_task :: "task \<Rightarrow> (('st, 'x) mworld, unit) prog" where
  "go_task t = modify (\<lambda>w. w\<lparr>mw_tasks := mw_tasks w @ [t]\<rparr>)"

abbreviation sess_state :: "session \<Rightarrow> state" where
  "sess_state s \<equiv> sm_current (ss_sm s)"

definition session_row :: "session \<Rightarrow> instant \<Rightarrow> row" where
  "session_row s now = \<lparr>row_ID = ss_ID s, row_Slot = ss_Slot s, row_Status = state_str (sess_state s), row_RepoURL = ss_RepoURL s,
     row_Branch = ss_Branch s, row_ErrorMsg = ss_Error s, row_DevMode = ss_DevMode s, row_CreatedAt = ss_CreatedAt s,
     row_UpdatedAt = now, row_Role = ss_Role s, row_Prompt = ss_Prompt s, row_Result = ss_Result s\<rparr>"

definition store_upsert :: "'st store_ops \<Rightarrow> row \<Rightarrow> (('st, 'x) mworld, goerror option) prog" where
  "store_upsert ops r = act (\<lambda>w. case so_Upsert ops r (mw_store w) of (e, st) \<Rightarrow> (e, w\<lparr>mw_store := st\<rparr>))"

definition store_delete :: "'st store_ops \<Rightarrow> string \<Rightarrow> (('st, 'x) mworld, goerror option) prog" where
  "store_delete ops i = act (\<lambda>w. case so_Delete ops i (mw_store w) of (e, st) \<Rightarrow> (e, w\<lparr>mw_store := st\<rparr>))"

text \<open>
  \<^verbatim>\<open>persistSession\<close> reads the row under the lock and writes it after releasing it.
\<close>

definition persistSession :: "('st, 'x) mgr \<Rightarrow> nat \<Rightarrow> (('st, 'x) mworld, unit) prog" where
  "persistSession mg a =
     (case mg_store mg of
        None \<Rightarrow> Done ()
      | Some ops \<Rightarrow>
          bind (act (\<lambda>w. (session_row (mw_heap w ! a) (mg_clock mg (mw_ticks w)), w\<lparr>mw_ticks := Suc (mw_ticks w)\<rparr>))) (\<lambda>row.
          bind (store_upsert ops row) (\<lambda>_. Done ())))"

text \<open>\<^verbatim>\<open>newSM\<close>: a machine with the persisting hook.\<close>

definition newSM :: "state \<Rightarrow> instant \<Rightarrow> unit state_machine" where
  "newSM initial now = OnTransition () (sm_New initial now)"

text \<open>\<^verbatim>\<open>sess.sm.Transition(to)\<close>, and the hook calls it makes.\<close>

definition transition :: "('st, 'x) mgr \<Rightarrow> nat \<Rightarrow> state \<Rightarrow> (('st, 'x) mworld, goerror option) prog" where
  "transition mg a to =
     bind (act (\<lambda>w.
       case Transition to (mg_clock mg (mw_ticks w)) (mg_clock mg (Suc (mw_ticks w))) (ss_sm (mw_heap w ! a)) of
         (err, sm, calls) \<Rightarrow> ((err, calls), upd_heap a (\<lambda>s. s\<lparr>ss_sm := sm\<rparr>) (w\<lparr>mw_ticks := Suc (Suc (mw_ticks w))\<rparr>)))) (\<lambda>(err, calls).
     bind (for_each calls (\<lambda>_. persistSession mg a)) (\<lambda>_.
     Done err))"

section \<open>Slots\<close>

function alloc_from :: "int \<Rightarrow> (int, bool) gomap \<Rightarrow> int \<Rightarrow> int option" where
  "alloc_from maxSlots used i =
     (if maxSlots > 0 \<and> i \<ge> maxSlots then None
      else if gm_get used i \<noteq> Some True then Some i
      else alloc_from maxSlots used (i + 1))"
  by pat_completeness auto
termination
proof (relation "measure (\<lambda>(maxSlots, used, i). card {k \<in> set (gm_keys used). i \<le> k})")
  fix maxSlots i :: int and used :: "(int, bool) gomap"
  assume "\<not> gm_get used i \<noteq> Some True"
  then have "i \<in> set (gm_keys used)" by (force dest: map_of_SomeD)
  then have "i \<in> {k \<in> set (gm_keys used). i \<le> k} - {k \<in> set (gm_keys used). i + 1 \<le> k}" by simp
  moreover have "{k \<in> set (gm_keys used). i + 1 \<le> k} \<subseteq> {k \<in> set (gm_keys used). i \<le> k}" by auto
  ultimately have "{k \<in> set (gm_keys used). i + 1 \<le> k} \<subset> {k \<in> set (gm_keys used). i \<le> k}" by blast
  then have "card {k \<in> set (gm_keys used). i + 1 \<le> k} < card {k \<in> set (gm_keys used). i \<le> k}"
    by (intro psubset_card_mono) auto
  then show "((maxSlots, used, i + 1), (maxSlots, used, i)) \<in> measure (\<lambda>(maxSlots, used, i). card {k \<in> set (gm_keys used). i \<le> k})"
    by simp
qed simp

declare alloc_from.simps [simp del]

definition allocSlot :: "int \<Rightarrow> (int, bool) gomap \<Rightarrow> int option \<times> (int, bool) gomap" where
  "allocSlot maxSlots used =
     (if maxSlots > 0 \<and> int (length used) \<ge> maxSlots then (None, used)
      else
        (case alloc_from maxSlots used 0 of
           None \<Rightarrow> (None, used)
         | Some i \<Rightarrow> (Some i, gm_set i True used)))"

definition freeSlot :: "int \<Rightarrow> (('st, 'x) mworld, unit) prog" where
  "freeSlot slot = modify (\<lambda>w. w\<lparr>mw_used := gm_del slot (mw_used w)\<rparr>)"

definition no_slots :: "('st, 'x) mgr \<Rightarrow> goerror" where
  "no_slots mg = errorf (''no slots available (max '' @ Itoa (mg_maxSlots mg) @ '' concurrent sessions)'')"

section \<open>Creating\<close>

definition new_session :: "string \<Rightarrow> int \<Rightarrow> string \<Rightarrow> string \<Rightarrow> bool \<Rightarrow> string \<Rightarrow> string \<Rightarrow> instant \<Rightarrow> instant \<Rightarrow> session" where
  "new_session i slot repoURL branch devMode role prompt created entered =
     \<lparr>ss_ID = i, ss_Slot = slot, ss_RepoURL = normalizeRepoURL repoURL, ss_Branch = branch, ss_DevMode = devMode,
      ss_CreatedAt = created, ss_Error = [], ss_Role = role, ss_Prompt = prompt, ss_Result = [], ss_workspacePath = [],
      ss_sm = newSM StateProvisioning entered, ss_v = None, ss_bridge = None\<rparr>"

definition create_locked :: "('st, 'x) mgr \<Rightarrow> string \<Rightarrow> string \<Rightarrow> bool \<Rightarrow> string \<Rightarrow> string \<Rightarrow> (('st, 'x) mworld, nat option) prog" where
  "create_locked mg repoURL branch devMode role prompt = act (\<lambda>w.
     case allocSlot (mg_maxSlots mg) (mw_used w) of
       (None, used) \<Rightarrow> (None, w\<lparr>mw_used := used\<rparr>)
     | (Some slot, used) \<Rightarrow>
         (case mg_uuid mg (mw_ext w) of (i, x) \<Rightarrow>
            (let a = length (mw_heap w);
                 sess = new_session i slot repoURL branch devMode role prompt (mg_clock mg (mw_ticks w)) (mg_clock mg (Suc (mw_ticks w)))
             in (Some a, w\<lparr>mw_used := used, mw_ext := x, mw_ticks := Suc (Suc (mw_ticks w)),
                   mw_heap := mw_heap w @ [sess], mw_sessions := gm_set i a (mw_sessions w)\<rparr>))))"

definition manager_Create :: "('st, 'x) mgr \<Rightarrow> string \<Rightarrow> string \<Rightarrow> string \<Rightarrow> bool \<Rightarrow> string \<Rightarrow> string \<Rightarrow> (('st, 'x) mworld, nat result) prog" where
  "manager_Create mg repoURL branch githubToken devMode role prompt =
     bind (create_locked mg repoURL branch devMode (if role = [] then ''interactive'' else role) prompt) (\<lambda>r.
     case r of
       None \<Rightarrow> Done (Inl (no_slots mg))
     | Some a \<Rightarrow>
         bind (persistSession mg a) (\<lambda>_.
         bind (go_task (Boot a githubToken)) (\<lambda>_.
         Done (Inr a))))"

section \<open>Booting\<close>

definition ext_step :: "('x \<Rightarrow> 'a \<times> 'x) \<Rightarrow> (('st, 'x) mworld, 'a) prog" where
  "ext_step f = act (\<lambda>w. case f (mw_ext w) of (a, x) \<Rightarrow> (a, w\<lparr>mw_ext := x\<rparr>))"

definition fs_step :: "(fs \<Rightarrow> 'a \<times> fs) \<Rightarrow> (('st, 'x) mworld, 'a) prog" where
  "fs_step f = act (\<lambda>w. case f (mw_fs w) of (a, fs) \<Rightarrow> (a, w\<lparr>mw_fs := fs\<rparr>))"

definition panic :: "(('st, 'x) mworld, unit) prog" where
  "panic = modify (\<lambda>w. w\<lparr>mw_panic := True\<rparr>)"

definition loadSavedToken :: "('st, 'x) mgr \<Rightarrow> (('st, 'x) mworld, string) prog" where
  "loadSavedToken mg =
     bind (fs_step (ReadFile (mg_fsenv mg) (mg_credPath mg))) (\<lambda>r.
     Done (case r of Inl _ \<Rightarrow> [] | Inr data \<Rightarrow> TrimSpace data))"

definition saveToken :: "('st, 'x) mgr \<Rightarrow> string \<Rightarrow> (('st, 'x) mworld, goerror option) prog" where
  "saveToken mg token = fs_step (WriteFile (mg_fsenv mg) (mg_credPath mg) token)"

definition resolveToken :: "('st, 'x) mgr \<Rightarrow> string \<Rightarrow> (('st, 'x) mworld, string) prog" where
  "resolveToken mg githubToken =
     bind (case mg_prof mg of
             Some pe \<Rightarrow>
               if githubToken = [] then
                 bind (fs_step (profile_Load pe)) (\<lambda>r. Done (case r of Inr p \<Rightarrow> GitHubToken p | Inl _ \<Rightarrow> githubToken))
               else Done githubToken
           | None \<Rightarrow> Done githubToken) (\<lambda>token.
     if token = [] then loadSavedToken mg else Done token)"

definition repo_name :: "string \<Rightarrow> string" where
  "repo_name url = (let n = RepoName url in if n = [] \<and> url \<noteq> [] then ''repo'' else n)"

text \<open>The fetch of the bare repository and the clone on the host; a failure only leaves \<^verbatim>\<open>workspacePath\<close> empty.\<close>

definition prepareWorkspace :: "('st, 'x) mgr \<Rightarrow> nat \<Rightarrow> string \<Rightarrow> (('st, 'x) mworld, unit) prog" where
  "prepareWorkspace mg a token =
     bind (get_sess a) (\<lambda>sess.
     case mg_repoCache mg of
       None \<Rightarrow> Done ()
     | Some c \<Rightarrow>
         if ss_RepoURL sess = [] then Done ()
         else
           bind (ext_step (EnsureBareRepo (mg_host mg) c (ss_RepoURL sess) (repo_name (ss_RepoURL sess)) token)) (\<lambda>r.
           case r of
             Inl _ \<Rightarrow> Done ()
           | Inr barePath \<Rightarrow>
               bind (ext_step (LocalClone (mg_host mg) c barePath (ss_ID sess) (repo_name (ss_RepoURL sess)) (ss_Branch sess) (ss_RepoURL sess))) (\<lambda>r2.
               case r2 of
                 Inl _ \<Rightarrow> Done ()
               | Inr destPath \<Rightarrow> upd_sess a (\<lambda>s. s\<lparr>ss_workspacePath := destPath\<rparr>))))"

definition boot_fail :: "('st, 'x) mgr \<Rightarrow> nat \<Rightarrow> goerror \<Rightarrow> (('st, 'x) mworld, unit) prog" where
  "boot_fail mg a err =
     bind (modify (\<lambda>w. upd_heap a (\<lambda>s. s\<lparr>ss_Error := error_text err\<rparr>)
       (w\<lparr>mw_used := gm_del (ss_Slot (mw_heap w ! a)) (mw_used w)\<rparr>))) (\<lambda>_.
     bind (transition mg a StateFailed) (\<lambda>_. Done ()))"

definition deleteSnapshot :: "('st, 'x) mgr \<Rightarrow> string \<Rightarrow> (('st, 'x) mworld, unit) prog" where
  "deleteSnapshot mg i = bind (ext_call (CallDeleteSnapshot i) (mg_DeleteSnapshot mg i)) (\<lambda>_. Done ())"

definition stopVM :: "('st, 'x) mgr \<Rightarrow> vm_handle \<Rightarrow> (('st, 'x) mworld, unit) prog" where
  "stopVM mg v = bind (ext_call (CallVmStop v) (mg_VmStop mg v)) (\<lambda>_. Done ())"

definition run_setup :: "('st, 'x) mgr \<Rightarrow> string \<Rightarrow> string list \<Rightarrow> (('st, 'x) mworld, goerror option) prog" where
  "run_setup mg addr cmds = ext_call (CallRunSetup ''claude'' cmds) (mg_RunSetup mg ''claude'' addr cmds)"

definition vm_addr :: "int \<Rightarrow> string" where
  "vm_addr slot = SlotIP slot @ '':'' @ Itoa VMSSHPort"

subsection \<open>Ending a session\<close>

text \<open>The block that \<^verbatim>\<open>boot\<close> has three times and \<^verbatim>\<open>Stop\<close> once: end the context, stop the machine, delete the snapshot, free the slot.\<close>

definition release_vm :: "('st, 'x) mgr \<Rightarrow> nat \<Rightarrow> string \<Rightarrow> (('st, 'x) mworld, unit) prog" where
  "release_vm mg a i =
     bind (ext_call (CallCancel i) (\<lambda>x. ((), mg_cancel mg i x))) (\<lambda>_.
     bind (get_sess a) (\<lambda>sess.
     bind (case ss_v sess of
             None \<Rightarrow> Done ()
           | Some v \<Rightarrow>
               bind (stopVM mg v) (\<lambda>_.
               bind (get_sess a) (\<lambda>sess.
               ext_call (CallWaitDead (SlotIP (ss_Slot sess))) (\<lambda>x. ((), mg_WaitForVMDead mg (SlotIP (ss_Slot sess)) x))))) (\<lambda>_.
     bind (deleteSnapshot mg i) (\<lambda>_.
     bind (get_sess a) (\<lambda>sess.
     freeSlot (ss_Slot sess))))))"

definition remove_session :: "string \<Rightarrow> (('st, 'x) mworld, unit) prog" where
  "remove_session i = modify (\<lambda>w. w\<lparr>mw_sessions := gm_del i (mw_sessions w)\<rparr>)"

definition cleanup_workspace :: "('st, 'x) mgr \<Rightarrow> string \<Rightarrow> (('st, 'x) mworld, unit) prog" where
  "cleanup_workspace mg i =
     (case mg_repoCache mg of
        None \<Rightarrow> Done ()
      | Some c \<Rightarrow> ext_call (CallCleanupWorkspace i) (\<lambda>x. ((), CleanupWorkspace (mg_host mg) c i x)))"

definition store_forget :: "('st, 'x) mgr \<Rightarrow> string \<Rightarrow> (('st, 'x) mworld, unit) prog" where
  "store_forget mg i =
     (case mg_store mg of None \<Rightarrow> Done () | Some ops \<Rightarrow> bind (store_delete ops i) (\<lambda>_. Done ()))"

subsection \<open>The non-interactive path\<close>

definition claude_cmd :: "string \<Rightarrow> string" where
  "claude_cmd prompt = ''bash -lc '' @ shellQuote (''claude --dangerously-skip-permissions --output-format json -p '' @ shellQuote prompt)"

definition set_error :: "nat \<Rightarrow> string \<Rightarrow> (('st, 'x) mworld, unit) prog" where
  "set_error a msg = upd_sess a (\<lambda>s. s\<lparr>ss_Error := msg\<rparr>)"

definition drop_session :: "('st, 'x) mgr \<Rightarrow> nat \<Rightarrow> string \<Rightarrow> (('st, 'x) mworld, unit) prog" where
  "drop_session mg a i =
     bind (persistSession mg a) (\<lambda>_.
     bind (release_vm mg a i) (\<lambda>_.
     bind (remove_session i) (\<lambda>_.
     cleanup_workspace mg i)))"

definition usage_limit :: "('st, 'x) mgr \<Rightarrow> nat \<Rightarrow> string \<Rightarrow> (('st, 'x) mworld, unit) prog" where
  "usage_limit mg a i =
     bind (set_error a ''usage limit reached'') (\<lambda>_.
     bind (transition mg a StateFailed) (\<lambda>_.
     drop_session mg a i))"

definition claude_failed :: "('st, 'x) mgr \<Rightarrow> nat \<Rightarrow> string \<Rightarrow> string \<Rightarrow> (('st, 'x) mworld, unit) prog" where
  "claude_failed mg a i stderr =
     bind (set_error a (if stderr = [] then ''claude exited with no output'' else stderr)) (\<lambda>_.
     bind (transition mg a StateFailed) (\<lambda>err.
     case err of
       Some _ \<Rightarrow> Done ()
     | None \<Rightarrow> drop_session mg a i))"

definition claude_done :: "('st, 'x) mgr \<Rightarrow> nat \<Rightarrow> string \<Rightarrow> string \<Rightarrow> (('st, 'x) mworld, unit) prog" where
  "claude_done mg a i result =
     bind (upd_sess a (\<lambda>s. s\<lparr>ss_Result := result\<rparr>)) (\<lambda>_.
     bind (transition mg a StateStopping) (\<lambda>_.
     bind (persistSession mg a) (\<lambda>_.
     bind (release_vm mg a i) (\<lambda>_.
     bind (transition mg a StateStopped) (\<lambda>_.
     bind (persistSession mg a) (\<lambda>_.
     bind (remove_session i) (\<lambda>_.
     cleanup_workspace mg i)))))))"

definition run_claude :: "('st, 'x) mgr \<Rightarrow> nat \<Rightarrow> (('st, 'x) mworld, unit) prog" where
  "run_claude mg a =
     bind (get_sess a) (\<lambda>sess.
     let i = ss_ID sess; cmd = claude_cmd (ss_Prompt sess) in
     case ss_bridge sess of
       None \<Rightarrow> panic
     | Some addr \<Rightarrow>
         bind (ext_call (CallRunCapture cmd) (mg_RunCapture mg addr cmd)) (\<lambda>(stdout, stderr, cmdErr).
         if IsUsageLimitError stderr then usage_limit mg a i
         else
           (case parseClaudeJSON stdout of (result, isError) \<Rightarrow>
              if isError \<or> (result = [] \<and> cmdErr \<noteq> None) then claude_failed mg a i stderr
              else claude_done mg a i result)))"

subsection \<open>Configuring the machine\<close>

definition ignore :: "(('st, 'x) mworld, 'a) prog \<Rightarrow> (('st, 'x) mworld, unit) prog" where
  "ignore p = bind p (\<lambda>_. Done ())"

definition nfs_mount :: "string \<Rightarrow> string \<Rightarrow> string \<Rightarrow> string" where
  "nfs_mount hostIP hostPath guestPath =
     ''sudo mount -t nfs '' @ hostIP @ '':'' @ hostPath @ '' '' @ guestPath @ '' -o vers=4,noatime,soft''"

definition mountGoCache :: "('st, 'x) mgr \<Rightarrow> string \<Rightarrow> (('st, 'x) mworld, goerror option) prog" where
  "mountGoCache mg addr =
     run_setup mg addr
       [''mkdir -p '' @ ''/home/claude/.cache/go-build'',
        nfs_mount (mg_devHostIP mg) ''/opt/rubbish/go-cache'' ''/home/claude/.cache/go-build'']"

definition mountWorkspace :: "('st, 'x) mgr \<Rightarrow> string \<Rightarrow> string \<Rightarrow> string \<Rightarrow> (('st, 'x) mworld, goerror option) prog" where
  "mountWorkspace mg addr hostPath repoName =
     (let guestMount = ''/home/claude/workspace/'' @ repoName in
      run_setup mg addr [''sudo mkdir -p '' @ guestMount, nfs_mount (mg_devHostIP mg) hostPath guestMount])"

definition injectKey :: "('st, 'x) mgr \<Rightarrow> string \<Rightarrow> (('st, 'x) mworld, unit) prog" where
  "injectKey mg addr =
     (case mg_signer mg of
        None \<Rightarrow> Done ()
      | Some key \<Rightarrow>
          (let cmds =
             [''passwd -u claude 2>/dev/null || true'', ''mkdir -p /home/claude/.ssh'',
              ''echo '' @ TrimRight key nl @ '' > /home/claude/.ssh/authorized_keys'',
              ''chmod 700 /home/claude/.ssh'', ''chmod 600 /home/claude/.ssh/authorized_keys'',
              ''chown -R claude:claude /home/claude/.ssh'']
           in ignore (ext_call (CallRunSetup ''root'' cmds) (mg_RunSetup mg ''root'' addr cmds))))"

definition configureGit :: "('st, 'x) mgr \<Rightarrow> string \<Rightarrow> string \<Rightarrow> string \<Rightarrow> (('st, 'x) mworld, unit) prog" where
  "configureGit mg addr githubToken token =
     (if token = [] then Done ()
      else
        bind (if githubToken \<noteq> [] then ignore (saveToken mg githubToken) else Done ()) (\<lambda>_.
        ignore (run_setup mg addr
          [''git config --global credential.helper store'',
           ''printf '' @ squote @ ''https://oauth2:'' @ token @ ''@github.com'' @ bslash @ ''n'' @ squote @ '' > ~/.git-credentials''])))"

text \<open>Mounting the workspace: the error it fails with, if it does.\<close>

definition attachWorkspace :: "('st, 'x) mgr \<Rightarrow> nat \<Rightarrow> string \<Rightarrow> (('st, 'x) mworld, goerror option) prog" where
  "attachWorkspace mg a addr =
     bind (get_sess a) (\<lambda>sess.
     if ss_RepoURL sess = [] then Done None
     else
       bind (get_sess a) (\<lambda>sess.
       if ss_workspacePath sess = [] then
         Done (Some (errorf (''workspace not prepared for '' @ ss_RepoURL sess @ '': bare-repo clone failed earlier'')))
       else
         bind (mountWorkspace mg addr (ss_workspacePath sess) (repo_name (ss_RepoURL sess))) (\<lambda>err.
         Done (case err of Some e \<Rightarrow> Some (errorf_w ''mount workspace: '' e []) | None \<Rightarrow> None))))"

definition node_script :: "string \<Rightarrow> string" where
  "node_script wsPath =
     ''const fs=require('fs'),h=require('os').homedir(),p=h+'/.claude.json';'' @
     ''let c={};try{c=JSON.parse(fs.readFileSync(p,'utf8'))}catch(_){}c.hasCompletedOnboarding=true;'' @
     ''try{const v=require('child_process').execSync('claude --version 2>/dev/null').toString().split(' ')[0].trim();'' @
     ''c.lastOnboardingVersion=v;c.lastReleaseNotesSeen=v}catch(_){}if(!c.projects)c.projects={};'' @
     ''const wp='' @ wsPath @ '';if(wp){if(!c.projects[wp])c.projects[wp]={};c.projects[wp].hasTrustDialogAccepted=true;}'' @
     ''fs.writeFileSync(p,JSON.stringify(c),{mode:0o600})''"

definition configureProfile :: "('st, 'x) mgr \<Rightarrow> string \<Rightarrow> string \<Rightarrow> (('st, 'x) mworld, unit) prog" where
  "configureProfile mg addr repoName =
     (case mg_prof mg of
        None \<Rightarrow> Done ()
      | Some pe \<Rightarrow>
          bind (fs_step (profile_Load pe)) (\<lambda>r.
          case r of
            Inl _ \<Rightarrow> Done ()
          | Inr p \<Rightarrow>
              if ClaudeOAuthToken p = [] then Done ()
              else
                (let wsPath = (if repoName \<noteq> [] then ''/home/claude/workspace/'' @ repoName else [])
                 in ignore (run_setup mg addr
                      [''printf '' @ squote @ ''export CLAUDE_CODE_OAUTH_TOKEN='' @ ClaudeOAuthToken p @ bslash @ ''n'' @ squote @ '' >> ~/.profile'',
                       ''chmod 600 ~/.profile'',
                       ''node -e '' @ shellQuote (node_script (mg_quote mg wsPath))]))))"

definition configureHost :: "('st, 'x) mgr \<Rightarrow> string \<Rightarrow> string \<Rightarrow> (('st, 'x) mworld, unit) prog" where
  "configureHost mg addr sid =
     (let vmHostname = ''rubbish-'' @ sid in
      bind (ignore (run_setup mg addr
        [''sudo hostname '' @ vmHostname, ''echo '' @ vmHostname @ '' | sudo tee /etc/hostname > /dev/null''])) (\<lambda>_.
      ignore (run_setup mg addr
        [''printf '' @ squote @ ''export GOTOOLCHAIN=local'' @ bslash @ ''nexport PATH=/usr/local/go/bin:$PATH'' @ bslash @ ''n'' @ squote @ '' >> ~/.profile''])))"

subsection \<open>Developer files\<close>

definition devSeedDir :: string where "devSeedDir = ''/opt/rubbish/dev-seed''"
definition nfsBase :: string where "nfsBase = ''/opt/rubbish/claude-shared''"

definition injectFile :: "('st, 'x) mgr \<Rightarrow> string \<Rightarrow> string \<Rightarrow> string \<Rightarrow> (('st, 'x) mworld, goerror option) prog" where
  "injectFile mg addr srcPath dstPath =
     bind (fs_step (ReadFile (mg_fsenv mg) srcPath)) (\<lambda>r.
     case r of
       Inl e \<Rightarrow> Done (Some (errorf_w (''read '' @ srcPath @ '': '') e []))
     | Inr data \<Rightarrow> run_setup mg addr [''echo '' @ squote @ base64 data @ squote @ '' | base64 -d > '' @ dstPath])"

text \<open>Run steps in order until one fails, with the label its error gets.\<close>

fun try_all :: "((('st, 'x) mworld, goerror option) prog \<times> string) list \<Rightarrow> (('st, 'x) mworld, goerror option) prog" where
  "try_all [] = Done None"
| "try_all ((p, label) # ps) =
     bind p (\<lambda>r. case r of Some e \<Rightarrow> Done (Some (errorf_w label e [])) | None \<Rightarrow> try_all ps)"

definition lenient :: "(('st, 'x) mworld, goerror option) prog \<Rightarrow> (('st, 'x) mworld, goerror option) prog" where
  "lenient p = bind p (\<lambda>_. Done None)"

definition seedKnownHosts :: "('st, 'x) mgr \<Rightarrow> string \<Rightarrow> string \<Rightarrow> (('st, 'x) mworld, unit) prog" where
  "seedKnownHosts mg addr vmSSHDir =
     bind (fs_step (ReadFile (mg_fsenv mg) (devSeedDir @ ''/known_hosts''))) (\<lambda>r.
     case r of
       Inl _ \<Rightarrow> Done ()
     | Inr knownHosts \<Rightarrow>
         if length knownHosts > 0 then
           bind (injectFile mg addr (devSeedDir @ ''/known_hosts'') (vmSSHDir @ ''/known_hosts'')) (\<lambda>err.
           case err of
             Some _ \<Rightarrow> Done ()
           | None \<Rightarrow> ignore (run_setup mg addr [''chmod 644 '' @ vmSSHDir @ ''/known_hosts'']))
         else Done ())"

definition seedDevFiles :: "('st, 'x) mgr \<Rightarrow> string \<Rightarrow> (('st, 'x) mworld, goerror option) prog" where
  "seedDevFiles mg addr =
     (let hostIP = mg_devHostIP mg;
          vmHome = ''/home/claude'';
          vmGlobalMem = vmHome @ ''/.claude/memory'';
          vmProjects = vmHome @ ''/.claude/projects'';
          vmSSHDir = vmHome @ ''/.ssh'';
          sshConfig = ''Host '' @ hostIP @ nl @ ''  User claude'' @ nl @ ''  IdentityFile '' @ vmSSHDir @ ''/id_deploy'' @ nl @ ''  StrictHostKeyChecking yes'' @ nl
      in bind (try_all
           [(run_setup mg addr [''mkdir -p '' @ vmHome @ ''/.claude'', ''mkdir -p '' @ vmGlobalMem, ''mkdir -p '' @ vmProjects, ''mkdir -p '' @ vmSSHDir],
             ''seed mkdirs: ''),
            (lenient (injectFile mg addr (devSeedDir @ ''/claude/CLAUDE.md'') (vmHome @ ''/.claude/CLAUDE.md'')), []),
            (run_setup mg addr [nfs_mount hostIP (nfsBase @ ''/memory'') vmGlobalMem, nfs_mount hostIP (nfsBase @ ''/projects'') vmProjects],
             ''nfs mount: ''),
            (injectFile mg addr (devSeedDir @ ''/id_deploy'') (vmSSHDir @ ''/id_deploy''), ''inject deploy key: ''),
            (run_setup mg addr [''chmod 600 '' @ vmSSHDir @ ''/id_deploy''], ''chmod deploy key: ''),
            (run_setup mg addr [''echo '' @ base64 sshConfig @ '' | base64 -d > '' @ vmSSHDir @ ''/config'', ''chmod 600 '' @ vmSSHDir @ ''/config''],
             ''ssh config: '')]) (\<lambda>err.
         case err of
           Some e \<Rightarrow> Done (Some e)
         | None \<Rightarrow> bind (seedKnownHosts mg addr vmSSHDir) (\<lambda>_. Done None)))"

subsection \<open>The boot goroutine\<close>

definition boot_ready :: "('st, 'x) mgr \<Rightarrow> nat \<Rightarrow> (('st, 'x) mworld, unit) prog" where
  "boot_ready mg a =
     bind (transition mg a StateReady) (\<lambda>err.
     case err of
       Some _ \<Rightarrow> Done ()
     | None \<Rightarrow>
         bind (get_sess a) (\<lambda>sess.
         if ss_Role sess \<noteq> ''interactive'' then run_claude mg a else Done ()))"

definition boot_configure :: "('st, 'x) mgr \<Rightarrow> nat \<Rightarrow> string \<Rightarrow> string \<Rightarrow> (('st, 'x) mworld, unit) prog" where
  "boot_configure mg a githubToken token =
     bind (get_sess a) (\<lambda>sess.
     let addr = vm_addr (ss_Slot sess) in
     bind (upd_sess a (\<lambda>s. s\<lparr>ss_bridge := Some addr\<rparr>)) (\<lambda>_.
     bind (injectKey mg addr) (\<lambda>_.
     bind (configureGit mg addr githubToken token) (\<lambda>_.
     bind (attachWorkspace mg a addr) (\<lambda>err.
     case err of
       Some e \<Rightarrow> boot_fail mg a e
     | None \<Rightarrow>
         bind (ignore (mountGoCache mg addr)) (\<lambda>_.
         bind (configureHost mg addr (take 8 (ss_ID sess))) (\<lambda>_.
         bind (configureProfile mg addr (repo_name (ss_RepoURL sess))) (\<lambda>_.
         bind (if ss_DevMode sess then ignore (seedDevFiles mg addr) else Done ()) (\<lambda>_.
         boot_ready mg a)))))))))"

definition boot_ssh :: "('st, 'x) mgr \<Rightarrow> nat \<Rightarrow> string \<Rightarrow> string \<Rightarrow> string \<Rightarrow> vm_handle \<Rightarrow> (('st, 'x) mworld, unit) prog" where
  "boot_ssh mg a i githubToken token v =
     bind (transition mg a StateWaitingSSH) (\<lambda>err.
     case err of
       Some _ \<Rightarrow> bind (stopVM mg v) (\<lambda>_. deleteSnapshot mg i)
     | None \<Rightarrow>
         bind (ext_call (CallWaitForSSH (case v of Launched s \<Rightarrow> s | Detached s \<Rightarrow> s)) (mg_WaitForSSH mg (case v of Launched s \<Rightarrow> s | Detached s \<Rightarrow> s))) (\<lambda>err.
         case err of
           Some e \<Rightarrow>
             bind (stopVM mg v) (\<lambda>_.
             bind (deleteSnapshot mg i) (\<lambda>_.
             boot_fail mg a (errorf_w ''wait for ssh: '' e [])))
         | None \<Rightarrow>
             bind (transition mg a StateConfiguring) (\<lambda>err.
             case err of
               Some _ \<Rightarrow> Done ()
             | None \<Rightarrow> boot_configure mg a githubToken token)))"

definition boot_launch :: "('st, 'x) mgr \<Rightarrow> nat \<Rightarrow> string \<Rightarrow> string \<Rightarrow> string \<Rightarrow> string \<Rightarrow> (('st, 'x) mworld, unit) prog" where
  "boot_launch mg a i githubToken token device =
     bind (transition mg a StateBooting) (\<lambda>err.
     case err of
       Some _ \<Rightarrow> deleteSnapshot mg i
     | None \<Rightarrow>
         bind (get_sess a) (\<lambda>sess.
         bind (ext_call (CallLaunch (ss_Slot sess)) (mg_Launch mg (ss_Slot sess) device (if ss_DevMode sess then 2048 else 512))) (\<lambda>err.
         case err of
           Some e \<Rightarrow> bind (deleteSnapshot mg i) (\<lambda>_. boot_fail mg a (errorf_w ''launch vm: '' e []))
         | None \<Rightarrow>
             (let v = Launched (ss_Slot sess) in
              bind (upd_sess a (\<lambda>s. s\<lparr>ss_v := Some v\<rparr>)) (\<lambda>_.
              boot_ssh mg a i githubToken token v)))))"

definition boot :: "('st, 'x) mgr \<Rightarrow> nat \<Rightarrow> string \<Rightarrow> (('st, 'x) mworld, unit) prog" where
  "boot mg a githubToken =
     bind (resolveToken mg githubToken) (\<lambda>token.
     bind (prepareWorkspace mg a token) (\<lambda>_.
     bind (get_sess a) (\<lambda>sess.
     let i = ss_ID sess in
     bind (ext_call (CallCreateSnapshot i) (mg_CreateSnapshot mg i)) (\<lambda>r.
     case r of
       Inl e \<Rightarrow> boot_fail mg a (errorf_w ''create snapshot: '' e [])
     | Inr device \<Rightarrow>
         bind (get_sess a) (\<lambda>sess.
         bind (ext_call (CallInject device) (mg_Inject mg device (SlotIP (ss_Slot sess)) ''172.16.0.1'')) (\<lambda>err.
         case err of
           Some e \<Rightarrow> bind (deleteSnapshot mg i) (\<lambda>_. boot_fail mg a (errorf_w ''inject network: '' e []))
         | None \<Rightarrow> boot_launch mg a i githubToken token device))))))"

section \<open>Looking up\<close>

definition manager_Get :: "string \<Rightarrow> (('st, 'x) mworld, nat option) prog" where
  "manager_Get i = read (\<lambda>w. gm_get (mw_sessions w) i)"

definition manager_List :: "('st, 'x) mworld \<Rightarrow> nat list" where
  "manager_List w = sort_key (\<lambda>a. ss_CreatedAt (mw_heap w ! a)) (map snd (mw_sessions w))"

text \<open>The JSON of a session: \<^verbatim>\<open>omitempty\<close> drops empty strings and false.\<close>

definition omit_str :: "string \<Rightarrow> string \<Rightarrow> (string \<times> json) list" where
  "omit_str k v = (if v = [] then [] else [(k, JStr v)])"

definition session_json :: "session \<Rightarrow> json" where
  "session_json s = JObj (
     [(''id'', JStr (ss_ID s)), (''slot'', JNum (Itoa (ss_Slot s))), (''status'', JStr (state_str (sess_state s))),
      (''repo_url'', JStr (ss_RepoURL s))] @ omit_str ''branch'' (ss_Branch s) @
     (if ss_DevMode s then [(''dev_mode'', JBool True)] else []) @ [(''created_at'', JStr (rfc3339 (ss_CreatedAt s)))] @
     omit_str ''error'' (ss_Error s) @ omit_str ''role'' (ss_Role s) @ omit_str ''prompt'' (ss_Prompt s) @ omit_str ''result'' (ss_Result s))"

section \<open>Stopping\<close>

text \<open>The clean-up goroutine of \<^verbatim>\<open>Stop\<close>.\<close>

definition stop_cleanup :: "('st, 'x) mgr \<Rightarrow> nat \<Rightarrow> string \<Rightarrow> (('st, 'x) mworld, unit) prog" where
  "stop_cleanup mg a i =
     bind (release_vm mg a i) (\<lambda>_.
     bind (transition mg a StateStopped) (\<lambda>_.
     bind (remove_session i) (\<lambda>_.
     bind (store_forget mg i) (\<lambda>_.
     cleanup_workspace mg i))))"

definition session_not_found :: "string \<Rightarrow> goerror" where
  "session_not_found i = errorf (''session '' @ i @ '' not found'')"

definition manager_Stop :: "('st, 'x) mgr \<Rightarrow> string \<Rightarrow> (('st, 'x) mworld, goerror option) prog" where
  "manager_Stop mg i =
     bind (read (\<lambda>w. gm_get (mw_sessions w) i)) (\<lambda>r.
     case r of
       None \<Rightarrow> Done (Some (session_not_found i))
     | Some a \<Rightarrow>
         bind (transition mg a StateStopping) (\<lambda>err.
         case err of
           None \<Rightarrow> bind (go_task (Cleanup a i)) (\<lambda>_. Done None)
         | Some e \<Rightarrow>
             if \<not> errors_Is e ErrInvalidTransition then Done (Some e)
             else
               bind (get_sess a) (\<lambda>sess.
               case sess_state sess of
                 StateStopped \<Rightarrow> bind (remove_session i) (\<lambda>_. bind (store_forget mg i) (\<lambda>_. Done None))
               | StateFailed \<Rightarrow> bind (remove_session i) (\<lambda>_. bind (store_forget mg i) (\<lambda>_. Done None))
               | StateStopping \<Rightarrow> Done None
               | _ \<Rightarrow> Done (Some e))))"

fun stop_each :: "('st, 'x) mgr \<Rightarrow> string list \<Rightarrow> (('st, 'x) mworld, unit) prog" where
  "stop_each mg [] = Done ()"
| "stop_each mg (i # is) = bind (manager_Stop mg i) (\<lambda>_. stop_each mg is)"

definition manager_StopAll :: "('st, 'x) mgr \<Rightarrow> (('st, 'x) mworld, unit) prog" where
  "manager_StopAll mg = bind (read (\<lambda>w. gm_keys (mw_sessions w))) (stop_each mg)"

section \<open>Restarting\<close>

definition restart_locked :: "('st, 'x) mgr \<Rightarrow> string \<Rightarrow> (('st, 'x) mworld, nat result) prog" where
  "restart_locked mg i = act (\<lambda>w.
     case gm_get (mw_sessions w) i of
       None \<Rightarrow> (Inl (session_not_found i), w)
     | Some a \<Rightarrow>
         (let sess = mw_heap w ! a in
          if sess_state sess \<noteq> StateStopped then
            (Inl (errorf (''session '' @ i @ '' is not stopped (status: '' @ state_str (sess_state sess) @ '')'')), w)
          else
            (case allocSlot (mg_maxSlots mg) (mw_used w) of
               (None, used) \<Rightarrow> (Inl (no_slots mg), w\<lparr>mw_used := used\<rparr>)
             | (Some slot, used) \<Rightarrow>
                 (Inr a, upd_heap a (\<lambda>s. s\<lparr>ss_Slot := slot, ss_v := None, ss_bridge := None, ss_Error := [],
                                          ss_sm := newSM StateProvisioning (mg_clock mg (mw_ticks w))\<rparr>)
                           (w\<lparr>mw_used := used, mw_ticks := Suc (mw_ticks w)\<rparr>)))))"

definition manager_Restart :: "('st, 'x) mgr \<Rightarrow> string \<Rightarrow> (('st, 'x) mworld, goerror option) prog" where
  "manager_Restart mg i =
     bind (restart_locked mg i) (\<lambda>r.
     case r of
       Inl e \<Rightarrow> Done (Some e)
     | Inr a \<Rightarrow>
         bind (persistSession mg a) (\<lambda>_.
         bind (go_task (Boot a [])) (\<lambda>_. Done None)))"

section \<open>The interface for workflows and MCP\<close>

definition CreateSession :: "('st, 'x) mgr \<Rightarrow> string \<Rightarrow> string \<Rightarrow> string \<Rightarrow> string \<Rightarrow> (('st, 'x) mworld, string result) prog" where
  "CreateSession mg role prompt repoURL branch =
     bind (manager_Create mg repoURL branch [] False role prompt) (\<lambda>r.
     case r of
       Inl e \<Rightarrow> Done (Inl e)
     | Inr a \<Rightarrow> bind (get_sess a) (\<lambda>sess. Done (Inr (ss_ID sess))))"

definition usage_limit_error :: goerror where
  "usage_limit_error = GoError ''usage limit reached'' [ErrUsageLimit]"

definition failed_error :: "string \<Rightarrow> goerror" where
  "failed_error msg =
     (if str_Contains msg ''usage limit''
      then errorf_w (''session failed: '' @ msg @ '': '') usage_limit_error []
      else errorf (''session failed: '' @ msg))"

text \<open>One look at the session: \<^const>\<open>None\<close> while it is in neither final state.\<close>

definition poll_session :: "('st, 'x) mgr \<Rightarrow> string \<Rightarrow> (('st, 'x) mworld, string result option) prog" where
  "poll_session mg i =
     (case mg_store mg of
        Some ops \<Rightarrow>
          bind (act (\<lambda>w. case so_Get ops i (mw_store w) of (r, st) \<Rightarrow> (r, w\<lparr>mw_store := st\<rparr>))) (\<lambda>r.
          Done (case r of
            Inl e \<Rightarrow> Some (Inl (errorf_w ''WaitForSession store.Get: '' e []))
          | Inr None \<Rightarrow> Some (Inl (session_not_found i))
          | Inr (Some row) \<Rightarrow>
              (case state_of (row_Status row) of
                 StateStopped \<Rightarrow> Some (Inr (row_Result row))
               | StateFailed \<Rightarrow> Some (Inl (failed_error (row_ErrorMsg row)))
               | _ \<Rightarrow> None)))
      | None \<Rightarrow>
          bind (read (\<lambda>w. gm_get (mw_sessions w) i)) (\<lambda>r.
          case r of
            None \<Rightarrow> Done (Some (Inl (session_not_found i)))
          | Some a \<Rightarrow>
              bind (get_sess a) (\<lambda>sess.
              case sess_state sess of
                StateStopped \<Rightarrow> bind (get_sess a) (\<lambda>sess. Done (Some (Inr (ss_Result sess))))
              | StateFailed \<Rightarrow> bind (get_sess a) (\<lambda>sess. Done (Some (Inl (failed_error (ss_Error sess)))))
              | _ \<Rightarrow> Done None)))"

text \<open>The fuel bounds the number of ticks waited for; \<open>Blocked\<close> means the caller is still waiting.\<close>

fun WaitForSession :: "nat \<Rightarrow> ('st, 'x) mgr \<Rightarrow> string \<Rightarrow> (('st, 'x) mworld, string result progress) prog" where
  "WaitForSession 0 mg i = Done Blocked"
| "WaitForSession (Suc n) mg i =
     bind (ext_step (mg_tick mg)) (\<lambda>c.
     case c of
       Some e \<Rightarrow> Done (Ret (Inl e))
     | None \<Rightarrow>
         bind (poll_session mg i) (\<lambda>r.
         case r of
           Some res \<Rightarrow> Done (Ret res)
         | None \<Rightarrow> WaitForSession n mg i))"

definition GetSession :: "('st, 'x) mgr \<Rightarrow> string \<Rightarrow> (('st, 'x) mworld, row option) prog" where
  "GetSession mg i =
     (case mg_store mg of
        Some ops \<Rightarrow>
          bind (act (\<lambda>w. case so_Get ops i (mw_store w) of (r, st) \<Rightarrow> (r, w\<lparr>mw_store := st\<rparr>))) (\<lambda>r.
          Done (case r of Inl _ \<Rightarrow> None | Inr g \<Rightarrow> g))
      | None \<Rightarrow>
          bind (read (\<lambda>w. gm_get (mw_sessions w) i)) (\<lambda>r.
          case r of
            None \<Rightarrow> Done None
          | Some a \<Rightarrow> bind (get_sess a) (\<lambda>sess. Done (Some (session_row sess zero_time)))))"

fun rows_of :: "nat list \<Rightarrow> (('st, 'x) mworld, row list) prog" where
  "rows_of [] = Done []"
| "rows_of (a # as) = bind (get_sess a) (\<lambda>sess. bind (rows_of as) (\<lambda>rs. Done (session_row sess zero_time # rs)))"

definition ListSessions :: "('st, 'x) mgr \<Rightarrow> (('st, 'x) mworld, row list result) prog" where
  "ListSessions mg =
     (case mg_store mg of
        Some ops \<Rightarrow> act (\<lambda>w. case so_List ops (mw_store w) of (r, st) \<Rightarrow> (r, w\<lparr>mw_store := st\<rparr>))
      | None \<Rightarrow> bind (read manager_List) (\<lambda>as. bind (rows_of as) (\<lambda>rs. Done (Inr rs))))"

section \<open>Recovering after a restart of the server\<close>

definition loaded_session :: "row \<Rightarrow> session" where
  "loaded_session r =
     \<lparr>ss_ID = row_ID r, ss_Slot = row_Slot r, ss_RepoURL = row_RepoURL r, ss_Branch = row_Branch r, ss_DevMode = row_DevMode r,
      ss_CreatedAt = row_CreatedAt r, ss_Error = row_ErrorMsg r, ss_Role = [], ss_Prompt = [], ss_Result = [], ss_workspacePath = [],
      ss_sm = newSM (state_of (row_Status r)) 0, ss_v = None, ss_bridge = None\<rparr>"

definition failed_row :: "row \<Rightarrow> string \<Rightarrow> instant \<Rightarrow> row" where
  "failed_row r msg now = zero_row\<lparr>row_ID := row_ID r, row_Slot := row_Slot r, row_Status := state_str StateFailed,
     row_RepoURL := row_RepoURL r, row_Branch := row_Branch r, row_ErrorMsg := msg, row_DevMode := row_DevMode r,
     row_CreatedAt := row_CreatedAt r, row_UpdatedAt := now\<rparr>"

text \<open>A row whose machine is gone: a failed session, and the row rewritten.\<close>

definition load_failed :: "('st, 'x) mgr \<Rightarrow> 'st store_ops \<Rightarrow> row \<Rightarrow> string \<Rightarrow> (('st, 'x) mworld, session) prog" where
  "load_failed mg ops r msg =
     bind (act (\<lambda>w. ((mg_clock mg (mw_ticks w), mg_clock mg (Suc (mw_ticks w))), w\<lparr>mw_ticks := Suc (Suc (mw_ticks w))\<rparr>))) (\<lambda>(entered, now).
     bind (store_upsert ops (failed_row r msg now)) (\<lambda>_.
     Done ((loaded_session r)\<lparr>ss_Error := msg, ss_sm := newSM StateFailed entered\<rparr>)))"

text \<open>The session a row becomes, and whether its slot is live.\<close>

definition load_row :: "('st, 'x) mgr \<Rightarrow> 'st store_ops \<Rightarrow> row \<Rightarrow> (('st, 'x) mworld, session \<times> bool) prog" where
  "load_row mg ops r =
     (let status = state_of (row_Status r); slot = row_Slot r in
      if status = StateReady then
        bind (ext_step (mg_IsSocketAlive mg slot)) (\<lambda>alive.
        if alive then
          bind (act (\<lambda>w. (mg_clock mg (mw_ticks w), w\<lparr>mw_ticks := Suc (mw_ticks w)\<rparr>))) (\<lambda>entered.
          Done ((loaded_session r)\<lparr>ss_sm := newSM StateReady entered, ss_v := Some (Detached slot), ss_bridge := Some (vm_addr slot)\<rparr>, True))
        else
          bind (load_failed mg ops r ''lost on host restart'') (\<lambda>s. Done (s, False)))
      else if status \<in> {StateProvisioning, StateBooting, StateWaitingSSH, StateConfiguring, StateStopping} then
        bind (ext_step (mg_IsSocketAlive mg slot)) (\<lambda>alive.
        bind (if alive then stopVM mg (Detached slot) else Done ()) (\<lambda>_.
        bind (load_failed mg ops r ''lost on server restart'') (\<lambda>s. Done (s, False))))
      else
        bind (act (\<lambda>w. (mg_clock mg (mw_ticks w), w\<lparr>mw_ticks := Suc (mw_ticks w)\<rparr>))) (\<lambda>entered.
        Done ((loaded_session r)\<lparr>ss_sm := newSM status entered\<rparr>, False)))"

text \<open>
  The loop over the rows, with the live slots so far. Every iteration logs \<^verbatim>\<open>row.ID[:8]\<close>, which
  panics on an ID shorter than eight bytes. A slot counts as used from the moment its live
  session was loaded, also for the rows after it.
\<close>

fun load_rows :: "('st, 'x) mgr \<Rightarrow> 'st store_ops \<Rightarrow> row list \<Rightarrow> int list \<Rightarrow> (('st, 'x) mworld, int list option) prog" where
  "load_rows mg ops [] live = Done (Some live)"
| "load_rows mg ops (r # rs) live =
     bind (load_row mg ops r) (\<lambda>(sess, alive).
     if length (row_ID r) < 8 then bind panic (\<lambda>_. Done None)
     else
       (let live' = (if alive then row_Slot r # live else live) in
        bind (modify (\<lambda>w. w\<lparr>mw_heap := mw_heap w @ [sess], mw_sessions := gm_set (row_ID r) (length (mw_heap w)) (mw_sessions w),
                mw_used := (if row_Slot r \<in> set live' then gm_set (row_Slot r) True (mw_used w) else mw_used w)\<rparr>)) (\<lambda>_.
        load_rows mg ops rs live')))"

definition loadFromDB :: "('st, 'x) mgr \<Rightarrow> (('st, 'x) mworld, unit) prog" where
  "loadFromDB mg =
     (case mg_store mg of
        None \<Rightarrow> Done ()
      | Some ops \<Rightarrow>
          bind (act (\<lambda>w. case so_List ops (mw_store w) of (r, st) \<Rightarrow> (r, w\<lparr>mw_store := st\<rparr>))) (\<lambda>r.
          case r of
            Inl _ \<Rightarrow> Done ()
          | Inr rows \<Rightarrow>
              bind (load_rows mg ops rows []) (\<lambda>live.
              case live of
                None \<Rightarrow> Done ()
              | Some live \<Rightarrow> bind (ext_step (mg_CleanupOrphans mg (\<lambda>s. s \<in> set live))) (\<lambda>_. Done ()))))"

section \<open>Tasks\<close>

fun task_prog :: "('st, 'x) mgr \<Rightarrow> task \<Rightarrow> (('st, 'x) mworld, unit) prog" where
  "task_prog mg (Boot a token) = boot mg a token"
| "task_prog mg (Cleanup a i) = stop_cleanup mg a i"

end
