(* ===== verification/Session_Contract.thy ===== *)
theory Session_Contract
  imports Session_Store
begin

text \<open>
  The contract of \<^verbatim>\<open>sessionstore.Store\<close> as a locale: what each method returns and does to the
  rows and favorites a store stands for. \<^verbatim>\<open>JSONStore\<close> is shown to keep it on a working file
  system, which rests on the round trip through the file format.
\<close>

section \<open>The contract\<close>

definition row_ok :: "row \<Rightarrow> bool" where
  "row_ok r \<longleftrightarrow> list_all utf8_valid [row_ID r, row_Status r, row_RepoURL r, row_Branch r, row_ErrorMsg r,
       row_Role r, row_Prompt r, row_Result r] \<and> - (2 ^ 63) \<le> row_Slot r \<and> row_Slot r < 2 ^ 63 \<and>
     time_ok (row_CreatedAt r) \<and> time_ok (row_UpdatedAt r)"

definition favorite_ok :: "favorite \<Rightarrow> bool" where
  "favorite_ok f \<longleftrightarrow> list_all utf8_valid [fav_ID f, fav_Name f, fav_RepoURL f, fav_Branch f] \<and> time_ok (fav_CreatedAt f)"

text \<open>A list of all the values of a map, each stored under its own key, in the order of \<open>key\<close>.\<close>

definition enumerates :: "('a \<Rightarrow> string) \<Rightarrow> ('a \<Rightarrow> int) \<Rightarrow> (string \<Rightarrow> 'a option) \<Rightarrow> 'a list \<Rightarrow> bool" where
  "enumerates ident key m xs \<longleftrightarrow> sorted (map key xs) \<and> distinct (map ident xs) \<and> (\<forall>x. x \<in> set xs \<longleftrightarrow> m (ident x) = Some x)"

text \<open>
  A store may keep its times less exactly than they were given: \<open>kt\<close> is the time it keeps, and
  \<open>rok\<close> and \<open>fok\<close> say which values it takes; plain ones among them.
\<close>

definition kept :: "(instant \<Rightarrow> instant) \<Rightarrow> row \<Rightarrow> row" where
  "kept kt r = r\<lparr>row_CreatedAt := kt (row_CreatedAt r), row_UpdatedAt := kt (row_UpdatedAt r)\<rparr>"

definition kept_fav :: "(instant \<Rightarrow> instant) \<Rightarrow> favorite \<Rightarrow> favorite" where
  "kept_fav kt f = f\<lparr>fav_CreatedAt := kt (fav_CreatedAt f)\<rparr>"

definition plain_texts :: "string list \<Rightarrow> bool" where
  "plain_texts ts \<longleftrightarrow> (\<forall>t\<in>set ts. CHR 0x00 \<notin> set t)"

definition plain_row :: "row \<Rightarrow> bool" where
  "plain_row r \<longleftrightarrow> plain_texts [row_ID r, row_Status r, row_RepoURL r, row_Branch r, row_ErrorMsg r, row_Role r, row_Prompt r, row_Result r] \<and>
     - (2 ^ 31) \<le> row_Slot r \<and> row_Slot r < 2 ^ 31"

definition plain_favorite :: "favorite \<Rightarrow> bool" where
  "plain_favorite f \<longleftrightarrow> plain_texts [fav_ID f, fav_Name f, fav_RepoURL f, fav_Branch f]"

lemma kept_id [simp]: "kept (\<lambda>t. t) r = r" "kept_fav (\<lambda>t. t) f = f"
  by (simp_all add: kept_def kept_fav_def)

lemma kept_sel [simp]:
  "row_ID (kept kt r) = row_ID r" "row_Slot (kept kt r) = row_Slot r" "row_Status (kept kt r) = row_Status r"
  "row_RepoURL (kept kt r) = row_RepoURL r" "row_Branch (kept kt r) = row_Branch r" "row_DevMode (kept kt r) = row_DevMode r"
  "row_ErrorMsg (kept kt r) = row_ErrorMsg r" "row_Role (kept kt r) = row_Role r" "row_Prompt (kept kt r) = row_Prompt r"
  "row_Result (kept kt r) = row_Result r" "row_CreatedAt (kept kt r) = kt (row_CreatedAt r)" "row_UpdatedAt (kept kt r) = kt (row_UpdatedAt r)"
  "fav_ID (kept_fav kt f) = fav_ID f" "fav_Name (kept_fav kt f) = fav_Name f" "fav_RepoURL (kept_fav kt f) = fav_RepoURL f"
  "fav_Branch (kept_fav kt f) = fav_Branch f" "fav_CreatedAt (kept_fav kt f) = kt (fav_CreatedAt f)"
  by (simp_all add: kept_def kept_fav_def)

locale row_store =
  fixes ops :: "'st store_ops" and inv :: "'st \<Rightarrow> bool"
    and rows :: "'st \<Rightarrow> string \<Rightarrow> row option" and favs :: "'st \<Rightarrow> string \<Rightarrow> favorite option"
    and rok :: "row \<Rightarrow> bool" and fok :: "favorite \<Rightarrow> bool" and kt :: "instant \<Rightarrow> instant"
  assumes Upsert_kept: "inv s \<Longrightarrow> rok r \<Longrightarrow> so_Upsert ops r s = (e, s') \<Longrightarrow>
      e = None \<and> inv s' \<and> rows s' = (rows s)(row_ID r \<mapsto> kept kt r) \<and> favs s' = favs s"
    and Delete: "inv s \<Longrightarrow> so_Delete ops i s = (e, s') \<Longrightarrow>
      e = None \<and> inv s' \<and> rows s' = (rows s)(i := None) \<and> favs s' = favs s"
    and Get: "inv s \<Longrightarrow> so_Get ops i s = (g, s') \<Longrightarrow>
      g = Inr (rows s i) \<and> inv s' \<and> rows s' = rows s \<and> favs s' = favs s"
    and List: "inv s \<Longrightarrow> so_List ops s = (l, s') \<Longrightarrow>
      (\<exists>xs. l = Inr xs \<and> enumerates row_ID row_CreatedAt (rows s) xs) \<and> inv s' \<and> rows s' = rows s \<and> favs s' = favs s"
    and UpsertFavorite_kept: "inv s \<Longrightarrow> fok f \<Longrightarrow> so_UpsertFavorite ops f s = (e, s') \<Longrightarrow>
      e = None \<and> inv s' \<and> favs s' = (favs s)(fav_ID f \<mapsto> kept_fav kt f) \<and> rows s' = rows s"
    and DeleteFavorite: "inv s \<Longrightarrow> so_DeleteFavorite ops i s = (e, s') \<Longrightarrow>
      e = None \<and> inv s' \<and> favs s' = (favs s)(i := None) \<and> rows s' = rows s"
    and ListFavorites: "inv s \<Longrightarrow> so_ListFavorites ops s = (fl, s') \<Longrightarrow>
      (\<exists>xs. fl = Inr xs \<and> enumerates fav_ID fav_CreatedAt (favs s) xs) \<and> inv s' \<and> favs s' = favs s \<and> rows s' = rows s"
    and plain: "row_ok r \<Longrightarrow> plain_row r \<Longrightarrow> rok r"
    and plain_fav: "favorite_ok f \<Longrightarrow> plain_favorite f \<Longrightarrow> fok f"
    and kt_seconds: "kt (t + n * 1000000000) = kt t + n * 1000000000"
begin

lemma get_upsert:
  assumes "inv s" and "rok r"
  shows "fst (so_Get ops i (snd (so_Upsert ops r s))) = Inr (if i = row_ID r then Some (kept kt r) else rows s i)"
proof -
  obtain e s' where u: "so_Upsert ops r s = (e, s')" by fastforce
  obtain g s'' where g: "so_Get ops i s' = (g, s'')" by fastforce
  from Upsert_kept [OF assms u] Get [OF _ g] u g show ?thesis by auto
qed

lemma get_delete:
  assumes "inv s"
  shows "fst (so_Get ops i (snd (so_Delete ops j s))) = Inr (if i = j then None else rows s i)"
proof -
  obtain e s' where u: "so_Delete ops j s = (e, s')" by fastforce
  obtain g s'' where g: "so_Get ops i s' = (g, s'')" by fastforce
  from Delete [OF assms u] Get [OF _ g] u g show ?thesis by auto
qed

end

text \<open>A store that takes every value that fits the Go types and keeps it as it is.\<close>

locale session_store = row_store ops inv rows favs row_ok favorite_ok "\<lambda>t. t"
  for ops :: "'st store_ops" and inv rows favs
begin

lemma Upsert: "inv s \<Longrightarrow> row_ok r \<Longrightarrow> so_Upsert ops r s = (e, s') \<Longrightarrow>
    e = None \<and> inv s' \<and> rows s' = (rows s)(row_ID r \<mapsto> r) \<and> favs s' = favs s"
  using Upsert_kept by simp

lemma UpsertFavorite: "inv s \<Longrightarrow> favorite_ok f \<Longrightarrow> so_UpsertFavorite ops f s = (e, s') \<Longrightarrow>
    e = None \<and> inv s' \<and> favs s' = (favs s)(fav_ID f \<mapsto> f) \<and> rows s' = rows s"
  using UpsertFavorite_kept by simp

end

section \<open>The file format round trip\<close>

lemma fold_max_const: "list_all (\<lambda>x. f x \<le> (n :: nat)) xs \<Longrightarrow> m \<le> n \<Longrightarrow> fold max (map f xs) m \<le> n"
  by (induction xs arbitrary: m) auto

lemma dec_row_json: "row_ok r \<Longrightarrow> dec_row (json_fix (row_json r)) = Some r"
  by (simp add: row_json_def row_ok_def utf8_valid_def field_values_def fold_char_def Atoi_Itoa rfc3339_roundtrip
      utf8_fix_ascii)

lemma dec_favorite_json: "favorite_ok f \<Longrightarrow> dec_favorite (json_fix (favorite_json f)) = Some f"
  by (simp add: favorite_json_def favorite_ok_def utf8_valid_def field_values_def fold_char_def rfc3339_roundtrip
      utf8_fix_ascii)

lemma gm_wf_sort [simp]: "gm_wf (sort_key fst (m :: (string, 'v) gomap)) = gm_wf m"
  by (simp add: gm_wf_def distinct_map)

lemma gm_get_sort [simp]: "gm_wf m \<Longrightarrow> gm_get (sort_key fst (m :: (string, 'v) gomap)) = gm_get m"
proof
  fix k assume wf: "gm_wf m"
  then have "gm_wf (sort_key fst m)" by simp
  from gm_get_mem [OF this, of k] gm_get_mem [OF wf, of k]
  have "gm_get (sort_key fst m) k = Some v \<longleftrightarrow> gm_get m k = Some v" for v by simp
  then show "gm_get (sort_key fst m) k = gm_get m k" by (metis option.exhaust)
qed

text \<open>What the store keeps of its maps: every value under its own ID, and writable.\<close>

definition map_ok :: "('a \<Rightarrow> string) \<Rightarrow> ('a \<Rightarrow> bool) \<Rightarrow> (string, 'a) gomap \<Rightarrow> bool" where
  "map_ok ident ok m \<longleftrightarrow> gm_wf m \<and> (\<forall>(k, x) \<in> set m. ident x = k \<and> ok x)"

definition data_ok :: "storeData \<Rightarrow> bool" where
  "data_ok d \<longleftrightarrow> map_ok row_ID row_ok (sd_Sessions d) \<and> map_ok fav_ID favorite_ok (sd_Favorites d)"

lemma map_ok_Nil [simp]: "map_ok ident ok []"
  by (simp add: map_ok_def)

lemma map_ok_sort [simp]: "map_ok ident ok (sort_key fst m) = map_ok ident ok m"
  by (simp add: map_ok_def)

lemma set_gm_set: "set (gm_set k v m) \<subseteq> insert (k, v) (set m)"
  by (induction m) auto

lemma set_gm_del: "set (gm_del k m) \<subseteq> set m"
  by (auto simp: AList.delete_eq)

lemma map_ok_set [intro]: "map_ok ident ok m \<Longrightarrow> ok x \<Longrightarrow> map_ok ident ok (gm_set (ident x) x m)"
  unfolding map_ok_def using set_gm_set [of "ident x" x m] by fastforce

lemma map_ok_del [intro]: "map_ok ident ok m \<Longrightarrow> map_ok ident ok (gm_del k m)"
  unfolding map_ok_def using set_gm_del [of k m] by fastforce

lemma json_fix_map:
  assumes "map_ok ident ok m" and "\<And>x. ok x \<Longrightarrow> utf8_valid (ident x)"
  shows "map (\<lambda>kv. (utf8_fix (fst kv), json_fix (enc (snd kv)))) m = map (\<lambda>kv. (fst kv, (json_fix \<circ> enc) (snd kv))) m"
  using assms by (auto simp: map_ok_def utf8_valid_def)

lemma row_ok_ID: "row_ok r \<Longrightarrow> utf8_valid (row_ID r)"
  by (simp add: row_ok_def)

lemma favorite_ok_ID: "favorite_ok f \<Longrightarrow> utf8_valid (fav_ID f)"
  by (simp add: favorite_ok_def)

lemma json_fix_data:
  assumes "data_ok d"
  shows "json_fix (data_json d) = JObj
     [(''sessions'', JObj (map (\<lambda>kv. (fst kv, (json_fix \<circ> row_json) (snd kv))) (sort_key fst (sd_Sessions d)))),
      (''favorites'', JObj (map (\<lambda>kv. (fst kv, (json_fix \<circ> favorite_json) (snd kv))) (sort_key fst (sd_Favorites d))))]"
proof -
  have s: "map_ok row_ID row_ok (sort_key fst (sd_Sessions d))" and f: "map_ok fav_ID favorite_ok (sort_key fst (sd_Favorites d))"
    using assms by (simp_all add: data_ok_def)
  show ?thesis
    using json_fix_map [OF s row_ok_ID, of row_json] json_fix_map [OF f favorite_ok_ID, of favorite_json]
    by (simp add: data_json_def utf8_fix_ascii comp_def)
qed

lemma json_ok_data: "json_nums_ok (data_json d)" "json_depth (data_json d) \<le> maxNestingDepth"
proof -
  show "json_nums_ok (data_json d)"
    by (simp add: data_json_def row_json_def favorite_json_def list_all_iff)
  have r: "json_depth (row_json r) = 1" for r by (simp add: row_json_def)
  have f: "json_depth (favorite_json f) = 1" for f by (simp add: favorite_json_def)
  have "fold max (map (\<lambda>kv. json_depth (row_json (snd kv))) xs) 0 \<le> 1" for xs :: "(string, row) gomap"
    by (rule fold_max_const) (simp_all add: r list_all_iff)
  moreover have "fold max (map (\<lambda>kv. json_depth (favorite_json (snd kv))) xs) 0 \<le> 1" for xs :: "(string, favorite) gomap"
    by (rule fold_max_const) (simp_all add: f list_all_iff)
  ultimately have "json_depth (data_json d) \<le> 3" by (simp add: data_json_def comp_def)
  then show "json_depth (data_json d) \<le> maxNestingDepth" by (simp add: maxNestingDepth_def)
qed

lemma dec_members_json:
  assumes "map_ok ident ok m" and "\<And>x. ok x \<Longrightarrow> f (json_fix (enc x)) = Some x"
  shows "dec_members f [] (map (\<lambda>kv. (fst kv, (json_fix \<circ> enc) (snd kv))) m) = Some m"
proof -
  have "dec_members f [] (map (\<lambda>kv. (fst kv, (json_fix \<circ> enc) (snd kv))) m) = Some ([] @ m)"
    using assms by (intro dec_members_map) (auto simp: map_ok_def gm_wf_def)
  then show ?thesis by simp
qed

lemma unmarshal_marshal:
  assumes "data_ok d" and "s0 = None \<or> s0 = Some []" and "f0 = None \<or> f0 = Some []"
  shows "unmarshal_store s0 f0 (json_print (data_json d)) =
    Some (Some (sort_key fst (sd_Sessions d)), Some (sort_key fst (sd_Favorites d)))"
proof -
  have "map_ok row_ID row_ok (sort_key fst (sd_Sessions d))" "map_ok fav_ID favorite_ok (sort_key fst (sd_Favorites d))"
    using assms by (simp_all add: data_ok_def)
  from dec_members_json [OF this(1) dec_row_json] dec_members_json [OF this(2) dec_favorite_json] assms(2,3)
  show ?thesis
    unfolding unmarshal_store_def json_roundtrip [OF json_ok_data] json_fix_data [OF assms(1)]
    by (auto simp: field_values_def fold_char_def)
qed

lemma marshal_ok: "data_ok d \<Longrightarrow> marshal_store d = Inr (json_print (data_json d))"
  by (auto simp: marshal_store_def data_ok_def map_ok_def list_all_iff row_ok_def favorite_ok_def)

section \<open>JSONStore keeps the contract\<close>

text \<open>
  What the file says, where it can be read, agrees with the maps in memory; and the file system
  works. A file that does not parse is ignored, as \<^verbatim>\<open>Open\<close> does.
\<close>

definition file_agrees :: "string \<Rightarrow> storeData \<Rightarrow> bool" where
  "file_agrees b d \<longleftrightarrow> (\<forall>ss ff. b \<noteq> [] \<longrightarrow> unmarshal_store None None b = Some (ss, ff) \<longrightarrow>
     (\<forall>m. ss = Some m \<longrightarrow> map_ok row_ID row_ok m \<and> gm_get m = gm_get (sd_Sessions d)) \<and>
     (\<forall>m. ff = Some m \<longrightarrow> map_ok fav_ID favorite_ok m \<and> gm_get m = gm_get (sd_Favorites d)))"

definition js_inv :: "js_env \<Rightarrow> jsonstore \<Rightarrow> bool" where
  "js_inv je s \<longleftrightarrow> data_ok (js_data s) \<and> fs_quiet (je_fs je) (je_dir je) ''.store-'' ''.tmp'' (je_path je) (js_fs s) \<and>
     (\<forall>b. fs_get (js_fs s) (je_path je) = Some b \<longrightarrow> file_agrees b (js_data s))"

definition js_rows :: "jsonstore \<Rightarrow> string \<Rightarrow> row option" where
  "js_rows s = gm_get (sd_Sessions (js_data s))"

definition js_favs :: "jsonstore \<Rightarrow> string \<Rightarrow> favorite option" where
  "js_favs s = gm_get (sd_Favorites (js_data s))"

lemma file_agrees_saved: "data_ok d \<Longrightarrow> file_agrees (json_print (data_json d)) d"
  by (auto simp: file_agrees_def unmarshal_marshal data_ok_def map_ok_def [of _ _ "sd_Sessions d"]
      map_ok_def [of _ _ "sd_Favorites d"])

lemma js_save_ok:
  assumes "data_ok (js_data s)" and "fs_quiet (je_fs je) (je_dir je) ''.store-'' ''.tmp'' (je_path je) (js_fs s)"
    and "js_save je s = (e, s')"
  shows "e = None \<and> js_inv je s' \<and> js_data s' = js_data s \<and>
    fs_get (js_fs s') (je_path je) = Some (json_print (data_json (js_data s)))"
proof -
  let ?b = "json_print (data_json (js_data s))"
  obtain r f where sv: "save_file (je_fs je) store_labels (je_dir je) ''.store-'' ''.tmp'' (je_path je) ?b (js_fs s) = (r, f)"
    by fastforce
  have q: "r = None" "fs_quiet (je_fs je) (je_dir je) ''.store-'' ''.tmp'' (je_path je) f"
    using save_file_quiet [OF assms(2), of store_labels ?b] sv by simp_all
  have "fs_get f (je_path je) = Some ?b"
    using save_file_atomic(1) [OF _ sv] assms(2) q(1) by (simp add: fs_quiet_def)
  with assms q sv show ?thesis
    by (auto simp: js_save_def marshal_ok js_inv_def file_agrees_saved)
qed

lemma js_reload_ok:
  assumes "js_inv je s"
  shows "js_inv je (js_reload je s)" and "js_rows (js_reload je s) = js_rows s" and "js_favs (js_reload je s) = js_favs s"
proof -
  have f: "fe_fault (je_fs je) n = None" for n using assms by (simp add: js_inv_def fs_quiet_def)
  have t: "fs_quiet a b c d p (fs_tick x) = fs_quiet a b c d p x" for a b c d p x by (simp add: fs_quiet_def)
  have "js_inv je (js_reload je s) \<and> js_rows (js_reload je s) = js_rows s \<and> js_favs (js_reload je s) = js_favs s"
  proof (cases "fs_get (js_fs s) (je_path je)")
    case None
    with assms f t show ?thesis by (simp add: js_reload_def ReadFile_def js_inv_def js_rows_def js_favs_def)
  next
    case (Some b)
    show ?thesis
    proof (cases "b = [] \<or> unmarshal_store None None b = None")
      case True
      with assms f t Some show ?thesis by (auto simp: js_reload_def ReadFile_def js_inv_def js_rows_def js_favs_def)
    next
      case False
      then obtain ss ff where u: "unmarshal_store None None b = Some (ss, ff)" by auto
      with assms False Some have a: "\<forall>m. ss = Some m \<longrightarrow> map_ok row_ID row_ok m \<and> gm_get m = gm_get (sd_Sessions (js_data s))"
        "\<forall>m. ff = Some m \<longrightarrow> map_ok fav_ID favorite_ok m \<and> gm_get m = gm_get (sd_Favorites (js_data s))"
        unfolding js_inv_def file_agrees_def by blast+
      let ?d = "\<lparr>sd_Sessions = (case ss of None \<Rightarrow> sd_Sessions (js_data s) | Some m \<Rightarrow> m),
                 sd_Favorites = (case ff of None \<Rightarrow> sd_Favorites (js_data s) | Some m \<Rightarrow> m)\<rparr>"
      have r: "js_reload je s = s\<lparr>js_fs := fs_tick (js_fs s), js_data := ?d\<rparr>"
        using False u Some f by (simp add: js_reload_def ReadFile_def)
      have ok: "data_ok ?d" using assms a by (auto simp: js_inv_def data_ok_def split: option.splits)
      have g: "gm_get (sd_Sessions ?d) = gm_get (sd_Sessions (js_data s))" "gm_get (sd_Favorites ?d) = gm_get (sd_Favorites (js_data s))"
        using a by (auto split: option.splits)
      have "file_agrees c ?d = file_agrees c (js_data s)" for c by (simp only: file_agrees_def g)
      then show ?thesis using assms ok g by (simp add: js_inv_def r t js_rows_def js_favs_def)
    qed
  qed
  then show "js_inv je (js_reload je s)" "js_rows (js_reload je s) = js_rows s" "js_favs (js_reload je s) = js_favs s"
    by blast+
qed

lemma map_ok_enumerates:
  assumes "map_ok ident ok m"
  shows "enumerates ident key (gm_get m) (sort_key key (map snd m))"
proof -
  have own: "ident x = k" if "(k, x) \<in> set m" for k x using assms that by (auto simp: map_ok_def)
  then have e: "map ident (map snd m) = map fst m" by auto
  have "distinct (map ident (map snd m))" unfolding e using assms by (simp add: map_ok_def gm_wf_def)
  then have "distinct (map ident (sort_key key (map snd m)))"
    unfolding distinct_map [of ident] distinct_sort set_sort .
  moreover have "x \<in> snd ` set m \<longleftrightarrow> gm_get m (ident x) = Some x" for x
  proof
    assume "x \<in> snd ` set m"
    then obtain k where k: "(k, x) \<in> set m" by auto
    with own [OF k] gm_get_mem [of m k x] assms show "gm_get m (ident x) = Some x" by (simp add: map_ok_def)
  next
    assume "gm_get m (ident x) = Some x"
    then show "x \<in> snd ` set m" using map_of_SomeD by force
  qed
  ultimately show ?thesis by (simp add: enumerates_def)
qed

lemma js_write_ok:
  assumes "js_inv je s" and "data_ok d" and "js_save je (s\<lparr>js_data := d\<rparr>) = (e, s')"
  shows "e = None \<and> js_inv je s' \<and> js_rows s' = gm_get (sd_Sessions d) \<and> js_favs s' = gm_get (sd_Favorites d)"
  using js_save_ok [OF _ _ assms(3)] assms(1,2) by (simp add: js_inv_def js_rows_def js_favs_def file_agrees_saved)

lemma data_ok_upd:
  "data_ok d \<Longrightarrow> row_ok r \<Longrightarrow> data_ok (d\<lparr>sd_Sessions := gm_set (row_ID r) r (sd_Sessions d)\<rparr>)"
  "data_ok d \<Longrightarrow> data_ok (d\<lparr>sd_Sessions := gm_del i (sd_Sessions d)\<rparr>)"
  "data_ok d \<Longrightarrow> favorite_ok f \<Longrightarrow> data_ok (d\<lparr>sd_Favorites := gm_set (fav_ID f) f (sd_Favorites d)\<rparr>)"
  "data_ok d \<Longrightarrow> data_ok (d\<lparr>sd_Favorites := gm_del i (sd_Favorites d)\<rparr>)"
  by (auto simp: data_ok_def)

interpretation js: session_store "js_ops je" "js_inv je" js_rows js_favs for je
proof unfold_locales
  fix s s' :: jsonstore and r e i g l f
  assume inv: "js_inv je s"
  then have ok: "data_ok (js_data s)" by (simp add: js_inv_def)
  have rel: "js_inv je (js_reload je s)" "js_rows (js_reload je s) = js_rows s" "js_favs (js_reload je s) = js_favs s"
    using js_reload_ok [OF inv] by blast+
  show "e = None \<and> js_inv je s' \<and> js_rows s' = (js_rows s)(row_ID r \<mapsto> kept (\<lambda>t. t) r) \<and> js_favs s' = js_favs s"
    if "row_ok r" "so_Upsert (js_ops je) r s = (e, s')"
    using js_write_ok [OF inv data_ok_upd(1) [OF ok that(1)], of e s'] that
    by (auto simp: js_ops_def js_Upsert_def set_sessions_def js_rows_def js_favs_def fun_eq_iff)
  show "e = None \<and> js_inv je s' \<and> js_rows s' = (js_rows s)(i := None) \<and> js_favs s' = js_favs s"
    if "so_Delete (js_ops je) i s = (e, s')"
    using js_write_ok [OF inv data_ok_upd(2) [OF ok], of i e s'] that
    by (auto simp: js_ops_def js_Delete_def set_sessions_def js_rows_def js_favs_def fun_eq_iff)
  show "e = None \<and> js_inv je s' \<and> js_favs s' = (js_favs s)(fav_ID f \<mapsto> kept_fav (\<lambda>t. t) f) \<and> js_rows s' = js_rows s"
    if "favorite_ok f" "so_UpsertFavorite (js_ops je) f s = (e, s')"
    using js_write_ok [OF inv data_ok_upd(3) [OF ok that(1)], of e s'] that
    by (auto simp: js_ops_def js_UpsertFavorite_def set_favorites_def js_rows_def js_favs_def fun_eq_iff)
  show "e = None \<and> js_inv je s' \<and> js_favs s' = (js_favs s)(i := None) \<and> js_rows s' = js_rows s"
    if "so_DeleteFavorite (js_ops je) i s = (e, s')"
    using js_write_ok [OF inv data_ok_upd(4) [OF ok], of i e s'] that
    by (auto simp: js_ops_def js_DeleteFavorite_def set_favorites_def js_rows_def js_favs_def fun_eq_iff)
  show "g = Inr (js_rows s i) \<and> js_inv je s' \<and> js_rows s' = js_rows s \<and> js_favs s' = js_favs s"
    if "so_Get (js_ops je) i s = (g, s')"
    using that rel by (auto simp: js_ops_def js_Get_def Let_def js_rows_def)
  show "(\<exists>xs. l = Inr xs \<and> enumerates row_ID row_CreatedAt (js_rows s) xs) \<and> js_inv je s' \<and> js_rows s' = js_rows s \<and> js_favs s' = js_favs s"
    if "so_List (js_ops je) s = (l, s')"
  proof -
    have "map_ok row_ID row_ok (sd_Sessions (js_data (js_reload je s)))" using rel(1) by (simp add: js_inv_def data_ok_def)
    from map_ok_enumerates [OF this, of row_CreatedAt] that rel show ?thesis by (auto simp: js_ops_def js_List_def Let_def js_rows_def)
  qed
  fix fl
  show "(\<exists>xs. fl = Inr xs \<and> enumerates fav_ID fav_CreatedAt (js_favs s) xs) \<and> js_inv je s' \<and> js_favs s' = js_favs s \<and> js_rows s' = js_rows s"
    if "so_ListFavorites (js_ops je) s = (fl, s')"
  proof -
    have "map_ok fav_ID favorite_ok (sd_Favorites (js_data (js_reload je s)))" using rel(1) by (simp add: js_inv_def data_ok_def)
    from map_ok_enumerates [OF this, of fav_CreatedAt] that rel show ?thesis by (auto simp: js_ops_def js_ListFavorites_def Let_def js_favs_def)
  qed
qed simp_all

section \<open>Opening the store again\<close>

lemma Open_ok:
  assumes "fs_quiet (je_fs je) (je_dir je) ''.store-'' ''.tmp'' (je_path je) fs0" and "fs_get fs0 (je_path je) = None"
  shows "store_Open je fs0 = (Inr empty_data, fs_tick fs0)" and "js_inv je \<lparr>js_data = empty_data, js_fs = fs_tick fs0\<rparr>"
  using assms by (simp_all add: store_Open_def ReadFile_def fs_quiet_def errors_Is_def js_inv_def data_ok_def empty_data_def)

lemma json_print_data_ne: "json_print (data_json d) \<noteq> []"
  by (simp add: data_json_def)

lemma reopen_saved:
  assumes "js_inv je s" and "fs_get (js_fs s) (je_path je) = Some (json_print (data_json (js_data s)))"
  shows "\<exists>d. fst (store_Open je (js_fs s)) = Inr d \<and> gm_get (sd_Sessions d) = js_rows s \<and> gm_get (sd_Favorites d) = js_favs s"
proof -
  have ok: "data_ok (js_data s)" and f: "fe_fault (je_fs je) n = None" for n
    using assms(1) by (simp_all add: js_inv_def fs_quiet_def)
  then show ?thesis
    using assms(2) json_print_data_ne [of "js_data s"]
    by (auto simp: store_Open_def ReadFile_def unmarshal_marshal [OF ok] js_rows_def js_favs_def data_ok_def map_ok_def)
qed

end
