(* ===== verification/Manager_Logic.thy ===== *)
theory Manager_Logic
  imports Session_Manager Session_Contract
begin

text \<open>
  A small program logic for the session manager run alone: triples over what a client can see of
  the world (one session, the map, the slots, the rows in the store), with the calls to the
  outside and the time stamps abstracted away. The lemmas about the store are proved once, in the
  locale of its contract.
\<close>

section \<open>Slots\<close>

lemma alloc_from_Some:
  "alloc_from m used i = Some k \<Longrightarrow> i \<le> k \<and> (m > 0 \<longrightarrow> k < m) \<and> gm_get used k \<noteq> Some True \<and>
     (\<forall>j. i \<le> j \<and> j < k \<longrightarrow> gm_get used j = Some True)"
proof (induction m used i rule: alloc_from.induct)
  case (1 m used i)
  show ?case
  proof (cases "(m > 0 \<and> i \<ge> m) \<or> gm_get used i \<noteq> Some True")
    case True
    with "1.prems" show ?thesis by (auto simp: alloc_from.simps [of m used i] split: if_splits)
  next
    case False
    then have "alloc_from m used (i + 1) = Some k" using "1.prems" by (auto simp: alloc_from.simps [of m used i] split: if_splits)
    with "1.IH" False have "i + 1 \<le> k \<and> (m > 0 \<longrightarrow> k < m) \<and> gm_get used k \<noteq> Some True \<and>
        (\<forall>j. i + 1 \<le> j \<and> j < k \<longrightarrow> gm_get used j = Some True)" by blast
    moreover have "gm_get used j = Some True" if "i \<le> j" "j < k" "\<not> i + 1 \<le> j" for j
      using False that by (metis add1_zle_eq antisym_conv2 linorder_not_le)
    ultimately show ?thesis by auto
  qed
qed

lemma alloc_from_None:
  "alloc_from m used i = None \<Longrightarrow> m > 0 \<and> (\<forall>j. i \<le> j \<and> j < m \<longrightarrow> gm_get used j = Some True)"
proof (induction m used i rule: alloc_from.induct)
  case (1 m used i)
  show ?case
  proof (cases "m > 0 \<and> i \<ge> m")
    case True
    then show ?thesis by auto
  next
    case False
    with "1.prems" have u: "gm_get used i = Some True" and "alloc_from m used (i + 1) = None"
      by (auto simp: alloc_from.simps [of m used i] split: if_splits)
    with "1.IH" False have "m > 0 \<and> (\<forall>j. i + 1 \<le> j \<and> j < m \<longrightarrow> gm_get used j = Some True)" by blast
    moreover have "gm_get used j = Some True" if "i \<le> j" "\<not> i + 1 \<le> j" for j
      using u that by (metis add1_zle_eq antisym_conv2)
    ultimately show ?thesis by auto
  qed
qed

section \<open>Triples\<close>

definition hoare :: "('s \<Rightarrow> bool) \<Rightarrow> ('s, 'a) prog \<Rightarrow> ('a \<Rightarrow> 's \<Rightarrow> bool) \<Rightarrow> bool" where
  "hoare P p Q \<longleftrightarrow> (\<forall>w. P w \<longrightarrow> Q (fst (exec p w)) (snd (exec p w)))"

named_theorems triples \<open>triples of the manager's operations\<close>

lemma hoare_bind: "hoare P p Q \<Longrightarrow> (\<And>r. hoare (Q r) (k r) R) \<Longrightarrow> hoare P (bind p k) R"
  by (simp add: hoare_def)

lemma hoare_Done: "(\<And>w. P w \<Longrightarrow> Q r w) \<Longrightarrow> hoare P (Done r) Q"
  by (simp add: hoare_def)

lemma hoare_weaken: "hoare P' p Q' \<Longrightarrow> (\<And>w. P w \<Longrightarrow> P' w) \<Longrightarrow> (\<And>r w. Q' r w \<Longrightarrow> Q r w) \<Longrightarrow> hoare P p Q"
  by (simp add: hoare_def)

lemma hoare_conseq: "hoare P p Q' \<Longrightarrow> (\<And>r w. Q' r w \<Longrightarrow> Q r w) \<Longrightarrow> hoare P p Q"
  by (simp add: hoare_def)

lemma hoare_False: "hoare (\<lambda>_. False) p Q"
  by (simp add: hoare_def)

lemma hoare_pure: "(c \<Longrightarrow> hoare P p Q) \<Longrightarrow> hoare (\<lambda>w. c \<and> P w) p Q"
  by (auto simp: hoare_def)

lemma hoare_act: "(\<And>w. P w \<Longrightarrow> Q (fst (f w)) (snd (f w))) \<Longrightarrow> hoare P (act f) Q"
  by (simp add: hoare_def)

text \<open>A session with the time of its last transition left out.\<close>

definition timeless :: "session \<Rightarrow> session" where
  "timeless s = s\<lparr>ss_sm := (ss_sm s)\<lparr>sm_enteredAt := 0\<rparr>\<rparr>"

text \<open>
  The view of the world that a session's goroutine has: its session, the map, the slots, and the
  rows in the store with the time of their last update left out. \<open>J\<close> is the store's invariant and
  \<open>R\<close> its rows.
\<close>

definition bare_rows :: "(string \<Rightarrow> row option) \<Rightarrow> string \<Rightarrow> row option" where
  "bare_rows D i = map_option (\<lambda>r. r\<lparr>row_UpdatedAt := 0\<rparr>) (D i)"

definition seen :: "('st \<Rightarrow> bool) \<Rightarrow> ('st \<Rightarrow> string \<Rightarrow> row option) \<Rightarrow> nat \<Rightarrow> session \<Rightarrow> (string \<Rightarrow> nat option) \<Rightarrow>
    (int \<Rightarrow> bool option) \<Rightarrow> (string \<Rightarrow> row option) \<Rightarrow> ('st, 'x) mworld \<Rightarrow> bool" where
  "seen J R a S M U D w \<longleftrightarrow> a < length (mw_heap w) \<and> timeless (mw_heap w ! a) = S \<and> sm_hooks (ss_sm S) = [()] \<and>
     gm_get (mw_sessions w) = M \<and> gm_get (mw_used w) = U \<and> J (mw_store w) \<and> bare_rows (R (mw_store w)) = D \<and> \<not> mw_panic w"

definition set_state :: "state \<Rightarrow> session \<Rightarrow> session" where
  "set_state st s = s\<lparr>ss_sm := (ss_sm s)\<lparr>sm_current := st\<rparr>\<rparr>"

lemma timeless_sel [simp]:
  "ss_ID (timeless s) = ss_ID s" "ss_Slot (timeless s) = ss_Slot s" "ss_RepoURL (timeless s) = ss_RepoURL s"
  "ss_Branch (timeless s) = ss_Branch s" "ss_DevMode (timeless s) = ss_DevMode s" "ss_CreatedAt (timeless s) = ss_CreatedAt s"
  "ss_Error (timeless s) = ss_Error s" "ss_Role (timeless s) = ss_Role s" "ss_Prompt (timeless s) = ss_Prompt s"
  "ss_Result (timeless s) = ss_Result s" "ss_workspacePath (timeless s) = ss_workspacePath s" "ss_v (timeless s) = ss_v s"
  "ss_bridge (timeless s) = ss_bridge s" "sess_state (timeless s) = sess_state s" "sm_hooks (ss_sm (timeless s)) = sm_hooks (ss_sm s)"
  by (simp_all add: timeless_def)

lemma session_row_timeless [simp]: "session_row (timeless s) t = session_row s t"
  by (simp add: session_row_def timeless_def)

lemma hoare_ext_call [triples]:
  "hoare (seen J R a S M U D) (ext_call c f) (\<lambda>r w. seen J R a S M U D w \<and> (\<exists>x. r = fst (f x)))"
  unfolding ext_call_def by (rule hoare_act) (auto simp: seen_def split: prod.splits, metis fst_conv)

lemma hoare_ext_step [triples]:
  "hoare (seen J R a S M U D) (ext_step f) (\<lambda>r w. seen J R a S M U D w \<and> (\<exists>x. r = fst (f x)))"
  unfolding ext_step_def by (rule hoare_act) (auto simp: seen_def split: prod.splits, metis fst_conv)

lemma hoare_fs_step [triples]: "hoare (seen J R a S M U D) (fs_step f) (\<lambda>r w. seen J R a S M U D w \<and> (\<exists>x. r = fst (f x)))"
  unfolding fs_step_def by (rule hoare_act) (auto simp: seen_def split: prod.splits, metis fst_conv)

lemma hoare_get_sess [triples]: "hoare (seen J R a S M U D) (get_sess a) (\<lambda>r w. timeless r = S \<and> seen J R a S M U D w)"
  unfolding get_sess_def read_def by (rule hoare_act) (simp add: seen_def)

lemma hoare_upd_sess:
  assumes "\<And>s. timeless (f s) = f (timeless s)" and "\<And>s. ss_sm (f s) = ss_sm s"
  shows "hoare (seen J R a S M U D) (upd_sess a f) (\<lambda>_. seen J R a (f S) M U D)"
  unfolding upd_sess_def modify_def by (rule hoare_act) (auto simp: seen_def upd_heap_def assms)

lemma hoare_set_error [triples]: "hoare (seen J R a S M U D) (set_error a msg) (\<lambda>_. seen J R a (S\<lparr>ss_Error := msg\<rparr>) M U D)"
  unfolding set_error_def by (rule hoare_upd_sess) (simp_all add: timeless_def)

lemma hoare_freeSlot [triples]: "hoare (seen J R a S M U D) (freeSlot slot) (\<lambda>_. seen J R a S M (U(slot := None)) D)"
  unfolding freeSlot_def modify_def by (rule hoare_act) (auto simp: seen_def fun_eq_iff)

lemma hoare_remove_session [triples]: "hoare (seen J R a S M U D) (remove_session i) (\<lambda>_. seen J R a S (M(i := None)) U D)"
  unfolding remove_session_def modify_def by (rule hoare_act) (auto simp: seen_def fun_eq_iff)

lemma hoare_go_task [triples]: "hoare (seen J R a S M U D) (go_task t) (\<lambda>_. seen J R a S M U D)"
  unfolding go_task_def modify_def by (rule hoare_act) (simp add: seen_def)

section \<open>Rows\<close>

definition storable :: "session \<Rightarrow> bool" where
  "storable s \<longleftrightarrow> list_all utf8_valid [ss_ID s, ss_RepoURL s, ss_Branch s, ss_Error s, ss_Role s, ss_Prompt s, ss_Result s] \<and>
     - (2 ^ 63) \<le> ss_Slot s \<and> ss_Slot s < 2 ^ 63 \<and> time_ok (ss_CreatedAt s) \<and> sess_state s \<in> set known_states"

definition clock_ok :: "('st, 'x) mgr \<Rightarrow> bool" where
  "clock_ok mg \<longleftrightarrow> (\<forall>n. time_ok (mg_clock mg n))"

lemma utf8_valid_known: "st \<in> set known_states \<Longrightarrow> utf8_valid (state_str st)"
  by (auto simp: known_states_def utf8_valid_def)

lemma storable_row: "storable s \<Longrightarrow> time_ok t \<Longrightarrow> row_ok (session_row s t)"
  by (simp add: storable_def row_ok_def session_row_def utf8_valid_known)

lemma storable_timeless [simp]: "storable (timeless s) = storable s"
  by (simp add: storable_def)

lemma storable_set_state: "storable s \<Longrightarrow> st \<in> set known_states \<Longrightarrow> storable (set_state st s)"
  by (simp add: storable_def set_state_def)

lemma row_bare: "(session_row s t)\<lparr>row_UpdatedAt := 0\<rparr> = session_row s 0"
  by (simp add: session_row_def)

context session_store
begin

lemma hoare_persist:
  fixes mg :: "('st, 'x) mgr"
  assumes "mg_store mg = Some ops" and "clock_ok mg" and "storable S"
  shows "hoare (seen inv rows a S M U D) (persistSession mg a) (\<lambda>_. seen inv rows a S M U (D(ss_ID S \<mapsto> session_row S 0)))"
  unfolding hoare_def
proof (intro allI impI)
  fix w :: "('st, 'x) mworld"
  assume w: "seen inv rows a S M U D w"
  let ?r = "session_row (mw_heap w ! a) (mg_clock mg (mw_ticks w))"
  obtain e st where u: "so_Upsert ops ?r (mw_store w) = (e, st)" by fastforce
  have S: "S = timeless (mw_heap w ! a)" using w by (simp add: seen_def)
  then have "row_ok ?r" using assms(2,3) storable_row [of "mw_heap w ! a"] by (simp add: clock_ok_def)
  then have st: "inv st" "rows st = (rows (mw_store w))(row_ID ?r \<mapsto> ?r)" using Upsert [OF _ _ u] w by (simp_all add: seen_def)
  have ex: "exec (persistSession mg a) w = ((), w\<lparr>mw_ticks := Suc (mw_ticks w), mw_store := st\<rparr>)"
    using u assms(1) by (simp add: persistSession_def store_upsert_def)
  have row: "?r\<lparr>row_UpdatedAt := 0\<rparr> = session_row S 0" "row_ID ?r = ss_ID S" by (simp_all add: S row_bare session_row_def)
  have "bare_rows (rows st) = D(ss_ID S \<mapsto> session_row S 0)"
    using w row by (auto simp: st(2) seen_def bare_rows_def fun_eq_iff)
  with ex w st(1) show "seen inv rows a S M U (D(ss_ID S \<mapsto> session_row S 0)) (snd (exec (persistSession mg a) w))"
    by (simp add: seen_def)
qed

lemma hoare_transition:
  fixes mg :: "('st, 'x) mgr"
  assumes "mg_store mg = Some ops" and "clock_ok mg" and "storable S" and "to \<in> set (validTransitions (sess_state S))"
  shows "hoare (seen inv rows a S M U D) (transition mg a to)
    (\<lambda>r w. r = None \<and> seen inv rows a (set_state to S) M U (D(ss_ID S \<mapsto> session_row (set_state to S) 0)) w)"
  unfolding hoare_def
proof (intro allI impI)
  fix w :: "('st, 'x) mworld"
  assume w: "seen inv rows a S M U D w"
  let ?s = "mw_heap w ! a"
  let ?sm = "(ss_sm ?s)\<lparr>sm_current := to, sm_enteredAt := mg_clock mg (Suc (mw_ticks w))\<rparr>"
  let ?w1 = "upd_heap a (\<lambda>s. s\<lparr>ss_sm := ?sm\<rparr>) (w\<lparr>mw_ticks := Suc (Suc (mw_ticks w))\<rparr>)"
  have S: "S = timeless ?s" "sm_hooks (ss_sm ?s) = [()]" using w by (auto simp: seen_def)
  have "seen inv rows a (set_state to S) M U D ?w1"
    using w S by (auto simp: seen_def upd_heap_def set_state_def timeless_def)
  moreover have "storable (set_state to S)" using assms(3,4) validTransitions_known storable_set_state by blast
  ultimately have p: "seen inv rows a (set_state to S) M U (D(ss_ID S \<mapsto> session_row (set_state to S) 0)) (snd (exec (persistSession mg a) ?w1))"
    using hoare_persist [OF assms(1,2)] unfolding hoare_def by (fastforce simp: set_state_def)
  have "exec (transition mg a to) w = (None, snd (exec (persistSession mg a) ?w1))"
    using assms(4) S by (simp add: transition_def Transition_def Let_def)
  with p show "fst (exec (transition mg a to) w) = None \<and>
      seen inv rows a (set_state to S) M U (D(ss_ID S \<mapsto> session_row (set_state to S) 0)) (snd (exec (transition mg a to) w))"
    by simp
qed

end

lemma hoare_transition_refused:
  fixes mg :: "('st, 'x) mgr"
  assumes "to \<notin> set (validTransitions (sess_state S))"
  shows "hoare (seen J R a S M U D) (transition mg a to)
    (\<lambda>r w. r = Some (invalid_transition (sess_state S) to) \<and> seen J R a S M U D w)"
  unfolding hoare_def
proof (intro allI impI)
  fix w :: "('st, 'x) mworld" assume w: "seen J R a S M U D w"
  then have "sess_state (mw_heap w ! a) = sess_state S" by (auto simp: seen_def)
  with assms w show "fst (exec (transition mg a to) w) = Some (invalid_transition (sess_state S) to) \<and>
      seen J R a S M U D (snd (exec (transition mg a to) w))"
    by (auto simp: transition_def Transition_def Let_def seen_def upd_heap_def)
qed

end
