(* ===== verification/Manager_Slots.thy ===== *)
theory Manager_Slots
  imports Manager_Logic
begin

text \<open>
  The slots of the session manager: which slot an allocation gives, and that the operations that
  allocate keep the slots of the active sessions apart.
\<close>

section \<open>Allocating\<close>

lemma full_slots:
  assumes "\<forall>j. 0 \<le> j \<and> j < m \<longrightarrow> gm_get used j = Some True"
  shows "m \<le> int (length used)"
proof -
  have "{0..<m} \<subseteq> set (gm_keys used)" using assms map_of_SomeD by force
  then have "card {0..<m} \<le> card (set (gm_keys used))" by (intro card_mono) auto
  also have "\<dots> \<le> length used" by (metis card_length length_map)
  finally show ?thesis by simp
qed

lemma allocSlot_Some:
  assumes "allocSlot m used = (Some k, used')"
  shows "0 \<le> k" and "m > 0 \<Longrightarrow> k < m" and "gm_get used k \<noteq> Some True"
    and "\<And>j. 0 \<le> j \<Longrightarrow> j < k \<Longrightarrow> gm_get used j = Some True" and "gm_get used' = (gm_get used)(k \<mapsto> True)"
proof -
  have "alloc_from m used 0 = Some k" "used' = gm_set k True used"
    using assms by (auto simp: allocSlot_def split: if_splits option.splits)
  with alloc_from_Some show "0 \<le> k" "m > 0 \<Longrightarrow> k < m" "gm_get used k \<noteq> Some True"
      "\<And>j. 0 \<le> j \<Longrightarrow> j < k \<Longrightarrow> gm_get used j = Some True" "gm_get used' = (gm_get used)(k \<mapsto> True)"
    by (auto simp: fun_eq_iff)
qed

lemma allocSlot_None:
  assumes "allocSlot m used = (None, used')"
  shows "used' = used" and "0 < m" and "m \<le> int (length used)"
proof -
  have "used' = used \<and> 0 < m \<and> m \<le> int (length used)"
    using assms alloc_from_None [of m used 0] full_slots [of m used]
    by (auto simp: allocSlot_def split: if_splits option.splits)
  then show "used' = used" "0 < m" "m \<le> int (length used)" by blast+
qed

text \<open>
  \<^verbatim>\<open>allocSlot\<close> gives the least slot that is not in use and marks it, below the limit if there
  is one; it gives none, and marks none, only when as many slots are in use as the limit allows.
\<close>

theorem allocSlot_least:
  "case allocSlot m used of
     (Some k, used') \<Rightarrow> 0 \<le> k \<and> (m > 0 \<longrightarrow> k < m) \<and> gm_get used k \<noteq> Some True \<and>
        (\<forall>j\<in>{0..<k}. gm_get used j = Some True) \<and> gm_get used' = (gm_get used)(k \<mapsto> True)
   | (None, used') \<Rightarrow> used' = used \<and> 0 < m \<and> m \<le> int (length used)"
  by (auto split: prod.splits option.splits dest: allocSlot_Some allocSlot_None)

theorem allocSlot_least_witness:
  "allocSlot 3 [(0, True), (2, True)] = (Some 1, [(0, True), (2, True), (1, True)]) \<and> gm_get [(0, True), (2, True)] (0::int) = Some True"
proof -
  have a: "allocSlot 3 [(0, True), (2, True)] = (Some 1, [(0, True), (2, True), (1, True)])" by code_simp
  with allocSlot_least [where m = 3 and used = "[(0, True), (2, True)]"] show ?thesis by auto
qed

section \<open>Slots of active sessions\<close>

definition active :: "session \<Rightarrow> bool" where
  "active s \<longleftrightarrow> sess_state s \<noteq> StateStopped \<and> sess_state s \<noteq> StateFailed"

text \<open>Every active session of the map holds a slot that is marked as used, and no two hold the same.\<close>

definition slots_inv :: "('st, 'x) mworld \<Rightarrow> bool" where
  "slots_inv w \<longleftrightarrow>
     (\<forall>i a. gm_get (mw_sessions w) i = Some a \<longrightarrow> a < length (mw_heap w)) \<and>
     (\<forall>i a. gm_get (mw_sessions w) i = Some a \<and> active (mw_heap w ! a) \<longrightarrow> gm_get (mw_used w) (ss_Slot (mw_heap w ! a)) = Some True) \<and>
     (\<forall>i a j b. gm_get (mw_sessions w) i = Some a \<and> gm_get (mw_sessions w) j = Some b \<and> a \<noteq> b \<and>
        active (mw_heap w ! a) \<and> active (mw_heap w ! b) \<longrightarrow> ss_Slot (mw_heap w ! a) \<noteq> ss_Slot (mw_heap w ! b))"

lemma exec_persist_sel [simp]:
  "mw_heap (snd (exec (persistSession mg a) w)) = mw_heap w"
  "mw_sessions (snd (exec (persistSession mg a) w)) = mw_sessions w"
  "mw_used (snd (exec (persistSession mg a) w)) = mw_used w"
  "mw_calls (snd (exec (persistSession mg a) w)) = mw_calls w"
  "mw_tasks (snd (exec (persistSession mg a) w)) = mw_tasks w"
  by (simp_all add: persistSession_def store_upsert_def split: option.splits prod.splits)

lemma slots_inv_cong:
  "mw_heap w' = mw_heap w \<Longrightarrow> mw_sessions w' = mw_sessions w \<Longrightarrow> mw_used w' = mw_used w \<Longrightarrow> slots_inv w' = slots_inv w"
  by (simp add: slots_inv_def)

text \<open>A session gets a slot that no active session has.\<close>

lemma slots_inv_alloc:
  assumes "slots_inv w" and "allocSlot m (mw_used w) = (Some k, used)"
    and "\<And>i b. gm_get (mw_sessions w') i = Some b \<Longrightarrow> b = a \<or> gm_get (mw_sessions w) i = Some b"
    and "\<And>b. b \<noteq> a \<Longrightarrow> b < length (mw_heap w) \<Longrightarrow> mw_heap w' ! b = mw_heap w ! b"
    and "a < length (mw_heap w')" and "length (mw_heap w) \<le> length (mw_heap w')"
    and "ss_Slot (mw_heap w' ! a) = k" and "mw_used w' = used"
  shows "slots_inv w'"
proof -
  have k: "gm_get (mw_used w) k \<noteq> Some True" and u: "gm_get used = (gm_get (mw_used w))(k \<mapsto> True)"
    using allocSlot_Some(3,5) [OF assms(2)] by auto
  have old: "gm_get (mw_sessions w) i = Some b \<and> b < length (mw_heap w) \<and> mw_heap w' ! b = mw_heap w ! b"
    if "gm_get (mw_sessions w') i = Some b" "b \<noteq> a" for i b
    using that assms(1,3,4) unfolding slots_inv_def by metis
  have slot: "gm_get (mw_used w) (ss_Slot (mw_heap w' ! b)) = Some True" if "gm_get (mw_sessions w') i = Some b" "b \<noteq> a" "active (mw_heap w' ! b)" for i b
    using old [OF that(1,2)] that(3) assms(1) unfolding slots_inv_def by metis
  show ?thesis
    unfolding slots_inv_def
  proof (intro conjI allI impI)
    fix i b assume b: "gm_get (mw_sessions w') i = Some b"
    show "b < length (mw_heap w')" using old [OF b] assms(5,6) by (cases "b = a") auto
  next
    fix i b assume "gm_get (mw_sessions w') i = Some b \<and> active (mw_heap w' ! b)"
    then show "gm_get (mw_used w') (ss_Slot (mw_heap w' ! b)) = Some True"
      using slot [of i b] assms(7,8) u by (cases "b = a") auto
  next
    fix i b j c
    assume h: "gm_get (mw_sessions w') i = Some b \<and> gm_get (mw_sessions w') j = Some c \<and> b \<noteq> c \<and> active (mw_heap w' ! b) \<and> active (mw_heap w' ! c)"
    show "ss_Slot (mw_heap w' ! b) \<noteq> ss_Slot (mw_heap w' ! c)"
    proof (cases "b = a \<or> c = a")
      case True
      with h slot [of i b] slot [of j c] assms(7) k show ?thesis by metis
    next
      case False
      with h old [of i b] old [of j c] assms(1) show ?thesis unfolding slots_inv_def by metis
    qed
  qed
qed

lemma slots_inv_create:
  assumes "slots_inv w"
  shows "slots_inv (snd (exec (create_locked mg repoURL branch devMode role prompt) w))"
proof (cases "allocSlot (mg_maxSlots mg) (mw_used w)")
  case (Pair r used)
  show ?thesis
  proof (cases r)
    case None
    with Pair allocSlot_None(1) [of "mg_maxSlots mg" "mw_used w" used] assms show ?thesis by (auto simp: create_locked_def slots_inv_def)
  next
    case (Some k)
    obtain i x where u: "mg_uuid mg (mw_ext w) = (i, x)" by fastforce
    show ?thesis
      by (rule slots_inv_alloc [OF assms, where a = "length (mw_heap w)" and k = k])
        (use Pair Some u in \<open>auto simp: create_locked_def Let_def nth_append new_session_def split: if_splits\<close>)
  qed
qed

lemma slots_inv_restart:
  assumes "slots_inv w"
  shows "slots_inv (snd (exec (restart_locked mg i) w))"
proof (cases "gm_get (mw_sessions w) i")
  case None
  with assms show ?thesis by (simp add: restart_locked_def)
next
  case (Some a)
  then have a: "a < length (mw_heap w)" using assms by (simp add: slots_inv_def)
  obtain r used where al: "allocSlot (mg_maxSlots mg) (mw_used w) = (r, used)" by fastforce
  show ?thesis
  proof (cases "sess_state (mw_heap w ! a) = StateStopped \<and> r \<noteq> None")
    case False
    with Some al allocSlot_None(1) [of "mg_maxSlots mg" "mw_used w" used] assms show ?thesis
      by (auto simp: restart_locked_def slots_inv_def Let_def split: option.splits)
  next
    case True
    then obtain k where k: "r = Some k" by auto
    show ?thesis
      by (rule slots_inv_alloc [OF assms, where a = a and k = k])
        (use al k True Some a in \<open>auto simp: restart_locked_def Let_def upd_heap_def\<close>)
  qed
qed

text \<open>
  (C25) Creating and restarting sessions keeps the slots apart: every active session in the map has
  a slot of its own that is marked as used, so no two machines get the same address, device and
  socket.
\<close>

theorem Create_keeps_slots:
  assumes "slots_inv w"
  shows "slots_inv (snd (exec (manager_Create mg repoURL branch token devMode role prompt) w)) \<and>
    slots_inv (snd (exec (manager_Restart mg i) w))"
proof
  have keep: "slots_inv (snd (exec (bind (persistSession mg a) (\<lambda>_. bind (go_task t) (\<lambda>_. Done r))) v)) = slots_inv v"
    for a t v and r :: 'r by (rule slots_inv_cong) (simp_all add: go_task_def)
  show "slots_inv (snd (exec (manager_Create mg repoURL branch token devMode role prompt) w))"
    using slots_inv_create [OF assms] keep by (auto simp: manager_Create_def split: option.splits)
  show "slots_inv (snd (exec (manager_Restart mg i) w))"
    using slots_inv_restart [OF assms] keep by (auto simp: manager_Restart_def split: sum.splits)
qed

section \<open>An example manager\<close>

text \<open>
  A host on which everything succeeds. The outside state counts the session numbers given out;
  \<open>claude\<close> is what the command in the machine prints.
\<close>

definition ok_host :: "nat host" where
  "ok_host = \<lparr>hx_exec = \<lambda>_ _ x. (([], None), x), hx_ctxErr = \<lambda>x. (None, x), hx_stat = \<lambda>_ x. (None, x),
     hx_MkdirAll = \<lambda>_ x. (None, x), hx_RemoveAll = \<lambda>_ x. (None, x), hx_Remove = \<lambda>_ x. (None, x), hx_MkdirTemp = \<lambda>_ x. (Inr ''/tmp/m'', x)\<rparr>"

definition ex_mgr :: "'st store_ops option \<Rightarrow> string \<times> string \<times> goerror option \<Rightarrow> ('st, nat) mgr" where
  "ex_mgr ops claude =
     \<lparr>mg_maxSlots = 2, mg_store = ops, mg_prof = None, mg_fsenv = \<lparr>fe_fault = \<lambda>_. None, fe_short = \<lambda>_. 0, fe_rand = \<lambda>_. []\<rparr>,
      mg_credPath = ''token'', mg_signer = None, mg_devHostIP = ''10.0.0.1'', mg_repoCache = None, mg_host = ok_host,
      mg_clock = \<lambda>_. 0, mg_quote = id, mg_uuid = \<lambda>x. (''session-'' @ Itoa (int x), Suc x), mg_cancel = \<lambda>_. id,
      mg_CreateSnapshot = \<lambda>i x. (Inr (''/dev/mapper/'' @ i), x), mg_DeleteSnapshot = \<lambda>_ x. (None, x), mg_Inject = \<lambda>_ _ _ x. (None, x),
      mg_Launch = \<lambda>_ _ _ x. (None, x), mg_WaitForSSH = \<lambda>_ x. (None, x), mg_VmStop = \<lambda>_ x. (None, x), mg_WaitForVMDead = \<lambda>_. id,
      mg_RunSetup = \<lambda>_ _ _ x. (None, x), mg_RunCapture = \<lambda>_ _ x. (claude, x), mg_tick = \<lambda>x. (None, x),
      mg_IsSocketAlive = \<lambda>_ x. (False, x), mg_CleanupOrphans = \<lambda>_ x. (None, x)\<rparr>"

definition ex_world :: "'st \<Rightarrow> ('st, nat) mworld" where
  "ex_world st = \<lparr>mw_heap = [], mw_sessions = [], mw_used = [], mw_store = st, mw_fs = \<lparr>fs_files = [], fs_ops = 0\<rparr>, mw_ticks = 0,
     mw_tasks = [], mw_calls = [], mw_panic = False, mw_ext = 0\<rparr>"

definition two_created :: "(unit, nat) mworld" where
  "two_created =
     (let create = \<lambda>w. snd (exec (manager_Create (ex_mgr None ([], [], None)) [] [] [] False ''research'' ''p'') w)
      in create (create (ex_world ())))"

theorem Create_keeps_slots_witness:
  "map (\<lambda>s. (ss_ID s, ss_Slot s)) (mw_heap two_created) = [(''session-0'', 0), (''session-1'', 1)] \<and> slots_inv two_created"
proof
  show "map (\<lambda>s. (ss_ID s, ss_Slot s)) (mw_heap two_created) = [(''session-0'', 0), (''session-1'', 1)]" by code_simp
  have "slots_inv (ex_world ())" by (simp add: slots_inv_def ex_world_def)
  then show "slots_inv two_created" unfolding two_created_def Let_def by (intro Create_keeps_slots [THEN conjunct1])
qed

end
