(* ===== verification/Manager_Boot.thy ===== *)
theory Manager_Boot
  imports Manager_Slots
begin

text \<open>
  The life of a session whose goroutine runs alone: rules that step through a program of the
  manager, the operations that no client can see, and the boot goroutine up to the point where
  the machine is ready.
\<close>

section \<open>Stepping\<close>

definition invisible :: "(('st, 'x) mworld, 'b) prog \<Rightarrow> bool" where
  "invisible p \<longleftrightarrow> (\<forall>J R a S M U D. hoare (seen J R a S M U D) p (\<lambda>_. seen J R a S M U D))"

named_theorems invisibles \<open>operations that change nothing a client sees\<close>

lemma invisible_Done [invisibles]: "invisible (Done r)"
  by (simp add: invisible_def hoare_def)

lemma invisible_bind [invisibles]: "invisible p \<Longrightarrow> (\<And>r. invisible (k r)) \<Longrightarrow> invisible (bind p k)"
  unfolding invisible_def by (blast intro: hoare_bind)

lemma invisible_calls [invisibles]: "invisible (ext_call c f)" "invisible (ext_step g)" "invisible (fs_step h)"
  unfolding invisible_def by (blast intro: hoare_conseq hoare_ext_call hoare_ext_step hoare_fs_step)+

lemma invisible_get_sess [invisibles]: "invisible (get_sess b)"
  by (simp add: invisible_def hoare_def get_sess_def)

lemma invisible_ignore [invisibles]: "invisible p \<Longrightarrow> invisible (ignore p)"
  unfolding ignore_def by (intro invisibles)

lemma invisible_cases [invisibles]:
  "(b \<Longrightarrow> invisible p) \<Longrightarrow> (\<not> b \<Longrightarrow> invisible q) \<Longrightarrow> invisible (if b then p else q)"
  "invisible p \<Longrightarrow> (\<And>v. invisible (k v)) \<Longrightarrow> invisible (case m of None \<Rightarrow> p | Some v \<Rightarrow> k v)"
  "(\<And>e. invisible (f e)) \<Longrightarrow> (\<And>v. invisible (g v)) \<Longrightarrow> invisible (case r of Inl e \<Rightarrow> f e | Inr v \<Rightarrow> g v)"
  by (simp_all split: option.splits sum.splits)

lemma invisible_run_setup [invisibles]: "invisible (run_setup mg addr cmds)"
  unfolding run_setup_def by (intro invisibles)

lemma invisible_ends [invisibles]: "invisible (deleteSnapshot mg i)" "invisible (stopVM mg v)" "invisible (cleanup_workspace mg i)"
  unfolding deleteSnapshot_def stopVM_def cleanup_workspace_def by (intro invisibles)+

lemma invisible_tokens [invisibles]: "invisible (loadSavedToken mg)" "invisible (saveToken mg t)"
  unfolding loadSavedToken_def saveToken_def by (intro invisibles)+

lemma invisible_resolve [invisibles]: "invisible (resolveToken mg t)"
  unfolding resolveToken_def by (intro invisibles)

lemma invisible_configure [invisibles]:
  "invisible (injectKey mg addr)" "invisible (configureGit mg addr gt t)" "invisible (mountGoCache mg addr)"
  "invisible (configureHost mg addr sid)" "invisible (configureProfile mg addr n)"
  unfolding injectKey_def configureGit_def mountGoCache_def configureHost_def configureProfile_def Let_def by (intro invisibles)+

lemma invisible_injectFile [invisibles]: "invisible (injectFile mg addr src dst)"
  unfolding injectFile_def by (intro invisibles)

lemma invisible_try_all [invisibles]: "list_all (\<lambda>(p, l). invisible p) ps \<Longrightarrow> invisible (try_all ps)"
  by (induction ps rule: try_all.induct) (auto intro: invisibles)

lemma invisible_seed [invisibles]: "invisible (seedDevFiles mg addr)"
  unfolding seedDevFiles_def seedKnownHosts_def lenient_def Let_def by (intro invisibles) (auto intro: invisibles)

lemma seq_invisible: "invisible p \<Longrightarrow> (\<And>r. hoare (seen J R a S M U D) (k r) Q) \<Longrightarrow> hoare (seen J R a S M U D) (bind p k) Q"
  unfolding invisible_def by (blast intro: hoare_bind)

lemma hoare_last: "invisible p \<Longrightarrow> (\<And>r w. seen J R a S M U D w \<Longrightarrow> Q r w) \<Longrightarrow> hoare (seen J R a S M U D) p Q"
  unfolding invisible_def by (blast intro: hoare_conseq)

lemma seq_call:
  "(\<And>x. hoare (seen J R a S M U D) (k (fst (f x))) Q) \<Longrightarrow> hoare (seen J R a S M U D) (bind (ext_call c f) k) Q"
  by (rule hoare_bind [OF hoare_ext_call]) (auto simp: hoare_def)

lemma seq_ext:
  "(\<And>x. hoare (seen J R a S M U D) (k (fst (f x))) Q) \<Longrightarrow> hoare (seen J R a S M U D) (bind (ext_step f) k) Q"
  by (rule hoare_bind [OF hoare_ext_step]) (auto simp: hoare_def)

definition entered :: "time \<Rightarrow> session \<Rightarrow> session" where
  "entered t s = s\<lparr>ss_sm := (ss_sm s)\<lparr>sm_enteredAt := t\<rparr>\<rparr>"

lemma entered_sel [simp]:
  "ss_ID (entered t s) = ss_ID s" "ss_Slot (entered t s) = ss_Slot s" "ss_RepoURL (entered t s) = ss_RepoURL s"
  "ss_Branch (entered t s) = ss_Branch s" "ss_DevMode (entered t s) = ss_DevMode s" "ss_Error (entered t s) = ss_Error s"
  "ss_Role (entered t s) = ss_Role s" "ss_Prompt (entered t s) = ss_Prompt s" "ss_Result (entered t s) = ss_Result s"
  "ss_workspacePath (entered t s) = ss_workspacePath s" "ss_v (entered t s) = ss_v s" "ss_bridge (entered t s) = ss_bridge s"
  "sess_state (entered t s) = sess_state s"
  by (simp_all add: entered_def)

lemma timeless_entered: "timeless s = S \<Longrightarrow> s = entered (sm_enteredAt (ss_sm s)) S"
  by (auto simp: timeless_def entered_def)

lemma seq_get:
  "(\<And>t. hoare (seen J R a S M U D) (k (entered t S)) Q) \<Longrightarrow> hoare (seen J R a S M U D) (bind (get_sess a) k) Q"
  by (rule hoare_bind [OF hoare_get_sess], rule hoare_pure) (metis timeless_entered)

lemma seq_unit: "hoare P p (\<lambda>_. P') \<Longrightarrow> hoare P' (k ()) Q \<Longrightarrow> hoare P (bind p k) Q"
  by (rule hoare_bind) auto

lemma seq_fields:
  "hoare (seen J R a (S\<lparr>ss_Error := msg\<rparr>) M U D) (k ()) Q \<Longrightarrow> hoare (seen J R a S M U D) (bind (set_error a msg) k) Q"
  "hoare (seen J R a S M (U(slot := None)) D) (k ()) Q \<Longrightarrow> hoare (seen J R a S M U D) (bind (freeSlot slot) k) Q"
  "hoare (seen J R a S (M(i := None)) U D) (k ()) Q \<Longrightarrow> hoare (seen J R a S M U D) (bind (remove_session i) k) Q"
  "hoare (seen J R a S M U D) (k ()) Q \<Longrightarrow> hoare (seen J R a S M U D) (bind (go_task t) k) Q"
  by (rule seq_unit, rule triples, assumption)+

lemma hoare_upd_fields:
  "hoare (seen J R a S M U D) (upd_sess a (ss_Result_update (\<lambda>_. r))) (\<lambda>_. seen J R a (S\<lparr>ss_Result := r\<rparr>) M U D)"
  "hoare (seen J R a S M U D) (upd_sess a (ss_bridge_update (\<lambda>_. b))) (\<lambda>_. seen J R a (S\<lparr>ss_bridge := b\<rparr>) M U D)"
  "hoare (seen J R a S M U D) (upd_sess a (ss_v_update (\<lambda>_. v))) (\<lambda>_. seen J R a (S\<lparr>ss_v := v\<rparr>) M U D)"
  "hoare (seen J R a S M U D) (upd_sess a (ss_workspacePath_update (\<lambda>_. p))) (\<lambda>_. seen J R a (S\<lparr>ss_workspacePath := p\<rparr>) M U D)"
  by (rule hoare_upd_sess; simp add: timeless_def)+

lemmas seq_upd = hoare_upd_fields [THEN seq_unit]

lemma hoare_release_vm:
  "hoare (seen J R a S M U D) (release_vm mg a i) (\<lambda>_. seen J R a S M (U(ss_Slot S := None)) D)"
  unfolding release_vm_def
proof (intro seq_get seq_invisible [OF invisible_calls(1)])
  fix t u
  have "invisible (case ss_v (entered t S) of None \<Rightarrow> Done () | Some v \<Rightarrow> bind (stopVM mg v) (\<lambda>_. bind (get_sess a) (\<lambda>sess.
      ext_call (CallWaitDead (SlotIP (ss_Slot sess))) (\<lambda>x. ((), mg_WaitForVMDead mg (SlotIP (ss_Slot sess)) x)))))" (is "invisible ?stop")
    by (intro invisibles)
  then show "hoare (seen J R a S M U D) (bind ?stop (\<lambda>_. bind (deleteSnapshot mg i) (\<lambda>_. bind (get_sess a) (\<lambda>sess. freeSlot (ss_Slot sess)))))
      (\<lambda>_. seen J R a S M (U(ss_Slot S := None)) D)"
  proof (rule seq_invisible, intro seq_get seq_invisible [OF invisible_ends(1)])
    fix t'
    show "hoare (seen J R a S M U D) (freeSlot (ss_Slot (entered t' S))) (\<lambda>_. seen J R a S M (U(ss_Slot S := None)) D)"
      using hoare_freeSlot by simp
  qed
qed

lemmas seq_release = hoare_release_vm [THEN seq_unit]

lemma hoare_prepare:
  "hoare (seen J R a S M U D) (prepareWorkspace mg a token) (\<lambda>_ w. \<exists>p. seen J R a (S\<lparr>ss_workspacePath := p\<rparr>) M U D w)"
proof -
  have same: "hoare (seen J R a S M U D) (Done ()) (\<lambda>_ w. \<exists>p. seen J R a (S\<lparr>ss_workspacePath := p\<rparr>) M U D w)"
    by (rule hoare_Done, rule exI [of _ "ss_workspacePath S"]) simp
  have set: "hoare (seen J R a S M U D) (upd_sess a (ss_workspacePath_update (\<lambda>_. p))) (\<lambda>_ w. \<exists>p. seen J R a (S\<lparr>ss_workspacePath := p\<rparr>) M U D w)" for p
    by (rule hoare_conseq [OF hoare_upd_fields(4)]) blast
  show ?thesis
    unfolding prepareWorkspace_def
    by (rule seq_get) (auto split: option.splits sum.splits intro!: seq_ext same set)
qed

text \<open>A workspace is prepared where the fetch and the clone succeed.\<close>

definition clones :: "('st, 'x) mgr \<Rightarrow> session \<Rightarrow> bool" where
  "clones mg S \<longleftrightarrow> (\<exists>c. mg_repoCache mg = Some c \<and>
     (\<forall>t x. \<exists>b. fst (EnsureBareRepo (mg_host mg) c (ss_RepoURL S) (repo_name (ss_RepoURL S)) t x) = Inr b) \<and>
     (\<forall>b x. \<exists>d. d \<noteq> [] \<and> fst (LocalClone (mg_host mg) c b (ss_ID S) (repo_name (ss_RepoURL S)) (ss_Branch S) (ss_RepoURL S) x) = Inr d))"

lemma hoare_prepared:
  assumes "clones mg S" and "ss_RepoURL S \<noteq> []"
  shows "hoare (seen J R a S M U D) (prepareWorkspace mg a token) (\<lambda>_ w. \<exists>p. p \<noteq> [] \<and> seen J R a (S\<lparr>ss_workspacePath := p\<rparr>) M U D w)"
proof -
  obtain c where c: "mg_repoCache mg = Some c"
    and e: "\<And>t x. \<exists>b. fst (EnsureBareRepo (mg_host mg) c (ss_RepoURL S) (repo_name (ss_RepoURL S)) t x) = Inr b"
    and l: "\<And>b x. \<exists>d. d \<noteq> [] \<and> fst (LocalClone (mg_host mg) c b (ss_ID S) (repo_name (ss_RepoURL S)) (ss_Branch S) (ss_RepoURL S) x) = Inr d"
    using assms(1) unfolding clones_def by blast
  have set: "hoare (seen J R a S M U D) (upd_sess a (ss_workspacePath_update (\<lambda>_. p))) (\<lambda>_ w. \<exists>p. p \<noteq> [] \<and> seen J R a (S\<lparr>ss_workspacePath := p\<rparr>) M U D w)"
    if "p \<noteq> []" for p using that by (intro hoare_conseq [OF hoare_upd_fields(4)]) blast
  show ?thesis
    unfolding prepareWorkspace_def
  proof (rule seq_get, goal_cases)
    case (1 t)
    show ?case
      using c assms(2) e [of token] l by (auto intro!: seq_ext set split: sum.splits) (metis Inr_inject Inl_Inr_False)+
  qed
qed

section \<open>With a store\<close>

definition steps_to :: "state \<Rightarrow> session \<Rightarrow> session \<Rightarrow> bool" where
  "steps_to to S S' \<longleftrightarrow> storable S \<and> to \<in> set (validTransitions (sess_state S)) \<and> S' = set_state to S"

lemma set_state_sel [simp]:
  "ss_ID (set_state st s) = ss_ID s" "ss_Slot (set_state st s) = ss_Slot s" "ss_RepoURL (set_state st s) = ss_RepoURL s"
  "ss_Branch (set_state st s) = ss_Branch s" "ss_DevMode (set_state st s) = ss_DevMode s" "ss_Error (set_state st s) = ss_Error s"
  "ss_Role (set_state st s) = ss_Role s" "ss_Prompt (set_state st s) = ss_Prompt s" "ss_Result (set_state st s) = ss_Result s"
  "ss_workspacePath (set_state st s) = ss_workspacePath s" "ss_v (set_state st s) = ss_v s" "ss_bridge (set_state st s) = ss_bridge s"
  "ss_CreatedAt (set_state st s) = ss_CreatedAt s" "sess_state (set_state st s) = st" "set_state st' (set_state st s) = set_state st' s"
  by (simp_all add: set_state_def)

lemma set_state_upd [simp]:
  "set_state st (s\<lparr>ss_Result := r\<rparr>) = (set_state st s)\<lparr>ss_Result := r\<rparr>" "set_state st (s\<lparr>ss_Error := e\<rparr>) = (set_state st s)\<lparr>ss_Error := e\<rparr>"
  "set_state st (s\<lparr>ss_v := v\<rparr>) = (set_state st s)\<lparr>ss_v := v\<rparr>" "set_state st (s\<lparr>ss_bridge := b\<rparr>) = (set_state st s)\<lparr>ss_bridge := b\<rparr>"
  "set_state st (s\<lparr>ss_workspacePath := p\<rparr>) = (set_state st s)\<lparr>ss_workspacePath := p\<rparr>"
  by (simp_all add: set_state_def)

lemma storable_upd [simp]:
  "storable (S\<lparr>ss_v := v\<rparr>) = storable S" "storable (S\<lparr>ss_bridge := b\<rparr>) = storable S" "storable (S\<lparr>ss_workspacePath := p\<rparr>) = storable S"
  "storable S \<Longrightarrow> storable (S\<lparr>ss_Error := e\<rparr>) = utf8_valid e" "storable S \<Longrightarrow> storable (S\<lparr>ss_Result := e\<rparr>) = utf8_valid e"
  "storable S \<Longrightarrow> st \<in> set known_states \<Longrightarrow> storable (set_state st S)"
  by (auto simp: storable_def)

lemma known [simp]:
  "StateProvisioning \<in> set known_states" "StateBooting \<in> set known_states" "StateWaitingSSH \<in> set known_states"
  "StateConfiguring \<in> set known_states" "StateReady \<in> set known_states" "StateStopping \<in> set known_states"
  "StateStopped \<in> set known_states" "StateFailed \<in> set known_states"
  by (simp_all add: known_states_def)

lemma seq_refused:
  assumes "to \<notin> set (validTransitions (sess_state S))"
    and "hoare (seen J R a S M U D) (k (Some (invalid_transition (sess_state S) to))) Q"
  shows "hoare (seen J R a S M U D) (bind (transition mg a to) k) Q"
  by (rule hoare_bind [OF hoare_transition_refused [OF assms(1)]]) (use assms(2) in \<open>auto simp: hoare_def\<close>)

context session_store
begin

lemma seq_persist:
  assumes "mg_store mg = Some ops" "clock_ok mg" and "storable S"
    and "hoare (seen inv rows a S M U (D(ss_ID S \<mapsto> session_row S 0))) (k ()) Q"
  shows "hoare (seen inv rows a S M U D) (bind (persistSession mg a) k) Q"
  by (rule seq_unit [OF hoare_persist [OF assms(1-3)]]) (rule assms(4))

lemma seq_transition:
  assumes "mg_store mg = Some ops" "clock_ok mg" and "storable S" and "to \<in> set (validTransitions (sess_state S))"
    and "hoare (seen inv rows a (set_state to S) M U (D(ss_ID S \<mapsto> session_row (set_state to S) 0))) (k None) Q"
  shows "hoare (seen inv rows a S M U D) (bind (transition mg a to) k) Q"
  by (rule hoare_bind [OF hoare_transition [OF assms(1-4)]]) (use assms(5) in \<open>auto simp: hoare_def\<close>)

lemma hoare_claude_done:
  assumes "mg_store mg = Some ops" "clock_ok mg" and "storable S" "utf8_valid result" and "sess_state S = StateReady"
    and "T = set_state StateStopped (S\<lparr>ss_Result := result\<rparr>)"
  shows "hoare (seen inv rows a S M U D) (claude_done mg a i result)
    (\<lambda>_. seen inv rows a T (M(i := None)) (U(ss_Slot S := None)) (D(ss_ID S \<mapsto> session_row T 0)))"
  unfolding claude_done_def
  by (intro seq_upd(1) seq_transition [OF assms(1,2)] seq_persist [OF assms(1,2)] seq_release seq_fields(3) hoare_last invisible_ends)
    (use assms(3-6) in simp_all)

text \<open>Where the transition to the failed state is refused, as it is from ready.\<close>

lemma hoare_usage_limit:
  assumes "mg_store mg = Some ops" "clock_ok mg" and "storable S" and "sess_state S = StateReady"
    and "T = S\<lparr>ss_Error := ''usage limit reached''\<rparr>"
  shows "hoare (seen inv rows a S M U D) (usage_limit mg a i)
    (\<lambda>_. seen inv rows a T (M(i := None)) (U(ss_Slot S := None)) (D(ss_ID S \<mapsto> session_row T 0)))"
  unfolding usage_limit_def drop_session_def
  by (intro seq_fields(1,3) seq_refused seq_persist [OF assms(1,2)] seq_release hoare_last invisible_ends)
    (use assms(3-5) in \<open>simp_all add: utf8_valid_def\<close>)

lemma hoare_boot_fail:
  assumes "mg_store mg = Some ops" "clock_ok mg" and "storable S" "utf8_valid (error_text e)"
    and "StateFailed \<in> set (validTransitions (sess_state S))" and "T = set_state StateFailed (S\<lparr>ss_Error := error_text e\<rparr>)"
  shows "hoare (seen inv rows a S M U D) (boot_fail mg a e)
    (\<lambda>_. seen inv rows a T M (U(ss_Slot S := None)) (D(ss_ID S \<mapsto> session_row T 0)))"
proof -
  have "hoare (seen inv rows a S M U D) (modify (\<lambda>w. upd_heap a (\<lambda>s. s\<lparr>ss_Error := error_text e\<rparr>)
       (w\<lparr>mw_used := gm_del (ss_Slot (mw_heap w ! a)) (mw_used w)\<rparr>))) (\<lambda>_. seen inv rows a (S\<lparr>ss_Error := error_text e\<rparr>) M (U(ss_Slot S := None)) D)"
    unfolding modify_def by (rule hoare_act) (auto simp: seen_def upd_heap_def fun_eq_iff timeless_def)
  then show ?thesis
    unfolding boot_fail_def
    by (rule seq_unit, intro seq_transition [OF assms(1,2)] hoare_last invisible_Done) (use assms(3-6) in simp_all)
qed

end

section \<open>The way to ready\<close>

text \<open>The services the boot goroutine calls, when all of them succeed, and the session it makes.\<close>

definition boots :: "('st, 'x) mgr \<Rightarrow> session \<Rightarrow> bool" where
  "boots mg S \<longleftrightarrow>
     (\<forall>i x. \<exists>d. fst (mg_CreateSnapshot mg i x) = Inr d) \<and> (\<forall>d ip gw x. fst (mg_Inject mg d ip gw x) = None) \<and>
     (\<forall>slot d mem x. fst (mg_Launch mg slot d mem x) = None) \<and> (\<forall>slot x. fst (mg_WaitForSSH mg slot x) = None) \<and>
     (ss_RepoURL S \<noteq> [] \<longrightarrow> clones mg S \<and> (\<forall>u ad cmds x. fst (mg_RunSetup mg u ad cmds x) = None))"

definition booted :: "state \<Rightarrow> string \<Rightarrow> session \<Rightarrow> session" where
  "booted st p S = (set_state st S)\<lparr>ss_workspacePath := p, ss_v := Some (Launched (ss_Slot S))\<rparr>"

definition ready :: "string \<Rightarrow> session \<Rightarrow> session" where
  "ready p S = (booted StateReady p S)\<lparr>ss_bridge := Some (vm_addr (ss_Slot S))\<rparr>"

lemma hoare_ex: "(\<And>p. hoare (P p) q Q) \<Longrightarrow> hoare (\<lambda>w. \<exists>p. P p w) q Q"
  by (auto simp: hoare_def)

lemma hoare_workspace:
  assumes "boots mg S"
  shows "hoare (seen J R a S M U D) (prepareWorkspace mg a token)
    (\<lambda>_ w. \<exists>p. (ss_RepoURL S \<noteq> [] \<longrightarrow> p \<noteq> []) \<and> seen J R a (S\<lparr>ss_workspacePath := p\<rparr>) M U D w)"
proof (cases "ss_RepoURL S = []")
  case True
  then show ?thesis by (intro hoare_conseq [OF hoare_prepare]) auto
next
  case False
  then show ?thesis using assms by (intro hoare_conseq [OF hoare_prepared]) (auto simp: boots_def)
qed

lemma hoare_attach:
  assumes "boots mg S" and "ss_RepoURL S \<noteq> [] \<longrightarrow> ss_workspacePath T \<noteq> []" and "ss_RepoURL T = ss_RepoURL S"
  shows "hoare (seen J R a T M U D) (attachWorkspace mg a addr) (\<lambda>r w. r = None \<and> seen J R a T M U D w)"
  unfolding attachWorkspace_def
proof (rule seq_get, goal_cases)
  case (1 t)
  show ?case
  proof (cases "ss_RepoURL T = []")
    case True
    then show ?thesis by (simp add: hoare_def)
  next
    case False
    then have "ss_workspacePath T \<noteq> []" and "\<forall>u ad cmds x. fst (mg_RunSetup mg u ad cmds x) = None" using assms by (auto simp: boots_def)
    with False show ?thesis
      by (auto simp: mountWorkspace_def run_setup_def Let_def intro!: seq_get seq_call hoare_Done)
  qed
qed

lemma seq_attach:
  assumes "boots mg S" and "ss_RepoURL S \<noteq> [] \<longrightarrow> ss_workspacePath T \<noteq> []" and "ss_RepoURL T = ss_RepoURL S"
    and "hoare (seen J R a T M U D) (k None) Q"
  shows "hoare (seen J R a T M U D) (bind (attachWorkspace mg a addr) k) Q"
  by (rule hoare_bind [OF hoare_attach [OF assms(1-3)]]) (use assms(4) in \<open>auto simp: hoare_def\<close>)

context session_store
begin

lemma hoare_boot_ready:
  assumes "mg_store mg = Some ops" "clock_ok mg" and "storable S" and "ss_Role S \<noteq> ''interactive''" and "sess_state S = StateConfiguring"
    and "hoare (seen inv rows a (set_state StateReady S) M U (D(ss_ID S \<mapsto> session_row (set_state StateReady S) 0))) (run_claude mg a) Q"
  shows "hoare (seen inv rows a S M U D) (boot_ready mg a) Q"
  unfolding boot_ready_def
  by (rule seq_transition [OF assms(1,2)]) (use assms(3-6) in \<open>auto intro!: seq_get\<close>)

lemma hoare_boot_configure:
  assumes "mg_store mg = Some ops" "clock_ok mg" and "storable S" and "ss_Role S \<noteq> ''interactive''" and "boots mg S"
    and "ss_RepoURL S \<noteq> [] \<longrightarrow> p \<noteq> []"
    and ready: "hoare (seen inv rows a (ready p S) M U (D(ss_ID S \<mapsto> session_row (ready p S) 0))) (run_claude mg a) Q"
  shows "hoare (seen inv rows a (booted StateConfiguring p S) M U D) (boot_configure mg a githubToken token) Q"
  unfolding boot_configure_def Let_def
proof (intro seq_get seq_upd(2) seq_invisible [OF invisible_configure(1)] seq_invisible [OF invisible_configure(2)], goal_cases)
  case (1 t)
  let ?T = "(booted StateConfiguring p S)\<lparr>ss_bridge := Some (vm_addr (ss_Slot S))\<rparr>"
  have "hoare (seen inv rows a ?T M U D) (boot_ready mg a) Q"
    by (rule hoare_boot_ready [OF assms(1,2)]) (use assms(3,4) ready in \<open>simp_all add: booted_def ready_def\<close>)
  then show ?case
    using assms(6) by (intro seq_attach [OF assms(5)]) (auto simp: booted_def intro!: seq_invisible invisibles)
qed

lemma hoare_boot_ssh:
  assumes "mg_store mg = Some ops" "clock_ok mg" and "storable S" and "ss_Role S \<noteq> ''interactive''" and "boots mg S"
    and "ss_RepoURL S \<noteq> [] \<longrightarrow> p \<noteq> []"
    and "hoare (seen inv rows a (ready p S) M U (D(ss_ID S \<mapsto> session_row (ready p S) 0))) (run_claude mg a) Q"
  shows "hoare (seen inv rows a (booted StateBooting p S) M U D) (boot_ssh mg a i githubToken token (Launched (ss_Slot S))) Q"
  unfolding boot_ssh_def
proof (rule seq_transition [OF assms(1,2)], goal_cases)
  case 3
  have "hoare (seen inv rows a (booted StateConfiguring p S) M U (D(ss_ID S \<mapsto> r))) (boot_configure mg a githubToken token) Q" for r
    by (rule hoare_boot_configure [OF assms(1-6)]) (use assms(7) in simp)
  then show ?case
    using assms(3,5) by (auto simp: boots_def booted_def intro!: seq_call seq_transition [OF assms(1,2)])
qed (use assms(3) in \<open>simp_all add: booted_def\<close>)

lemma hoare_boot:
  assumes "mg_store mg = Some ops" "clock_ok mg" and "storable S" and "ss_Role S \<noteq> ''interactive''" and "boots mg S"
    and "sess_state S = StateProvisioning"
    and run: "\<And>p. hoare (seen inv rows a (ready p S) M U (D(ss_ID S \<mapsto> session_row (ready p S) 0))) (run_claude mg a) Q"
  shows "hoare (seen inv rows a S M U D) (boot mg a githubToken) Q"
proof -
  have launch: "hoare (seen inv rows a (S\<lparr>ss_workspacePath := p\<rparr>) M U D) (boot_launch mg a i githubToken token device) Q"
    if "ss_RepoURL S \<noteq> [] \<longrightarrow> p \<noteq> []" for p i token device
    unfolding boot_launch_def Let_def
  proof (rule seq_transition [OF assms(1,2)], goal_cases)
    case 3
    have "hoare (seen inv rows a (booted StateBooting p S) M U (D(ss_ID S \<mapsto> r))) (boot_ssh mg a i githubToken token (Launched (ss_Slot S))) Q" for r
      by (rule hoare_boot_ssh [OF assms(1-5) that]) (use run in simp)
    then show ?case
      using assms(5) by (auto simp: boots_def booted_def intro!: seq_get seq_call seq_upd(3))
  qed (use assms(3,6) in simp_all)
  show ?thesis
    unfolding boot_def
  proof (intro seq_invisible [OF invisible_resolve] hoare_bind [OF hoare_workspace [OF assms(5)]] hoare_ex hoare_pure, goal_cases)
    case (1 token u p)
    have c: "fst (mg_CreateSnapshot mg i x) \<noteq> Inl e" and n: "fst (mg_Inject mg d ip gw x) = None" for i x e d ip gw
      using assms(5) unfolding boots_def by (metis Inl_Inr_False)+
    show ?case
      using launch [OF 1] c n by (auto simp: Let_def intro!: seq_get seq_call split: sum.splits)
  qed
qed

end

end
