(* ===== verification/Session_Storetest.thy ===== *)
theory Session_Storetest
  imports Session_Contract
begin

text \<open>
  \<^verbatim>\<open>internal/sessionstore/storetest\<close>: the conformance suite every store must pass, each subtest
  as the predicate that it reports no failure, and the proof that every store which keeps the
  contract passes it, whatever the clock says; \<^verbatim>\<open>JSONStore\<close> in particular.
\<close>

definition second :: int where
  "second = 1000000000"

definition trunc_second :: "instant \<Rightarrow> instant" where
  "trunc_second t = t - t mod second"

section \<open>The subtests\<close>

definition st_UpsertAndList :: "'st store_ops \<Rightarrow> instant \<Rightarrow> 'st \<Rightarrow> bool" where
  "st_UpsertAndList ops clock s =
     (let now = trunc_second clock;
          r = zero_row\<lparr>row_ID := ''abc-123'', row_Slot := 1, row_Status := ''ready'',
                row_RepoURL := ''https://github.com/user/repo'', row_Branch := ''main'', row_CreatedAt := now, row_UpdatedAt := now\<rparr>;
          (err, s1) = so_Upsert ops r s
      in err = None \<and>
         (case so_List ops s1 of
            (Inl _, _) \<Rightarrow> False
          | (Inr rows, _) \<Rightarrow> length rows = 1 \<and>
              (let got = rows ! 0 in row_ID got = row_ID r \<and> row_Status got = row_Status r \<and> row_RepoURL got = row_RepoURL r)))"

definition st_UpsertUpdates :: "'st store_ops \<Rightarrow> instant \<Rightarrow> 'st \<Rightarrow> bool" where
  "st_UpsertUpdates ops now s =
     (let r = zero_row\<lparr>row_ID := ''x'', row_Slot := 0, row_Status := ''provisioning'', row_CreatedAt := now, row_UpdatedAt := now\<rparr>;
          (_, s1) = so_Upsert ops r s;
          updated = now + second;
          (err, s2) = so_Upsert ops (r\<lparr>row_Status := ''ready'', row_UpdatedAt := updated\<rparr>) s1
      in err = None \<and>
         (case so_List ops s2 of
            (Inl _, _) \<Rightarrow> False
          | (Inr rows, _) \<Rightarrow> length rows = 1 \<and> row_Status (rows ! 0) = ''ready''))"

definition st_Delete :: "'st store_ops \<Rightarrow> instant \<Rightarrow> 'st \<Rightarrow> bool" where
  "st_Delete ops now s =
     (let (_, s1) = so_Upsert ops (zero_row\<lparr>row_ID := ''y'', row_Slot := 0, row_Status := ''stopped'',
                       row_CreatedAt := now, row_UpdatedAt := now\<rparr>) s;
          (err, s2) = so_Delete ops ''y'' s1
      in err = None \<and> (case so_List ops s2 of (Inl _, _) \<Rightarrow> False | (Inr rows, _) \<Rightarrow> length rows = 0))"

definition st_DeleteNoOp :: "'st store_ops \<Rightarrow> 'st \<Rightarrow> bool" where
  "st_DeleteNoOp ops s \<longleftrightarrow> fst (so_Delete ops ''nonexistent'' s) = None"

definition st_Get :: "'st store_ops \<Rightarrow> instant \<Rightarrow> 'st \<Rightarrow> bool" where
  "st_Get ops clock s =
     (let now = trunc_second clock;
          r = zero_row\<lparr>row_ID := ''get-test'', row_Slot := 2, row_Status := ''ready'',
                row_RepoURL := ''https://github.com/user/repo'', row_Branch := ''main'', row_DevMode := True,
                row_CreatedAt := now, row_UpdatedAt := now\<rparr>;
          (err, s1) = so_Upsert ops r s
      in err = None \<and>
         (case fst (so_Get ops ''get-test'' s1) of
            Inl _ \<Rightarrow> False
          | Inr None \<Rightarrow> False
          | Inr (Some got) \<Rightarrow> row_ID got = row_ID r \<and> row_Status got = row_Status r \<and> row_DevMode got = row_DevMode r))"

definition st_Get_Missing :: "'st store_ops \<Rightarrow> 'st \<Rightarrow> bool" where
  "st_Get_Missing ops s \<longleftrightarrow> fst (so_Get ops ''nonexistent'' s) = Inr None"

definition st_Favorites :: "'st store_ops \<Rightarrow> instant \<Rightarrow> 'st \<Rightarrow> bool" where
  "st_Favorites ops clock s =
     (let now = trunc_second clock;
          f1 = \<lparr>fav_ID = ''fav-1'', fav_Name = ''My Repo'', fav_RepoURL = ''https://github.com/user/repo'',
                fav_Branch = ''main'', fav_CreatedAt = now\<rparr>;
          f2 = \<lparr>fav_ID = ''fav-2'', fav_Name = ''Other'', fav_RepoURL = ''https://github.com/user/other'',
                fav_Branch = ''dev'', fav_CreatedAt = now + second\<rparr>;
          (e1, s1) = so_UpsertFavorite ops f1 s;
          (e2, s2) = so_UpsertFavorite ops f2 s1
      in e1 = None \<and> e2 = None \<and>
         (case so_ListFavorites ops s2 of
            (Inl _, _) \<Rightarrow> False
          | (Inr l, _) \<Rightarrow> length l = 2 \<and> fav_ID (l ! 0) = ''fav-1'' \<and> fav_ID (l ! 1) = ''fav-2'' \<and>
              fav_Name (l ! 0) = ''My Repo'' \<and> fav_RepoURL (l ! 0) = fav_RepoURL f1))"

definition st_Favorites_UpsertUpdates :: "'st store_ops \<Rightarrow> instant \<Rightarrow> 'st \<Rightarrow> bool" where
  "st_Favorites_UpsertUpdates ops now s =
     (let f = \<lparr>fav_ID = ''fav-upd'', fav_Name = ''Original'', fav_RepoURL = ''https://github.com/user/repo'',
                fav_Branch = ''main'', fav_CreatedAt = now\<rparr>;
          (e1, s1) = so_UpsertFavorite ops f s;
          (e2, s2) = so_UpsertFavorite ops (f\<lparr>fav_Name := ''Updated'', fav_Branch := ''feature''\<rparr>) s1
      in e1 = None \<and> e2 = None \<and>
         (case so_ListFavorites ops s2 of
            (Inl _, _) \<Rightarrow> False
          | (Inr l, _) \<Rightarrow> length l = 1 \<and> fav_Name (l ! 0) = ''Updated'' \<and> fav_Branch (l ! 0) = ''feature''))"

definition st_Favorites_Delete :: "'st store_ops \<Rightarrow> instant \<Rightarrow> 'st \<Rightarrow> bool" where
  "st_Favorites_Delete ops now s =
     (let f = \<lparr>fav_ID = ''fav-del'', fav_Name = ''Delete me'', fav_RepoURL = ''https://github.com/user/repo'',
                fav_Branch = ''main'', fav_CreatedAt = now\<rparr>;
          (e1, s1) = so_UpsertFavorite ops f s;
          (e2, s2) = so_DeleteFavorite ops ''fav-del'' s1
      in e1 = None \<and> e2 = None \<and>
         (case so_ListFavorites ops s2 of (Inl _, _) \<Rightarrow> False | (Inr l, _) \<Rightarrow> length l = 0))"

definition st_Favorites_DeleteNoOp :: "'st store_ops \<Rightarrow> 'st \<Rightarrow> bool" where
  "st_Favorites_DeleteNoOp ops s \<longleftrightarrow> fst (so_DeleteFavorite ops ''nonexistent'' s) = None"

definition ordering_row :: "instant \<Rightarrow> int \<Rightarrow> string \<Rightarrow> row" where
  "ordering_row base i name = zero_row\<lparr>row_ID := name, row_Slot := i, row_Status := ''stopped'',
     row_CreatedAt := base + i * second, row_UpdatedAt := base\<rparr>"

definition st_ListOrdering :: "'st store_ops \<Rightarrow> instant \<Rightarrow> 'st \<Rightarrow> bool" where
  "st_ListOrdering ops base s =
     (let s1 = snd (so_Upsert ops (ordering_row base 0 ''c'') s);
          s2 = snd (so_Upsert ops (ordering_row base 1 ''a'') s1);
          s3 = snd (so_Upsert ops (ordering_row base 2 ''b'') s2)
      in case so_List ops s3 of
           (Inl _, _) \<Rightarrow> False
         | (Inr rows, _) \<Rightarrow> length rows = 3 \<and> map row_ID rows = [''c'', ''a'', ''b''])"

text \<open>\<^verbatim>\<open>Run\<close>: each subtest on a fresh store; \<open>new\<close> gives the store of the n-th, \<open>clock\<close> its time.\<close>

definition storetest_Run :: "'st store_ops \<Rightarrow> (nat \<Rightarrow> instant) \<Rightarrow> (nat \<Rightarrow> 'st) \<Rightarrow> bool" where
  "storetest_Run ops clock new \<longleftrightarrow>
     st_UpsertAndList ops (clock 0) (new 0) \<and> st_UpsertUpdates ops (clock 1) (new 1) \<and> st_Delete ops (clock 2) (new 2) \<and>
     st_DeleteNoOp ops (new 3) \<and> st_Get ops (clock 4) (new 4) \<and> st_Get_Missing ops (new 5) \<and>
     st_Favorites ops (clock 6) (new 6) \<and> st_Favorites_UpsertUpdates ops (clock 7) (new 7) \<and>
     st_Favorites_Delete ops (clock 8) (new 8) \<and> st_Favorites_DeleteNoOp ops (new 9) \<and> st_ListOrdering ops (clock 10) (new 10)"

section \<open>Every store that keeps the contract passes\<close>

lemma enum_unique:
  assumes "enumerates ident key m xs" and "enumerates ident key m ys" and "distinct (map key ys)"
  shows "xs = ys"
proof -
  have inj: "inj_on key (set ys)" using assms(3) by (simp add: distinct_map)
  have set: "set xs = set ys" using assms(1,2) by (auto simp: enumerates_def)
  have "distinct xs" using assms(1) by (auto simp: enumerates_def distinct_map)
  then have "distinct (map key xs)" using inj set by (simp add: distinct_map)
  then have "map key xs = map key ys"
    using assms set by (intro sorted_distinct_set_unique) (auto simp: enumerates_def)
  then show ?thesis using inj set by (metis inj_on_map_eq_map Un_absorb)
qed

lemma enum_empty: "enumerates ident key m xs \<Longrightarrow> m = Map.empty \<Longrightarrow> xs = []"
  by (cases xs) (auto simp: enumerates_def)

lemma enum_one: "enumerates ident key m xs \<Longrightarrow> m = [ident x \<mapsto> x] \<Longrightarrow> xs = [x]"
  by (rule enum_unique [of ident key m]) (auto simp: enumerates_def split: if_splits)

definition near :: "instant \<Rightarrow> bool" where
  "near now \<longleftrightarrow> (\<forall>t. now - second \<le> t \<and> t \<le> now + 2 * second \<longrightarrow> time_ok t)"

lemma near_times:
  assumes "near now"
  shows "time_ok now" "time_ok (now + second)" "time_ok (now + 2 * second)" "time_ok (trunc_second now)" "time_ok (trunc_second now + second)"
proof -
  have m: "0 \<le> now mod second" "now mod second < second" by (simp_all add: second_def)
  have s: "0 < second" by (simp add: second_def)
  note n = assms [unfolded near_def, rule_format]
  show "time_ok now" "time_ok (now + second)" "time_ok (now + 2 * second)" using s by (intro n; simp)+
  show "time_ok (trunc_second now)" "time_ok (trunc_second now + second)"
    unfolding trunc_second_def by (intro n conjI; use s m in linarith)+
qed

lemmas row_checks = row_ok_def zero_row_def utf8_valid_def favorite_ok_def plain_row_def plain_favorite_def plain_texts_def

context row_store
begin

definition fresh :: "'st \<Rightarrow> bool" where
  "fresh s \<longleftrightarrow> inv s \<and> rows s = Map.empty \<and> favs s = Map.empty"

lemma kt_later: "kt (t + 1000000000) = kt t + 1000000000" "kt (t + 2000000000) = kt t + 2000000000"
  using kt_seconds [of t 1] kt_seconds [of t 2] by simp_all

lemma upsert_step:
  assumes "inv s" and "row_ok r" and "plain_row r"
  obtains s' where "so_Upsert ops r s = (None, s')" "inv s'" "rows s' = (rows s)(row_ID r \<mapsto> kept kt r)"
  using Upsert_kept [OF assms(1) plain [OF assms(2,3)]] by (metis prod.exhaust)

lemma fav_step:
  assumes "inv s" and "favorite_ok f" and "plain_favorite f"
  obtains s' where "so_UpsertFavorite ops f s = (None, s')" "inv s'" "favs s' = (favs s)(fav_ID f \<mapsto> kept_fav kt f)"
  using UpsertFavorite_kept [OF assms(1) plain_fav [OF assms(2,3)]] by (metis prod.exhaust)

lemma delete_step:
  assumes "inv s"
  obtains s' where "so_Delete ops i s = (None, s')" "inv s'" "rows s' = (rows s)(i := None)"
  using Delete [OF assms] by (metis prod.exhaust)

lemma delete_fav_step:
  assumes "inv s"
  obtains s' where "so_DeleteFavorite ops i s = (None, s')" "inv s'" "favs s' = (favs s)(i := None)"
  using DeleteFavorite [OF assms] by (metis prod.exhaust)

lemma list_step:
  assumes "inv s"
  obtains xs s' where "so_List ops s = (Inr xs, s')" "enumerates row_ID row_CreatedAt (rows s) xs"
  using List [OF assms] by (metis prod.exhaust)

lemma list_fav_step:
  assumes "inv s"
  obtains xs s' where "so_ListFavorites ops s = (Inr xs, s')" "enumerates fav_ID fav_CreatedAt (favs s) xs"
  using ListFavorites [OF assms] by (metis prod.exhaust)

lemma passes_UpsertAndList:
  assumes "fresh s" and "near now"
  shows "st_UpsertAndList ops now s"
proof -
  let ?r = "zero_row\<lparr>row_ID := ''abc-123'', row_Slot := 1, row_Status := ''ready'',
      row_RepoURL := ''https://github.com/user/repo'', row_Branch := ''main'', row_CreatedAt := trunc_second now, row_UpdatedAt := trunc_second now\<rparr>"
  have ok: "row_ok ?r" "plain_row ?r" using near_times [OF assms(2)] by (simp_all add: row_checks)
  from assms(1) have "inv s" by (simp add: fresh_def)
  from upsert_step [OF this ok] obtain s1 where s1: "so_Upsert ops ?r s = (None, s1)" "inv s1" "rows s1 = (rows s)(row_ID ?r \<mapsto> kept kt ?r)" .
  from list_step [OF s1(2)] obtain xs s2 where xs: "so_List ops s1 = (Inr xs, s2)" "enumerates row_ID row_CreatedAt (rows s1) xs" .
  have "xs = [kept kt ?r]" using assms(1) by (intro enum_one [OF xs(2)]) (simp add: s1(3) fresh_def)
  with s1(1) xs(1) show ?thesis by (simp add: st_UpsertAndList_def)
qed

lemma passes_UpsertUpdates:
  assumes "fresh s" and "near now"
  shows "st_UpsertUpdates ops now s"
proof -
  let ?r = "zero_row\<lparr>row_ID := ''x'', row_Slot := 0, row_Status := ''provisioning'', row_CreatedAt := now, row_UpdatedAt := now\<rparr>"
  let ?q = "?r\<lparr>row_Status := ''ready'', row_UpdatedAt := now + second\<rparr>"
  have ok: "row_ok ?r" "plain_row ?r" "row_ok ?q" "plain_row ?q" using near_times [OF assms(2)] by (simp_all add: row_checks)
  from assms(1) have "inv s" by (simp add: fresh_def)
  from upsert_step [OF this ok(1,2)] obtain s1 where s1: "so_Upsert ops ?r s = (None, s1)" "inv s1" "rows s1 = (rows s)(row_ID ?r \<mapsto> kept kt ?r)" .
  from upsert_step [OF s1(2) ok(3,4)] obtain s2 where s2: "so_Upsert ops ?q s1 = (None, s2)" "inv s2" "rows s2 = (rows s1)(row_ID ?q \<mapsto> kept kt ?q)" .
  from list_step [OF s2(2)] obtain xs s3 where xs: "so_List ops s2 = (Inr xs, s3)" "enumerates row_ID row_CreatedAt (rows s2) xs" .
  have "xs = [kept kt ?q]" using assms(1) by (intro enum_one [OF xs(2)]) (simp add: s2(3) s1(3) fresh_def)
  with s1(1) s2(1) xs(1) show ?thesis by (simp add: st_UpsertUpdates_def)
qed

lemma passes_Delete:
  assumes "fresh s" and "near now"
  shows "st_Delete ops now s"
proof -
  let ?r = "zero_row\<lparr>row_ID := ''y'', row_Slot := 0, row_Status := ''stopped'', row_CreatedAt := now, row_UpdatedAt := now\<rparr>"
  have ok: "row_ok ?r" "plain_row ?r" using near_times [OF assms(2)] by (simp_all add: row_checks)
  from assms(1) have "inv s" by (simp add: fresh_def)
  from upsert_step [OF this ok] obtain s1 where s1: "so_Upsert ops ?r s = (None, s1)" "inv s1" "rows s1 = (rows s)(row_ID ?r \<mapsto> kept kt ?r)" .
  from delete_step [OF s1(2)] obtain s2 where s2: "so_Delete ops ''y'' s1 = (None, s2)" "inv s2" "rows s2 = (rows s1)(''y'' := None)" .
  from list_step [OF s2(2)] obtain xs s3 where xs: "so_List ops s2 = (Inr xs, s3)" "enumerates row_ID row_CreatedAt (rows s2) xs" .
  have "xs = []" using assms(1) by (intro enum_empty [OF xs(2)]) (simp add: s2(3) s1(3) fresh_def)
  with s1(1) s2(1) xs(1) show ?thesis by (simp add: st_Delete_def)
qed

lemma passes_Get:
  assumes "fresh s" and "near now"
  shows "st_Get ops now s"
proof -
  let ?r = "zero_row\<lparr>row_ID := ''get-test'', row_Slot := 2, row_Status := ''ready'',
      row_RepoURL := ''https://github.com/user/repo'', row_Branch := ''main'', row_DevMode := True,
      row_CreatedAt := trunc_second now, row_UpdatedAt := trunc_second now\<rparr>"
  have ok: "row_ok ?r" "plain_row ?r" using near_times [OF assms(2)] by (simp_all add: row_checks)
  from assms(1) have inv: "inv s" by (simp add: fresh_def)
  from upsert_step [OF this ok] obtain s1 where s1: "so_Upsert ops ?r s = (None, s1)" .
  with get_upsert [OF inv plain [OF ok], of "''get-test''"] show ?thesis by (simp add: st_Get_def)
qed

lemma passes_noops:
  assumes "fresh s"
  shows "st_DeleteNoOp ops s" "st_Get_Missing ops s" "st_Favorites_DeleteNoOp ops s"
proof -
  from assms have inv: "inv s" and e: "rows s = Map.empty" by (simp_all add: fresh_def)
  show "st_DeleteNoOp ops s" by (rule delete_step [OF inv, of "''nonexistent''"]) (simp add: st_DeleteNoOp_def)
  show "st_Favorites_DeleteNoOp ops s"
    by (rule delete_fav_step [OF inv, of "''nonexistent''"]) (simp add: st_Favorites_DeleteNoOp_def)
  obtain g s' where "so_Get ops ''nonexistent'' s = (g, s')" by fastforce
  with Get [OF inv this] e show "st_Get_Missing ops s" by (simp add: st_Get_Missing_def)
qed

lemma passes_Favorites:
  assumes "fresh s" and "near now"
  shows "st_Favorites ops now s"
proof -
  let ?now = "trunc_second now"
  let ?f = "\<lparr>fav_ID = ''fav-1'', fav_Name = ''My Repo'', fav_RepoURL = ''https://github.com/user/repo'',
                fav_Branch = ''main'', fav_CreatedAt = ?now\<rparr>"
  let ?g = "\<lparr>fav_ID = ''fav-2'', fav_Name = ''Other'', fav_RepoURL = ''https://github.com/user/other'',
                fav_Branch = ''dev'', fav_CreatedAt = ?now + second\<rparr>"
  have ok: "favorite_ok ?f" "plain_favorite ?f" "favorite_ok ?g" "plain_favorite ?g" using near_times [OF assms(2)] by (simp_all add: row_checks)
  from assms(1) have "inv s" by (simp add: fresh_def)
  from fav_step [OF this ok(1,2)] obtain s1 where s1: "so_UpsertFavorite ops ?f s = (None, s1)" "inv s1" "favs s1 = (favs s)(fav_ID ?f \<mapsto> kept_fav kt ?f)" .
  from fav_step [OF s1(2) ok(3,4)] obtain s2 where s2: "so_UpsertFavorite ops ?g s1 = (None, s2)" "inv s2" "favs s2 = (favs s1)(fav_ID ?g \<mapsto> kept_fav kt ?g)" .
  from list_fav_step [OF s2(2)] obtain xs s3 where xs: "so_ListFavorites ops s2 = (Inr xs, s3)" "enumerates fav_ID fav_CreatedAt (favs s2) xs" .
  have "enumerates fav_ID fav_CreatedAt (favs s2) [kept_fav kt ?f, kept_fav kt ?g]"
    using assms(1) unfolding s2(3) s1(3) by (auto simp: enumerates_def fresh_def second_def kt_later split: if_splits)
  then have "xs = [kept_fav kt ?f, kept_fav kt ?g]" by (intro enum_unique [OF xs(2)]) (simp_all add: second_def kt_later)
  with s1(1) s2(1) xs(1) show ?thesis by (simp add: st_Favorites_def)
qed

lemma passes_Favorites_UpsertUpdates:
  assumes "fresh s" and "near now"
  shows "st_Favorites_UpsertUpdates ops now s"
proof -
  let ?f = "\<lparr>fav_ID = ''fav-upd'', fav_Name = ''Original'', fav_RepoURL = ''https://github.com/user/repo'',
                fav_Branch = ''main'', fav_CreatedAt = now\<rparr>"
  let ?g = "?f\<lparr>fav_Name := ''Updated'', fav_Branch := ''feature''\<rparr>"
  have ok: "favorite_ok ?f" "plain_favorite ?f" "favorite_ok ?g" "plain_favorite ?g" using near_times [OF assms(2)] by (simp_all add: row_checks)
  from assms(1) have "inv s" by (simp add: fresh_def)
  from fav_step [OF this ok(1,2)] obtain s1 where s1: "so_UpsertFavorite ops ?f s = (None, s1)" "inv s1" "favs s1 = (favs s)(fav_ID ?f \<mapsto> kept_fav kt ?f)" .
  from fav_step [OF s1(2) ok(3,4)] obtain s2 where s2: "so_UpsertFavorite ops ?g s1 = (None, s2)" "inv s2" "favs s2 = (favs s1)(fav_ID ?g \<mapsto> kept_fav kt ?g)" .
  from list_fav_step [OF s2(2)] obtain xs s3 where xs: "so_ListFavorites ops s2 = (Inr xs, s3)" "enumerates fav_ID fav_CreatedAt (favs s2) xs" .
  have "xs = [kept_fav kt ?g]" using assms(1) by (intro enum_one [OF xs(2)]) (simp add: s2(3) s1(3) fresh_def)
  with s1(1) s2(1) xs(1) show ?thesis by (simp add: st_Favorites_UpsertUpdates_def)
qed

lemma passes_Favorites_Delete:
  assumes "fresh s" and "near now"
  shows "st_Favorites_Delete ops now s"
proof -
  let ?f = "\<lparr>fav_ID = ''fav-del'', fav_Name = ''Delete me'', fav_RepoURL = ''https://github.com/user/repo'',
                fav_Branch = ''main'', fav_CreatedAt = now\<rparr>"
  have ok: "favorite_ok ?f" "plain_favorite ?f" using near_times [OF assms(2)] by (simp_all add: row_checks)
  from assms(1) have "inv s" by (simp add: fresh_def)
  from fav_step [OF this ok] obtain s1 where s1: "so_UpsertFavorite ops ?f s = (None, s1)" "inv s1" "favs s1 = (favs s)(fav_ID ?f \<mapsto> kept_fav kt ?f)" .
  from delete_fav_step [OF s1(2)] obtain s2 where s2: "so_DeleteFavorite ops ''fav-del'' s1 = (None, s2)" "inv s2" "favs s2 = (favs s1)(''fav-del'' := None)" .
  from list_fav_step [OF s2(2)] obtain xs s3 where xs: "so_ListFavorites ops s2 = (Inr xs, s3)" "enumerates fav_ID fav_CreatedAt (favs s2) xs" .
  have "xs = []" using assms(1) by (intro enum_empty [OF xs(2)]) (simp add: s2(3) s1(3) fresh_def)
  with s1(1) s2(1) xs(1) show ?thesis by (simp add: st_Favorites_Delete_def)
qed

lemma passes_ListOrdering:
  assumes "fresh s" and "near now"
  shows "st_ListOrdering ops now s"
proof -
  let ?c = "ordering_row now 0 ''c''" and ?a = "ordering_row now 1 ''a''" and ?b = "ordering_row now 2 ''b''"
  have ok: "row_ok ?c" "plain_row ?c" "row_ok ?a" "plain_row ?a" "row_ok ?b" "plain_row ?b" using near_times [OF assms(2)] by (simp_all add: row_checks ordering_row_def)
  from assms(1) have "inv s" by (simp add: fresh_def)
  from upsert_step [OF this ok(1,2)] obtain s1 where s1: "so_Upsert ops ?c s = (None, s1)" "inv s1" "rows s1 = (rows s)(row_ID ?c \<mapsto> kept kt ?c)" .
  from upsert_step [OF s1(2) ok(3,4)] obtain s2 where s2: "so_Upsert ops ?a s1 = (None, s2)" "inv s2" "rows s2 = (rows s1)(row_ID ?a \<mapsto> kept kt ?a)" .
  from upsert_step [OF s2(2) ok(5,6)] obtain s3 where s3: "so_Upsert ops ?b s2 = (None, s3)" "inv s3" "rows s3 = (rows s2)(row_ID ?b \<mapsto> kept kt ?b)" .
  from list_step [OF s3(2)] obtain xs s4 where xs: "so_List ops s3 = (Inr xs, s4)" "enumerates row_ID row_CreatedAt (rows s3) xs" .
  have "enumerates row_ID row_CreatedAt (rows s3) [kept kt ?c, kept kt ?a, kept kt ?b]"
    using assms(1) unfolding s3(3) s2(3) s1(3) by (auto simp: enumerates_def fresh_def second_def ordering_row_def kt_later split: if_splits)
  then have "xs = [kept kt ?c, kept kt ?a, kept kt ?b]"
    by (intro enum_unique [OF xs(2)]) (simp_all add: second_def ordering_row_def kt_later)
  with s1(1) s2(1) s3(1) xs(1) show ?thesis by (simp add: st_ListOrdering_def ordering_row_def)
qed

lemma passes_Run:
  assumes "\<And>n. fresh (new n)" and "\<And>n. near (clock n)"
  shows "storetest_Run ops clock new"
  unfolding storetest_Run_def
  by (intro conjI passes_UpsertAndList passes_UpsertUpdates passes_Delete passes_Get passes_noops passes_Favorites
      passes_Favorites_UpsertUpdates passes_Favorites_Delete passes_ListOrdering assms)

end

section \<open>JSONStore\<close>


definition ex_je :: js_env where
  "ex_je = \<lparr>je_fs = \<lparr>fe_fault = \<lambda>_. None, fe_short = \<lambda>_. 0, fe_rand = \<lambda>_. ''x''\<rparr>, je_dir = ''d'', je_base = ''s.json''\<rparr>"

definition ex_fs :: fs where
  "ex_fs = \<lparr>fs_files = [], fs_ops = 0\<rparr>"

lemma ex_fs_quiet: "fs_quiet (je_fs ex_je) (je_dir ex_je) ''.store-'' ''.tmp'' (je_path ex_je) ex_fs"
  by (simp add: fs_quiet_def ex_je_def ex_fs_def je_path_def)

definition noon :: instant where
  "noon = 43200 * second" \<comment> \<open>noon of the first of January 1970\<close>

lemma near_noon: "near noon"
proof -
  have "time_ok t" if "noon - second \<le> t" "t \<le> noon + 2 * second" for t
  proof -
    have lo: "43199 * 1000000000 \<le> t" and hi: "t < 86400 * 1000000000" using that by (simp_all add: noon_def second_def)
    have "43199 \<le> t div 1000000000" using zdiv_mono1 [OF lo, of 1000000000] by simp
    moreover have "t div 1000000000 < 86400" using hi by (simp add: div_less_iff_less_mult)
    ultimately have "t div 1000000000 div 86400 = 0" by simp
    then have "year_of_day (t div 1000000000 div 86400 + epoch_day) = 1970"
      by (simp add: epoch_day_def year_of_day_def days_before_year_def Let_def)
    then show ?thesis by (simp add: time_ok_def)
  qed
  then show ?thesis by (simp add: near_def)
qed


text \<open>
  A row is still there after the process ends: opening the file that \<^verbatim>\<open>Upsert\<close> left gives the
  rows there were, with this one in place, and the same favorites.
\<close>

theorem upsert_reopen:
  assumes "js_inv je s" and "row_ok r" and "js_Upsert je r s = (e, s')"
  shows "e = None \<and> (\<exists>d. fst (store_Open je (js_fs s')) = Inr d \<and>
    gm_get (sd_Sessions d) = (gm_get (sd_Sessions (js_data s)))(row_ID r \<mapsto> r) \<and>
    gm_get (sd_Favorites d) = gm_get (sd_Favorites (js_data s)))"
proof -
  let ?s = "set_sessions (gm_set (row_ID r) r) s"
  have "js_save je ?s = (e, s')" using assms(3) by (simp add: js_Upsert_def)
  moreover have "data_ok (js_data ?s)" "fs_quiet (je_fs je) (je_dir je) ''.store-'' ''.tmp'' (je_path je) (js_fs ?s)"
    using assms(1,2) data_ok_upd(1) by (simp_all add: js_inv_def set_sessions_def)
  ultimately have sv: "e = None" "js_inv je s'" "js_data s' = js_data ?s"
      "fs_get (js_fs s') (je_path je) = Some (json_print (data_json (js_data s')))"
    using js_save_ok [of ?s je e s'] by simp_all
  from reopen_saved [OF sv(2,4)] sv(1,3) show ?thesis
    by (auto simp: js_rows_def js_favs_def set_sessions_def fun_eq_iff)
qed

lemma ex_js_inv: "js_inv ex_je \<lparr>js_data = empty_data, js_fs = fs_tick ex_fs\<rparr>"
  by (rule Open_ok(2) [OF ex_fs_quiet]) (simp add: ex_fs_def)

lemma ex_row_ok: "row_ok (ordering_row noon 0 ''c'')"
  using near_times(1) [OF near_noon] by (simp add: row_checks ordering_row_def)

theorem upsert_reopen_witness:
  "\<exists>d. fst (store_Open ex_je (js_fs (snd (js_Upsert ex_je (ordering_row noon 0 ''c'') \<lparr>js_data = empty_data, js_fs = fs_tick ex_fs\<rparr>)))) = Inr d \<and>
     gm_get (sd_Sessions d) ''c'' = Some (ordering_row noon 0 ''c'')"
proof -
  let ?s = "\<lparr>js_data = empty_data, js_fs = fs_tick ex_fs\<rparr>" and ?r = "ordering_row noon 0 ''c''"
  have "js_Upsert ex_je ?r ?s = (fst (js_Upsert ex_je ?r ?s), snd (js_Upsert ex_je ?r ?s))" by simp
  from upsert_reopen [OF ex_js_inv ex_row_ok this] show ?thesis by (auto simp: ordering_row_def)
qed

text \<open>
  When saving fails, \<^verbatim>\<open>Upsert\<close> reports it and the file keeps its old bytes, so the next
  \<^verbatim>\<open>Get\<close> that can read the file gives the old row back: the new one is lost from memory too.
\<close>

theorem failed_upsert_reverts:
  assumes "js_Upsert je r s = (Some e, s1)" and "fs_get (js_fs s) (je_path je) = Some b" and "b \<noteq> []"
    and "unmarshal_store None None b = Some (Some m, ff)" and "fe_fault (je_fs je) (fs_ops (js_fs s1)) = None"
  shows "fs_get (js_fs s1) (je_path je) = Some b \<and> gm_get (sd_Sessions (js_data s1)) (row_ID r) = Some r \<and>
    fst (js_Get je (row_ID r) s1) = Inr (gm_get m (row_ID r))"
proof -
  let ?s = "set_sessions (gm_set (row_ID r) r) s"
  have b: "fs_get (js_fs s1) (je_path je) = Some b" and d: "js_data s1 = js_data ?s"
  proof -
    have fs: "js_fs ?s = js_fs s" by (simp add: set_sessions_def)
    have "fs_get (js_fs s1) (je_path je) = Some b \<and> js_data s1 = js_data ?s"
    proof (cases "marshal_store (js_data ?s)")
      case (Inl x)
      with assms(1,2) fs show ?thesis by (auto simp: js_Upsert_def js_save_def)
    next
      case (Inr x)
      obtain r' f where sv: "save_file (je_fs je) store_labels (je_dir je) ''.store-'' ''.tmp'' (je_path je) x (js_fs s) = (r', f)"
        by fastforce
      with assms(1) Inr fs have "r' = Some e" "s1 = ?s\<lparr>js_fs := f\<rparr>" by (auto simp: js_Upsert_def js_save_def)
      with save_file_atomic(1) [OF _ sv] assms(2) show ?thesis by auto
    qed
    then show "fs_get (js_fs s1) (je_path je) = Some b" "js_data s1 = js_data ?s" by auto
  qed
  with assms(3-5) show ?thesis
    by (simp add: js_Get_def js_reload_def ReadFile_def Let_def set_sessions_def)
qed

definition full_je :: js_env where
  "full_je = ex_je\<lparr>je_fs := (je_fs ex_je)\<lparr>fe_fault := \<lambda>n. if n = 0 then Some (errorf ''disk full'') else None\<rparr>\<rparr>"

definition full_store :: jsonstore where
  "full_store = \<lparr>js_data = empty_data, js_fs = \<lparr>fs_files = [(je_path full_je, json_print (data_json empty_data))], fs_ops = 0\<rparr>\<rparr>"

theorem failed_upsert_reverts_witness:
  "\<exists>e s1. js_Upsert full_je (ordering_row noon 0 ''c'') full_store = (Some e, s1) \<and>
     fst (js_Get full_je ''c'' s1) = Inr None"
proof -
  let ?r = "ordering_row noon 0 ''c''"
  have ok: "data_ok (js_data (set_sessions (gm_set (row_ID ?r) ?r) full_store))"
    using data_ok_upd(1) [of empty_data ?r] ex_row_ok
    by (simp add: set_sessions_def full_store_def data_ok_def empty_data_def)
  obtain e s1 where u: "js_Upsert full_je ?r full_store = (Some e, s1)" "fs_ops (js_fs s1) = 1"
    using marshal_ok [OF ok]
    by (simp add: js_Upsert_def js_save_def save_file_def CreateTemp_def full_je_def full_store_def set_sessions_def fs_tick_def)
  have e: "data_ok empty_data" by (simp add: data_ok_def empty_data_def)
  from failed_upsert_reverts [OF u(1), of "json_print (data_json empty_data)" "[]" "Some []"] u json_print_data_ne [of empty_data]
    unmarshal_marshal [OF e, of None None]
  show ?thesis by (simp add: full_store_def full_je_def empty_data_def ordering_row_def)
qed

end
