(* ===== verification/Manager_Props.thy ===== *)
theory Manager_Props
  imports Manager_Boot Session_Storetest
begin

text \<open>
  What a session of the manager comes to: sessions that finish, sessions that hit the usage limit,
  sessions that are stopped, and sessions that are loaded after a restart of the server.
\<close>

section \<open>Starting and waiting\<close>

definition requested :: "('st, 'x) mgr \<Rightarrow> string \<Rightarrow> string \<Rightarrow> string \<Rightarrow> string \<Rightarrow> ('st, 'x) mworld \<Rightarrow> bool" where
  "requested mg role prompt repoURL branch w \<longleftrightarrow> clock_ok mg \<and> 0 < mg_maxSlots mg \<and> mg_maxSlots mg < 2 ^ 63 \<and> \<not> mw_panic w \<and>
     role \<noteq> [] \<and> role \<noteq> ''interactive'' \<and> list_all utf8_valid [fst (mg_uuid mg (mw_ext w)), normalizeRepoURL repoURL, branch, role, prompt]"

lemma new_session_sel [simp]:
  "ss_ID (new_session i k url br dev role prompt t u) = i" "ss_Slot (new_session i k url br dev role prompt t u) = k"
  "ss_RepoURL (new_session i k url br dev role prompt t u) = normalizeRepoURL url" "ss_Branch (new_session i k url br dev role prompt t u) = br"
  "ss_Role (new_session i k url br dev role prompt t u) = role" "ss_Prompt (new_session i k url br dev role prompt t u) = prompt"
  "sess_state (new_session i k url br dev role prompt t u) = StateProvisioning"
  "sm_hooks (ss_sm (new_session i k url br dev role prompt t u)) = [()]"
  by (simp_all add: new_session_def newSM_def OnTransition_def sm_New_def)

lemma boots_timeless [simp]: "boots mg (timeless S) = boots mg S"
  by (simp add: boots_def clones_def)

lemma bare_row:
  assumes "bare_rows R i = Some (session_row T 0)"
  obtains r where "R i = Some r" "row_Status r = state_str (sess_state T)" "row_Result r = ss_Result T" "row_ErrorMsg r = ss_Error T"
proof -
  from assms obtain r where r: "R i = Some r" "r\<lparr>row_UpdatedAt := 0\<rparr> = session_row T 0" unfolding bare_rows_def by auto
  have "row_Status (r\<lparr>row_UpdatedAt := 0\<rparr>) = state_str (sess_state T)" "row_Result (r\<lparr>row_UpdatedAt := 0\<rparr>) = ss_Result T"
    "row_ErrorMsg (r\<lparr>row_UpdatedAt := 0\<rparr>) = ss_Error T" unfolding r(2) by (simp_all add: session_row_def)
  with r(1) that show ?thesis by simp
qed

context session_store
begin

lemma CreateSession_seen:
  fixes mg :: "('st, 'x) mgr"
  assumes "mg_store mg = Some ops" and "requested mg role prompt repoURL branch w" and "inv (mw_store w)"
    and "exec (CreateSession mg role prompt repoURL branch) w = (Inr i, w1)"
  obtains S M U D where "seen inv rows (length (mw_heap w)) S M U D w1" "storable S" "ss_ID S = i" "ss_Role S = role" "ss_Prompt S = prompt"
    "sess_state S = StateProvisioning" "S = timeless (mw_heap w1 ! length (mw_heap w))" "last (mw_tasks w1) = Boot (length (mw_heap w)) []"
    "M i = Some (length (mw_heap w))" "U (ss_Slot S) = Some True"
proof -
  let ?a = "length (mw_heap w)"
  obtain j x where j: "mg_uuid mg (mw_ext w) = (j, x)" by fastforce
  have role: "role \<noteq> []" and ck: "clock_ok mg" using assms(2) by (auto simp: requested_def)
  obtain k used where k: "allocSlot (mg_maxSlots mg) (mw_used w) = (Some k, used)"
    using assms(4) by (cases "allocSlot (mg_maxSlots mg) (mw_used w)", cases "fst (allocSlot (mg_maxSlots mg) (mw_used w))")
      (auto simp: CreateSession_def manager_Create_def create_locked_def)
  define s where "s = new_session j k repoURL branch False role prompt (mg_clock mg (mw_ticks w)) (mg_clock mg (Suc (mw_ticks w)))"
  define w0 where "w0 = w\<lparr>mw_used := used, mw_ext := x, mw_ticks := Suc (Suc (mw_ticks w)), mw_heap := mw_heap w @ [s], mw_sessions := gm_set j ?a (mw_sessions w)\<rparr>"
  let ?w1 = "snd (exec (persistSession mg ?a) w0)"
  have ex: "exec (CreateSession mg role prompt repoURL branch) w = (Inr j, ?w1\<lparr>mw_tasks := mw_tasks ?w1 @ [Boot ?a []]\<rparr>)"
    using role j k by (simp add: CreateSession_def manager_Create_def create_locked_def Let_def go_task_def get_sess_def flip: s_def w0_def)
      (simp add: w0_def s_def)
  have st: "storable s"
    using assms(2) j allocSlot_Some(1,2) [OF k] by (auto simp: requested_def storable_def s_def clock_ok_def new_session_def newSM_def OnTransition_def sm_New_def utf8_valid_def [of "[]"])
  have "seen inv rows ?a (timeless s) (gm_get (mw_sessions w0)) (gm_get (mw_used w0)) (bare_rows (rows (mw_store w0))) w0"
    using assms(2,3) by (simp add: seen_def w0_def s_def requested_def)
  then have "seen inv rows ?a (timeless s) (gm_get (mw_sessions w0)) (gm_get (mw_used w0))
      ((bare_rows (rows (mw_store w0)))(ss_ID (timeless s) \<mapsto> session_row (timeless s) 0)) ?w1"
    using hoare_persist [OF assms(1) ck, of "timeless s"] st unfolding hoare_def by fastforce
  then have "seen inv rows ?a (timeless s) (gm_get (mw_sessions w0)) (gm_get (mw_used w0))
      ((bare_rows (rows (mw_store w0)))(ss_ID (timeless s) \<mapsto> session_row (timeless s) 0)) w1"
    using ex assms(4) by (auto simp: seen_def)
  then show thesis
    by (rule that) (use st ex assms(4) role allocSlot_Some(5) [OF k] in \<open>auto simp: w0_def s_def nth_append\<close>)
qed

lemma exec_poll:
  fixes mg :: "('st, 'x) mgr"
  assumes "mg_store mg = Some ops" and "inv (mw_store w)" and "rows (mw_store w) i = Some r"
  shows "fst (exec (poll_session mg i) w) =
      (case state_of (row_Status r) of StateStopped \<Rightarrow> Some (Inr (row_Result r)) | StateFailed \<Rightarrow> Some (Inl (failed_error (row_ErrorMsg r))) | _ \<Rightarrow> None)"
    and "inv (mw_store (snd (exec (poll_session mg i) w)))" and "rows (mw_store (snd (exec (poll_session mg i) w))) = rows (mw_store w)"
proof -
  obtain g st where g: "so_Get ops i (mw_store w) = (g, st)" by fastforce
  from Get [OF assms(2) g] assms(3) have "g = Inr (Some r)" "inv st" "rows st = rows (mw_store w)" by auto
  with g assms(1) show "fst (exec (poll_session mg i) w) =
      (case state_of (row_Status r) of StateStopped \<Rightarrow> Some (Inr (row_Result r)) | StateFailed \<Rightarrow> Some (Inl (failed_error (row_ErrorMsg r))) | _ \<Rightarrow> None)"
    "inv (mw_store (snd (exec (poll_session mg i) w)))" "rows (mw_store (snd (exec (poll_session mg i) w))) = rows (mw_store w)"
    by (simp_all add: poll_session_def)
qed

lemma exec_tick: "mw_store (snd (exec (ext_step f) w)) = mw_store w" "fst (exec (ext_step f) w) = fst (f (mw_ext w))"
  by (simp_all add: ext_step_def split: prod.splits)

lemma wait_stopped:
  fixes mg :: "('st, 'x) mgr"
  assumes "mg_store mg = Some ops" and "inv (mw_store w)" and "rows (mw_store w) i = Some r" and "\<And>x. fst (mg_tick mg x) = None"
    and "row_Status r = ''stopped''"
  shows "fst (exec (WaitForSession (Suc n) mg i) w) = Ret (Inr (row_Result r))"
  using exec_poll(1) [OF assms(1), of "snd (exec (ext_step (mg_tick mg)) w)" i r] assms state_of_str [of StateStopped]
  by (simp add: exec_tick known_states_def state_of_def)

lemma wait_blocked:
  fixes mg :: "('st, 'x) mgr"
  assumes "mg_store mg = Some ops" and "\<And>x. fst (mg_tick mg x) = None" and "row_Status r = ''ready''"
  shows "inv (mw_store w) \<Longrightarrow> rows (mw_store w) i = Some r \<Longrightarrow> fst (exec (WaitForSession n mg i) w) = Blocked"
proof (induction n arbitrary: w)
  case (Suc n)
  have s: "state_of (row_Status r) = StateReady" using assms(3) by (simp add: state_of_def known_states_def)
  let ?w = "snd (exec (ext_step (mg_tick mg)) w)"
  have p: "inv (mw_store ?w)" "rows (mw_store ?w) i = Some r" using Suc.prems by (simp_all add: exec_tick)
  note q = exec_poll [OF assms(1) p]
  from Suc.IH [of "snd (exec (poll_session mg i) ?w)"] q p s assms(2) show ?case by (simp add: exec_tick)
qed simp

end

section \<open>Sessions that finish\<close>

context session_store
begin

lemma hoare_run_done:
  assumes "mg_store mg = Some ops" "clock_ok mg" and "storable S" "utf8_valid result"
    and "\<And>addr x. fst (mg_RunCapture mg addr (claude_cmd (ss_Prompt S)) x) = (stdout, stderr, err)"
    and "\<not> IsUsageLimitError stderr" and "parseClaudeJSON stdout = (result, False)" and "result \<noteq> [] \<or> err = None"
    and "T = set_state StateStopped ((ready p S)\<lparr>ss_Result := result\<rparr>)"
  shows "hoare (seen inv rows a (ready p S) M U D) (run_claude mg a)
    (\<lambda>_. seen inv rows a T (M(ss_ID S := None)) (U(ss_Slot S := None)) (D(ss_ID S \<mapsto> session_row T 0)))"
proof -
  have "hoare (seen inv rows a (ready p S) M U D) (claude_done mg a (ss_ID S) result)
      (\<lambda>_. seen inv rows a T (M(ss_ID S := None)) (U(ss_Slot S := None)) (D(ss_ID S \<mapsto> session_row T 0)))"
    using hoare_claude_done [OF assms(1,2), of "ready p S" result T a M U D "ss_ID S"] assms(3,4,9) by (simp add: ready_def booted_def)
  then show ?thesis
    unfolding run_claude_def Let_def
    by (intro seq_get) (use assms(5-8) in \<open>auto simp: ready_def booted_def intro!: seq_call\<close>)
qed

lemma hoare_run_limited:
  assumes "mg_store mg = Some ops" "clock_ok mg" and "storable S"
    and "\<And>addr x. fst (mg_RunCapture mg addr (claude_cmd (ss_Prompt S)) x) = (stdout, stderr, err)" and "IsUsageLimitError stderr"
    and "T = (ready p S)\<lparr>ss_Error := ''usage limit reached''\<rparr>"
  shows "hoare (seen inv rows a (ready p S) M U D) (run_claude mg a)
    (\<lambda>_. seen inv rows a T (M(ss_ID S := None)) (U(ss_Slot S := None)) (D(ss_ID S \<mapsto> session_row T 0)))"
proof -
  have "hoare (seen inv rows a (ready p S) M U D) (usage_limit mg a (ss_ID S))
      (\<lambda>_. seen inv rows a T (M(ss_ID S := None)) (U(ss_Slot S := None)) (D(ss_ID S \<mapsto> session_row T 0)))"
    using hoare_usage_limit [OF assms(1,2), of "ready p S" T a M U D "ss_ID S"] assms(3,6) by (simp add: ready_def booted_def)
  then show ?thesis
    unfolding run_claude_def Let_def
    by (intro seq_get) (use assms(4,5) in \<open>auto simp: ready_def booted_def intro!: seq_call\<close>)
qed

lemma boot_ends:
  fixes mg :: "('st, 'x) mgr"
  assumes "mg_store mg = Some ops" and "requested mg role prompt repoURL branch w" and "inv (mw_store w)"
    and "exec (CreateSession mg role prompt repoURL branch) w = (Inr i, w1)" and "boots mg (mw_heap w1 ! length (mw_heap w))"
    and "\<And>S M U D p. storable S \<Longrightarrow> ss_Prompt S = prompt \<Longrightarrow> hoare (seen inv rows (length (mw_heap w)) (ready p S) M U D) (run_claude mg (length (mw_heap w)))
      (\<lambda>_. seen inv rows (length (mw_heap w)) (f (ready p S)) (M(ss_ID S := None)) (U(ss_Slot S := None)) (D(ss_ID S \<mapsto> session_row (f (ready p S)) 0)))"
  obtains S p M U D where "ss_Slot S = ss_Slot (mw_heap w1 ! length (mw_heap w))"
    "seen inv rows (length (mw_heap w)) (f (ready p S)) (M(i := None)) (U(ss_Slot S := None)) (D(i \<mapsto> session_row (f (ready p S)) 0)) (snd (exec (boot mg (length (mw_heap w)) []) w1))"
    "last (mw_tasks w1) = Boot (length (mw_heap w)) []"
proof -
  obtain S M U D where S: "seen inv rows (length (mw_heap w)) S M U D w1" "storable S" "ss_ID S = i" "ss_Role S = role" "ss_Prompt S = prompt"
    "sess_state S = StateProvisioning" "S = timeless (mw_heap w1 ! length (mw_heap w))" "last (mw_tasks w1) = Boot (length (mw_heap w)) []"
    using CreateSession_seen [OF assms(1-4)] by metis
  let ?a = "length (mw_heap w)"
  have "hoare (seen inv rows ?a S M U D) (boot mg ?a []) (\<lambda>_ w. \<exists>p. seen inv rows ?a (f (ready p S)) (M(i := None)) (U(ss_Slot S := None)) (D(i \<mapsto> session_row (f (ready p S)) 0)) w)"
  proof (rule hoare_boot [OF assms(1)])
    show "hoare (seen inv rows ?a (ready p S) M U (D(ss_ID S \<mapsto> session_row (ready p S) 0))) (run_claude mg ?a)
        (\<lambda>_ w. \<exists>p. seen inv rows ?a (f (ready p S)) (M(i := None)) (U(ss_Slot S := None)) (D(i \<mapsto> session_row (f (ready p S)) 0)) w)" for p
      using S(3) by (intro hoare_conseq [OF assms(6) [OF S(2,5)]]) auto
  qed (use S assms(2,5) in \<open>simp_all add: requested_def\<close>)
  then obtain p where "seen inv rows ?a (f (ready p S)) (M(i := None)) (U(ss_Slot S := None)) (D(i \<mapsto> session_row (f (ready p S)) 0)) (snd (exec (boot mg ?a []) w1))"
    using S(1) unfolding hoare_def by blast
  then show thesis by (rule that [rotated]) (use S(7,8) in simp_all)
qed

end

text \<open>What the boot goroutine of a session for a stage leaves behind.\<close>

lemma session_done:
  assumes "mg_store mg = Some (js_ops je)" and "requested mg role prompt repoURL branch w" and "js_inv je (mw_store w)"
    and "exec (CreateSession mg role prompt repoURL branch) w = (Inr i, w1)" and "boots mg (mw_heap w1 ! length (mw_heap w))"
    and "\<And>addr x. fst (mg_RunCapture mg addr (claude_cmd prompt) x) = (stdout, stderr, err)"
    and "\<not> IsUsageLimitError stderr" and "parseClaudeJSON stdout = (result, False)" and "result \<noteq> [] \<or> err = None" and "utf8_valid result"
    and "w2 = snd (exec (boot mg (length (mw_heap w)) []) w1)"
  shows "last (mw_tasks w1) = Boot (length (mw_heap w)) [] \<and> js_inv je (mw_store w2) \<and>
    (\<exists>r. js_rows (mw_store w2) i = Some r \<and> row_Status r = ''stopped'' \<and> row_Result r = result) \<and>
    gm_get (mw_sessions w2) i = None \<and> gm_get (mw_used w2) (ss_Slot (mw_heap w1 ! length (mw_heap w))) = None"
proof -
  let ?f = "\<lambda>S. set_state StateStopped (S\<lparr>ss_Result := result\<rparr>)"
  have ck: "clock_ok mg" using assms(2) by (simp add: requested_def)
  obtain S p M U D where e: "ss_Slot S = ss_Slot (mw_heap w1 ! length (mw_heap w))" "last (mw_tasks w1) = Boot (length (mw_heap w)) []"
    "seen (js_inv je) js_rows (length (mw_heap w)) (?f (ready p S)) (M(i := None)) (U(ss_Slot S := None)) (D(i \<mapsto> session_row (?f (ready p S)) 0)) w2"
    using js.boot_ends [OF assms(1-5), of ?f] js.hoare_run_done [OF assms(1) ck _ assms(10) _ assms(7-9)] assms(6,11) by metis
  then have "bare_rows (js_rows (mw_store w2)) i = Some (session_row (?f (ready p S)) 0)" by (simp add: seen_def)
  then obtain r where "js_rows (mw_store w2) i = Some r" "row_Status r = ''stopped''" "row_Result r = result" by (rule bare_row) simp
  with e show ?thesis by (auto simp: seen_def)
qed

text \<open>
  (C2) A session that is created for a workflow stage ends with its answer: when the services
  succeed and the command prints an answer, the boot goroutine that \<^verbatim>\<open>CreateSession\<close> started removes
  the session and frees its slot, and \<^verbatim>\<open>WaitForSession\<close> returns the answer at its next tick.
\<close>

theorem session_completes:
  assumes "mg_store mg = Some (js_ops je)" and "requested mg role prompt repoURL branch w" and "js_inv je (mw_store w)"
    and "exec (CreateSession mg role prompt repoURL branch) w = (Inr i, w1)" and "boots mg (mw_heap w1 ! length (mw_heap w))"
    and "\<And>addr x. fst (mg_RunCapture mg addr (claude_cmd prompt) x) = (stdout, stderr, err)"
    and "\<not> IsUsageLimitError stderr" and "parseClaudeJSON stdout = (result, False)" and "result \<noteq> [] \<or> err = None" and "utf8_valid result"
    and "\<And>x. fst (mg_tick mg x) = None" and "w2 = snd (exec (boot mg (length (mw_heap w)) []) w1)"
  shows "last (mw_tasks w1) = Boot (length (mw_heap w)) [] \<and> fst (exec (WaitForSession (Suc n) mg i) w2) = Ret (Inr result) \<and>
    gm_get (mw_sessions w2) i = None \<and> gm_get (mw_used w2) (ss_Slot (mw_heap w1 ! length (mw_heap w))) = None"
  using session_done [OF assms(1-10,12)] js.wait_stopped [OF assms(1), of w2 i _ n] assms(11) by metis

definition fresh_js :: jsonstore where
  "fresh_js = \<lparr>js_data = empty_data, js_fs = fs_tick ex_fs\<rparr>"

abbreviation js_mgr :: "string \<times> string \<times> goerror option \<Rightarrow> (jsonstore, nat) mgr" where
  "js_mgr claude \<equiv> ex_mgr (Some (js_ops ex_je)) claude"

definition ex_created :: "string \<times> string \<times> goerror option \<Rightarrow> string result \<times> (jsonstore, nat) mworld" where
  "ex_created claude = exec (CreateSession (js_mgr claude) ''research'' ''why'' [] []) (ex_world fresh_js)"

lemma ex_texts: "Itoa 0 = ''0''" "normalizeRepoURL [] = []" "list_all utf8_valid [''session-0'', [], ''research'', ''why'']"
  by code_simp+

lemma ex_created_heap:
  "fst (ex_created claude) = Inr ''session-0''" "mw_heap (snd (ex_created claude)) = [new_session ''session-0'' 0 [] [] False ''research'' ''why'' 0 0]"
  by (simp_all add: ex_created_def CreateSession_def manager_Create_def create_locked_def ex_mgr_def ex_world_def allocSlot_def
      alloc_from.simps [of 2 "[]" 0] get_sess_def go_task_def Let_def ex_texts(1))

lemma ex_requested: "requested (js_mgr claude) ''research'' ''why'' [] [] (ex_world fresh_js)"
proof -
  have "time_ok 0" by (simp add: time_ok_def epoch_day_def year_of_day_def days_before_year_def Let_def)
  then show ?thesis
    using ex_texts(3) by (simp add: requested_def clock_ok_def ex_mgr_def ex_world_def ex_texts(1,2))
qed

lemma ex_boots: "boots (js_mgr claude) (mw_heap (snd (ex_created claude)) ! 0)"
  by (simp add: ex_created_heap boots_def ex_mgr_def ex_texts(2))

lemma ex_start:
  "mg_store (js_mgr claude) = Some (js_ops ex_je)" "js_inv ex_je (mw_store (ex_world fresh_js))" "mw_heap (ex_world fresh_js) = []"
  "exec (CreateSession (js_mgr claude) ''research'' ''why'' [] []) (ex_world fresh_js) = (Inr ''session-0'', snd (ex_created claude))"
  "\<And>addr cmd x. fst (mg_RunCapture (js_mgr claude) addr cmd x) = claude" "\<And>x. fst (mg_tick (js_mgr claude) x) = None"
proof -
  show "exec (CreateSession (js_mgr claude) ''research'' ''why'' [] []) (ex_world fresh_js) = (Inr ''session-0'', snd (ex_created claude))"
    by (rule prod_eqI) (use ex_created_heap(1) [of claude] in \<open>simp_all add: ex_created_def\<close>)
qed (use ex_js_inv in \<open>simp_all add: ex_mgr_def ex_world_def fresh_js_def\<close>)

theorem session_completes_witness:
  "fst (exec (WaitForSession 1 (js_mgr (''42'', [], None)) ''session-0'')
     (snd (exec (boot (js_mgr (''42'', [], None)) 0 []) (snd (ex_created (''42'', [], None)))))) = Ret (Inr ''42'')"
proof -
  let ?c = "(''42'', [], None) :: string \<times> string \<times> goerror option"
  have "\<not> IsUsageLimitError []" "parseClaudeJSON ''42'' = (''42'', False)" "utf8_valid ''42''" by code_simp+
  moreover note s = ex_start(1,4-6) [where claude = ?c]
  ultimately show ?thesis
    using session_completes [OF s(1) ex_requested ex_start(2) s(2) _ s(3) _ _ _ _ s(4) refl, where result = "''42''" and n = 0] ex_boots [of ?c]
    by (simp add: ex_start(3))
qed

section \<open>Sessions that hit the usage limit\<close>

text \<open>
  (C33) A session whose command reports the usage limit never ends for its caller: the transition
  from ready to failed is not allowed, its error is only logged, and the stored row stays ready
  with the error text while the session leaves the map and its slot is freed. \<^verbatim>\<open>WaitForSession\<close>
  waits for ever, so the engine never sees the error that would make it retry.
\<close>

theorem usage_limit_hangs:
  assumes "mg_store mg = Some (js_ops je)" and "requested mg role prompt repoURL branch w" and "js_inv je (mw_store w)"
    and "exec (CreateSession mg role prompt repoURL branch) w = (Inr i, w1)" and "boots mg (mw_heap w1 ! length (mw_heap w))"
    and "\<And>addr x. fst (mg_RunCapture mg addr (claude_cmd prompt) x) = (stdout, stderr, err)" and "IsUsageLimitError stderr"
    and "\<And>x. fst (mg_tick mg x) = None" and "w2 = snd (exec (boot mg (length (mw_heap w)) []) w1)"
  shows "(\<forall>n. fst (exec (WaitForSession n mg i) w2) = Blocked) \<and>
    (\<exists>r. js_rows (mw_store w2) i = Some r \<and> row_Status r = ''ready'' \<and> row_ErrorMsg r = ''usage limit reached'') \<and>
    gm_get (mw_sessions w2) i = None \<and> gm_get (mw_used w2) (ss_Slot (mw_heap w1 ! length (mw_heap w))) = None"
proof -
  let ?f = "\<lambda>S. S\<lparr>ss_Error := ''usage limit reached''\<rparr>"
  have ck: "clock_ok mg" using assms(2) by (simp add: requested_def)
  obtain S p M U D where e: "ss_Slot S = ss_Slot (mw_heap w1 ! length (mw_heap w))"
    "seen (js_inv je) js_rows (length (mw_heap w)) (?f (ready p S)) (M(i := None)) (U(ss_Slot S := None)) (D(i \<mapsto> session_row (?f (ready p S)) 0)) w2"
    using js.boot_ends [OF assms(1-5), of ?f] js.hoare_run_limited [OF assms(1) ck _ _ assms(7)] assms(6,9) by metis
  then have "bare_rows (js_rows (mw_store w2)) i = Some (session_row (?f (ready p S)) 0)" by (simp add: seen_def)
  then obtain r where r: "js_rows (mw_store w2) i = Some r" "row_Status r = ''ready''" "row_ErrorMsg r = ''usage limit reached''"
    by (rule bare_row) (simp add: ready_def booted_def)
  with js.wait_blocked [OF assms(1), of r w2 i] assms(8) e show ?thesis by (simp add: seen_def)
qed

theorem usage_limit_hangs_witness:
  "\<forall>n. fst (exec (WaitForSession n (js_mgr ([], ''You've hit your limit'', None)) ''session-0'')
     (snd (exec (boot (js_mgr ([], ''You've hit your limit'', None)) 0 []) (snd (ex_created ([], ''You've hit your limit'', None)))))) = Blocked"
proof -
  let ?c = "([], ''You've hit your limit'', None) :: string \<times> string \<times> goerror option"
  have "IsUsageLimitError ''You've hit your limit''" by code_simp
  moreover note s = ex_start(1,4-6) [where claude = ?c]
  ultimately show ?thesis
    using usage_limit_hangs [OF s(1) ex_requested ex_start(2) s(2) _ s(3) _ s(4) refl] ex_boots [of ?c] by (simp add: ex_start(3))
qed

end
