(* ===== verification/Manager_Ends.thy ===== *)
theory Manager_Ends
  imports Manager_Props
begin

text \<open>
  How sessions end other than by finishing: a command that fails, a machine that cannot be
  configured, \<^verbatim>\<open>Stop\<close> and its clean-up goroutine, and an answer that arrives after the clean-up.
\<close>

section \<open>Stopping\<close>

lemma exec_persists_sel [simp]:
  "mw_heap (snd (exec (for_each hs (\<lambda>_. persistSession mg a)) w)) = mw_heap w"
  "mw_sessions (snd (exec (for_each hs (\<lambda>_. persistSession mg a)) w)) = mw_sessions w"
  "mw_used (snd (exec (for_each hs (\<lambda>_. persistSession mg a)) w)) = mw_used w"
  "mw_tasks (snd (exec (for_each hs (\<lambda>_. persistSession mg a)) w)) = mw_tasks w"
  "mw_calls (snd (exec (for_each hs (\<lambda>_. persistSession mg a)) w)) = mw_calls w"
  by (induction hs arbitrary: w) simp_all

lemma invalid_transition_Is [simp]: "errors_Is (invalid_transition st to) ErrInvalidTransition"
  by (simp add: invalid_transition_def errors_Is_def errorf_w_def)

lemma exec_transition_refused:
  assumes "to \<notin> set (validTransitions (sess_state (mw_heap w ! a)))"
  shows "exec (transition mg a to) w = (Some (invalid_transition (sess_state (mw_heap w ! a)) to), w\<lparr>mw_ticks := Suc (Suc (mw_ticks w))\<rparr>)"
  using assms by (simp add: transition_def Transition_def Let_def upd_heap_def)

lemma exec_transition_sel:
  assumes "a < length (mw_heap w)" and "to \<in> set (validTransitions (sess_state (mw_heap w ! a)))" and "exec (transition mg a to) w = (r, w')"
  shows "r = None" "mw_sessions w' = mw_sessions w" "mw_used w' = mw_used w" "mw_tasks w' = mw_tasks w" "mw_calls w' = mw_calls w"
    "sess_state (mw_heap w' ! a) = to" "ss_v (mw_heap w' ! a) = ss_v (mw_heap w ! a)"
  using assms by (auto simp: transition_def Transition_def Let_def upd_heap_def split: prod.splits)

text \<open>
  (C17) What \<^verbatim>\<open>Stop\<close> does in every state of a session: an unknown session is an error and nothing
  changes; a ready one becomes stopping and its clean-up is started; a stopped or failed one is
  forgotten at once, its row included; one that is stopping already is left alone; and a session
  that is still booting refuses with the error of the transition, so it cannot be stopped.
\<close>

theorem Stop_outcome:
  assumes "exec (manager_Stop mg i) w = (r, w')" and "\<And>a. gm_get (mw_sessions w) i = Some a \<Longrightarrow> a < length (mw_heap w)"
  shows "case gm_get (mw_sessions w) i of
      None \<Rightarrow> r = Some (session_not_found i) \<and> w' = w
    | Some a \<Rightarrow>
        (case sess_state (mw_heap w ! a) of
           StateReady \<Rightarrow> r = None \<and> mw_tasks w' = mw_tasks w @ [Cleanup a i] \<and> sess_state (mw_heap w' ! a) = StateStopping \<and>
             mw_sessions w' = mw_sessions w \<and> mw_used w' = mw_used w
         | StateStopping \<Rightarrow> r = None \<and> w' = w\<lparr>mw_ticks := Suc (Suc (mw_ticks w))\<rparr>
         | StateStopped \<Rightarrow> r = None \<and> w' = snd (exec (store_forget mg i) (w\<lparr>mw_ticks := Suc (Suc (mw_ticks w)), mw_sessions := gm_del i (mw_sessions w)\<rparr>))
         | StateFailed \<Rightarrow> r = None \<and> w' = snd (exec (store_forget mg i) (w\<lparr>mw_ticks := Suc (Suc (mw_ticks w)), mw_sessions := gm_del i (mw_sessions w)\<rparr>))
         | st \<Rightarrow> r = Some (invalid_transition st StateStopping) \<and> w' = w\<lparr>mw_ticks := Suc (Suc (mw_ticks w))\<rparr>)"
proof (cases "gm_get (mw_sessions w) i")
  case None
  with assms(1) show ?thesis by (simp add: manager_Stop_def)
next
  case (Some a)
  note stop = assms(1) [unfolded manager_Stop_def] Some
  show ?thesis
  proof (cases "sess_state (mw_heap w ! a) = StateReady")
    case True
    obtain q v where t: "exec (transition mg a StateStopping) w = (q, v)" by fastforce
    from exec_transition_sel [OF assms(2) [OF Some] _ t] True have "q = None" "mw_sessions v = mw_sessions w" "mw_used v = mw_used w"
      "mw_tasks v = mw_tasks w" "sess_state (mw_heap v ! a) = StateStopping" by auto
    with stop t True show ?thesis by (auto simp: go_task_def)
  next
    case False
    then have "StateStopping \<notin> set (validTransitions (sess_state (mw_heap w ! a)))"
      by (cases "sess_state (mw_heap w ! a)") auto
    from exec_transition_refused [OF this, of mg] stop False show ?thesis
      by (cases "sess_state (mw_heap w ! a)") (auto simp: get_sess_def remove_session_def)
  qed
qed

theorem Stop_outcome_witness:
  "fst (exec (manager_Stop (ex_mgr None ([], [], None)) ''session-0'') two_created) = Some (invalid_transition StateProvisioning StateStopping)"
proof -
  have "gm_get (mw_sessions two_created) ''session-0'' = Some 0" "length (mw_heap two_created) = 2"
    "sess_state (mw_heap two_created ! 0) = StateProvisioning" by code_simp+
  with Stop_outcome [of "ex_mgr None ([], [], None)" "''session-0''" two_created] show ?thesis
    by (cases "exec (manager_Stop (ex_mgr None ([], [], None)) ''session-0'') two_created") auto
qed

text \<open>The clean-up goroutine of \<^verbatim>\<open>Stop\<close>.\<close>

context session_store
begin

lemma seq_forget:
  fixes mg :: "('st, 'x) mgr"
  assumes "mg_store mg = Some ops" and "hoare (seen inv rows a S M U (D(i := None))) (k ()) Q"
  shows "hoare (seen inv rows a S M U D) (bind (store_forget mg i) k) Q"
proof -
  have "hoare (seen inv rows a S M U D) (store_forget mg i) (\<lambda>_. seen inv rows a S M U (D(i := None)))"
    unfolding hoare_def
  proof (intro allI impI)
    fix w :: "('st, 'x) mworld" assume w: "seen inv rows a S M U D w"
    obtain e st where d: "so_Delete ops i (mw_store w) = (e, st)" by fastforce
    from Delete [OF _ d] w have "inv st" "rows st = (rows (mw_store w))(i := None)" by (simp_all add: seen_def)
    with w d assms(1) show "seen inv rows a S M U (D(i := None)) (snd (exec (store_forget mg i) w))"
      by (auto simp: store_forget_def store_delete_def seen_def bare_rows_def fun_eq_iff)
  qed
  then show ?thesis by (rule seq_unit) (rule assms(2))
qed

lemma hoare_stop_cleanup:
  assumes "mg_store mg = Some ops" "clock_ok mg" and "storable S" and "sess_state S = StateStopping" and "i = ss_ID S"
  shows "hoare (seen inv rows a S M U D) (stop_cleanup mg a i)
    (\<lambda>_. seen inv rows a (set_state StateStopped S) (M(i := None)) (U(ss_Slot S := None)) (D(i := None)))"
  unfolding stop_cleanup_def
  by (intro seq_release seq_transition [OF assms(1,2)] seq_fields(3) seq_forget [OF assms(1)] hoare_last invisible_ends)
    (use assms(3-5) in simp_all)

end

text \<open>
  (C13) Stopping a ready session and running the clean-up it starts removes the session: it is in
  neither the map nor the store any more, its slot is free, and no other session, slot or row has
  changed.
\<close>

theorem stop_removes:
  assumes "mg_store mg = Some (js_ops je)" and "clock_ok mg" and "seen (js_inv je) js_rows a S M U D w"
    and "storable S" and "sess_state S = StateReady" and "M (ss_ID S) = Some a"
    and "exec (manager_Stop mg (ss_ID S)) w = (r, w1)" and "w2 = snd (exec (stop_cleanup mg a (ss_ID S)) w1)"
  shows "r = None \<and> last (mw_tasks w1) = Cleanup a (ss_ID S) \<and>
    seen (js_inv je) js_rows a (set_state StateStopped S) (M(ss_ID S := None)) (U(ss_Slot S := None)) (D(ss_ID S := None)) w2"
proof -
  let ?S = "set_state StateStopping S" and ?i = "ss_ID S"
  obtain q v where t: "exec (transition mg a StateStopping) w = (q, v)" by fastforce
  have q: "q = None" and v: "seen (js_inv je) js_rows a ?S M U (D(?i \<mapsto> session_row ?S 0)) v"
    using js.hoare_transition [OF assms(1,2,4), of StateStopping a M U D] assms(3,5) t unfolding hoare_def by fastforce+
  have g: "gm_get (mw_sessions w) ?i = Some a" using assms(3,6) by (auto simp: seen_def)
  with t q assms(7) have w1: "r = None" "w1 = v\<lparr>mw_tasks := mw_tasks v @ [Cleanup a ?i]\<rparr>" by (auto simp: manager_Stop_def go_task_def)
  then have "seen (js_inv je) js_rows a ?S M U (D(?i \<mapsto> session_row ?S 0)) w1" using v by (simp add: seen_def)
  then have "seen (js_inv je) js_rows a (set_state StateStopped ?S) (M(?i := None)) (U(ss_Slot ?S := None)) ((D(?i \<mapsto> session_row ?S 0))(?i := None)) w2"
    using js.hoare_stop_cleanup [OF assms(1,2), of ?S ?i a M U] assms(4,8) unfolding hoare_def by fastforce
  with w1 show ?thesis by simp
qed

definition one_session :: "state \<Rightarrow> session \<Rightarrow> (jsonstore, nat) mworld" where
  "one_session st s = (ex_world fresh_js)\<lparr>mw_heap := [s\<lparr>ss_sm := newSM st 0\<rparr>], mw_sessions := [(ss_ID s, 0)], mw_used := [(ss_Slot s, True)]\<rparr>"

definition plain_session :: session where
  "plain_session = new_session ''session-0'' 0 [] [] False ''research'' ''why'' 0 0"

lemma time_ok_0: "time_ok 0"
  by (simp add: time_ok_def epoch_day_def year_of_day_def days_before_year_def Let_def)

lemma storable_plain: "storable plain_session"
proof -
  have "list_all utf8_valid [''session-0'', [], ''research'', ''why'']" by code_simp
  then show ?thesis by (simp add: storable_def plain_session_def new_session_def newSM_def OnTransition_def sm_New_def time_ok_0 normalizeRepoURL_def HasPrefix_def)
qed

lemma one_session_seen:
  "seen (js_inv ex_je) js_rows 0 (set_state st plain_session) (Map.empty(''session-0'' \<mapsto> 0)) (Map.empty(0 \<mapsto> True)) Map.empty (one_session st plain_session)"
  using ex_js_inv by (simp add: seen_def one_session_def ex_world_def fresh_js_def plain_session_def new_session_def newSM_def OnTransition_def sm_New_def
      timeless_def set_state_def bare_rows_def js_rows_def empty_data_def fun_eq_iff)

lemma js_mgr_clock: "clock_ok (js_mgr claude)"
  by (simp add: clock_ok_def ex_mgr_def time_ok_0)

theorem stop_removes_witness:
  "let mg = js_mgr ([], [], None); w1 = snd (exec (manager_Stop mg ''session-0'') (one_session StateReady plain_session))
   in gm_get (mw_sessions (snd (exec (stop_cleanup mg 0 ''session-0'') w1))) ''session-0'' = None"
proof -
  let ?mg = "js_mgr ([], [], None)" and ?w = "one_session StateReady plain_session"
  have i: "ss_ID plain_session = ''session-0''" by (simp add: plain_session_def)
  have "exec (manager_Stop ?mg ''session-0'') ?w = (fst (exec (manager_Stop ?mg ''session-0'') ?w), snd (exec (manager_Stop ?mg ''session-0'') ?w))" by simp
  from stop_removes [OF ex_start(1) js_mgr_clock one_session_seen storable_upd(6) [OF storable_plain], unfolded set_state_sel i, OF _ _ _ this refl]
  show ?thesis by (auto simp: Let_def seen_def)
qed

section \<open>An answer that arrives too late\<close>

text \<open>Programs that change no session object but their own.\<close>

definition local_to :: "nat \<Rightarrow> (('st, 'x) mworld, 'b) prog \<Rightarrow> bool" where
  "local_to a p \<longleftrightarrow> (\<forall>w b. b \<noteq> a \<longrightarrow> mw_heap (snd (exec p w)) ! b = mw_heap w ! b)"

named_theorems locals \<open>programs that change no session object but their own\<close>

lemma local_basic [locals]:
  "local_to a (Done r)" "local_to a (get_sess c)" "local_to a (upd_sess a f)" "local_to a (persistSession mg a)" "local_to a (remove_session i)"
  "local_to a (freeSlot k)" "local_to a (ext_call e g)"
  by (auto simp: local_to_def get_sess_def upd_sess_def upd_heap_def remove_session_def freeSlot_def ext_call_def split: prod.splits)

lemma local_bind [locals]: "local_to a p \<Longrightarrow> (\<And>r. local_to a (k r)) \<Longrightarrow> local_to a (bind p k)"
  by (simp add: local_to_def)

lemma local_option [locals]: "local_to a p \<Longrightarrow> (\<And>v. local_to a (k v)) \<Longrightarrow> local_to a (case m of None \<Rightarrow> p | Some v \<Rightarrow> k v)"
  by (simp split: option.splits)

lemma local_transition [locals]: "local_to a (transition mg a to)"
  by (auto simp: local_to_def transition_def upd_heap_def split: prod.splits)

lemma local_claude_done: "local_to a (claude_done mg a i result)"
  unfolding claude_done_def release_vm_def stopVM_def deleteSnapshot_def cleanup_workspace_def by (intro locals)

context session_store
begin

lemma hoare_claude_late:
  assumes "mg_store mg = Some ops" "clock_ok mg" and "storable S" "utf8_valid result" and "sess_state S = StateStopped"
    and "T = S\<lparr>ss_Result := result\<rparr>"
  shows "hoare (seen inv rows a S M U D) (claude_done mg a i result)
    (\<lambda>_. seen inv rows a T (M(i := None)) (U(ss_Slot S := None)) (D(ss_ID S \<mapsto> session_row T 0)))"
  unfolding claude_done_def
  by (intro seq_upd(1) seq_refused seq_persist [OF assms(1,2)] seq_release seq_fields(3) hoare_last invisible_ends)
    (use assms(3-6) in simp_all)

end

text \<open>
  (C34) The boot goroutine ignores that its transition to stopping is refused. When its answer
  arrives after \<^verbatim>\<open>Stop\<close> has cleaned the session up and a new session has got the slot, the
  goroutine frees the slot of the new session, which is active and now holds a slot that is not
  marked as used, and the row that \<^verbatim>\<open>Stop\<close> deleted is in the store again.
\<close>

theorem late_result_frees_slot:
  assumes "mg_store mg = Some (js_ops je)" and "clock_ok mg" and "seen (js_inv je) js_rows a S M U D w"
    and "storable S" and "utf8_valid result" and "sess_state S = StateStopped"
    and "M j = Some b" "b \<noteq> a" "j \<noteq> ss_ID S" "active (mw_heap w ! b)" and "ss_Slot (mw_heap w ! b) = ss_Slot S"
    and "w' = snd (exec (claude_done mg a (ss_ID S) result) w)"
  shows "\<not> slots_inv w' \<and> gm_get (mw_used w') (ss_Slot (mw_heap w' ! b)) = None \<and> js_rows (mw_store w') (ss_ID S) \<noteq> None"
proof -
  let ?T = "S\<lparr>ss_Result := result\<rparr>"
  have w': "seen (js_inv je) js_rows a ?T (M(ss_ID S := None)) (U(ss_Slot S := None)) (D(ss_ID S \<mapsto> session_row ?T 0)) w'"
    using js.hoare_claude_late [OF assms(1,2,4-6) refl, of a M U D "ss_ID S"] assms(3,12) unfolding hoare_def by blast
  have b: "mw_heap w' ! b = mw_heap w ! b" using local_claude_done [of a mg "ss_ID S" result] assms(8,12) by (simp add: local_to_def)
  have u: "gm_get (mw_used w') (ss_Slot (mw_heap w' ! b)) = None" using w' b assms(11) by (auto simp: seen_def)
  moreover have "gm_get (mw_sessions w') j = Some b" using w' assms(7,9) by (auto simp: seen_def)
  ultimately have "\<not> slots_inv w'" using b assms(10) unfolding slots_inv_def by (metis option.distinct(1))
  moreover have "bare_rows (js_rows (mw_store w')) (ss_ID S) \<noteq> None" using w' by (auto simp: seen_def)
  ultimately show ?thesis using u by (auto simp: bare_rows_def)
qed

definition slot_taken :: "(jsonstore, nat) mworld" where
  "slot_taken = (one_session StateStopped plain_session)\<lparr>mw_heap := [plain_session\<lparr>ss_sm := newSM StateStopped 0\<rparr>, plain_session\<lparr>ss_ID := ''session-1''\<rparr>],
     mw_sessions := [(''session-1'', 1)]\<rparr>"

theorem late_result_frees_slot_witness:
  "\<not> slots_inv (snd (exec (claude_done (js_mgr ([], [], None)) 0 ''session-0'' ''42'') slot_taken))"
proof -
  have i: "ss_ID plain_session = ''session-0''" "ss_Slot plain_session = 0" by (simp_all add: plain_session_def)
  have s: "seen (js_inv ex_je) js_rows 0 (set_state StateStopped plain_session) (Map.empty(''session-1'' \<mapsto> 1)) (Map.empty(0 \<mapsto> True)) Map.empty slot_taken"
    using one_session_seen [of StateStopped] by (auto simp: seen_def slot_taken_def one_session_def fun_eq_iff i)
  have h: "active (mw_heap slot_taken ! 1)" "ss_Slot (mw_heap slot_taken ! 1) = 0"
    by (simp_all add: slot_taken_def active_def plain_session_def)
  have u: "utf8_valid ''42''" by code_simp
  show ?thesis
    using late_result_frees_slot [OF ex_start(1) js_mgr_clock s storable_upd(6) [OF storable_plain], of "''42''" "''session-1''" 1] u h
    by (simp add: i)
qed

section \<open>Failures that leave the machine running\<close>

text \<open>
  A command that fails leaves everything behind: the transition from ready to failed is not
  allowed, and the branch for a session that is already final returns. The session stays ready in
  the map and in the store, its slot stays taken, and neither the machine nor the snapshot is
  released; whoever waits for it waits for ever.
\<close>

theorem claude_error_leaks:
  assumes "sess_state (mw_heap w ! a) = StateReady" and "a < length (mw_heap w)" and "ss_bridge (mw_heap w ! a) = Some addr"
    and "mg_RunCapture mg addr (claude_cmd (ss_Prompt (mw_heap w ! a))) (mw_ext w) = ((stdout, stderr, cmdErr), x)"
    and "\<not> IsUsageLimitError stderr" and "parseClaudeJSON stdout = (result, isError)" and "isError \<or> (result = [] \<and> cmdErr \<noteq> None)"
    and "w' = snd (exec (run_claude mg a) w)"
  shows "sess_state (mw_heap w' ! a) = StateReady \<and> mw_sessions w' = mw_sessions w \<and> mw_used w' = mw_used w \<and> mw_store w' = mw_store w \<and>
    mw_calls w' = mw_calls w @ [CallRunCapture (claude_cmd (ss_Prompt (mw_heap w ! a)))]"
proof -
  have "exec (claude_failed mg a i stderr) v = ((), snd (exec (transition mg a StateFailed) (snd (exec (set_error a e) v))))"
    if "sess_state (mw_heap v ! a) = StateReady" "a < length (mw_heap v)" "e = (if stderr = [] then ''claude exited with no output'' else stderr)" for i v e
    using that by (simp add: claude_failed_def set_error_def upd_sess_def upd_heap_def exec_transition_refused)
  with assms show ?thesis
    by (auto simp: run_claude_def Let_def ext_call_def get_sess_def set_error_def upd_sess_def upd_heap_def exec_transition_refused)
qed

theorem claude_error_leaks_witness:
  "let w = (one_session StateReady plain_session)\<lparr>mw_heap := [plain_session\<lparr>ss_sm := newSM StateReady 0, ss_bridge := Some ''vm''\<rparr>]\<rparr>;
       w' = snd (exec (run_claude (js_mgr ([], ''boom'', Some (errorf ''exit 1''))) 0) w)
   in gm_get (mw_used w') 0 = Some True \<and> mw_calls w' = [CallRunCapture (claude_cmd ''why'')]"
proof -
  have c: "\<not> IsUsageLimitError ''boom''" "parseClaudeJSON [] = ([], False)" by code_simp+
  let ?w = "(one_session StateReady plain_session)\<lparr>mw_heap := [plain_session\<lparr>ss_sm := newSM StateReady 0, ss_bridge := Some ''vm''\<rparr>]\<rparr>"
  let ?mg = "js_mgr ([], ''boom'', Some (errorf ''exit 1''))"
  have r: "mg_RunCapture ?mg ''vm'' (claude_cmd ''why'') (mw_ext ?w) = (([], ''boom'', Some (errorf ''exit 1'')), mw_ext ?w)"
    by (simp add: ex_mgr_def)
  have p: "ss_Prompt plain_session = ''why''" by (simp add: plain_session_def)
  from claude_error_leaks [of ?w 0 "''vm''" ?mg "[]" "''boom''" "Some (errorf ''exit 1'')" "mw_ext ?w" "[]" False, OF _ _ _ _ _ _ _ refl] c r p
  show ?thesis by (simp add: Let_def newSM_def OnTransition_def sm_New_def one_session_def ex_world_def) (simp add: plain_session_def)
qed

fun releases :: "call \<Rightarrow> bool" where
  "releases (CallVmStop v) = True"
| "releases (CallDeleteSnapshot i) = True"
| "releases _ = False"

text \<open>Programs that release nothing and change no session, slot or map entry.\<close>

definition gentle :: "(('st, 'x) mworld, 'b) prog \<Rightarrow> bool" where
  "gentle p \<longleftrightarrow> (\<forall>w. mw_heap (snd (exec p w)) = mw_heap w \<and> mw_used (snd (exec p w)) = mw_used w \<and> mw_sessions (snd (exec p w)) = mw_sessions w \<and>
     filter releases (mw_calls (snd (exec p w))) = filter releases (mw_calls w))"

named_theorems gentles \<open>programs that release nothing\<close>

lemma gentle_basic [gentles]: "gentle (Done r)" "gentle (get_sess c)" "gentle (fs_step g)" "\<not> releases e \<Longrightarrow> gentle (ext_call e h)"
  by (auto simp: gentle_def get_sess_def ext_call_def fs_step_def split: prod.splits)

lemma gentle_bind [gentles]: "gentle p \<Longrightarrow> (\<And>r. gentle (k r)) \<Longrightarrow> gentle (bind p k)"
  by (simp add: gentle_def)

lemma gentle_cases [gentles]:
  "(c \<Longrightarrow> gentle p) \<Longrightarrow> (\<not> c \<Longrightarrow> gentle q) \<Longrightarrow> gentle (if c then p else q)"
  "gentle p \<Longrightarrow> (\<And>v. gentle (k v)) \<Longrightarrow> gentle (case m of None \<Rightarrow> p | Some v \<Rightarrow> k v)"
  by (simp_all split: option.splits)

lemma gentle_configure [gentles]: "gentle (injectKey mg addr)" "gentle (configureGit mg addr gt t)"
  unfolding injectKey_def configureGit_def ignore_def run_setup_def saveToken_def Let_def by (intro gentles; simp)+

text \<open>
  A session whose workspace could not be prepared fails only after its machine was launched,
  and then the slot is freed although neither the machine is stopped nor the snapshot deleted: the
  next session can get the slot of a machine that still runs.
\<close>

theorem workspace_failure_leaks:
  assumes "a < length (mw_heap w)" and "sess_state (mw_heap w ! a) = StateConfiguring" and "ss_RepoURL (mw_heap w ! a) \<noteq> []"
    and "ss_workspacePath (mw_heap w ! a) = []" and "ss_v (mw_heap w ! a) = Some v"
    and "w' = snd (exec (boot_configure mg a githubToken token) w)"
  shows "sess_state (mw_heap w' ! a) = StateFailed \<and> gm_get (mw_used w') (ss_Slot (mw_heap w ! a)) = None \<and>
    ss_v (mw_heap w' ! a) = Some v \<and> filter releases (mw_calls w') = filter releases (mw_calls w)"
proof -
  let ?addr = "vm_addr (ss_Slot (mw_heap w ! a))" and ?s = "(mw_heap w ! a)\<lparr>ss_bridge := Some (vm_addr (ss_Slot (mw_heap w ! a)))\<rparr>"
  let ?e = "errorf (''workspace not prepared for '' @ ss_RepoURL ?s @ '': bare-repo clone failed earlier'')"
  let ?pre = "bind (injectKey mg ?addr) (\<lambda>_. configureGit mg ?addr githubToken token)"
  define v1 where "v1 = snd (exec ?pre (w\<lparr>mw_heap := (mw_heap w)[a := ?s]\<rparr>))"
  have "gentle ?pre" by (intro gentles)
  then have v1: "mw_heap v1 = (mw_heap w)[a := ?s]" "mw_used v1 = mw_used w" "filter releases (mw_calls v1) = filter releases (mw_calls w)"
    by (simp_all add: gentle_def v1_def)
  have "w' = snd (exec (boot_fail mg a ?e) v1)"
    using assms v1 by (simp add: boot_configure_def Let_def get_sess_def upd_sess_def upd_heap_def attachWorkspace_def v1_def)
  moreover define v2 where "v2 = upd_heap a (\<lambda>s. s\<lparr>ss_Error := error_text ?e\<rparr>) (v1\<lparr>mw_used := gm_del (ss_Slot (mw_heap v1 ! a)) (mw_used v1)\<rparr>)"
  ultimately have "w' = snd (exec (transition mg a StateFailed) v2)" by (simp add: boot_fail_def)
  moreover have v2: "a < length (mw_heap v2)" "sess_state (mw_heap v2 ! a) = StateConfiguring" "ss_v (mw_heap v2 ! a) = Some v"
    "gm_get (mw_used v2) (ss_Slot (mw_heap w ! a)) = None" "mw_calls v2 = mw_calls v1"
    using assms(1,2,5) by (simp_all add: v2_def v1 upd_heap_def)
  moreover have "StateFailed \<in> set (validTransitions (sess_state (mw_heap v2 ! a)))" by (simp add: v2(2))
  from exec_transition_sel [OF v2(1) this surjective_pairing, of mg] show ?thesis
    using v1(3) v2 calculation(1) by simp
qed

theorem workspace_failure_leaks_witness:
  "let w = (one_session StateConfiguring plain_session)\<lparr>mw_heap := [plain_session\<lparr>ss_sm := newSM StateConfiguring 0, ss_RepoURL := ''https://h/r'', ss_v := Some (Launched 0)\<rparr>]\<rparr>
   in filter releases (mw_calls (snd (exec (boot_configure (js_mgr ([], [], None)) 0 [] []) w))) = []"
proof -
  let ?w = "(one_session StateConfiguring plain_session)\<lparr>mw_heap := [plain_session\<lparr>ss_sm := newSM StateConfiguring 0, ss_RepoURL := ''https://h/r'', ss_v := Some (Launched 0)\<rparr>]\<rparr>"
  have "ss_workspacePath plain_session = []" by (simp add: plain_session_def new_session_def)
  with workspace_failure_leaks [of 0 ?w "Launched 0", OF _ _ _ _ _ refl] show ?thesis
    by (simp add: newSM_def OnTransition_def sm_New_def one_session_def ex_world_def)
qed

end
