(* ===== verification/Mcp.thy ===== *)
theory Mcp
  imports Session_Manager Engine
begin

text \<open>
  The MCP server of \<^verbatim>\<open>internal/mcp\<close>: \<^verbatim>\<open>server.go\<close> answers JSON-RPC requests, \<^verbatim>\<open>tools.go\<close> has the nine
  tools. The interfaces \<^verbatim>\<open>WorkflowHandler\<close> and \<^verbatim>\<open>SessionHandler\<close> are records of operations on a
  state; the values they return as \<^verbatim>\<open>any\<close> are what \<^verbatim>\<open>json.Marshal\<close> makes of them, bytes or an
  error. The last section implements them by the engine and the session manager, as \<^verbatim>\<open>main\<close> does.
\<close>

section \<open>Values of type any\<close>

text \<open>
  Decoding into \<^verbatim>\<open>any\<close>: objects become maps, which the encoder writes with their keys in order,
  and numbers become \<^verbatim>\<open>float64\<close>. What text a number has after that, and whether it fits, is the
  parameter \<open>fl\<close>.
\<close>

fun any_value :: "(string \<Rightarrow> string option) \<Rightarrow> json \<Rightarrow> json option"
  and any_elems :: "(string \<Rightarrow> string option) \<Rightarrow> json list \<Rightarrow> json list option"
  and any_members :: "(string \<Rightarrow> string option) \<Rightarrow> (string \<times> json) list \<Rightarrow> (string, json) gomap \<Rightarrow> (string, json) gomap option"
where
  "any_value fl JNull = Some JNull"
| "any_value fl (JBool b) = Some (JBool b)"
| "any_value fl (JNum n) = map_option JNum (fl n)"
| "any_value fl (JStr s) = Some (JStr s)"
| "any_value fl (JArr vs) = map_option JArr (any_elems fl vs)"
| "any_value fl (JObj ms) = map_option (\<lambda>m. JObj (sort_key fst m)) (any_members fl ms [])"
| "any_elems fl [] = Some []"
| "any_elems fl (v # vs) = (case (any_value fl v, any_elems fl vs) of (Some x, Some xs) \<Rightarrow> Some (x # xs) | _ \<Rightarrow> None)"
| "any_members fl [] m = Some m"
| "any_members fl ((k, v) # ms) m = (case any_value fl v of None \<Rightarrow> None | Some x \<Rightarrow> any_members fl ms (gm_set k x m))"

record mcp_env =
  me_float :: "string \<Rightarrow> string option"
  me_jerr :: "string \<Rightarrow> goerror" \<comment> \<open>the error for bytes that cannot be decoded\<close>

text \<open>\<^verbatim>\<open>json.Unmarshal\<close> into a nil \<^verbatim>\<open>map[string]any\<close>; \<^const>\<open>None\<close> inside stands for nil.\<close>

definition unmarshal_map :: "mcp_env \<Rightarrow> string \<Rightarrow> (string, json) gomap option result" where
  "unmarshal_map env b =
     (case json_parse b of
        Some (JObj ms) \<Rightarrow> (case any_members (me_float env) ms [] of Some m \<Rightarrow> Inr (Some m) | None \<Rightarrow> Inl (me_jerr env b))
      | Some JNull \<Rightarrow> Inr None
      | _ \<Rightarrow> Inl (me_jerr env b))"

definition map_json :: "(string, json) gomap option \<Rightarrow> json" where
  "map_json m = (case m of None \<Rightarrow> JNull | Some ms \<Rightarrow> JObj (sort_key fst ms))"

section \<open>Projections\<close>

fun slim_stage :: "bool \<Rightarrow> json \<Rightarrow> json" where
  "slim_stage includeOutput (JObj sm) =
     JObj (if includeOutput then gm_del ''Input'' sm else gm_del ''Output'' (gm_del ''Input'' sm))"
| "slim_stage includeOutput v = v"

definition projectWorkflow :: "mcp_env \<Rightarrow> string result \<Rightarrow> bool \<Rightarrow> (string, json) gomap option result" where
  "projectWorkflow env wfl includeOutput =
     (case wfl of
        Inl e \<Rightarrow> Inl (errorf_w ''marshal workflow: '' e [])
      | Inr b \<Rightarrow>
          (case unmarshal_map env b of
             Inl e \<Rightarrow> Inl (errorf_w ''unmarshal workflow: '' e [])
           | Inr None \<Rightarrow> Inr None
           | Inr (Some m) \<Rightarrow>
               (case gm_get m ''Stages'' of
                  Some (JArr stages) \<Rightarrow> Inr (Some (gm_set ''Stages'' (JArr (map (slim_stage includeOutput) stages)) m))
                | _ \<Rightarrow> Inr (Some m))))"

definition slimWorkflow :: "mcp_env \<Rightarrow> string result \<Rightarrow> bool \<Rightarrow> string" where
  "slimWorkflow env wfl includeOutput =
     (case projectWorkflow env wfl includeOutput of
        Inl e \<Rightarrow> ''error: '' @ error_text e
      | Inr m \<Rightarrow> json_print (map_json m))"

definition slim_result :: "bool \<Rightarrow> int \<Rightarrow> (string, json) gomap \<Rightarrow> (string, json) gomap" where
  "slim_result includeResult maxResultBytes m =
     (if includeResult then
        (case gm_get m ''Result'' of
           Some (JStr res) \<Rightarrow>
             if int (length res) > maxResultBytes then
               gm_set ''ResultTruncated'' (JBool True)
                 (gm_set ''ResultBytesFull'' (JNum (Itoa (int (length res))))
                   (gm_set ''Result'' (JStr (take (nat maxResultBytes) res)) m))
             else m
         | _ \<Rightarrow> m)
      else
        gm_del ''Result''
          (case gm_get m ''Result'' of
             Some (JStr res) \<Rightarrow> if length res > 0 then gm_set ''ResultBytesFull'' (JNum (Itoa (int (length res)))) m else m
           | _ \<Rightarrow> m))"

definition slimSession :: "mcp_env \<Rightarrow> string result \<Rightarrow> bool \<Rightarrow> int \<Rightarrow> string" where
  "slimSession env sess includeResult maxResultBytes =
     (case sess of
        Inl e \<Rightarrow> ''marshal error: '' @ error_text e
      | Inr b \<Rightarrow>
          (case unmarshal_map env b of
             Inl _ \<Rightarrow> b
           | Inr m \<Rightarrow> json_print (map_json (map_option (\<lambda>m. slim_result includeResult maxResultBytes (gm_del ''Prompt'' m)) m))))"

definition isActiveSession :: "(string, json) gomap option \<Rightarrow> bool" where
  "isActiveSession m =
     (let status = (case Option.bind m (\<lambda>m. gm_get m ''Status'') of Some (JStr s) \<Rightarrow> s | _ \<Rightarrow> [])
      in status \<noteq> ''stopped'' \<and> status \<noteq> ''failed'')"

section \<open>The server\<close>

record 's wf_handler =
  wh_Submit :: "string \<Rightarrow> string \<Rightarrow> string \<Rightarrow> 's \<Rightarrow> string result \<times> 's" \<comment> \<open>input, repository, branch\<close>
  wh_Get :: "string \<Rightarrow> 's \<Rightarrow> string result option \<times> 's"
  wh_List :: "'s \<Rightarrow> string result list \<times> 's"
  wh_Resume :: "string \<Rightarrow> 's \<Rightarrow> goerror option \<times> 's"

record 's sess_handler =
  sh_CreateSession :: "string \<Rightarrow> string \<Rightarrow> string \<Rightarrow> string \<Rightarrow> 's \<Rightarrow> string result \<times> 's" \<comment> \<open>role, prompt, repository, branch\<close>
  sh_GetSession :: "string \<Rightarrow> 's \<Rightarrow> string result option \<times> 's"
  sh_ListSessions :: "'s \<Rightarrow> string result list result \<times> 's"
  sh_StopSession :: "string \<Rightarrow> 's \<Rightarrow> goerror option \<times> 's"

type_synonym args = "(string, json) gomap"

record 's tool =
  tl_Name :: string
  tl_Description :: string
  tl_InputSchema :: json
  tl_Handler :: "args \<Rightarrow> 's \<Rightarrow> string result \<times> 's"

record 's server =
  srv_tools :: "(string, 's tool) gomap"
  srv_wh :: "'s wf_handler option"
  srv_sh :: "'s sess_handler option"

definition arg_string :: "args \<Rightarrow> string \<Rightarrow> string" where
  "arg_string args k = (case gm_get args k of Some (JStr s) \<Rightarrow> s | _ \<Rightarrow> [])"

definition arg_bool :: "args \<Rightarrow> string \<Rightarrow> bool" where
  "arg_bool args k = (case gm_get args k of Some (JBool b) \<Rightarrow> b | _ \<Rightarrow> False)"

definition not_implemented :: "'s \<Rightarrow> string result \<times> 's" where
  "not_implemented s = (Inr ''not implemented'', s)"

subsection \<open>Workflow tools\<close>

definition submit_workflow :: "'s wf_handler option \<Rightarrow> args \<Rightarrow> 's \<Rightarrow> string result \<times> 's" where
  "submit_workflow wh args s =
     (case wh of
        None \<Rightarrow> not_implemented s
      | Some wh \<Rightarrow>
          (case wh_Submit wh (arg_string args ''input'') (arg_string args ''repo_url'') (arg_string args ''branch'') s of
             (Inl e, s1) \<Rightarrow> (Inl (errorf_w ''submit_workflow: '' e []), s1)
           | (Inr i, s1) \<Rightarrow> (Inr (json_print (JObj [(''workflow_id'', JStr i)])), s1)))"

definition get_workflow :: "mcp_env \<Rightarrow> 's wf_handler option \<Rightarrow> args \<Rightarrow> 's \<Rightarrow> string result \<times> 's" where
  "get_workflow env wh args s =
     (case wh of
        None \<Rightarrow> not_implemented s
      | Some wh \<Rightarrow>
          (case wh_Get wh (arg_string args ''workflow_id'') s of
             (None, s1) \<Rightarrow> (Inr ''not found'', s1)
           | (Some wfl, s1) \<Rightarrow> (Inr (slimWorkflow env wfl (arg_bool args ''include_output'')), s1)))"

definition list_workflows :: "mcp_env \<Rightarrow> 's wf_handler option \<Rightarrow> args \<Rightarrow> 's \<Rightarrow> string result \<times> 's" where
  "list_workflows env wh args s =
     (case wh of
        None \<Rightarrow> not_implemented s
      | Some wh \<Rightarrow>
          (case wh_List wh s of
             (wfs, s1) \<Rightarrow>
               (Inr (json_print (JArr (concat (map (\<lambda>wfl. case projectWorkflow env wfl False of Inl _ \<Rightarrow> [] | Inr m \<Rightarrow> [map_json m]) wfs)))), s1)))"

definition resume_workflow :: "'s wf_handler option \<Rightarrow> args \<Rightarrow> 's \<Rightarrow> string result \<times> 's" where
  "resume_workflow wh args s =
     (case wh of
        None \<Rightarrow> not_implemented s
      | Some wh \<Rightarrow>
          (let i = arg_string args ''workflow_id'' in
           case wh_Resume wh i s of
             (Some e, s1) \<Rightarrow> (Inl (errorf_w ''resume_workflow: '' e []), s1)
           | (None, s1) \<Rightarrow> (Inr (json_print (JObj [(''status'', JStr ''resuming''), (''workflow_id'', JStr i)])), s1)))"

subsection \<open>Session tools\<close>

definition create_session :: "'s sess_handler option \<Rightarrow> args \<Rightarrow> 's \<Rightarrow> string result \<times> 's" where
  "create_session sh args s =
     (case sh of
        None \<Rightarrow> not_implemented s
      | Some sh \<Rightarrow>
          (case sh_CreateSession sh (arg_string args ''role'') (arg_string args ''prompt'') (arg_string args ''repo_url'') (arg_string args ''branch'') s of
             (Inl e, s1) \<Rightarrow> (Inl (errorf_w ''create_session: '' e []), s1)
           | (Inr i, s1) \<Rightarrow> (Inr (json_print (JObj [(''session_id'', JStr i)])), s1)))"

definition get_session :: "mcp_env \<Rightarrow> 's sess_handler option \<Rightarrow> args \<Rightarrow> 's \<Rightarrow> string result \<times> 's" where
  "get_session env sh args s =
     (case sh of
        None \<Rightarrow> not_implemented s
      | Some sh \<Rightarrow>
          (case sh_GetSession sh (arg_string args ''session_id'') s of
             (None, s1) \<Rightarrow> (Inr ''not found'', s1)
           | (Some sess, s1) \<Rightarrow> (Inr (slimSession env sess False 0), s1)))"

definition get_session_result :: "mcp_env \<Rightarrow> 's sess_handler option \<Rightarrow> args \<Rightarrow> 's \<Rightarrow> string result \<times> 's" where
  "get_session_result env sh args s =
     (case sh of
        None \<Rightarrow> not_implemented s
      | Some sh \<Rightarrow>
          (case sh_GetSession sh (arg_string args ''session_id'') s of
             (None, s1) \<Rightarrow> (Inr ''not found'', s1)
           | (Some sess, s1) \<Rightarrow>
               (let maxBytes = (if arg_bool args ''include_full_result'' then 2 ^ 31 - 1 else 4000)
                in (Inr (slimSession env sess True maxBytes), s1))))"

definition list_sessions :: "mcp_env \<Rightarrow> 's sess_handler option \<Rightarrow> args \<Rightarrow> 's \<Rightarrow> string result \<times> 's" where
  "list_sessions env sh args s =
     (case sh of
        None \<Rightarrow> not_implemented s
      | Some sh \<Rightarrow>
          (let showAll = (arg_string args ''status'' = ''all'') in
           case sh_ListSessions sh s of
             (Inl e, s1) \<Rightarrow> (Inl (errorf_w ''list_sessions: '' e []), s1)
           | (Inr sessions, s1) \<Rightarrow>
               (Inr (json_print (JArr (concat (map (\<lambda>sess.
                  case sess of
                    Inl _ \<Rightarrow> []
                  | Inr b \<Rightarrow>
                      (case unmarshal_map env b of
                         Inl _ \<Rightarrow> []
                       | Inr m \<Rightarrow>
                           if \<not> showAll \<and> \<not> isActiveSession m then []
                           else [map_json (map_option (\<lambda>m. gm_del ''Result'' (gm_del ''Prompt'' m)) m)])) sessions)))), s1)))"

definition stop_session :: "'s sess_handler option \<Rightarrow> args \<Rightarrow> 's \<Rightarrow> string result \<times> 's" where
  "stop_session sh args s =
     (case sh of
        None \<Rightarrow> not_implemented s
      | Some sh \<Rightarrow>
          (let i = arg_string args ''session_id'' in
           case sh_StopSession sh i s of
             (Some e, s1) \<Rightarrow> (Inl (errorf_w ''stop_session: '' e []), s1)
           | (None, s1) \<Rightarrow> (Inr (json_print (JObj [(''session_id'', JStr i), (''status'', JStr ''stopping'')])), s1)))"

subsection \<open>The table of tools\<close>

definition param_schema :: "string \<times> string \<times> string \<Rightarrow> string \<times> json" where
  "param_schema = (\<lambda>(name, ty, desc). (name, JObj [(''description'', JStr desc), (''type'', JStr ty)]))"

text \<open>An input schema: the parameters, and which of them are required; keys in order, as the encoder writes them.\<close>

definition input_schema :: "(string \<times> string \<times> string) list \<Rightarrow> string list \<Rightarrow> json" where
  "input_schema params required = JObj (
     [(''properties'', JObj (sort_key fst (map param_schema params)))] @
     (if required = [] then [] else [(''required'', JArr (map JStr required))]) @ [(''type'', JStr ''object'')])"

definition emdash :: string where "emdash = [CHR 0xE2, CHR 0x80, CHR 0x94]"

definition quoted :: "string \<Rightarrow> string" where "quoted s = dquote @ s @ dquote"

definition workflow_tools :: "mcp_env \<Rightarrow> 's wf_handler option \<Rightarrow> 's tool list" where
  "workflow_tools env wh =
     [\<lparr>tl_Name = ''submit_workflow'', tl_Description = ''Start a new workflow run against a repository.'',
       tl_InputSchema = input_schema
         [(''input'', ''string'', ''The goal or brief for this workflow''), (''repo_url'', ''string'', ''Git repository URL''),
          (''branch'', ''string'', ''Branch name (optional)'')] [''input''],
       tl_Handler = submit_workflow wh\<rparr>,
      \<lparr>tl_Name = ''get_workflow'',
       tl_Description = ''Get the status and stages of a workflow run. '' @
         ''By default stage prompts and agent outputs are omitted to keep the response small '' @ emdash @ '' '' @
         ''set include_output=true to include full stage Output text (can be very large).'',
       tl_InputSchema = input_schema
         [(''workflow_id'', ''string'', ''Workflow ID returned by submit_workflow''),
          (''include_output'', ''boolean'', ''Include full stage Output text (default false)'')] [''workflow_id''],
       tl_Handler = get_workflow env wh\<rparr>,
      \<lparr>tl_Name = ''list_workflows'',
       tl_Description = ''List all workflow runs. Stage prompts and outputs are omitted; use get_workflow for full stage detail.'',
       tl_InputSchema = input_schema [] [],
       tl_Handler = list_workflows env wh\<rparr>,
      \<lparr>tl_Name = ''resume_workflow'',
       tl_Description = ''Re-run all failed stages of a workflow, reusing the existing research and plan outputs. '' @
         ''Use this after Claude API usage limits reset to continue a partially-completed workflow. '' @
         ''Returns an error if the workflow has no resumable (failed + saved input) stages.'',
       tl_InputSchema = input_schema [(''workflow_id'', ''string'', ''Workflow ID to resume'')] [''workflow_id''],
       tl_Handler = resume_workflow wh\<rparr>]"

definition session_tools :: "mcp_env \<Rightarrow> 's sess_handler option \<Rightarrow> 's tool list" where
  "session_tools env sh =
     [\<lparr>tl_Name = ''create_session'', tl_Description = ''Create a new task VM session for a Claude agent.'',
       tl_InputSchema = input_schema
         [(''role'', ''string'', ''Session role: interactive | research | plan | implement''),
          (''prompt'', ''string'', ''The claude -p prompt for non-interactive sessions''),
          (''repo_url'', ''string'', ''Git repository URL''), (''branch'', ''string'', ''Branch name (optional)'')] [''role''],
       tl_Handler = create_session sh\<rparr>,
      \<lparr>tl_Name = ''get_session'',
       tl_Description = ''Get session metadata (status, role, repo, timestamps). '' @
         ''Result content is never included '' @ emdash @ '' use get_session_result to fetch it. '' @
         ''If a result exists, ResultBytesFull shows its size.'',
       tl_InputSchema = input_schema [(''session_id'', ''string'', ''Session ID returned by create_session'')] [''session_id''],
       tl_Handler = get_session env sh\<rparr>,
      \<lparr>tl_Name = ''get_session_result'',
       tl_Description = ''Fetch the Result text of a completed session. '' @
         ''Truncated to 4000 characters by default; set include_full_result=true for the complete output (may be very large). '' @
         ''Check ResultBytesFull to see total size before requesting the full result.'',
       tl_InputSchema = input_schema
         [(''session_id'', ''string'', ''Session ID''),
          (''include_full_result'', ''boolean'', ''Return full Result text (default false, truncates at 4000 chars)'')] [''session_id''],
       tl_Handler = get_session_result env sh\<rparr>,
      \<lparr>tl_Name = ''list_sessions'',
       tl_Description = ''List sessions. By default returns only active sessions (booting, configuring, ready). '' @
         ''Set status='' @ quoted ''all'' @ '' to include stopped and failed sessions. '' @
         ''Prompt and Result are always omitted; use get_session for those fields.'',
       tl_InputSchema = input_schema
         [(''status'', ''string'', ''Filter: '' @ quoted ''active'' @ '' (default) returns non-terminal sessions only; '' @ quoted ''all'' @ '' returns every session'')] [],
       tl_Handler = list_sessions env sh\<rparr>,
      \<lparr>tl_Name = ''stop_session'', tl_Description = ''Stop a running session.'',
       tl_InputSchema = input_schema [(''session_id'', ''string'', ''Session ID to stop'')] [''session_id''],
       tl_Handler = stop_session sh\<rparr>]"

definition register_tool :: "'s tool \<Rightarrow> 's server \<Rightarrow> 's server" where
  "register_tool t srv = srv\<lparr>srv_tools := gm_set (tl_Name t) t (srv_tools srv)\<rparr>"

definition registerTools :: "mcp_env \<Rightarrow> 's server \<Rightarrow> 's server" where
  "registerTools env srv = fold register_tool (workflow_tools env (srv_wh srv) @ session_tools env (srv_sh srv)) srv"

definition NewServer :: "mcp_env \<Rightarrow> 's wf_handler option \<Rightarrow> 's sess_handler option \<Rightarrow> 's server" where
  "NewServer env wh sh = registerTools env \<lparr>srv_tools = [], srv_wh = wh, srv_sh = sh\<rparr>"

section \<open>JSON-RPC\<close>

record rpcRequest =
  rq_ID :: json
  rq_Method :: string
  rq_Params :: "(string, json) gomap option"

record rpcResponse =
  rs_ID :: json
  rs_Result :: "json option"
  rs_Error :: "(int \<times> string) option"

definition errorResponse :: "json \<Rightarrow> int \<Rightarrow> string \<Rightarrow> rpcResponse" where
  "errorResponse i code msg = \<lparr>rs_ID = i, rs_Result = None, rs_Error = Some (code, msg)\<rparr>"

definition okResponse :: "json \<Rightarrow> json \<Rightarrow> rpcResponse" where
  "okResponse i res = \<lparr>rs_ID = i, rs_Result = Some res, rs_Error = None\<rparr>"

definition response_json :: "rpcResponse \<Rightarrow> json" where
  "response_json r = JObj (
     [(''jsonrpc'', JStr ''2.0''), (''id'', rs_ID r)] @
     (case rs_Result r of None \<Rightarrow> [] | Some res \<Rightarrow> [(''result'', res)]) @
     (case rs_Error r of None \<Rightarrow> [] | Some (code, msg) \<Rightarrow> [(''error'', JObj [(''code'', JNum (Itoa code)), (''message'', JStr msg)])]))"

text \<open>\<^verbatim>\<open>json.NewDecoder(r.Body).Decode(&req)\<close> reads the first value of the body.\<close>

fun dec_any :: "(string \<Rightarrow> string option) \<Rightarrow> json \<Rightarrow> json list \<Rightarrow> json option" where
  "dec_any fl cur [] = Some cur"
| "dec_any fl cur (v # vs) = (case any_value fl v of None \<Rightarrow> None | Some x \<Rightarrow> dec_any fl x vs)"

definition decode_request :: "mcp_env \<Rightarrow> string \<Rightarrow> rpcRequest option" where
  "decode_request env body =
     (case parse_val (2 * length body + 2) maxNestingDepth body of
        Some (JObj ms, rest) \<Rightarrow>
          Option.bind (dec_string [] (field_values ''jsonrpc'' ms)) (\<lambda>_.
          Option.bind (dec_any (me_float env) JNull (field_values ''id'' ms)) (\<lambda>i.
          Option.bind (dec_string [] (field_values ''method'' ms)) (\<lambda>m.
          Option.bind (dec_map (any_value (me_float env)) None (field_values ''params'' ms)) (\<lambda>ps.
          Some \<lparr>rq_ID = i, rq_Method = m, rq_Params = ps\<rparr>))))
      | Some (JNull, rest) \<Rightarrow> Some \<lparr>rq_ID = JNull, rq_Method = [], rq_Params = None\<rparr>
      | _ \<Rightarrow> None)"

definition handleInitialize :: "rpcRequest \<Rightarrow> rpcResponse" where
  "handleInitialize req = okResponse (rq_ID req) (JObj
     [(''capabilities'', JObj [(''tools'', JObj [])]), (''protocolVersion'', JStr ''2024-11-05''),
      (''serverInfo'', JObj [(''name'', JStr ''rubbish''), (''version'', JStr ''0.1.0'')])])"

text \<open>The tools are listed in the order in which Go happens to iterate over the map.\<close>

definition handleToolsList :: "'s server \<Rightarrow> rpcRequest \<Rightarrow> rpcResponse" where
  "handleToolsList srv req = okResponse (rq_ID req) (JObj [(''tools'', JArr (map (\<lambda>t. JObj
     [(''description'', JStr (tl_Description t)), (''inputSchema'', tl_InputSchema t), (''name'', JStr (tl_Name t))]) (map snd (srv_tools srv))))])"

definition handleToolsCall :: "'s server \<Rightarrow> rpcRequest \<Rightarrow> 's \<Rightarrow> rpcResponse \<times> 's" where
  "handleToolsCall srv req s =
     (let params = (case rq_Params req of None \<Rightarrow> [] | Some m \<Rightarrow> m); name = arg_string params ''name'' in
      if name = [] then (errorResponse (rq_ID req) (-32602) ''params.name is required'', s)
      else
        (case gm_get (srv_tools srv) name of
           None \<Rightarrow> (errorResponse (rq_ID req) (-32601) (''tool not found: '' @ name), s)
         | Some t \<Rightarrow>
             (case tl_Handler t (case gm_get params ''arguments'' of Some (JObj args) \<Rightarrow> args | _ \<Rightarrow> []) s of
                (Inl e, s1) \<Rightarrow> (errorResponse (rq_ID req) (-32603) (error_text e), s1)
              | (Inr text, s1) \<Rightarrow>
                  (okResponse (rq_ID req) (JObj [(''content'', JArr [JObj [(''text'', JStr text), (''type'', JStr ''text'')]])]), s1))))"

definition respond :: "mcp_env \<Rightarrow> 's server \<Rightarrow> string \<Rightarrow> 's \<Rightarrow> rpcResponse \<times> 's" where
  "respond env srv body s =
     (case decode_request env body of
        None \<Rightarrow> (errorResponse JNull (-32700) (''parse error: '' @ error_text (me_jerr env body)), s)
      | Some req \<Rightarrow>
          if rq_Method req = ''initialize'' then (handleInitialize req, s)
          else if rq_Method req = ''notifications/initialized'' then (okResponse (rq_ID req) (JObj []), s)
          else if rq_Method req = ''tools/list'' then (handleToolsList srv req, s)
          else if rq_Method req = ''tools/call'' then handleToolsCall srv req s
          else (errorResponse (rq_ID req) (-32601) (''method not found: '' @ rq_Method req), s))"

text \<open>The status code and the body of the answer; \<^verbatim>\<open>http.Error\<close> and the encoder end it with a newline.\<close>

definition ServeHTTP :: "mcp_env \<Rightarrow> 's server \<Rightarrow> string \<Rightarrow> string \<Rightarrow> 's \<Rightarrow> (nat \<times> string) \<times> 's" where
  "ServeHTTP env srv meth body s =
     (if meth \<noteq> ''POST'' then ((405, ''method not allowed'' @ nl), s)
      else (case respond env srv body s of (r, s1) \<Rightarrow> ((200, json_print (response_json r) @ nl), s1)))"

section \<open>The engine and the session manager behind it\<close>

definition marshal_row :: "row \<Rightarrow> string result" where
  "marshal_row r = (if time_ok (row_CreatedAt r) \<and> time_ok (row_UpdatedAt r) then Inr (json_print (row_json r)) else Inl year_error)"

definition manager_sessions :: "('st, 'x) mgr \<Rightarrow> ('st, 'x) mworld sess_handler" where
  "manager_sessions mg =
     \<lparr>sh_CreateSession = \<lambda>role prompt url branch. exec (CreateSession mg role prompt url branch),
      sh_GetSession = \<lambda>i w. (case exec (GetSession mg i) w of (r, w1) \<Rightarrow> (map_option marshal_row r, w1)),
      sh_ListSessions = \<lambda>w. (case exec (ListSessions mg) w of (r, w1) \<Rightarrow> (map_sum id (map marshal_row) r, w1)),
      sh_StopSession = \<lambda>i. exec (manager_Stop mg i)\<rparr>"

definition marshal_workflow :: "wf_val \<Rightarrow> string result" where
  "marshal_workflow wfl = (if time_ok (wf_CreatedAt wfl) \<and> time_ok (wf_UpdatedAt wfl) then Inr (json_print (workflow_json wfl)) else Inl year_error)"

text \<open>\<^verbatim>\<open>Engine.Get\<close> and \<^verbatim>\<open>Engine.List\<close>.\<close>

definition engine_Get :: "string \<Rightarrow> 'w eworld \<Rightarrow> wf_val option" where
  "engine_Get i w = map_option (wf_view (ew_heap w)) (fst (exec (store_Get i) w))"

definition engine_List :: "'w eworld \<Rightarrow> wf_val list" where
  "engine_List w = map (wf_view (ew_heap w)) (store_List w)"

definition engine_workflows :: "'w engine \<Rightarrow> 'w eworld wf_handler" where
  "engine_workflows en =
     \<lparr>wh_Submit = \<lambda>inp url branch. exec (Submit en inp url branch),
      wh_Get = \<lambda>i w. (map_option marshal_workflow (engine_Get i w), w),
      wh_List = \<lambda>w. (map marshal_workflow (engine_List w), w),
      wh_Resume = \<lambda>i. exec (Resume en i)\<rparr>"

text \<open>Operations on the session layer below an engine.\<close>

definition below :: "('w \<Rightarrow> 'a \<times> 'w) \<Rightarrow> 'w eworld \<Rightarrow> 'a \<times> 'w eworld" where
  "below f w = (case f (ew_ext w) of (a, x) \<Rightarrow> (a, w\<lparr>ew_ext := x\<rparr>))"

definition sessions_below :: "'w sess_handler \<Rightarrow> 'w eworld sess_handler" where
  "sessions_below sh =
     \<lparr>sh_CreateSession = \<lambda>role prompt url branch. below (sh_CreateSession sh role prompt url branch),
      sh_GetSession = \<lambda>i. below (sh_GetSession sh i), sh_ListSessions = below (sh_ListSessions sh),
      sh_StopSession = \<lambda>i. below (sh_StopSession sh i)\<rparr>"

definition rubbish_server :: "mcp_env \<Rightarrow> ('st, 'x) mworld engine \<Rightarrow> ('st, 'x) mgr \<Rightarrow> ('st, 'x) mworld eworld server" where
  "rubbish_server env en mg = NewServer env (Some (engine_workflows en)) (Some (sessions_below (manager_sessions mg)))"

end
