(* ===== verification/Mcp_Props.thy ===== *)
theory Mcp_Props
  imports Mcp Session_Storetest Manager_Slots
begin

text \<open>
  The answers of the MCP server: every answer is a well-formed JSON-RPC response to its request,
  and the session tools keep the prompt and the full result out of their texts.
\<close>

section \<open>Values that can be written and read back\<close>

definition writable :: "nat \<Rightarrow> json \<Rightarrow> bool" where
  "writable d v \<longleftrightarrow> json_nums_ok v \<and> json_depth v \<le> d"

lemma writable_simps [simp]:
  "writable d JNull" "writable d (JBool b)" "writable d (JStr s)" "writable d (JNum n) \<longleftrightarrow> num_ok n"
  by (simp_all add: writable_def)

lemma writable_Arr: "writable d (JArr vs) \<longleftrightarrow> 0 < d \<and> (\<forall>v\<in>set vs. writable (d - 1) v)"
  by (cases d) (auto simp: writable_def fold_max_le list_all_iff)

lemma writable_Obj: "writable d (JObj ms) \<longleftrightarrow> 0 < d \<and> (\<forall>kv\<in>set ms. writable (d - 1) (snd kv))"
  by (cases d) (auto simp: writable_def fold_max_le list_all_iff)

lemma read_back: "writable maxNestingDepth v \<Longrightarrow> json_parse (json_print v) = Some (json_fix v)"
  by (simp add: writable_def json_roundtrip)

lemma parse_depth:
  shows "\<And>v t. parse_val f d s = Some (v, t) \<Longrightarrow> json_depth v \<le> d"
    and "\<And>vs t. parse_elems f d s = Some (vs, t) \<Longrightarrow> \<forall>v\<in>set vs. json_depth v \<le> d"
    and "\<And>ms t. parse_members f d s = Some (ms, t) \<Longrightarrow> \<forall>kv\<in>set ms. json_depth (snd kv) \<le> d"
proof (induction f d s and f d s and f d s rule: parse_val_parse_elems_parse_members.induct)
  case (2 f d s)
  then show ?case
    by (fastforce split: if_splits list.splits nat.splits simp: fold_max_le)
next
  case (4 f d s)
  then show ?case by (fastforce split: option.splits list.splits if_splits)
next
  case (6 f d s)
  then show ?case by (fastforce split: option.splits list.splits if_splits)
qed simp_all

text \<open>Numbers that \<^verbatim>\<open>float64\<close> prints are JSON numbers.\<close>

definition floats_ok :: "mcp_env \<Rightarrow> bool" where
  "floats_ok env \<longleftrightarrow> (\<forall>n m. me_float env n = Some m \<longrightarrow> num_ok m)"

lemma any_writable:
  assumes "\<And>n m. fl n = Some m \<Longrightarrow> num_ok m"
  shows "\<And>x d. any_value fl v = Some x \<Longrightarrow> json_depth v \<le> d \<Longrightarrow> writable d x"
    and "\<And>xs d. any_elems fl vs = Some xs \<Longrightarrow> \<forall>v\<in>set vs. json_depth v \<le> d \<Longrightarrow> \<forall>x\<in>set xs. writable d x"
    and "\<And>m' d. any_members fl ms m = Some m' \<Longrightarrow> \<forall>kv\<in>set ms. json_depth (snd kv) \<le> d \<Longrightarrow> \<forall>kv\<in>set m. writable d (snd kv) \<Longrightarrow>
      \<forall>kv\<in>set m'. writable d (snd kv)"
  using assms
proof (induction fl v and fl vs and fl ms m rule: any_value_any_elems_any_members.induct)
  case (5 fl vs)
  then show ?case by (cases d) (auto simp: writable_Arr fold_max_le)
next
  case (6 fl ms)
  then show ?case by (cases d) (auto simp: writable_Obj fold_max_le)
next
  case (8 fl v vs)
  then show ?case by (auto split: option.splits)
next
  case (10 fl k v ms m)
  obtain x where x: "any_value fl v = Some x" "any_members fl ms (gm_set k x m) = Some m'"
    using "10.prems"(1) by (auto split: option.splits)
  have "writable d x" using "10.IH"(1) [OF x(1)] "10.prems"(2,4) by simp
  then have "\<forall>kv\<in>set (gm_set k x m). writable d (snd kv)" using "10.prems"(3) set_gm_set [of k x m] by fastforce
  then show ?case using "10.IH"(2) [OF x] "10.prems"(2,4) by simp
qed auto

section \<open>Answers\<close>

lemma read_line:
  assumes "writable maxNestingDepth v"
  shows "json_parse (json_print v @ nl) = Some (json_fix v)"
proof -
  have v: "json_nums_ok v" "json_depth v \<le> maxNestingDepth" using assms by (simp_all add: writable_def)
  have "json_fuel v \<le> 2 * length (json_print v @ nl) + 2" using json_fuel_bound(1) [OF v(1)] by simp
  from parse_print(1) [OF v this, of nl] show ?thesis by (simp add: json_parse_def nl_def stops_def is_digit_def skip_ws_def is_ws_def)
qed

lemma nesting: "maxNestingDepth = Suc (Suc (Suc (Suc (Suc (Suc (Suc (Suc 9992)))))))"
  by (simp add: maxNestingDepth_def)

lemma writable_mono: "writable d v \<Longrightarrow> d \<le> e \<Longrightarrow> writable e v"
  by (simp add: writable_def)

lemma writable_schema: "writable 3 (input_schema ps required)"
  by (auto simp: input_schema_def writable_Obj writable_Arr param_schema_def)

definition tools_ok :: "(string, 's tool) gomap \<Rightarrow> bool" where
  "tools_ok tools \<longleftrightarrow> (\<forall>(k, t)\<in>set tools. writable 3 (tl_InputSchema t))"

lemma tools_registered: "tools_ok (srv_tools (NewServer env wh sh))"
proof -
  have "\<forall>t\<in>set ts. writable 3 (tl_InputSchema t) \<Longrightarrow> tools_ok (srv_tools srv) \<Longrightarrow> tools_ok (srv_tools (fold register_tool ts srv))" for ts and srv :: "'b server"
  proof (induction ts arbitrary: srv)
    case (Cons t ts)
    then have "tools_ok (srv_tools (register_tool t srv))"
      using set_gm_set [of "tl_Name t" t "srv_tools srv"] by (fastforce simp: tools_ok_def register_tool_def)
    with Cons show ?case by simp
  qed simp
  from this [of "workflow_tools env wh @ session_tools env sh" "\<lparr>srv_tools = [], srv_wh = wh, srv_sh = sh\<rparr>"] show ?thesis
    by (auto simp: NewServer_def registerTools_def workflow_tools_def session_tools_def writable_schema tools_ok_def)
qed

definition response_ok :: "rpcResponse \<Rightarrow> bool" where
  "response_ok r \<longleftrightarrow> writable maxNestingDepth (response_json r) \<and> (rs_Result r = None \<longleftrightarrow> rs_Error r \<noteq> None)"

lemma response_error: "writable (maxNestingDepth - 1) i \<Longrightarrow> response_ok (errorResponse i code msg)"
  by (auto simp: response_ok_def errorResponse_def response_json_def writable_Obj nesting)

lemma response_okay: "writable (maxNestingDepth - 1) i \<Longrightarrow> writable 8 res \<Longrightarrow> response_ok (okResponse i res)"
  using writable_mono [of 8 res "maxNestingDepth - 1"] by (auto simp: response_ok_def okResponse_def response_json_def writable_Obj maxNestingDepth_def)

lemma decode_request_ID:
  assumes "floats_ok env" and "decode_request env body = Some req"
  shows "writable (maxNestingDepth - 1) (rq_ID req)"
proof (cases "fst (the (parse_val (2 * length body + 2) maxNestingDepth body))")
  case (JObj ms)
  with assms(2) obtain rest i where p: "parse_val (2 * length body + 2) maxNestingDepth body = Some (JObj ms, rest)"
    and i: "dec_any (me_float env) JNull (field_values ''id'' ms) = Some i" "rq_ID req = i"
    unfolding decode_request_def by (auto split: option.splits json.splits simp: Option.bind_eq_Some_conv)
  from parse_depth(1) [OF p] have "fold max (map (\<lambda>kv. json_depth (snd kv)) ms) 0 \<le> maxNestingDepth - 1" by simp
  then have d: "\<forall>v\<in>set (field_values ''id'' ms). json_depth v \<le> maxNestingDepth - 1"
    by (simp add: fold_max_le) (auto simp: field_values_def)
  have "dec_any (me_float env) cur vs = Some x \<Longrightarrow> \<forall>v\<in>set vs. json_depth v \<le> n \<Longrightarrow> writable n cur \<Longrightarrow> writable n x" for cur vs x n
    using any_writable(1) [of "me_float env"] assms(1)
    by (induction "me_float env" cur vs rule: dec_any.induct) (auto simp: floats_ok_def split: option.splits)
  from this [OF i(1) d] i(2) show ?thesis by simp
qed (use assms(2) in \<open>auto simp: decode_request_def split: option.splits json.splits\<close>)

lemma respond_ok:
  assumes "floats_ok env" and "tools_ok (srv_tools srv)"
  shows "response_ok (fst (respond env srv body s)) \<and>
    rs_ID (fst (respond env srv body s)) = (case decode_request env body of None \<Rightarrow> JNull | Some req \<Rightarrow> rq_ID req)"
proof (cases "decode_request env body")
  case None
  then show ?thesis by (simp add: respond_def response_error) (simp add: errorResponse_def)
next
  case (Some req)
  note i = decode_request_ID [OF assms(1) Some]
  have init: "response_ok (handleInitialize req)" "response_ok (okResponse (rq_ID req) (JObj []))"
    unfolding handleInitialize_def by (rule response_okay [OF i], simp add: writable_Obj)+
  have list: "response_ok (handleToolsList srv req)"
    unfolding handleToolsList_def
    by (rule response_okay [OF i]) (use assms(2) in \<open>fastforce simp: writable_Obj writable_Arr tools_ok_def intro: writable_mono [of 3]\<close>)
  have call: "response_ok (fst (handleToolsCall srv req s)) \<and> rs_ID (fst (handleToolsCall srv req s)) = rq_ID req"
    by (auto simp: handleToolsCall_def Let_def response_error [OF i] intro!: response_okay [OF i] split: option.splits prod.splits sum.splits)
      (auto simp: writable_Obj writable_Arr errorResponse_def okResponse_def)
  show ?thesis
    using Some init list call response_error [OF i]
    by (simp add: respond_def) (simp add: handleInitialize_def handleToolsList_def okResponse_def errorResponse_def)
qed

text \<open>
  (C31) Whatever a client posts, the MCP server answers with one JSON object that is a JSON-RPC 2.0
  response: it carries the ID of the request, or null when the request could not be read, and
  either a result or an error, never both.
\<close>

theorem rpc_reply:
  assumes "floats_ok env" and "ServeHTTP env (NewServer env wh sh) ''POST'' body s = ((code, reply), s')"
  shows "code = 200 \<and> (\<exists>ms. json_parse reply = Some (JObj ms) \<and> map_of ms ''jsonrpc'' = Some (JStr ''2.0'') \<and>
    map_of ms ''id'' = Some (json_fix (case decode_request env body of None \<Rightarrow> JNull | Some req \<Rightarrow> rq_ID req)) \<and>
    (map_of ms ''result'' = None \<longleftrightarrow> map_of ms ''error'' \<noteq> None))"
proof -
  obtain r where r: "respond env (NewServer env wh sh) body s = (r, s')" "reply = json_print (response_json r) @ nl" "code = 200"
    using assms(2) by (auto simp: ServeHTTP_def split: prod.splits)
  from respond_ok [OF assms(1) tools_registered [of env wh sh], of body s] r(1)
  have ok: "response_ok r" "rs_ID r = (case decode_request env body of None \<Rightarrow> JNull | Some req \<Rightarrow> rq_ID req)" by simp_all
  then have "json_parse reply = Some (json_fix (response_json r))" unfolding r(2) response_ok_def by (blast intro: read_line)
  moreover have "\<exists>ms. json_fix (response_json r) = JObj ms \<and> map_of ms ''jsonrpc'' = Some (JStr ''2.0'') \<and> map_of ms ''id'' = Some (json_fix (rs_ID r)) \<and>
      (map_of ms ''result'' = None \<longleftrightarrow> map_of ms ''error'' \<noteq> None)"
    using ok(1) by (auto simp: response_json_def response_ok_def utf8_fix_ascii split: option.splits)
  ultimately show ?thesis using r(3) ok(2) by auto
qed

definition int_env :: mcp_env where
  "int_env = \<lparr>me_float = (\<lambda>n. if num_ok n then Some n else None), me_jerr = (\<lambda>_. errorf ''bad json'')\<rparr>"

theorem rpc_reply_witness:
  "\<exists>ms. json_parse (snd (fst (ServeHTTP int_env (NewServer int_env None None) ''POST'' ''nonsense'' ()))) = Some (JObj ms) \<and> map_of ms ''id'' = Some JNull"
proof -
  have f: "floats_ok int_env" by (auto simp: floats_ok_def int_env_def split: if_splits)
  have d: "decode_request int_env ''nonsense'' = None" by code_simp
  obtain code reply s' where e: "ServeHTTP int_env (NewServer int_env None None) ''POST'' ''nonsense'' () = ((code, reply), s')" by (metis surj_pair)
  from rpc_reply [OF f this] d e show ?thesis by auto
qed

section \<open>The session tools\<close>

fun members :: "json \<Rightarrow> (string \<times> json) list" where
  "members (JObj ms) = ms"
| "members _ = []"

lemma any_members_same:
  assumes "\<And>k v. (k, v) \<in> set ms \<Longrightarrow> any_value fl v = Some v"
  shows "distinct (map fst (acc @ ms)) \<Longrightarrow> any_members fl ms acc = Some (acc @ ms)"
  using assms
proof (induction ms arbitrary: acc)
  case (Cons kv ms)
  obtain k v where kv: "kv = (k, v)" by fastforce
  then have "gm_set k v acc = acc @ [(k, v)]" using Cons.prems(1) by (intro gm_set_fresh) auto
  moreover have "any_members fl ms (acc @ [(k, v)]) = Some ((acc @ [(k, v)]) @ ms)"
    using Cons.prems kv by (intro Cons.IH) auto
  moreover have "any_value fl v = Some v" using Cons.prems(2) [of k v] kv by simp
  ultimately show ?case using kv by simp
qed simp

text \<open>A number that fits into a \<^verbatim>\<open>float64\<close> exactly comes back as it was; slots do.\<close>

definition slot_exact :: "mcp_env \<Rightarrow> row \<Rightarrow> bool" where
  "slot_exact env r \<longleftrightarrow> me_float env (Itoa (row_Slot r)) = Some (Itoa (row_Slot r))"

lemma json_fix_row: "row_ok r \<Longrightarrow> json_fix (row_json r) = row_json r"
  by (simp add: row_json_def row_ok_def utf8_valid_def utf8_fix_ascii)

lemma row_members:
  assumes "row_ok r" and "slot_exact env r"
  shows "marshal_row r = Inr (json_print (row_json r))" and "unmarshal_map env (json_print (row_json r)) = Inr (Some (members (row_json r)))"
proof -
  have "writable maxNestingDepth (row_json r)" by (simp add: row_json_def writable_Obj nesting)
  from read_back [OF this] have p: "json_parse (json_print (row_json r)) = Some (JObj (members (row_json r)))"
    unfolding json_fix_row [OF assms(1)] by (simp add: row_json_def)
  have "any_members (me_float env) (members (row_json r)) [] = Some ([] @ members (row_json r))"
    by (rule any_members_same) (use assms(2) in \<open>auto simp: row_json_def slot_exact_def\<close>)
  with p show "unmarshal_map env (json_print (row_json r)) = Inr (Some (members (row_json r)))" by (simp add: unmarshal_map_def)
  show "marshal_row r = Inr (json_print (row_json r))" using assms(1) by (simp add: marshal_row_def row_ok_def)
qed

text \<open>Reading the text of a map back.\<close>

lemma read_map:
  assumes "gm_wf m" and "\<forall>kv\<in>set m. writable 1 (snd kv)" and "\<forall>kv\<in>set m. utf8_valid (fst kv)"
  shows "\<exists>ms. json_parse (json_print (map_json (Some m))) = Some (JObj ms) \<and> (\<forall>k. gm_get ms k = map_option json_fix (gm_get m k))"
proof -
  have "writable maxNestingDepth (map_json (Some m))"
    using assms(2) writable_mono [of 1 _ "maxNestingDepth - 1"] by (auto simp: map_json_def writable_Obj maxNestingDepth_def)
  moreover have "json_fix (map_json (Some m)) = JObj (map (\<lambda>kv. (fst kv, json_fix (snd kv))) (sort_key fst m))"
    using assms(3) by (auto simp: map_json_def utf8_valid_def)
  moreover have "map_of (map (\<lambda>kv. (fst kv, json_fix (snd kv))) (sort_key fst m)) k = map_option json_fix (gm_get m k)" for k
    using assms(1) map_of_map [of json_fix "sort_key fst m"] by (simp add: case_prod_unfold)
  ultimately show ?thesis using read_back by metis
qed

lemma get_row:
  assumes "mg_store mg = Some (js_ops je)" and "js_inv je (mw_store w)" and "js_rows (mw_store w) i = Some r"
  shows "row_ok r" and "fst (sh_GetSession (manager_sessions mg) i w) = Some (marshal_row r)"
proof -
  show "row_ok r" using assms(2,3) map_of_SomeD by (fastforce simp: js_inv_def data_ok_def map_ok_def js_rows_def)
  obtain g st where g: "so_Get (js_ops je) i (mw_store w) = (g, st)" by fastforce
  with js.Get [OF assms(2) g] assms show "fst (sh_GetSession (manager_sessions mg) i w) = Some (marshal_row r)"
    by (simp add: manager_sessions_def GetSession_def split: prod.splits)
qed

text \<open>Maps that can be written and read back, among them those made by dropping and setting entries.\<close>

definition map_fine :: "(string, json) gomap \<Rightarrow> bool" where
  "map_fine m \<longleftrightarrow> gm_wf m \<and> (\<forall>kv\<in>set m. writable 1 (snd kv) \<and> utf8_valid (fst kv))"

lemma map_fine_set: "map_fine m \<Longrightarrow> writable 1 v \<Longrightarrow> utf8_valid k \<Longrightarrow> map_fine (gm_set k v m)"
  unfolding map_fine_def using set_gm_set [of k v m] by fastforce

lemma map_fine_del: "map_fine m \<Longrightarrow> map_fine (gm_del k m)"
  unfolding map_fine_def using set_gm_del [of k m] by fastforce

lemma map_fine_slim: "map_fine m \<Longrightarrow> map_fine (slim_result full n m)"
  unfolding slim_result_def
  by (auto simp: utf8_valid_def utf8_fix_ascii intro!: map_fine_set map_fine_del split: option.split json.split)

lemma slim_reads:
  assumes "row_ok r" and "slot_exact env r"
  shows "\<exists>ms. json_parse (slimSession env (marshal_row r) full n) = Some (JObj ms) \<and>
    (\<forall>k. gm_get ms k = map_option json_fix (gm_get (slim_result full n (gm_del ''Prompt'' (members (row_json r)))) k))"
proof -
  let ?m = "slim_result full n (gm_del ''Prompt'' (members (row_json r)))"
  have "map_fine (members (row_json r))" by (simp add: map_fine_def row_json_def gm_wf_def utf8_valid_def utf8_fix_ascii)
  then have "map_fine ?m" by (intro map_fine_slim map_fine_del)
  then have "gm_wf ?m" "\<forall>kv\<in>set ?m. writable 1 (snd kv)" "\<forall>kv\<in>set ?m. utf8_valid (fst kv)" by (simp_all add: map_fine_def)
  then obtain ms where "json_parse (json_print (map_json (Some ?m))) = Some (JObj ms) \<and> (\<forall>k. gm_get ms k = map_option json_fix (gm_get ?m k))"
    using read_map [of ?m] by blast
  then show ?thesis by (simp add: slimSession_def row_members [OF assms])
qed

text \<open>
  The tool \<^verbatim>\<open>get_session\<close> gives the metadata of a stored session and never its prompt or its
  result; it tells the size of a result that is there.
\<close>

theorem get_session_hides:
  assumes "mg_store mg = Some (js_ops je)" and "js_inv je (mw_store w)" and "js_rows (mw_store w) (arg_string args ''session_id'') = Some r"
    and "slot_exact env r"
  shows "\<exists>reply ms. fst (get_session env (Some (manager_sessions mg)) args w) = Inr reply \<and> json_parse reply = Some (JObj ms) \<and>
    map_of ms ''Prompt'' = None \<and> map_of ms ''Result'' = None \<and> map_of ms ''Status'' = Some (JStr (row_Status r)) \<and>
    map_of ms ''ResultBytesFull'' = (if row_Result r = [] then None else Some (JNum (Itoa (int (length (row_Result r))))))"
proof -
  have ok: "row_ok r" by (rule get_row(1) [OF assms(1-3)])
  obtain ms where "json_parse (slimSession env (marshal_row r) False 0) = Some (JObj ms)"
    "\<forall>k. gm_get ms k = map_option json_fix (gm_get (slim_result False 0 (gm_del ''Prompt'' (members (row_json r)))) k)"
    using slim_reads [OF ok assms(4)] by blast
  moreover have "fst (get_session env (Some (manager_sessions mg)) args w) = Inr (slimSession env (marshal_row r) False 0)"
    using get_row(2) [OF assms(1-3)] by (cases "sh_GetSession (manager_sessions mg) (arg_string args ''session_id'') w") (simp add: get_session_def)
  ultimately show ?thesis using ok by (simp add: slim_result_def row_json_def row_ok_def utf8_valid_def)
qed

text \<open>
  The tool \<^verbatim>\<open>get_session_result\<close> cuts a result to its first 4000 bytes unless the full one is
  asked for, and then says so and gives the full size; a character that the cut splits is replaced.
\<close>

theorem get_session_result_cut:
  assumes "mg_store mg = Some (js_ops je)" and "js_inv je (mw_store w)" and "js_rows (mw_store w) (arg_string args ''session_id'') = Some r"
    and "slot_exact env r" and "length (row_Result r) < 2 ^ 31"
  shows "\<exists>reply ms. fst (get_session_result env (Some (manager_sessions mg)) args w) = Inr reply \<and> json_parse reply = Some (JObj ms) \<and>
    map_of ms ''Prompt'' = None \<and>
    (if length (row_Result r) \<le> 4000 \<or> arg_bool args ''include_full_result''
     then map_of ms ''Result'' = Some (JStr (row_Result r)) \<and> map_of ms ''ResultTruncated'' = None
     else map_of ms ''Result'' = Some (JStr (utf8_fix (take 4000 (row_Result r)))) \<and> map_of ms ''ResultTruncated'' = Some (JBool True) \<and>
       map_of ms ''ResultBytesFull'' = Some (JNum (Itoa (int (length (row_Result r))))))"
proof -
  let ?n = "if arg_bool args ''include_full_result'' then 2 ^ 31 - 1 else 4000" and ?m = "gm_del ''Prompt'' (members (row_json r))"
  have ok: "row_ok r" by (rule get_row(1) [OF assms(1-3)])
  have m: "gm_get ?m ''Result'' = Some (JStr (row_Result r))" "gm_get ?m ''Prompt'' = None" "gm_get ?m ''ResultTruncated'' = None"
    by (simp_all add: row_json_def)
  have utf: "utf8_fix (row_Result r) = row_Result r" using ok by (simp add: row_ok_def utf8_valid_def)
  obtain ms where "json_parse (slimSession env (marshal_row r) True ?n) = Some (JObj ms)"
    "\<forall>k. gm_get ms k = map_option json_fix (gm_get (slim_result True ?n (gm_del ''Prompt'' (members (row_json r)))) k)"
    using slim_reads [OF ok assms(4)] by blast
  moreover have "fst (get_session_result env (Some (manager_sessions mg)) args w) = Inr (slimSession env (marshal_row r) True ?n)"
    using get_row(2) [OF assms(1-3)] by (cases "sh_GetSession (manager_sessions mg) (arg_string args ''session_id'') w") (simp add: get_session_result_def Let_def)
  moreover have "slim_result True ?n ?m = (if length (row_Result r) \<le> 4000 \<or> arg_bool args ''include_full_result'' then ?m
      else gm_set ''ResultTruncated'' (JBool True) (gm_set ''ResultBytesFull'' (JNum (Itoa (int (length (row_Result r)))))
        (gm_set ''Result'' (JStr (take 4000 (row_Result r))) ?m)))"
    using assms(5) m(1) by (simp add: slim_result_def)
  ultimately show ?thesis using m utf by (cases "length (row_Result r) \<le> 4000 \<or> arg_bool args ''include_full_result''") simp_all
qed

definition answered_row :: row where
  "answered_row = (ordering_row noon 0 ''c'')\<lparr>row_Prompt := ''why'', row_Result := ''42''\<rparr>"

definition answered_store :: jsonstore where
  "answered_store = \<lparr>js_data = \<lparr>sd_Sessions = [(''c'', answered_row)], sd_Favorites = []\<rparr>, js_fs = fs_tick ex_fs\<rparr>"

lemma answered:
  "js_inv ex_je (mw_store (ex_world answered_store))" "js_rows (mw_store (ex_world answered_store)) (arg_string [(''session_id'', JStr ''c'')] ''session_id'') = Some answered_row"
  "slot_exact int_env answered_row" "mg_store (ex_mgr (Some (js_ops ex_je)) ([], [], None)) = Some (js_ops ex_je)"
proof -
  have "row_ok answered_row" using ex_row_ok by (simp add: answered_row_def row_ok_def utf8_valid_def utf8_fix_ascii)
  then show "js_inv ex_je (mw_store (ex_world answered_store))"
    using ex_js_inv by (simp add: js_inv_def answered_store_def ex_world_def data_ok_def map_ok_def gm_wf_def answered_row_def ordering_row_def ex_fs_def fs_tick_def)
qed (simp_all add: ex_world_def answered_store_def js_rows_def arg_string_def slot_exact_def int_env_def ex_mgr_def)

theorem get_session_hides_witness:
  "\<exists>reply ms. fst (get_session int_env (Some (manager_sessions (ex_mgr (Some (js_ops ex_je)) ([], [], None)))) [(''session_id'', JStr ''c'')] (ex_world answered_store)) = Inr reply \<and>
     json_parse reply = Some (JObj ms) \<and> map_of ms ''Result'' = None \<and> map_of ms ''ResultBytesFull'' = Some (JNum ''2'')"
proof -
  have "Itoa 2 = ''2''" by code_simp
  with get_session_hides [OF answered(4,1,2,3)] show ?thesis by (fastforce simp: answered_row_def)
qed

theorem get_session_result_cut_witness:
  "\<exists>reply ms. fst (get_session_result int_env (Some (manager_sessions (ex_mgr (Some (js_ops ex_je)) ([], [], None)))) [(''session_id'', JStr ''c'')] (ex_world answered_store)) = Inr reply \<and>
     json_parse reply = Some (JObj ms) \<and> map_of ms ''Result'' = Some (JStr ''42'') \<and> map_of ms ''Prompt'' = None"
proof -
  have "length (row_Result answered_row) < 2 ^ 31" "length (row_Result answered_row) \<le> 4000" "row_Result answered_row = ''42''"
    by (simp_all add: answered_row_def)
  with get_session_result_cut [OF answered(4,1,2,3)] show ?thesis by fastforce
qed

end
