(* ===== verification/Http.thy ===== *)
theory Http
  imports Mcp
begin

text \<open>
  The HTTP handlers of \<^verbatim>\<open>cmd/poc/main.go\<close>. A handler is a program over the manager's world (or over
  the engine's, for the workflow pages) that ends with the reply. Requests have a method, the
  decoded path and a body; a reply has its status code, its content type and its body. The
  embedded pages are parameters. \<^verbatim>\<open>ServeMux\<close> sends requests whose path is not in its cleaned form
  away before they reach a handler; such requests are not modelled.
\<close>

section \<open>Requests and replies\<close>

record request =
  hr_Method :: string
  hr_Path :: string
  hr_Body :: string

datatype reply =
    Reply nat string string \<comment> \<open>status code, content type, body\<close>
  | Redirect string
  | Aborted \<comment> \<open>the handler panicked, and the connection is closed\<close>

definition http_Error :: "string \<Rightarrow> nat \<Rightarrow> reply" where
  "http_Error msg code = Reply code ''text/plain; charset=utf-8'' (msg @ nl)"

definition NotFound :: reply where
  "NotFound = http_Error ''404 page not found'' 404"

definition WriteHeader :: "nat \<Rightarrow> reply" where
  "WriteHeader code = Reply code [] []"

text \<open>The header is written first: a value that cannot be encoded leaves the body empty.\<close>

definition writeJSON :: "nat \<Rightarrow> json result \<Rightarrow> reply" where
  "writeJSON code v = Reply code ''application/json'' (case v of Inl _ \<Rightarrow> [] | Inr j \<Rightarrow> json_print j @ nl)"

definition writePage :: "string \<Rightarrow> reply" where
  "writePage html = Reply 200 ''text/html'' html"

definition method_not_allowed :: reply where
  "method_not_allowed = http_Error ''method not allowed'' 405"

text \<open>\<^verbatim>\<open>json.NewDecoder(r.Body).Decode(&body)\<close> into a struct: the members of the first value of the body.\<close>

definition decode_body :: "string \<Rightarrow> (string \<times> json) list option" where
  "decode_body body =
     (case parse_val (2 * length body + 2) maxNestingDepth body of
        Some (JObj ms, rest) \<Rightarrow> Some ms
      | Some (JNull, rest) \<Rightarrow> Some []
      | _ \<Rightarrow> None)"

definition body_string :: "string \<Rightarrow> (string \<times> json) list \<Rightarrow> string option" where
  "body_string k ms = dec_string [] (field_values k ms)"

text \<open>A program of the manager as a step of the whole server, whose engine is above the manager.\<close>

primrec lower :: "('w, 'a) prog \<Rightarrow> ('w eworld, 'a) prog" where
  "lower (Done a) = Done a"
| "lower (Step f) = Step (\<lambda>w. case map_prod lower id (f (ew_ext w)) of (p, x) \<Rightarrow> (p, w\<lparr>ew_ext := x\<rparr>))"

section \<open>Tokens and profile\<close>

definition saved_token_handler :: "('st, 'x) mgr \<Rightarrow> request \<Rightarrow> (('st, 'x) mworld, reply) prog" where
  "saved_token_handler mg req =
     bind (loadSavedToken mg) (\<lambda>token. Done (writeJSON 200 (Inr (JObj [(''has_token'', JBool (token \<noteq> []))]))))"

definition profile_body :: "string \<Rightarrow> profile option" where
  "profile_body body =
     Option.bind (decode_body body) (\<lambda>ms.
     Option.bind (body_string ''claude_oauth_token'' ms) (\<lambda>c.
     Option.bind (body_string ''github_token'' ms) (\<lambda>g.
     Some \<lparr>ClaudeOAuthToken = c, GitHubToken = g\<rparr>)))"

definition string_map_json :: "(string, string) gomap \<Rightarrow> json" where
  "string_map_json m = JObj (map (\<lambda>kv. (fst kv, JStr (snd kv))) (sort_key fst m))"

definition profile_handler :: "('st, 'x) mgr \<Rightarrow> request \<Rightarrow> (('st, 'x) mworld, reply) prog" where
  "profile_handler mg req =
     (if hr_Method req = ''GET'' then
        (case mg_prof mg of
           None \<Rightarrow> Done (writeJSON 200 (Inr (string_map_json [(''claude_oauth_token'', []), (''github_token'', [])])))
         | Some pe \<Rightarrow> bind (fs_step (get_profile pe)) (\<lambda>m. Done (writeJSON 200 (Inr (string_map_json m)))))
      else if hr_Method req = ''PUT'' then
        (case profile_body (hr_Body req) of
           None \<Rightarrow> Done (http_Error ''bad request'' 400)
         | Some p \<Rightarrow>
             (case mg_prof mg of
                None \<Rightarrow> Done (WriteHeader 204)
              | Some pe \<Rightarrow>
                  bind (fs_step (put_profile pe p)) (\<lambda>code.
                  Done (if code = 500 then http_Error ''failed to save profile'' 500 else WriteHeader 204))))
      else Done method_not_allowed)"

section \<open>Sessions\<close>

text \<open>\<^verbatim>\<open>Session.MarshalJSON\<close> reads the session under the lock; the encoder stops at the first that fails.\<close>

definition encode_session :: "nat \<Rightarrow> (('st, 'x) mworld, json result) prog" where
  "encode_session a = bind (get_sess a) (\<lambda>s. Done (if time_ok (ss_CreatedAt s) then Inr (session_json s) else Inl year_error))"

fun encode_sessions :: "nat list \<Rightarrow> (('st, 'x) mworld, json list result) prog" where
  "encode_sessions [] = Done (Inr [])"
| "encode_sessions (a # as) =
     bind (encode_session a) (\<lambda>r.
     case r of
       Inl e \<Rightarrow> Done (Inl e)
     | Inr j \<Rightarrow> bind (encode_sessions as) (\<lambda>rs. Done (map_sum id (\<lambda>js. j # js) rs)))"

record create_body =
  cb_RepoURL :: string
  cb_Branch :: string
  cb_GithubToken :: string
  cb_DevMode :: bool
  cb_Role :: string
  cb_Prompt :: string

definition decode_create :: "string \<Rightarrow> create_body option" where
  "decode_create body =
     Option.bind (decode_body body) (\<lambda>ms.
     Option.bind (body_string ''repo_url'' ms) (\<lambda>url.
     Option.bind (body_string ''branch'' ms) (\<lambda>branch.
     Option.bind (body_string ''github_token'' ms) (\<lambda>token.
     Option.bind (dec_bool False (field_values ''dev_mode'' ms)) (\<lambda>dev.
     Option.bind (body_string ''role'' ms) (\<lambda>role.
     Option.bind (body_string ''prompt'' ms) (\<lambda>prompt.
     Some \<lparr>cb_RepoURL = url, cb_Branch = branch, cb_GithubToken = token, cb_DevMode = dev, cb_Role = role, cb_Prompt = prompt\<rparr>)))))))"

definition sessions_handler :: "('st, 'x) mgr \<Rightarrow> request \<Rightarrow> (('st, 'x) mworld, reply) prog" where
  "sessions_handler mg req =
     (if hr_Method req = ''GET'' then
        bind (read manager_List) (\<lambda>as.
        bind (encode_sessions as) (\<lambda>r. Done (writeJSON 200 (map_sum id JArr r))))
      else if hr_Method req = ''POST'' then
        (case decode_create (hr_Body req) of
           None \<Rightarrow> Done (http_Error ''bad request'' 400)
         | Some b \<Rightarrow>
             bind (manager_Create mg (cb_RepoURL b) (cb_Branch b) (cb_GithubToken b) (cb_DevMode b) (cb_Role b) (cb_Prompt b)) (\<lambda>r.
             case r of
               Inl e \<Rightarrow> Done (http_Error (error_text e) 503)
             | Inr a \<Rightarrow> bind (encode_session a) (\<lambda>j. Done (writeJSON 202 j))))
      else Done method_not_allowed)"

text \<open>\<^verbatim>\<open>GET /api/sessions/{id}/result\<close>: state and result are read one after the other.\<close>

definition result_handler :: "string \<Rightarrow> (('st, 'x) mworld, reply) prog" where
  "result_handler i =
     bind (manager_Get i) (\<lambda>r.
     case r of
       None \<Rightarrow> Done (http_Error ''session not found'' 404)
     | Some a \<Rightarrow>
         bind (get_sess a) (\<lambda>sess.
         if sess_state sess \<noteq> StateStopped then Done (http_Error ''result not yet available'' 409)
         else bind (get_sess a) (\<lambda>sess. Done (writeJSON 200 (Inr (string_map_json [(''result'', ss_Result sess)]))))))"

definition start_handler :: "('st, 'x) mgr \<Rightarrow> string \<Rightarrow> (('st, 'x) mworld, reply) prog" where
  "start_handler mg i =
     bind (manager_Restart mg i) (\<lambda>err.
     Done (case err of Some e \<Rightarrow> http_Error (error_text e) 400 | None \<Rightarrow> WriteHeader 202))"

definition stop_handler :: "('st, 'x) mgr \<Rightarrow> string \<Rightarrow> (('st, 'x) mworld, reply) prog" where
  "stop_handler mg i =
     bind (manager_Stop mg i) (\<lambda>err.
     Done (case err of Some e \<Rightarrow> http_Error (error_text e) 404 | None \<Rightarrow> WriteHeader 204))"

section \<open>Favorites\<close>

definition store_unavailable :: reply where
  "store_unavailable = http_Error ''store not available'' 503"

definition encode_favorite :: "favorite \<Rightarrow> json result" where
  "encode_favorite f = (if time_ok (fav_CreatedAt f) then Inr (favorite_json f) else Inl year_error)"

definition new_favorite :: "('st, 'x) mgr \<Rightarrow> string \<Rightarrow> string \<Rightarrow> string \<Rightarrow> (('st, 'x) mworld, favorite) prog" where
  "new_favorite mg name repoURL branch =
     bind (ext_step (mg_uuid mg)) (\<lambda>i.
     bind (act (\<lambda>w. (mg_clock mg (mw_ticks w), w\<lparr>mw_ticks := Suc (mw_ticks w)\<rparr>))) (\<lambda>t.
     Done \<lparr>fav_ID = i, fav_Name = name, fav_RepoURL = repoURL, fav_Branch = branch, fav_CreatedAt = t\<rparr>))"

definition add_favorite :: "('st, 'x) mgr \<Rightarrow> 'st store_ops \<Rightarrow> string \<Rightarrow> string \<Rightarrow> string \<Rightarrow> (('st, 'x) mworld, reply) prog" where
  "add_favorite mg ops name repoURL branch =
     bind (new_favorite mg name repoURL branch) (\<lambda>fav.
     bind (act (\<lambda>w. case so_UpsertFavorite ops fav (mw_store w) of (e, st) \<Rightarrow> (e, w\<lparr>mw_store := st\<rparr>))) (\<lambda>err.
     Done (case err of
       Some e \<Rightarrow> http_Error (error_text e) 500
     | None \<Rightarrow> writeJSON 201 (encode_favorite fav))))"

text \<open>\<^verbatim>\<open>POST /api/sessions/{id}/favorite\<close>; \<^verbatim>\<open>sess.ID[:8]\<close> of a shorter ID panics.\<close>

definition favorite_handler :: "('st, 'x) mgr \<Rightarrow> 'st store_ops \<Rightarrow> string \<Rightarrow> (('st, 'x) mworld, reply) prog" where
  "favorite_handler mg ops i =
     bind (manager_Get i) (\<lambda>r.
     case r of
       None \<Rightarrow> Done (http_Error ''session not found'' 404)
     | Some a \<Rightarrow>
         bind (get_sess a) (\<lambda>sess.
         let name = RepoName (ss_RepoURL sess) in
         if name = [] \<and> length (ss_ID sess) < 8 then Done Aborted
         else add_favorite mg ops (if name = [] then take 8 (ss_ID sess) else name) (ss_RepoURL sess) (ss_Branch sess)))"

text \<open>\<^verbatim>\<open>/api/sessions/\<close>: the suffix of the path chooses the action.\<close>

definition session_handler :: "('st, 'x) mgr \<Rightarrow> request \<Rightarrow> (('st, 'x) mworld, reply) prog" where
  "session_handler mg req =
     (let path = TrimPrefix (hr_Path req) ''/api/sessions/'' in
      if HasSuffix path ''/result'' then
        (if hr_Method req \<noteq> ''GET'' then Done method_not_allowed
         else result_handler (TrimSuffix path ''/result''))
      else if HasSuffix path ''/start'' then
        (if hr_Method req \<noteq> ''POST'' then Done method_not_allowed
         else start_handler mg (TrimSuffix path ''/start''))
      else if HasSuffix path ''/favorite'' then
        (if hr_Method req \<noteq> ''POST'' then Done method_not_allowed
         else
           (case mg_store mg of
              None \<Rightarrow> Done store_unavailable
            | Some ops \<Rightarrow> favorite_handler mg ops (TrimSuffix path ''/favorite'')))
      else if hr_Method req \<noteq> ''DELETE'' then Done method_not_allowed
      else stop_handler mg path)"

fun encode_favorites :: "favorite list \<Rightarrow> json list result" where
  "encode_favorites [] = Inr []"
| "encode_favorites (f # fs) =
     (case encode_favorite f of
        Inl e \<Rightarrow> Inl e
      | Inr j \<Rightarrow> map_sum id (\<lambda>js. j # js) (encode_favorites fs))"

definition decode_favorite :: "string \<Rightarrow> (string \<times> string \<times> string) option" where
  "decode_favorite body =
     Option.bind (decode_body body) (\<lambda>ms.
     Option.bind (body_string ''name'' ms) (\<lambda>name.
     Option.bind (body_string ''repo_url'' ms) (\<lambda>url.
     Option.bind (body_string ''branch'' ms) (\<lambda>branch.
     Some (name, url, branch)))))"

definition favorites_handler :: "('st, 'x) mgr \<Rightarrow> request \<Rightarrow> (('st, 'x) mworld, reply) prog" where
  "favorites_handler mg req =
     (case mg_store mg of
        None \<Rightarrow> Done store_unavailable
      | Some ops \<Rightarrow>
          if hr_Method req = ''GET'' then
            bind (act (\<lambda>w. case so_ListFavorites ops (mw_store w) of (r, st) \<Rightarrow> (r, w\<lparr>mw_store := st\<rparr>))) (\<lambda>r.
            Done (case r of
              Inl e \<Rightarrow> http_Error (error_text e) 500
            | Inr favs \<Rightarrow> writeJSON 200 (map_sum id JArr (encode_favorites favs))))
          else if hr_Method req = ''POST'' then
            (case decode_favorite (hr_Body req) of
               None \<Rightarrow> Done (http_Error ''bad request'' 400)
             | Some (name, url, branch) \<Rightarrow> add_favorite mg ops name url branch)
          else Done method_not_allowed)"

definition unfavorite_handler :: "('st, 'x) mgr \<Rightarrow> request \<Rightarrow> (('st, 'x) mworld, reply) prog" where
  "unfavorite_handler mg req =
     (case mg_store mg of
        None \<Rightarrow> Done store_unavailable
      | Some ops \<Rightarrow>
          if hr_Method req \<noteq> ''DELETE'' then Done method_not_allowed
          else
            bind (act (\<lambda>w. case so_DeleteFavorite ops (TrimPrefix (hr_Path req) ''/api/favorites/'') (mw_store w) of
              (e, st) \<Rightarrow> (e, w\<lparr>mw_store := st\<rparr>))) (\<lambda>err.
            Done (case err of Some e \<Rightarrow> http_Error (error_text e) 500 | None \<Rightarrow> WriteHeader 204)))"

section \<open>Workflows\<close>

definition encode_workflow :: "wf_val \<Rightarrow> json result" where
  "encode_workflow wfl = (if time_ok (wf_CreatedAt wfl) \<and> time_ok (wf_UpdatedAt wfl) then Inr (workflow_json wfl) else Inl year_error)"

fun encode_workflows :: "wf_val list \<Rightarrow> json list result" where
  "encode_workflows [] = Inr []"
| "encode_workflows (w # ws) =
     (case encode_workflow w of
        Inl e \<Rightarrow> Inl e
      | Inr j \<Rightarrow> map_sum id (\<lambda>js. j # js) (encode_workflows ws))"

definition engine_unavailable :: reply where
  "engine_unavailable = http_Error ''workflow engine not available'' 503"

text \<open>\<^verbatim>\<open>GET /api/workflows/\<close> lists, \<^verbatim>\<open>POST /api/workflows/{id}/resume\<close> resumes.\<close>

definition workflows_handler :: "'w engine option \<Rightarrow> request \<Rightarrow> ('w eworld, reply) prog" where
  "workflows_handler en req =
     (let path = TrimPrefix (hr_Path req) ''/api/workflows/'' in
      if path = [] \<and> hr_Method req = ''GET'' then
        (case en of
           None \<Rightarrow> Done (writeJSON 200 (Inr (JArr [])))
         | Some en \<Rightarrow> bind (read engine_List) (\<lambda>wfs. Done (writeJSON 200 (map_sum id JArr (encode_workflows wfs)))))
      else
        (case Cut1 path (CHR ''/'') of
           (i, action, _) \<Rightarrow>
             if hr_Method req \<noteq> ''POST'' \<or> action \<noteq> ''resume'' then Done (http_Error ''not found'' 404)
             else
               (case en of
                  None \<Rightarrow> Done engine_unavailable
                | Some en \<Rightarrow>
                    bind (Resume en i) (\<lambda>err.
                    Done (case err of
                      Some e \<Rightarrow> http_Error (error_text e) 400
                    | None \<Rightarrow> writeJSON 202 (Inr (string_map_json [(''status'', ''resuming''), (''workflow_id'', i)])))))))"

definition test_workflow_handler :: "'w engine option \<Rightarrow> request \<Rightarrow> ('w eworld, reply) prog" where
  "test_workflow_handler en req =
     (if hr_Method req \<noteq> ''POST'' then Done method_not_allowed
      else
        (case en of
           None \<Rightarrow> Done engine_unavailable
         | Some en \<Rightarrow>
             bind (InjectDemoWorkflow en) (\<lambda>r.
             Done (case r of
               Inl e \<Rightarrow> http_Error (error_text e) 500
             | Inr i \<Rightarrow> writeJSON 202 (Inr (string_map_json [(''workflow_id'', i)]))))))"

section \<open>The table of handlers\<close>

record pages =
  pg_index :: string
  pg_profile :: string
  pg_orchestrator :: string

type_synonym 's handler = "request \<Rightarrow> ('s, reply) prog"

definition registerHandlers :: "pages \<Rightarrow> ('st, 'x) mgr \<Rightarrow> ('st, 'x) mworld engine option \<Rightarrow>
    (string \<times> ('st, 'x) mworld eworld handler) list" where
  "registerHandlers pg mg en =
     [(''/api/saved-token'', lower \<circ> saved_token_handler mg),
      (''/api/profile'', lower \<circ> profile_handler mg),
      (''/profile'', \<lambda>req. Done (writePage (pg_profile pg))),
      (''/orchestrator'', \<lambda>req. Done (writePage (pg_orchestrator pg))),
      (''/'', \<lambda>req. Done (if hr_Path req \<noteq> ''/'' then NotFound else writePage (pg_index pg))),
      (''/api/sessions'', lower \<circ> sessions_handler mg),
      (''/api/sessions/'', lower \<circ> session_handler mg),
      (''/api/favorites'', lower \<circ> favorites_handler mg),
      (''/api/favorites/'', lower \<circ> unfavorite_handler mg),
      (''/api/workflows/'', workflows_handler en),
      (''/api/dev/test-workflow'', test_workflow_handler en)]"

text \<open>The MCP server is registered by \<^verbatim>\<open>main\<close>.\<close>

definition mcp_handler :: "mcp_env \<Rightarrow> 's server \<Rightarrow> 's handler" where
  "mcp_handler env srv req = act (\<lambda>s.
     case ServeHTTP env srv (hr_Method req) (hr_Body req) s of
       ((code, body), s1) \<Rightarrow> (Reply code (if code = 405 then ''text/plain; charset=utf-8'' else ''application/json'') body, s1))"

definition server_mux :: "pages \<Rightarrow> mcp_env \<Rightarrow> ('st, 'x) mworld engine \<Rightarrow> ('st, 'x) mgr \<Rightarrow>
    (string \<times> ('st, 'x) mworld eworld handler) list" where
  "server_mux pg env en mg = registerHandlers pg mg (Some en) @ [(''/mcp'', mcp_handler env (rubbish_server env en mg))]"

text \<open>
  \<^verbatim>\<open>http.ServeMux\<close>: a pattern that ends in a slash matches the paths it starts, any other only
  itself; the longest match is taken. The path of a subtree without its slash is redirected.
\<close>

definition pattern_matches :: "string \<Rightarrow> string \<Rightarrow> bool" where
  "pattern_matches path p = (if HasSuffix p ''/'' then HasPrefix path p else path = p)"

fun longest :: "(string \<times> 'h) list \<Rightarrow> (string \<times> 'h) option" where
  "longest [] = None"
| "longest (x # xs) =
     (case longest xs of
        None \<Rightarrow> Some x
      | Some y \<Rightarrow> Some (if length (fst y) > length (fst x) then y else x))"

definition serve_mux :: "(string \<times> 's handler) list \<Rightarrow> 's handler" where
  "serve_mux mux req =
     (if hr_Path req \<notin> set (map fst mux) \<and> hr_Path req @ ''/'' \<in> set (map fst mux) then Done (Redirect (hr_Path req @ ''/''))
      else
        (case longest (filter (\<lambda>ph. pattern_matches (hr_Path req) (fst ph)) mux) of
           None \<Rightarrow> Done NotFound
         | Some (p, h) \<Rightarrow> h req))"

end
