(* ===== verification/Manager_Load.thy ===== *)
theory Manager_Load
  imports Manager_Slots Session_Storetest
begin

text \<open>
  What the manager knows after a restart of the server: the session that every stored row
  becomes, and the slots that are taken.
\<close>

definition in_progress :: "state set" where
  "in_progress = {StateProvisioning, StateBooting, StateWaitingSSH, StateConfiguring, StateStopping}"

text \<open>The state a row is loaded in, given which slots have a live machine.\<close>

definition state_after :: "(int \<Rightarrow> bool) \<Rightarrow> row \<Rightarrow> state" where
  "state_after alive r =
     (let st = state_of (row_Status r) in
      if st = StateReady then (if alive (row_Slot r) then StateReady else StateFailed)
      else if st \<in> in_progress then StateFailed else st)"

definition loaded_as :: "(int \<Rightarrow> bool) \<Rightarrow> row \<Rightarrow> session \<Rightarrow> bool" where
  "loaded_as alive r s \<longleftrightarrow> ss_ID s = row_ID r \<and> ss_Slot s = row_Slot r \<and> ss_RepoURL s = row_RepoURL r \<and> ss_Branch s = row_Branch r \<and>
     ss_DevMode s = row_DevMode r \<and> ss_CreatedAt s = row_CreatedAt r \<and> sess_state s = state_after alive r \<and>
     ss_v s = (if state_after alive r = StateReady then Some (Detached (row_Slot r)) else None) \<and>
     ss_Role s = [] \<and> ss_Prompt s = [] \<and> ss_Result s = []"

definition live_row :: "(int \<Rightarrow> bool) \<Rightarrow> row \<Rightarrow> bool" where
  "live_row alive r \<longleftrightarrow> state_of (row_Status r) = StateReady \<and> alive (row_Slot r)"

lemma newSM_state [simp]: "sm_current (newSM st t) = st"
  by (simp add: newSM_def OnTransition_def sm_New_def)

lemma exec_load_failed:
  "exec (load_failed mg ops r msg) w = ((loaded_session r)\<lparr>ss_Error := msg, ss_sm := newSM StateFailed (mg_clock mg (mw_ticks w))\<rparr>,
     w\<lparr>mw_ticks := Suc (Suc (mw_ticks w)), mw_store := snd (so_Upsert ops (failed_row r msg (mg_clock mg (Suc (mw_ticks w)))) (mw_store w))\<rparr>)"
  by (simp add: load_failed_def store_upsert_def split: prod.splits)

lemma exec_stopVM_sel [simp]:
  "mw_heap (snd (exec (stopVM mg v) w)) = mw_heap w" "mw_sessions (snd (exec (stopVM mg v) w)) = mw_sessions w"
  "mw_used (snd (exec (stopVM mg v) w)) = mw_used w" "fst (exec (stopVM mg v) w) = ()"
  by (simp_all add: stopVM_def ext_call_def split: prod.splits)

lemma exec_ext_step: "exec (ext_step f) w = (fst (f (mw_ext w)), w\<lparr>mw_ext := snd (f (mw_ext w))\<rparr>)"
  by (simp add: ext_step_def split: prod.splits)

lemma exec_load_row:
  assumes "\<And>k x. fst (mg_IsSocketAlive mg k x) = alive k" and "exec (load_row mg ops r) w = ((s, b), w')"
  shows "loaded_as alive r s \<and> b = live_row alive r \<and> mw_heap w' = mw_heap w \<and> mw_sessions w' = mw_sessions w \<and> mw_used w' = mw_used w"
proof -
  let ?st = "state_of (row_Status r)"
  consider "?st = StateReady" "alive (row_Slot r)" | "?st = StateReady" "\<not> alive (row_Slot r)" | "?st \<in> in_progress" | "?st \<noteq> StateReady" "?st \<notin> in_progress"
    by blast
  then show ?thesis
  proof cases
    case 1
    with assms show ?thesis
      by (auto simp: load_row_def Let_def exec_ext_step loaded_as_def loaded_session_def live_row_def state_after_def)
  next
    case 2
    with assms show ?thesis
      by (auto simp: load_row_def Let_def exec_ext_step exec_load_failed loaded_as_def loaded_session_def live_row_def state_after_def)
  next
    case 3
    then have n: "?st \<noteq> StateReady" and m: "?st \<in> {StateProvisioning, StateBooting, StateWaitingSSH, StateConfiguring, StateStopping}"
      by (auto simp: in_progress_def)
    define v where "v = snd (exec (if alive (row_Slot r) then stopVM mg (Detached (row_Slot r)) else Done ())
      (w\<lparr>mw_ext := snd (mg_IsSocketAlive mg (row_Slot r) (mw_ext w))\<rparr>))"
    have v: "mw_heap v = mw_heap w" "mw_sessions v = mw_sessions w" "mw_used v = mw_used w" by (simp_all add: v_def)
    have "exec (load_row mg ops r) w = ((fst (exec (load_failed mg ops r ''lost on server restart'') v), False), snd (exec (load_failed mg ops r ''lost on server restart'') v))"
      unfolding load_row_def Let_def if_not_P [OF n] if_P [OF m] by (simp add: exec_ext_step assms(1) v_def)
    with assms(2) v n 3 show ?thesis
      by (auto simp: exec_load_failed loaded_as_def loaded_session_def live_row_def state_after_def Let_def)
  next
    case 4
    with assms show ?thesis
      by (auto simp: load_row_def Let_def in_progress_def loaded_as_def loaded_session_def live_row_def state_after_def)
  qed
qed

definition loaded_rows :: "(int \<Rightarrow> bool) \<Rightarrow> row list \<Rightarrow> ('st, 'x) mworld \<Rightarrow> ('st, 'x) mworld \<Rightarrow> bool" where
  "loaded_rows alive rs w w' \<longleftrightarrow>
     (\<forall>b<length (mw_heap w). mw_heap w' ! b = mw_heap w ! b) \<and> length (mw_heap w) \<le> length (mw_heap w') \<and>
     (\<forall>r\<in>set rs. \<exists>a. gm_get (mw_sessions w') (row_ID r) = Some a \<and> length (mw_heap w) \<le> a \<and> a < length (mw_heap w') \<and> loaded_as alive r (mw_heap w' ! a)) \<and>
     (\<forall>i. i \<notin> row_ID ` set rs \<longrightarrow> gm_get (mw_sessions w') i = gm_get (mw_sessions w) i) \<and>
     (\<forall>k. gm_get (mw_used w') k = (if k \<in> row_Slot ` {r \<in> set rs. live_row alive r} then Some True else gm_get (mw_used w) k))"

lemma exec_load_rows:
  assumes "\<And>k x. fst (mg_IsSocketAlive mg k x) = alive k"
  shows "distinct (map row_ID rs) \<Longrightarrow> \<forall>r\<in>set rs. 8 \<le> length (row_ID r) \<Longrightarrow> \<forall>k\<in>set live. gm_get (mw_used w) k = Some True \<Longrightarrow>
    exec (load_rows mg ops rs live) w = (l, w') \<Longrightarrow>
    l = Some (rev (map row_Slot (filter (live_row alive) rs)) @ live) \<and> loaded_rows alive rs w w'"
proof (induction rs arbitrary: live w)
  case Nil
  then show ?case by (auto simp: loaded_rows_def)
next
  case (Cons r rs)
  obtain s b v where v: "exec (load_row mg ops r) w = ((s, b), v)" by (metis surj_pair)
  from exec_load_row [OF assms this] have v': "loaded_as alive r s" "b = live_row alive r" "mw_heap v = mw_heap w" "mw_sessions v = mw_sessions w" "mw_used v = mw_used w"
    by blast+
  define live' where "live' = (if b then row_Slot r # live else live)"
  define u where "u = v\<lparr>mw_heap := mw_heap v @ [s], mw_sessions := gm_set (row_ID r) (length (mw_heap v)) (mw_sessions v),
                mw_used := (if row_Slot r \<in> set live' then gm_set (row_Slot r) True (mw_used v) else mw_used v)\<rparr>"
  have "exec (load_rows mg ops rs live') u = (l, w')"
    using Cons.prems(2,4) v by (simp add: Let_def flip: live'_def u_def)
  moreover have used: "gm_get (mw_used u) k = (if b \<and> k = row_Slot r then Some True else gm_get (mw_used w) k)" for k
    using Cons.prems(3) v'(5) by (auto simp: u_def live'_def)
  then have "\<forall>k\<in>set live'. gm_get (mw_used u) k = Some True" using Cons.prems(3) by (auto simp: live'_def)
  ultimately have ih: "l = Some (rev (map row_Slot (filter (live_row alive) rs)) @ live')" "loaded_rows alive rs u w'"
    using Cons.IH [of live' u] Cons.prems(1,2) by auto
  have fresh: "row_ID r \<notin> row_ID ` set rs" using Cons.prems(1) by auto
  have u: "mw_heap u = mw_heap w @ [s]" "\<And>i. gm_get (mw_sessions u) i = (if i = row_ID r then Some (length (mw_heap w)) else gm_get (mw_sessions w) i)"
    using v' by (auto simp: u_def)
  have "loaded_rows alive (r # rs) w w'"
    unfolding loaded_rows_def
  proof (intro conjI allI ballI impI)
    show "mw_heap w' ! c = mw_heap w ! c" if "c < length (mw_heap w)" for c
      using ih(2) that u(1) by (auto simp: loaded_rows_def nth_append)
    show "length (mw_heap w) \<le> length (mw_heap w')" using ih(2) u(1) by (simp add: loaded_rows_def)
    show "\<exists>a. gm_get (mw_sessions w') (row_ID q) = Some a \<and> length (mw_heap w) \<le> a \<and> a < length (mw_heap w') \<and> loaded_as alive q (mw_heap w' ! a)"
      if "q \<in> set (r # rs)" for q
    proof (cases "q \<in> set rs")
      case True
      with ih(2) u(1) show ?thesis unfolding loaded_rows_def by (metis Suc_leD length_append_singleton)
    next
      case False
      with that have q: "q = r" by simp
      have "gm_get (mw_sessions w') (row_ID r) = Some (length (mw_heap w))" using ih(2) fresh u(2) by (simp add: loaded_rows_def)
      moreover have "mw_heap w' ! length (mw_heap w) = s" "length (mw_heap w) < length (mw_heap w')" using ih(2) u(1) by (auto simp: loaded_rows_def)
      ultimately show ?thesis using v'(1) q by auto
    qed
    show "gm_get (mw_sessions w') i = gm_get (mw_sessions w) i" if "i \<notin> row_ID ` set (r # rs)" for i
      using ih(2) u(2) that by (auto simp: loaded_rows_def)
    show "gm_get (mw_used w') k = (if k \<in> row_Slot ` {q \<in> set (r # rs). live_row alive q} then Some True else gm_get (mw_used w) k)" for k
      using ih(2) used [of k] v'(2) by (auto simp: loaded_rows_def)
  qed
  with ih(1) v'(2) show ?case by (simp add: live'_def)
qed

lemma exec_loadFromDB:
  assumes "mg_store mg = Some ops" and "so_List ops (mw_store w) = (Inr rs, st)" and "\<And>k x. fst (mg_IsSocketAlive mg k x) = alive k"
    and "distinct (map row_ID rs)" and "\<forall>r\<in>set rs. 8 \<le> length (row_ID r)"
  shows "\<exists>v. loaded_rows alive rs (w\<lparr>mw_store := st\<rparr>) v \<and> mw_heap (snd (exec (loadFromDB mg) w)) = mw_heap v \<and>
    mw_sessions (snd (exec (loadFromDB mg) w)) = mw_sessions v \<and> mw_used (snd (exec (loadFromDB mg) w)) = mw_used v"
proof -
  let ?w = "w\<lparr>mw_store := st\<rparr>"
  obtain l v where l: "exec (load_rows mg ops rs []) ?w = (l, v)" by fastforce
  from exec_load_rows [OF assms(3-5) _ l] have r: "l = Some (rev (map row_Slot (filter (live_row alive) rs)))" "loaded_rows alive rs ?w v" by auto
  then show ?thesis
    using assms(1,2) l by (auto simp: loadFromDB_def exec_ext_step)
qed

text \<open>
  After a restart every stored row is a session again: a ready one whose machine still runs
  keeps its state and its slot, every other session that was not final has failed, the final ones
  are as they were, and exactly the slots of the live ones are taken. The role, the prompt and the
  result of the row are not loaded, so a restarted session runs the command with an empty prompt.
\<close>

theorem loadFromDB_recovers:
  assumes "mg_store mg = Some ops" and "so_List ops (mw_store w) = (Inr rs, st)" and "\<And>k x. fst (mg_IsSocketAlive mg k x) = alive k"
    and "distinct (map row_ID rs)" and "\<forall>r\<in>set rs. 8 \<le> length (row_ID r)" and "w' = snd (exec (loadFromDB mg) w)"
  shows "(\<forall>r\<in>set rs. \<exists>a. gm_get (mw_sessions w') (row_ID r) = Some a \<and> loaded_as alive r (mw_heap w' ! a)) \<and>
    (\<forall>i. i \<notin> row_ID ` set rs \<longrightarrow> gm_get (mw_sessions w') i = gm_get (mw_sessions w) i) \<and>
    (\<forall>k. gm_get (mw_used w') k = (if \<exists>r\<in>set rs. live_row alive r \<and> row_Slot r = k then Some True else gm_get (mw_used w) k))"
  using exec_loadFromDB [OF assms(1-5)] by (auto simp: assms(6) loaded_rows_def)

definition up_row :: row where
  "up_row = zero_row\<lparr>row_ID := ''session-0'', row_Status := ''ready'', row_Prompt := ''why''\<rparr>"

definition mid_row :: row where
  "mid_row = zero_row\<lparr>row_ID := ''session-1'', row_Status := ''booting'', row_Slot := 1\<rparr>"

definition two_rows :: jsonstore where
  "two_rows = \<lparr>js_data = \<lparr>sd_Sessions = [(''session-0'', up_row), (''session-1'', mid_row)], sd_Favorites = []\<rparr>, js_fs = ex_fs\<rparr>"

lemma two_rows_listed:
  "so_List (js_ops ex_je) (mw_store (ex_world two_rows)) = (Inr [up_row, mid_row], two_rows\<lparr>js_fs := fs_tick ex_fs\<rparr>)"
  by (simp add: js_ops_def js_List_def js_reload_def ReadFile_def ex_world_def two_rows_def ex_fs_def ex_je_def fs_tick_def Let_def up_row_def mid_row_def zero_row_def)

theorem loadFromDB_recovers_witness:
  "let mg = (ex_mgr (Some (js_ops ex_je)) ([], [], None))\<lparr>mg_IsSocketAlive := \<lambda>k x. (k = 0, x)\<rparr>; w' = snd (exec (loadFromDB mg) (ex_world two_rows))
   in (\<exists>a b. gm_get (mw_sessions w') ''session-0'' = Some a \<and> sess_state (mw_heap w' ! a) = StateReady \<and> ss_Prompt (mw_heap w' ! a) = [] \<and>
        gm_get (mw_sessions w') ''session-1'' = Some b \<and> sess_state (mw_heap w' ! b) = StateFailed) \<and>
      gm_get (mw_used w') 0 = Some True \<and> gm_get (mw_used w') 1 = None"
proof -
  let ?mg = "(ex_mgr (Some (js_ops ex_je)) ([], [], None))\<lparr>mg_IsSocketAlive := \<lambda>k x. (k = 0, x)\<rparr>" and ?alive = "\<lambda>k::int. k = 0"
  have m: "mg_store ?mg = Some (js_ops ex_je)" and al: "fst (mg_IsSocketAlive ?mg k x) = ?alive k" for k x by (simp_all add: ex_mgr_def)
  have st: "state_of ''ready'' = StateReady" "state_of ''booting'' = StateBooting" by code_simp+
  have "distinct (map row_ID [up_row, mid_row])" "\<forall>r\<in>set [up_row, mid_row]. 8 \<le> length (row_ID r)" by (simp_all add: up_row_def mid_row_def)
  note rs = this
  define w' where "w' = snd (exec (loadFromDB ?mg) (ex_world two_rows))"
  note all = loadFromDB_recovers [OF m two_rows_listed al rs w'_def]
  have row: "row_ID up_row = ''session-0''" "row_ID mid_row = ''session-1''" "row_Slot up_row = 0" "row_Slot mid_row = 1"
    "state_after ?alive up_row = StateReady" "state_after ?alive mid_row = StateFailed" "live_row ?alive up_row" "\<not> live_row ?alive mid_row"
    by (simp_all add: up_row_def mid_row_def zero_row_def state_after_def live_row_def in_progress_def st Let_def)
  from all have "\<exists>a. gm_get (mw_sessions w') ''session-0'' = Some a \<and> loaded_as ?alive up_row (mw_heap w' ! a)"
    "\<exists>b. gm_get (mw_sessions w') ''session-1'' = Some b \<and> loaded_as ?alive mid_row (mw_heap w' ! b)"
    by (metis list.set_intros row(1,2))+
  moreover have "gm_get (mw_used w') 0 = Some True" using all row(3,7) by (metis list.set_intros(1))
  moreover have "gm_get (mw_used w') 1 = None" using all row(3,8) by (simp add: ex_world_def)
  ultimately show ?thesis unfolding Let_def w'_def [symmetric] by (auto simp: loaded_as_def row)
qed

end
