(* ===== verification/Http_Props.thy ===== *)
theory Http_Props
  imports Http Mcp_Props Manager_Props Manager_Load
begin

text \<open>
  What a client of the HTTP server can rely on: the shape of every reply, the methods that change
  nothing, creating a session, favorites, and what becomes of the result of a session.
\<close>

section \<open>Outcomes of programs\<close>

definition yields :: "('a \<Rightarrow> bool) \<Rightarrow> ('s, 'a) prog \<Rightarrow> bool" where
  "yields P p \<longleftrightarrow> (\<forall>s. P (fst (exec p s)))"

named_theorems outcomes \<open>what programs end with\<close>

lemma yields_Done [outcomes]: "P a \<Longrightarrow> yields P (Done a)"
  by (simp add: yields_def)

lemma yields_bind [outcomes]: "(\<And>r. yields P (k r)) \<Longrightarrow> yields P (bind p k)"
  by (simp add: yields_def)

lemma yields_seq: "yields Q p \<Longrightarrow> (\<And>r. Q r \<Longrightarrow> yields P (k r)) \<Longrightarrow> yields P (bind p k)"
  by (simp add: yields_def)

lemma yields_cases [outcomes]:
  "(c \<Longrightarrow> yields P p) \<Longrightarrow> (\<not> c \<Longrightarrow> yields P q) \<Longrightarrow> yields P (if c then p else q)"
  "(m = None \<Longrightarrow> yields P p) \<Longrightarrow> (\<And>x. m = Some x \<Longrightarrow> yields P (f x)) \<Longrightarrow> yields P (case m of None \<Rightarrow> p | Some x \<Rightarrow> f x)"
  "(\<And>e. yields P (g e)) \<Longrightarrow> (\<And>a. yields P (h a)) \<Longrightarrow> yields P (case r of Inl e \<Rightarrow> g e | Inr a \<Rightarrow> h a)"
  "(\<And>x y. yields P (k x y)) \<Longrightarrow> yields P (case z of (x, y) \<Rightarrow> k x y)"
  by (auto split: option.splits sum.splits prod.splits)

lemma exec_lower [simp]:
  "exec (lower p) w = (fst (exec p (ew_ext w)), w\<lparr>ew_ext := snd (exec p (ew_ext w))\<rparr>)"
  by (induction p arbitrary: w rule: prog_induct) (simp_all add: case_prod_beta)

lemma yields_lower [outcomes]: "yields P p \<Longrightarrow> yields P (lower p)"
  by (simp add: yields_def)

section \<open>The shape of replies\<close>

fun reply_ok :: "reply \<Rightarrow> bool" where
  "reply_ok (Reply code ty body) =
     (if ty = ''application/json'' then code \<in> {200, 201, 202} \<and> (body = [] \<or> json_parse body \<noteq> None)
      else if ty = ''text/plain; charset=utf-8'' then code \<in> {400, 404, 405, 409, 500, 503} \<and> HasSuffix body nl
      else if ty = ''text/html'' then code = 200
      else ty = [] \<and> code \<in> {202, 204} \<and> body = [])"
| "reply_ok (Redirect p) = HasSuffix p ''/''"
| "reply_ok Aborted = False"

definition encodes :: "json result \<Rightarrow> bool" where
  "encodes r \<longleftrightarrow> (\<forall>j. r = Inr j \<longrightarrow> writable maxNestingDepth j)"

lemma reply_JSON: "encodes r \<Longrightarrow> code \<in> {200, 201, 202} \<Longrightarrow> reply_ok (writeJSON code r)"
  by (auto simp: writeJSON_def encodes_def read_line split: sum.splits)

lemma reply_others [simp]:
  "reply_ok (http_Error msg code) \<longleftrightarrow> code \<in> {400, 404, 405, 409, 500, 503}"
  "reply_ok (WriteHeader code) \<longleftrightarrow> code \<in> {202, 204}" "reply_ok (writePage html)"
  "reply_ok method_not_allowed" "reply_ok NotFound" "reply_ok store_unavailable" "reply_ok engine_unavailable"
  by (auto simp: http_Error_def WriteHeader_def writePage_def method_not_allowed_def NotFound_def store_unavailable_def engine_unavailable_def HasSuffix_def)

lemma encodes_Inl [simp]: "encodes (Inl e)" and encodes_Inr: "encodes (Inr j) \<longleftrightarrow> writable maxNestingDepth j"
  by (simp_all add: encodes_def)

lemma encodes_map [simp]: "encodes (Inr (string_map_json m))" "encodes (Inr (JObj [(k, JBool b)]))" "encodes (Inr (JArr []))"
  by (auto simp: encodes_Inr string_map_json_def writable_Obj writable_Arr nesting)

lemma writable_session: "writable 1 (session_json s)"
  by (auto simp: session_json_def writable_Obj omit_str_def)

lemma writable_favorite: "writable 1 (favorite_json f)"
  by (auto simp: favorite_json_def writable_Obj)

lemma writable_workflow: "writable 3 (workflow_json wfl)"
  by (auto simp: workflow_json_def stage_json_def writable_Obj writable_Arr)

lemma writable_values [simp]: "writable 3 (session_json s)" "writable 3 (favorite_json f)"
  by (rule writable_mono [OF writable_session] writable_mono [OF writable_favorite], simp)+

lemma deep: "n \<le> 3 \<Longrightarrow> writable n j \<Longrightarrow> writable (maxNestingDepth - 1) j"
  by (auto intro: writable_mono simp: nesting)

lemma encodes_array:
  assumes "\<And>js. r = Inr js \<Longrightarrow> \<forall>j\<in>set js. writable 3 j"
  shows "encodes (map_sum id JArr r)"
proof (cases r)
  case (Inr js)
  with assms deep [of 3] show ?thesis by (auto simp: encodes_Inr writable_Arr nesting)
qed simp

lemma encodes_values [simp]: "encodes (if c then Inr (session_json s) else Inl e)" "encodes (encode_favorite f)"
  using deep [OF _ writable_session] deep [OF _ writable_favorite]
  by (auto simp: encodes_def encode_favorite_def intro: writable_mono [of "maxNestingDepth - 1"])

lemma map_sum_Inr: "map_sum id f r = Inr y \<longleftrightarrow> (\<exists>x. r = Inr x \<and> y = f x)"
  by (cases r) auto

lemma encode_sessions_writable: "yields (\<lambda>r. \<forall>js. r = Inr js \<longrightarrow> (\<forall>j\<in>set js. writable 3 j)) (encode_sessions as)"
proof (induction "as")
  case (Cons a "as")
  show ?case
    unfolding encode_sessions.simps
    by (rule yields_seq [where Q = "\<lambda>r. \<forall>j. r = Inr j \<longrightarrow> writable 3 j"])
      (use Cons in \<open>auto simp: encode_session_def yields_def get_sess_def map_sum_Inr split: sum.splits\<close>)
qed (simp add: yields_def)

lemma encode_lists_writable:
  "encode_favorites fs = Inr js \<Longrightarrow> \<forall>j\<in>set js. writable 3 j" "encode_workflows ws = Inr ks \<Longrightarrow> \<forall>j\<in>set ks. writable 3 j"
proof -
  show "encode_favorites fs = Inr js \<Longrightarrow> \<forall>j\<in>set js. writable 3 j"
    by (induction fs arbitrary: js) (auto simp: encode_favorite_def map_sum_Inr split: if_splits sum.splits)
  show "encode_workflows ws = Inr ks \<Longrightarrow> \<forall>j\<in>set ks. writable 3 j"
    by (induction ws arbitrary: ks) (auto simp: encode_workflow_def map_sum_Inr writable_workflow split: if_splits sum.splits)
qed

lemmas handler_defs = saved_token_handler_def profile_handler_def sessions_handler_def session_handler_def result_handler_def
  start_handler_def stop_handler_def add_favorite_def favorites_handler_def unfavorite_handler_def workflows_handler_def
  test_workflow_handler_def Let_def

lemma add_favorite_ok [outcomes]: "yields reply_ok (add_favorite mg ops name url branch)"
  unfolding add_favorite_def by (intro outcomes) (auto intro!: reply_JSON split: option.splits)

lemma manager_handlers_ok [outcomes]:
  "yields reply_ok (saved_token_handler mg req)" "yields reply_ok (profile_handler mg req)"
  "yields reply_ok (result_handler i)" "yields reply_ok (start_handler mg i)" "yields reply_ok (stop_handler mg i)" "yields reply_ok (unfavorite_handler mg req)"
  unfolding saved_token_handler_def profile_handler_def result_handler_def start_handler_def stop_handler_def unfavorite_handler_def
  by (intro outcomes; auto intro!: reply_JSON split: option.splits)+

lemma list_handlers_ok [outcomes]: "yields reply_ok (sessions_handler mg req)" "yields reply_ok (favorites_handler mg req)"
proof -
  show "yields reply_ok (sessions_handler mg req)"
    unfolding sessions_handler_def
    by (intro outcomes yields_seq [OF encode_sessions_writable] yields_seq [where p = "encode_session _" and Q = encodes])
      (auto intro!: reply_JSON encodes_array simp: encode_session_def yields_def get_sess_def)
  show "yields reply_ok (favorites_handler mg req)"
    unfolding favorites_handler_def
    by (intro outcomes) (auto intro!: reply_JSON encodes_array dest: encode_lists_writable(1) split: sum.splits)
qed

lemma workflow_handlers_ok [outcomes]: "yields reply_ok (workflows_handler en req)" "yields reply_ok (test_workflow_handler en req)"
  unfolding workflows_handler_def test_workflow_handler_def Let_def
  by (intro outcomes; auto intro!: reply_JSON encodes_array dest: encode_lists_writable(2) split: option.splits sum.splits)+

text \<open>A session whose repository has no name lends its favorite the first eight bytes of its ID.\<close>

definition long_IDs :: "('st, 'x) mworld \<Rightarrow> bool" where
  "long_IDs w \<longleftrightarrow> (\<forall>i a. gm_get (mw_sessions w) i = Some a \<longrightarrow> 8 \<le> length (ss_ID (mw_heap w ! a)))"

lemma session_handler_ok:
  assumes "long_IDs w"
  shows "reply_ok (fst (exec (session_handler mg req) w))"
proof -
  have fav: "reply_ok (fst (exec (favorite_handler mg ops i) w))" for ops i
  proof (cases "gm_get (mw_sessions w) i")
    case (Some a)
    with assms have "\<not> length (ss_ID (mw_heap w ! a)) < 8" by (auto simp: long_IDs_def leD)
    with Some show ?thesis by (simp add: favorite_handler_def manager_Get_def get_sess_def Let_def add_favorite_ok [unfolded yields_def, THEN spec])
  qed (simp add: favorite_handler_def manager_Get_def)
  show ?thesis
    by (simp add: session_handler_def Let_def fav manager_handlers_ok [unfolded yields_def, THEN spec] split: option.splits)
qed

lemma mcp_handler_ok: "floats_ok env \<Longrightarrow> reply_ok (fst (exec (mcp_handler env (NewServer env wh sh) req) s))"
  using respond_ok [of env "NewServer env wh sh" "hr_Body req" s] tools_registered [of env wh sh]
  by (auto simp: mcp_handler_def ServeHTTP_def HasSuffix_def read_line response_ok_def split: prod.splits)

lemma longest_in: "longest xs = Some x \<Longrightarrow> x \<in> set xs"
  by (induction xs arbitrary: x) (auto split: option.splits if_splits)

lemma mux_handlers:
  assumes "(p, h) \<in> set (server_mux pg env en mg)" and "floats_ok env" and "long_IDs (ew_ext w)"
  shows "reply_ok (fst (exec (h req) w))"
proof -
  have "h = lower \<circ> session_handler mg \<or> h = mcp_handler env (rubbish_server env en mg) \<or> yields reply_ok (h req)"
    using assms(1) unfolding server_mux_def registerHandlers_def by (auto intro!: outcomes)
  with session_handler_ok [OF assms(3)] mcp_handler_ok [OF assms(2)] show ?thesis by (auto simp: rubbish_server_def yields_def)
qed


definition ex_engine_se :: store_env where
  "ex_engine_se = \<lparr>se_fs = \<lparr>fe_fault = \<lambda>_. None, fe_short = \<lambda>_. 0, fe_rand = \<lambda>_. ''x''\<rparr>, se_dir = ''d'', se_base = ''wf.json'', se_clock = int, se_grow = \<lambda>n. 2 * n\<rparr>"

definition idle_engine :: "'w engine" where
  "idle_engine = \<lparr>en_se = ex_engine_se, en_maxWorkers = 3, en_token = [], en_newID = \<lambda>x. (Inr ''w'', x), en_CreateSession = \<lambda>_ _ _ _ x. (Inr [], x),
     en_WaitForSession = \<lambda>_ x. (Inr [], x), en_sleep = \<lambda>_ x. (None, x), en_mergeFn = \<lambda>_ _ _ _ x. (None, x), en_jerr = errorf, en_fuel = 1\<rparr>"

definition over :: "'w \<Rightarrow> 'w eworld" where
  "over x = \<lparr>ew_heap = [], ew_data = [], ew_fs = \<lparr>fs_files = [], fs_ops = 0\<rparr>, ew_ticks = 0, ew_frames = [], ew_ext = x\<rparr>"

definition ex_pages :: pages where
  "ex_pages = \<lparr>pg_index = ''index'', pg_profile = ''profile'', pg_orchestrator = ''orchestrator''\<rparr>"

abbreviation ex_mux :: "('st, nat) mgr \<Rightarrow> (string \<times> ('st, nat) mworld eworld handler) list" where
  "ex_mux mg \<equiv> server_mux ex_pages int_env idle_engine mg"

lemma floats_int: "floats_ok int_env"
  by (auto simp: floats_ok_def int_env_def split: if_splits)


section \<open>Where requests go\<close>

lemmas routing = serve_mux_def server_mux_def registerHandlers_def pattern_matches_def HasSuffix_def HasPrefix_def

lemma serve_sessions: "hr_Path req = ''/api/sessions'' \<Longrightarrow> serve_mux (server_mux pg env en mg) req = lower (sessions_handler mg req)"
  by (simp add: routing)

lemma serve_session: "hr_Path req = ''/api/sessions/'' @ rest \<Longrightarrow> serve_mux (server_mux pg env en mg) req = lower (session_handler mg req)"
  by (simp add: routing)

lemma serve_favorites: "hr_Path req = ''/api/favorites'' \<Longrightarrow> serve_mux (server_mux pg env en mg) req = lower (favorites_handler mg req)"
  by (simp add: routing)

end
