(* ===== verification/Http_Effects.thy ===== *)
theory Http_Effects
  imports Http_Props
begin

text \<open>
  What requests do to the server: reading changes nothing, creating starts a session, and what a
  client gets of a session's result and of the favorites.
\<close>

section \<open>Requests that only read\<close>

definition same_manager :: "js_env \<Rightarrow> (jsonstore, 'x) mworld \<Rightarrow> (jsonstore, 'x) mworld \<Rightarrow> bool" where
  "same_manager je w w' \<longleftrightarrow> js_inv je (mw_store w') \<and> mw_heap w' = mw_heap w \<and> mw_sessions w' = mw_sessions w \<and> mw_used w' = mw_used w \<and>
     mw_tasks w' = mw_tasks w \<and> js_rows (mw_store w') = js_rows (mw_store w) \<and> js_favs (mw_store w') = js_favs (mw_store w)"

definition looks :: "js_env \<Rightarrow> ((jsonstore, 'x) mworld, 'a) prog \<Rightarrow> bool" where
  "looks je p \<longleftrightarrow> (\<forall>w. js_inv je (mw_store w) \<longrightarrow> same_manager je w (snd (exec p w)))"

named_theorems looking \<open>programs that only look at the manager's state\<close>

lemma looks_Done [looking]: "looks je (Done r)"
  by (simp add: looks_def same_manager_def)

lemma looks_bind [looking]: "looks je p \<Longrightarrow> (\<And>r. looks je (k r)) \<Longrightarrow> looks je (bind p k)"
  by (auto simp: looks_def same_manager_def)

lemma looks_cases [looking]:
  "(c \<Longrightarrow> looks je p) \<Longrightarrow> (\<not> c \<Longrightarrow> looks je q) \<Longrightarrow> looks je (if c then p else q)"
  "looks je p \<Longrightarrow> (\<And>x. m = Some x \<Longrightarrow> looks je (f x)) \<Longrightarrow> looks je (case m of None \<Rightarrow> p | Some x \<Rightarrow> f x)"
  "(\<And>e. looks je (g e)) \<Longrightarrow> (\<And>a. looks je (h a)) \<Longrightarrow> looks je (case r of Inl e \<Rightarrow> g e | Inr a \<Rightarrow> h a)"
  by (auto split: option.splits sum.splits)

lemma looks_basic [looking]: "looks je (read g)" "looks je (fs_step f)" "looks je (get_sess a)" "looks je (manager_Get i)"
  by (simp_all add: looks_def same_manager_def fs_step_def get_sess_def manager_Get_def split: prod.splits)

lemma looks_encode [looking]: "looks je (encode_session a)" "looks je (encode_sessions as)"
proof -
  show e: "looks je (encode_session a)" for a unfolding encode_session_def by (intro looking)
  show "looks je (encode_sessions as)" by (induction "as") (auto intro!: looking e split: sum.splits)
qed

lemma looks_favorites [looking]:
  "looks je (act (\<lambda>w. case so_ListFavorites (js_ops je) (mw_store w) of (r, st) \<Rightarrow> (r, w\<lparr>mw_store := st\<rparr>)))"
  unfolding looks_def
proof (intro allI impI)
  fix w :: "(jsonstore, 'x) mworld" assume "js_inv je (mw_store w)"
  from js.ListFavorites [OF this] show "same_manager je w (snd (exec (act (\<lambda>w. case so_ListFavorites (js_ops je) (mw_store w) of (r, st) \<Rightarrow> (r, w\<lparr>mw_store := st\<rparr>))) w))"
    by (cases "so_ListFavorites (js_ops je) (mw_store w)") (simp add: same_manager_def)
qed

definition writes :: "string list" where
  "writes = [''POST'', ''PUT'', ''DELETE'']"

lemma looks_handlers [looking]:
  assumes "hr_Method req \<notin> set writes" and "mg_store mg = Some (js_ops je)"
  shows "looks je (saved_token_handler mg req)" "looks je (profile_handler mg req)" "looks je (sessions_handler mg req)"
    "looks je (session_handler mg req)" "looks je (favorites_handler mg req)" "looks je (unfavorite_handler mg req)"
  using assms unfolding saved_token_handler_def profile_handler_def sessions_handler_def session_handler_def favorites_handler_def
    unfavorite_handler_def loadSavedToken_def result_handler_def Let_def
  by (auto simp: writes_def intro!: looking)

text \<open>
  (C30) Reading is safe: a request by any other method than \<^verbatim>\<open>POST\<close>, \<^verbatim>\<open>PUT\<close> and \<^verbatim>\<open>DELETE\<close>, at whatever
  path, changes no session, slot, row, favorite or workflow and starts nothing.
\<close>

theorem reading_is_safe:
  fixes w :: "(jsonstore, 'x) mworld eworld"
  assumes "hr_Method req \<notin> set writes" and "mg_store mg = Some (js_ops je)" and "js_inv je (mw_store (ew_ext w))"
    and "w' = snd (exec (serve_mux (server_mux pg env en mg) req) w)"
  shows "same_manager je (ew_ext w) (ew_ext w') \<and> ew_data w' = ew_data w \<and> ew_heap w' = ew_heap w"
proof -
  let ?ok = "\<lambda>w'. same_manager je (ew_ext w) (ew_ext w') \<and> ew_data w' = ew_data w \<and> ew_heap w' = ew_heap w" and ?mux = "server_mux pg env en mg"
  have refl: "?ok w" using assms(3) by (simp add: same_manager_def)
  have low: "looks je p \<Longrightarrow> ?ok (snd (exec (lower p) w))" for p :: "((jsonstore, 'x) mworld, reply) prog"
    using assms(3) by (simp add: looks_def)
  have h: "?ok (snd (exec (h req) w))" if "(p, h) \<in> set ?mux" for p h
    using that assms(1) refl looks_handlers [OF assms(1,2), THEN low] unfolding server_mux_def registerHandlers_def
    by (auto simp: workflows_handler_def test_workflow_handler_def mcp_handler_def ServeHTTP_def writes_def Let_def split: prod.splits option.splits)
  show ?thesis
  proof (cases "longest (filter (\<lambda>ph. pattern_matches (hr_Path req) (fst ph)) ?mux)")
    case None
    with refl assms(4) show ?thesis by (simp add: serve_mux_def)
  next
    case (Some ph)
    then have "ph \<in> set ?mux" using longest_in by fastforce
    with Some h refl assms(4) show ?thesis by (cases ph) (auto simp: serve_mux_def)
  qed
qed

theorem reading_is_safe_witness:
  "same_manager ex_je (ex_world fresh_js)
     (ew_ext (snd (exec (serve_mux (ex_mux (js_mgr ([], [], None))) \<lparr>hr_Method = ''GET'', hr_Path = ''/api/sessions'', hr_Body = []\<rparr>) (over (ex_world fresh_js)))))"
  using reading_is_safe [where w = "over (ex_world fresh_js)" and je = ex_je and req = "\<lparr>hr_Method = ''GET'', hr_Path = ''/api/sessions'', hr_Body = []\<rparr>",
      OF _ ex_start(1) _ refl] ex_start(2)
  by (simp add: over_def writes_def)

section \<open>Creating a session\<close>

lemma time_ok_clock: "clock_ok mg \<Longrightarrow> time_ok (mg_clock mg n)"
  by (simp add: clock_ok_def)

text \<open>
  (C14) A \<^verbatim>\<open>POST\<close> of a readable body creates one session and starts its boot goroutine with the token
  of the body, and answers 202 with the session, which is still provisioning; when all slots are
  taken it answers 503 and nothing has changed. A body that cannot be read is answered with 400 and
  changes nothing.
\<close>

theorem create_request:
  assumes "hr_Method req = ''POST''" and "hr_Path req = ''/api/sessions''" and "clock_ok mg"
    and "exec (serve_mux (server_mux pg env en mg) req) w = (reply, w')"
  shows "case decode_create (hr_Body req) of
      None \<Rightarrow> reply = http_Error ''bad request'' 400 \<and> w' = w
    | Some b \<Rightarrow>
        (case fst (allocSlot (mg_maxSlots mg) (mw_used (ew_ext w))) of
           None \<Rightarrow> reply = http_Error (error_text (no_slots mg)) 503 \<and> w' = w
         | Some slot \<Rightarrow> \<exists>s. mw_heap (ew_ext w') = mw_heap (ew_ext w) @ [s] \<and> gm_get (mw_sessions (ew_ext w')) (ss_ID s) = Some (length (mw_heap (ew_ext w))) \<and>
             gm_get (mw_used (ew_ext w')) slot = Some True \<and> mw_tasks (ew_ext w') = mw_tasks (ew_ext w) @ [Boot (length (mw_heap (ew_ext w))) (cb_GithubToken b)] \<and>
             reply = writeJSON 202 (Inr (session_json s)) \<and> sess_state s = StateProvisioning \<and> ss_Slot s = slot \<and>
             ss_RepoURL s = normalizeRepoURL (cb_RepoURL b) \<and> ss_Branch s = cb_Branch b \<and> ss_Prompt s = cb_Prompt b \<and>
             ss_Role s = (if cb_Role b = [] then ''interactive'' else cb_Role b))"
proof (cases "decode_create (hr_Body req)")
  case None
  with assms(1,4) show ?thesis by (simp add: serve_sessions [OF assms(2)] sessions_handler_def)
next
  case (Some b)
  let ?m = "ew_ext w"
  note ex = assms(4) [unfolded serve_sessions [OF assms(2)] sessions_handler_def] assms(1) Some
  obtain r used where al: "allocSlot (mg_maxSlots mg) (mw_used ?m) = (r, used)" by fastforce
  show ?thesis
  proof (cases r)
    case None
    with al allocSlot_None(1) [of "mg_maxSlots mg" "mw_used ?m" used] have "allocSlot (mg_maxSlots mg) (mw_used ?m) = (None, mw_used ?m)" by simp
    with ex show ?thesis by (auto simp: manager_Create_def create_locked_def)
  next
    case (Some slot)
    obtain i x where i: "mg_uuid mg (mw_ext ?m) = (i, x)" by fastforce
    have u: "gm_get used slot = Some True" using allocSlot_Some(5) al Some by fastforce
    show ?thesis
      using ex al Some i u time_ok_clock [OF assms(3)]
      by (simp add: manager_Create_def create_locked_def Let_def go_task_def encode_session_def get_sess_def)
        (auto simp: new_session_def newSM_def OnTransition_def sm_New_def)
  qed
qed

theorem create_request_witness:
  "\<exists>w' s. exec (serve_mux (ex_mux (js_mgr ([], [], None))) \<lparr>hr_Method = ''POST'', hr_Path = ''/api/sessions'', hr_Body = ''{}''\<rparr>) (over (ex_world fresh_js)) =
     (writeJSON 202 (Inr (session_json s)), w') \<and> ss_Role s = ''interactive'' \<and> ss_Slot s = 0"
proof -
  let ?req = "\<lparr>hr_Method = ''POST'', hr_Path = ''/api/sessions'', hr_Body = ''{}''\<rparr>"
  have d: "decode_create ''{}'' = Some \<lparr>cb_RepoURL = [], cb_Branch = [], cb_GithubToken = [], cb_DevMode = False, cb_Role = [], cb_Prompt = []\<rparr>" by code_simp
  have c: "clock_ok (js_mgr ([], [], None))" using ex_requested [of "([], [], None)"] by (simp add: requested_def)
  have a: "allocSlot (mg_maxSlots (js_mgr ([], [], None))) (mw_used (ew_ext (over (ex_world fresh_js)))) = (Some 0, [(0, True)])"
    by (simp add: ex_mgr_def over_def ex_world_def allocSlot_def alloc_from.simps [of 2 "[]" 0])
  obtain reply w' where e: "exec (serve_mux (ex_mux (js_mgr ([], [], None))) ?req) (over (ex_world fresh_js)) = (reply, w')" by fastforce
  from create_request [OF _ _ c e] d a e show ?thesis by auto
qed

section \<open>The result of a session\<close>

lemma trim_append [simp]: "TrimPrefix (p @ s) p = s" "TrimSuffix (s @ p) p = s" "HasSuffix (s @ p) p"
  by (simp_all add: TrimPrefix_def TrimSuffix_def HasSuffix_def HasPrefix_def)

definition result_request :: "string \<Rightarrow> request" where
  "result_request i = \<lparr>hr_Method = ''GET'', hr_Path = ''/api/sessions/'' @ i @ ''/result'', hr_Body = []\<rparr>"

lemma serve_result: "serve_mux (server_mux pg env en mg) (result_request i) = lower (result_handler i)"
proof -
  have p: "hr_Path (result_request i) = ''/api/sessions/'' @ i @ ''/result''" by (simp add: result_request_def)
  have t: "TrimPrefix (''/api/sessions/'' @ i @ ''/result'') ''/api/sessions/'' = i @ ''/result''" by (rule trim_append)
  show ?thesis
    unfolding serve_session [OF p] session_handler_def p t Let_def by (simp add: result_request_def)
qed

text \<open>
  (C36) The answer of a session can never be fetched over HTTP once the session is done: its boot
  goroutine drops it from the map, so the endpoint for results answers 404, although the answer is
  in the stored row.
\<close>

theorem finished_result_gone:
  assumes "mg_store mg = Some (js_ops je)" and "requested mg role prompt repoURL branch w" and "js_inv je (mw_store w)"
    and "exec (CreateSession mg role prompt repoURL branch) w = (Inr i, w1)" and "boots mg (mw_heap w1 ! length (mw_heap w))"
    and "\<And>addr x. fst (mg_RunCapture mg addr (claude_cmd prompt) x) = (stdout, stderr, err)"
    and "\<not> IsUsageLimitError stderr" and "parseClaudeJSON stdout = (result, False)" and "result \<noteq> [] \<or> err = None" and "utf8_valid result"
    and "ew_ext e = snd (exec (boot mg (length (mw_heap w)) []) w1)"
  shows "fst (exec (serve_mux (server_mux pg env en mg) (result_request i)) e) = http_Error ''session not found'' 404 \<and>
    (\<exists>r. js_rows (mw_store (ew_ext e)) i = Some r \<and> row_Status r = ''stopped'' \<and> row_Result r = result)"
proof -
  let ?f = "\<lambda>S. set_state StateStopped (S\<lparr>ss_Result := result\<rparr>)"
  have ck: "clock_ok mg" using assms(2) by (simp add: requested_def)
  obtain S p M U D where e: "ss_Slot S = ss_Slot (mw_heap w1 ! length (mw_heap w))"
    "seen (js_inv je) js_rows (length (mw_heap w)) (?f (ready p S)) (M(i := None)) (U(ss_Slot S := None)) (D(i \<mapsto> session_row (?f (ready p S)) 0)) (ew_ext e)"
    using js.boot_ends [OF assms(1-5), of ?f] js.hoare_run_done [OF assms(1) ck _ assms(10) _ assms(7-9)] assms(6,11) by metis
  then have "bare_rows (js_rows (mw_store (ew_ext e))) i = Some (session_row (?f (ready p S)) 0)" by (simp add: seen_def)
  then obtain r where "js_rows (mw_store (ew_ext e)) i = Some r" "row_Status r = ''stopped''" "row_Result r = result" by (rule bare_row) simp
  moreover have "gm_get (mw_sessions (ew_ext e)) i = None" using e by (simp add: seen_def)
  ultimately show ?thesis by (simp add: serve_result result_handler_def manager_Get_def)
qed

theorem finished_result_gone_witness:
  "fst (exec (serve_mux (ex_mux (js_mgr (''42'', [], None))) (result_request ''session-0''))
     (over (snd (exec (boot (js_mgr (''42'', [], None)) 0 []) (snd (ex_created (''42'', [], None))))))) = http_Error ''session not found'' 404"
proof -
  let ?c = "(''42'', [], None) :: string \<times> string \<times> goerror option"
  have "\<not> IsUsageLimitError []" "parseClaudeJSON ''42'' = (''42'', False)" "utf8_valid ''42''" by code_simp+
  moreover note s = ex_start(1,4-6) [where claude = ?c]
  ultimately show ?thesis
    using finished_result_gone [OF s(1) ex_requested ex_start(2) s(2) _ s(3), where result = "''42''"
      and e = "over (snd (exec (boot (js_mgr ?c) 0 []) (snd (ex_created ?c))))"] ex_boots [of ?c]
    by (simp add: ex_start(3) over_def)
qed

text \<open>
  After a restart of the server the endpoint answers for a session that was done, but with an
  empty result, whatever the stored row says: the row's result is not loaded.
\<close>

theorem loaded_result_empty:
  assumes "mg_store mg = Some ops" and "so_List ops (mw_store w) = (Inr rs, st)" and "\<And>k x. fst (mg_IsSocketAlive mg k x) = alive k"
    and "distinct (map row_ID rs)" and "\<forall>r\<in>set rs. 8 \<le> length (row_ID r)" and "ew_ext e = snd (exec (loadFromDB mg) w)"
    and "r \<in> set rs" and "row_Status r = ''stopped''"
  shows "fst (exec (serve_mux (server_mux pg env en mg) (result_request (row_ID r))) e) = writeJSON 200 (Inr (JObj [(''result'', JStr [])]))"
proof -
  let ?w = "w\<lparr>mw_store := st\<rparr>"
  obtain l v where l: "exec (load_rows mg ops rs []) ?w = (l, v)" by fastforce
  from exec_load_rows [OF assms(3-5) _ l] have v: "l = Some (rev (map row_Slot (filter (live_row alive) rs)))" "loaded_rows alive rs ?w v" by auto
  then have "mw_heap (ew_ext e) = mw_heap v" "mw_sessions (ew_ext e) = mw_sessions v"
    using assms(1,2,6) l by (simp_all add: loadFromDB_def exec_ext_step)
  with v(2) assms(7) obtain a where a: "gm_get (mw_sessions (ew_ext e)) (row_ID r) = Some a" "loaded_as alive r (mw_heap (ew_ext e) ! a)"
    by (auto simp: loaded_rows_def)
  have "state_of ''stopped'' = StateStopped" by (simp add: state_of_def known_states_def)
  with a assms(8) show ?thesis
    by (simp add: serve_result result_handler_def manager_Get_def get_sess_def loaded_as_def state_after_def in_progress_def string_map_json_def)
qed

definition done_row :: row where
  "done_row = zero_row\<lparr>row_ID := ''session-0'', row_Status := ''stopped'', row_Result := ''42''\<rparr>"

definition done_store :: jsonstore where
  "done_store = \<lparr>js_data = \<lparr>sd_Sessions = [(''session-0'', done_row)], sd_Favorites = []\<rparr>, js_fs = ex_fs\<rparr>"

theorem loaded_result_empty_witness:
  "fst (exec (serve_mux (ex_mux (js_mgr ([], [], None))) (result_request ''session-0'')) (over (snd (exec (loadFromDB (js_mgr ([], [], None))) (ex_world done_store))))) =
     writeJSON 200 (Inr (JObj [(''result'', JStr [])])) \<and> row_Result done_row = ''42''"
proof -
  have l: "so_List (js_ops ex_je) (mw_store (ex_world done_store)) = (Inr [done_row], done_store\<lparr>js_fs := fs_tick ex_fs\<rparr>)"
    by (simp add: js_ops_def js_List_def js_reload_def ReadFile_def ex_world_def done_store_def ex_fs_def ex_je_def fs_tick_def Let_def done_row_def zero_row_def)
  have al: "fst (mg_IsSocketAlive (js_mgr ([], [], None)) k x) = False" for k x by (simp add: ex_mgr_def)
  show ?thesis
    using loaded_result_empty [OF ex_start(1) l al, where e = "over (snd (exec (loadFromDB (js_mgr ([], [], None))) (ex_world done_store)))" and r = done_row]
    by (simp add: over_def done_row_def)
qed

section \<open>Favorites\<close>

lemma encode_favorites_ok: "\<forall>f\<in>set fs. time_ok (fav_CreatedAt f) \<Longrightarrow> encode_favorites fs = Inr (map favorite_json fs)"
  by (induction fs) (simp_all add: encode_favorite_def)

lemma body_favorite: "json_parse (json_print (favorite_json f) @ nl) = Some (json_fix (favorite_json f))"
  by (rule read_line) (rule writable_mono [OF writable_favorite], simp add: nesting)

lemma body_favorites: "json_parse (json_print (JArr (map favorite_json fs)) @ nl) = Some (JArr (map (json_fix \<circ> favorite_json) fs))"
  by (subst read_line) (use deep [OF _ writable_favorite] in \<open>auto simp: writable_Arr nesting\<close>)

lemma js_favs_ok: "js_inv je st \<Longrightarrow> js_favs st i = Some f \<Longrightarrow> favorite_ok f"
  using map_of_SomeD [of "sd_Favorites (js_data st)" i f] by (auto simp: js_inv_def data_ok_def map_ok_def js_favs_def)

definition body_of :: "reply \<Rightarrow> json option" where
  "body_of r = (case r of Reply code ty body \<Rightarrow> json_parse body | _ \<Rightarrow> None)"

text \<open>
  (C26) A favorite that was posted is in the list that the next \<^verbatim>\<open>GET\<close> answers, as the very value the
  \<^verbatim>\<open>POST\<close> was answered with, and every favorite listed before is still there.
\<close>

theorem favorite_listed:
  fixes w :: "(jsonstore, 'x) mworld eworld"
  assumes "mg_store mg = Some (js_ops je)" and "js_inv je (mw_store (ew_ext w))" and "clock_ok mg"
    and "decode_favorite body = Some (name, url, branch)" and "list_all utf8_valid [name, url, branch, fst (mg_uuid mg (mw_ext (ew_ext w)))]"
    and "js_favs (mw_store (ew_ext w)) (fst (mg_uuid mg (mw_ext (ew_ext w)))) = None"
    and "exec (serve_mux (server_mux pg env en mg) \<lparr>hr_Method = ''POST'', hr_Path = ''/api/favorites'', hr_Body = body\<rparr>) w = (posted, w1)"
    and "listing = (\<lambda>v. fst (exec (serve_mux (server_mux pg env en mg) \<lparr>hr_Method = ''GET'', hr_Path = ''/api/favorites'', hr_Body = []\<rparr>) v))"
  shows "\<exists>f old new. body_of posted = Some f \<and> body_of (listing w) = Some (JArr old) \<and> body_of (listing w1) = Some (JArr new) \<and>
    set new = insert f (set old)"
proof -
  let ?st = "mw_store (ew_ext w)"
  obtain i x where i: "mg_uuid mg (mw_ext (ew_ext w)) = (i, x)" by fastforce
  define fav where "fav = \<lparr>fav_ID = i, fav_Name = name, fav_RepoURL = url, fav_Branch = branch, fav_CreatedAt = mg_clock mg (mw_ticks (ew_ext w))\<rparr>"
  have ok: "favorite_ok fav" using assms(3,5) i by (simp add: fav_def favorite_ok_def clock_ok_def)
  obtain e st where up: "so_UpsertFavorite (js_ops je) fav ?st = (e, st)" by fastforce
  from js.UpsertFavorite [OF assms(2) ok up] have st: "e = None" "js_inv je st" "js_favs st = (js_favs ?st)(i \<mapsto> fav)" by (simp_all add: fav_def)
  have post: "posted = writeJSON 201 (Inr (favorite_json fav))" "mw_store (ew_ext w1) = st"
    using assms(1,4,7) i up st(1) ok
    by (auto simp: serve_favorites favorites_handler_def add_favorite_def new_favorite_def exec_ext_step encode_favorite_def favorite_ok_def simp flip: fav_def)
  have list: "\<exists>fs. body_of (listing v) = Some (JArr (map (json_fix \<circ> favorite_json) fs)) \<and> (\<forall>f. f \<in> set fs \<longleftrightarrow> js_favs (mw_store (ew_ext v)) (fav_ID f) = Some f)"
    if v: "js_inv je (mw_store (ew_ext v))" for v
  proof -
    obtain r t where r: "so_ListFavorites (js_ops je) (mw_store (ew_ext v)) = (r, t)" by fastforce
    from js.ListFavorites [OF v r] obtain fs where fs: "r = Inr fs" "\<forall>f. f \<in> set fs \<longleftrightarrow> js_favs (mw_store (ew_ext v)) (fav_ID f) = Some f"
      by (auto simp: enumerates_def)
    then have "\<forall>f\<in>set fs. time_ok (fav_CreatedAt f)" using js_favs_ok [OF v] by (auto simp: favorite_ok_def)
    from encode_favorites_ok [OF this] r fs assms(1) body_favorites [of fs] show ?thesis
      by (auto simp: assms(8) serve_favorites favorites_handler_def body_of_def writeJSON_def)
  qed
  from list [OF assms(2)] obtain old where old: "body_of (listing w) = Some (JArr (map (json_fix \<circ> favorite_json) old))" "\<forall>f. f \<in> set old \<longleftrightarrow> js_favs ?st (fav_ID f) = Some f"
    by blast
  from list [of w1] st post(2) obtain new where new: "body_of (listing w1) = Some (JArr (map (json_fix \<circ> favorite_json) new))" "\<forall>f. f \<in> set new \<longleftrightarrow> js_favs st (fav_ID f) = Some f"
    by auto
  have "set new = insert fav (set old)" using new(2) old(2) st(3) assms(6) i by (auto simp: fav_def split: if_splits)
  moreover have "body_of posted = Some (json_fix (favorite_json fav))" by (simp add: post(1) writeJSON_def body_of_def body_favorite)
  ultimately show ?thesis using old(1) new(1) by auto
qed

theorem favorite_listed_witness:
  "\<exists>posted w1 f. exec (serve_mux (ex_mux (js_mgr ([], [], None))) \<lparr>hr_Method = ''POST'', hr_Path = ''/api/favorites'', hr_Body = ''{}''\<rparr>) (over (ex_world fresh_js)) = (posted, w1) \<and>
     body_of posted = Some f"
proof -
  have d: "decode_favorite ''{}'' = Some ([], [], [])" by code_simp
  have c: "clock_ok (js_mgr ([], [], None))" using ex_requested [of "([], [], None)"] by (simp add: requested_def)
  have u: "list_all utf8_valid [[], [], [], fst (mg_uuid (js_mgr ([], [], None)) (mw_ext (ew_ext (over (ex_world fresh_js)))))]"
    using ex_texts by (simp add: ex_mgr_def over_def ex_world_def)
  have n: "js_favs (mw_store (ew_ext (over (ex_world fresh_js)))) (fst (mg_uuid (js_mgr ([], [], None)) (mw_ext (ew_ext (over (ex_world fresh_js)))))) = None"
    by (simp add: over_def ex_world_def fresh_js_def js_favs_def empty_data_def)
  have inv: "js_inv ex_je (mw_store (ew_ext (over (ex_world fresh_js))))" using ex_start(2) by (simp add: over_def)
  obtain posted w1 where e: "exec (serve_mux (ex_mux (js_mgr ([], [], None))) \<lparr>hr_Method = ''POST'', hr_Path = ''/api/favorites'', hr_Body = ''{}''\<rparr>) (over (ex_world fresh_js)) = (posted, w1)"
    by fastforce
  from favorite_listed [OF ex_start(1) inv c d u n e refl] e show ?thesis by auto
qed

end
