(* ===== verification/Terminal.thy ===== *)
theory Terminal
  imports Http
begin

text \<open>
  \<^verbatim>\<open>internal/terminal/bridge.go\<close> and \<^verbatim>\<open>cmd/terminal/main.go\<close>: commands run over SSH, the relay between
  a browser and a shell in a machine, the command that starts the shell, the hub of open
  connections and the request that opens one. The SSH and websocket libraries are a parameter,
  \<open>term_env\<close>. The relay is two goroutines: one reads the browser and writes the shell, the other reads
  the shell and writes the browser; \<open>relay_step\<close> interleaves them with each other and with the rest
  of the world. A read blocks until there is something to read, so a step of the model is a read that has
  returned.
\<close>

section \<open>Quoting as Go does\<close>

text \<open>
  \<^verbatim>\<open>strconv.Quote\<close>, the verb \<^verbatim>\<open>%q\<close>. Which characters beyond ASCII print is a table of the
  \<^verbatim>\<open>unicode\<close> package: \<open>wide\<close> gives what is written for the bytes of one.
\<close>

definition hex_esc :: "char \<Rightarrow> string" where
  "hex_esc c = bslash @ ''x'' @ [hex_digit (byte c div 16), hex_digit (byte c mod 16)]"

definition quote_ascii :: "char \<Rightarrow> string" where
  "quote_ascii c =
     (if c = CHR 0x22 \<or> c = CHR 0x5C then bslash @ [c]
      else if 32 \<le> byte c \<and> byte c < 127 then [c]
      else if byte c = 7 then bslash @ ''a''
      else if byte c = 8 then bslash @ ''b''
      else if byte c = 9 then bslash @ ''t''
      else if byte c = 10 then bslash @ ''n''
      else if byte c = 11 then bslash @ ''v''
      else if byte c = 12 then bslash @ ''f''
      else if byte c = 13 then bslash @ ''r''
      else hex_esc c)"

function quote_body :: "(string \<Rightarrow> string) \<Rightarrow> string \<Rightarrow> string" where
  "quote_body wide [] = []"
| "quote_body wide (c # s) =
     (if byte c < 128 then quote_ascii c @ quote_body wide s
      else case utf8_width (c # s) of
          0 \<Rightarrow> hex_esc c @ quote_body wide s
        | Suc w \<Rightarrow> wide (take (Suc w) (c # s)) @ quote_body wide (drop w s))"
  by pat_completeness auto
termination
  by (relation "measure (length \<circ> snd)") auto

definition strconv_Quote :: "(string \<Rightarrow> string) \<Rightarrow> string \<Rightarrow> string" where
  "strconv_Quote wide s = dquote @ quote_body wide s @ dquote"

section \<open>The libraries\<close>

datatype frame_kind = TextMessage | BinaryMessage | CloseMessage

record 'x term_env =
  te_wide :: "string \<Rightarrow> string" \<comment> \<open>the table behind \<^verbatim>\<open>%q\<close>\<close>
  te_dialSSH :: "string \<Rightarrow> string \<Rightarrow> 'x \<Rightarrow> goerror option \<times> 'x" \<comment> \<open>\<^verbatim>\<open>ssh.Dial\<close>, of an address and a user\<close>
  te_closeClient :: "'x \<Rightarrow> 'x"
  te_NewSession :: "'x \<Rightarrow> goerror option \<times> 'x"
  te_closeSession :: "'x \<Rightarrow> 'x"
  te_Run :: "string \<Rightarrow> 'x \<Rightarrow> ((string \<times> string) \<times> goerror option) \<times> 'x" \<comment> \<open>output, error output, error\<close>
  te_RequestPty :: "string \<Rightarrow> nat \<Rightarrow> nat \<Rightarrow> 'x \<Rightarrow> goerror option \<times> 'x"
  te_StdinPipe :: "'x \<Rightarrow> goerror option \<times> 'x"
  te_StdoutPipe :: "'x \<Rightarrow> goerror option \<times> 'x"
  te_Start :: "string \<Rightarrow> 'x \<Rightarrow> goerror option \<times> 'x"
  te_stdoutRead :: "'x \<Rightarrow> (string \<times> goerror option) \<times> 'x" \<comment> \<open>the bytes read, at most 4096\<close>
  te_stdinWrite :: "string \<Rightarrow> 'x \<Rightarrow> goerror option \<times> 'x"
  te_WindowChange :: "nat \<Rightarrow> nat \<Rightarrow> 'x \<Rightarrow> 'x" \<comment> \<open>rows and columns\<close>
  te_ReadMessage :: "'x \<Rightarrow> string result \<times> 'x"
  te_WriteMessage :: "frame_kind \<Rightarrow> string \<Rightarrow> 'x \<Rightarrow> goerror option \<times> 'x"
  te_closeWS :: "'x \<Rightarrow> 'x"

record bridge =
  br_host :: string
  br_user :: string

definition NewBridge :: "string \<Rightarrow> string \<Rightarrow> bridge" where
  "NewBridge host user = \<lparr>br_host = host, br_user = user\<rparr>"

definition dialSSH :: "'x term_env \<Rightarrow> bridge \<Rightarrow> 'x \<Rightarrow> goerror option \<times> 'x" where
  "dialSSH te b x = te_dialSSH te (br_host b) (br_user b) x"

section \<open>Running commands\<close>

text \<open>The loop of \<^verbatim>\<open>RunSetupCapture\<close>; \<open>out\<close> is what \<^verbatim>\<open>w\<close> was given so far.\<close>

fun run_commands :: "'x term_env \<Rightarrow> string list \<Rightarrow> string \<Rightarrow> 'x \<Rightarrow> (goerror option \<times> string) \<times> 'x" where
  "run_commands te [] out x = ((None, out), x)"
| "run_commands te (cmd # cmds) out x =
     (case te_NewSession te x of
        (Some e, x1) \<Rightarrow> ((Some (errorf_w (''new session for '' @ strconv_Quote (te_wide te) cmd @ '': '') e []), out), x1)
      | (None, x1) \<Rightarrow>
          (case te_Run te cmd x1 of
             (((stdout, stderr), err), x2) \<Rightarrow>
               (case err of
                  Some e \<Rightarrow>
                    ((Some (errorf_w (''run '' @ strconv_Quote (te_wide te) cmd @ '': '') e []), out @ stdout @ stderr), te_closeSession te x2)
                | None \<Rightarrow> run_commands te cmds (out @ stdout @ stderr) (te_closeSession te x2))))"

definition RunSetupCapture :: "'x term_env \<Rightarrow> bridge \<Rightarrow> string list \<Rightarrow> 'x \<Rightarrow> (goerror option \<times> string) \<times> 'x" where
  "RunSetupCapture te b commands x =
     (case dialSSH te b x of
        (Some e, x1) \<Rightarrow> ((Some (errorf_w ''ssh dial: '' e []), []), x1)
      | (None, x1) \<Rightarrow> (case run_commands te commands [] x1 of (r, x2) \<Rightarrow> (r, te_closeClient te x2)))"

definition RunSetup :: "'x term_env \<Rightarrow> bridge \<Rightarrow> string list \<Rightarrow> 'x \<Rightarrow> goerror option \<times> 'x" where
  "RunSetup te b commands x = (case RunSetupCapture te b commands x of ((err, _), x1) \<Rightarrow> (err, x1))"

definition RunCapture :: "'x term_env \<Rightarrow> bridge \<Rightarrow> string \<Rightarrow> 'x \<Rightarrow> ((string \<times> string) \<times> goerror option) \<times> 'x" where
  "RunCapture te b cmd x =
     (case dialSSH te b x of
        (Some e, x1) \<Rightarrow> ((([], []), Some (errorf_w ''ssh dial: '' e [])), x1)
      | (None, x1) \<Rightarrow>
          (case te_NewSession te x1 of
             (Some e, x2) \<Rightarrow> ((([], []), Some (errorf_w ''new session: '' e [])), te_closeClient te x2)
           | (None, x2) \<Rightarrow>
               (case te_Run te cmd x2 of (r, x3) \<Rightarrow> (r, te_closeClient te (te_closeSession te x3)))))"

section \<open>The relay\<close>

text \<open>A \<^verbatim>\<open>uint32\<close> field of a message takes whole numbers below two to the 32.\<close>

fun dec_uint32 :: "nat \<Rightarrow> json list \<Rightarrow> nat option" where
  "dec_uint32 cur [] = Some cur"
| "dec_uint32 cur (JNum n # vs) =
     (if list_all is_digit n \<and> digits_val n < 2 ^ 32 then dec_uint32 (digits_val n) vs else None)"
| "dec_uint32 cur (JNull # vs) = dec_uint32 cur vs"
| "dec_uint32 cur (_ # vs) = None"

record resizeMsg =
  rz_Type :: string
  rz_Cols :: nat
  rz_Rows :: nat

fun unmarshal_resize :: "string \<Rightarrow> resizeMsg option" where
  "unmarshal_resize msg =
     (case json_parse msg of
        Some (JObj ms) \<Rightarrow>
          Option.bind (dec_string [] (field_values ''type'' ms)) (\<lambda>t.
          Option.bind (dec_uint32 0 (field_values ''cols'' ms)) (\<lambda>cols.
          Option.bind (dec_uint32 0 (field_values ''rows'' ms)) (\<lambda>rows.
          Some \<lparr>rz_Type = t, rz_Cols = cols, rz_Rows = rows\<rparr>)))
      | Some JNull \<Rightarrow> Some \<lparr>rz_Type = [], rz_Cols = 0, rz_Rows = 0\<rparr>
      | _ \<Rightarrow> None)"

text \<open>The rows and columns a message asks for, when it is a resize.\<close>

definition resize_of :: "string \<Rightarrow> (nat \<times> nat) option" where
  "resize_of msg =
     (case unmarshal_resize msg of
        Some r \<Rightarrow> if rz_Type r = ''resize'' then Some (rz_Rows r, rz_Cols r) else None
      | None \<Rightarrow> None)"

text \<open>The loops, for a number of rounds; \<^const>\<open>Blocked\<close> is a loop that goes on.\<close>

fun input_loop :: "'x term_env \<Rightarrow> nat \<Rightarrow> ('x, unit progress) prog" where
  "input_loop te 0 = Done Blocked"
| "input_loop te (Suc n) =
     bind (act (te_ReadMessage te)) (\<lambda>r.
     case r of
       Inl e \<Rightarrow> Done (Ret ())
     | Inr msg \<Rightarrow>
         (case resize_of msg of
            Some (rows, cols) \<Rightarrow> bind (modify (te_WindowChange te rows cols)) (\<lambda>_. input_loop te n)
          | None \<Rightarrow>
              bind (act (te_stdinWrite te msg)) (\<lambda>err.
              case err of Some e \<Rightarrow> Done (Ret ()) | None \<Rightarrow> input_loop te n)))"

fun output_loop :: "'x term_env \<Rightarrow> nat \<Rightarrow> ('x, unit progress) prog" where
  "output_loop te 0 = Done Blocked"
| "output_loop te (Suc n) =
     bind (act (te_stdoutRead te)) (\<lambda>(buf, err).
     bind (if buf = [] then Done None else act (te_WriteMessage te BinaryMessage buf)) (\<lambda>werr.
     if werr \<noteq> None \<or> err \<noteq> None then Done (Ret ()) else output_loop te n))"

definition report :: "'x term_env \<Rightarrow> string \<Rightarrow> goerror \<Rightarrow> 'x \<Rightarrow> 'x" where
  "report te what e x =
     snd (te_WriteMessage te TextMessage ([CHR 0x0D] @ nl @ what @ '' failed: '' @ error_text e @ [CHR 0x0D] @ nl) x)"

text \<open>
  The part of \<^verbatim>\<open>relay\<close> before the goroutines: whether they are started, with the deferred close of
  the client when they are not.
\<close>

definition relay_start :: "'x term_env \<Rightarrow> bridge \<Rightarrow> string \<Rightarrow> 'x \<Rightarrow> bool \<times> 'x" where
  "relay_start te b startCmd x =
     (case dialSSH te b x of
        (Some e, x1) \<Rightarrow> (False, report te ''SSH dial'' e x1)
      | (None, x1) \<Rightarrow>
          (case te_NewSession te x1 of
             (Some e, x2) \<Rightarrow> (False, te_closeClient te (report te ''SSH session'' e x2))
           | (None, x2) \<Rightarrow>
               (case te_RequestPty te ''xterm-256color'' 40 120 x2 of
                  (Some e, x3) \<Rightarrow> (False, te_closeClient te (report te ''PTY request'' e x3))
                | (None, x3) \<Rightarrow>
                    (case te_StdinPipe te x3 of
                       (Some e, x4) \<Rightarrow> (False, te_closeClient te x4)
                     | (None, x4) \<Rightarrow>
                         (case te_StdoutPipe te x4 of
                            (Some e, x5) \<Rightarrow> (False, te_closeClient te x5)
                          | (None, x5) \<Rightarrow>
                              (case te_Start te startCmd x5 of
                                 (Some e, x6) \<Rightarrow> (False, te_closeClient te (report te ''Shell'' e x6))
                               | (None, x6) \<Rightarrow> (True, x6)))))))"

text \<open>
  \<^verbatim>\<open>Relay\<close>: the goroutine that serves the connection, and the one that it starts. \<open>Joining\<close> is the wait
  \<^verbatim>\<open><-done\<close>; on the way out the client and the websocket are closed.
\<close>

datatype 'x relay =
    Starting
  | Relaying "('x, unit progress) prog" "('x, unit progress) prog"
  | Joining "('x, unit progress) prog"
  | Returned

inductive relay_step :: "'x term_env \<Rightarrow> ('x \<Rightarrow> 'x \<Rightarrow> bool) \<Rightarrow> bridge \<Rightarrow> string \<Rightarrow> 'x relay \<times> 'x \<Rightarrow> 'x relay \<times> 'x \<Rightarrow> bool"
  for te E b startCmd where
  relay_fails: "relay_start te b startCmd x = (False, x1) \<Longrightarrow>
     relay_step te E b startCmd (Starting, x) (Returned, te_closeWS te x1)"
| relay_starts: "relay_start te b startCmd x = (True, x1) \<Longrightarrow>
     relay_step te E b startCmd (Starting, x) (Relaying (input_loop te n) (output_loop te m), x1)"
| relay_input: "f x = (p, x1) \<Longrightarrow> relay_step te E b startCmd (Relaying (Step f) out, x) (Relaying p out, x1)"
| relay_output: "f x = (p, x1) \<Longrightarrow> relay_step te E b startCmd (Relaying inp (Step f), x) (Relaying inp p, x1)"
| relay_leaves: "relay_step te E b startCmd (Relaying (Done (Ret ())) out, x) (Joining out, te_closeSession te x)"
| relay_drains: "f x = (p, x1) \<Longrightarrow> relay_step te E b startCmd (Joining (Step f), x) (Joining p, x1)"
| relay_joins: "relay_step te E b startCmd (Joining (Done (Ret ())), x) (Returned, te_closeWS te (te_closeClient te x))"
| relay_env: "E x x1 \<Longrightarrow> relay_step te E b startCmd (r, x) (r, x1)"

inductive relay_reach :: "'x term_env \<Rightarrow> ('x \<Rightarrow> 'x \<Rightarrow> bool) \<Rightarrow> bridge \<Rightarrow> string \<Rightarrow> 'x \<Rightarrow> 'x relay \<times> 'x \<Rightarrow> bool"
  for te E b startCmd x0 where
  reach_start: "relay_reach te E b startCmd x0 (Starting, x0)"
| reach_step: "relay_reach te E b startCmd x0 c \<Longrightarrow> relay_step te E b startCmd c d \<Longrightarrow> relay_reach te E b startCmd x0 d"

section \<open>The terminal server\<close>

definition sessionStartCmd :: "(string \<Rightarrow> string) \<Rightarrow> string \<Rightarrow> string" where
  "sessionStartCmd wide repoURL =
     (let inner = ''claude --dangerously-skip-permissions; exec bash -l'';
          name = RepoName repoURL;
          inner = (if repoURL \<noteq> [] \<and> name \<noteq> [] then ''cd ~/workspace/'' @ name @ '' 2>/dev/null || cd ~; '' @ inner else inner)
      in ''bash -l -c '' @ squote @ ''tmux new-session -A -s rubbish bash -l -c '' @ strconv_Quote wide inner @ squote)"

text \<open>A request to \<^verbatim>\<open>/ws/\<close>: refused, or upgraded and relayed to a machine with a start command.\<close>

datatype ws_answer = Refused reply | Attach bridge string

definition ws_handler :: "(string \<Rightarrow> string) \<Rightarrow> 'st store_ops \<Rightarrow> string \<Rightarrow> 'st \<Rightarrow> ws_answer \<times> 'st" where
  "ws_handler wide ops path st =
     (case so_Get ops (TrimPrefix path ''/ws/'') st of
        (Inl e, st1) \<Rightarrow> (Refused (http_Error ''db error'' 500), st1)
      | (Inr None, st1) \<Rightarrow> (Refused (http_Error ''session not found'' 404), st1)
      | (Inr (Some row), st1) \<Rightarrow>
          if row_Status row \<noteq> ''ready'' then
            (Refused (http_Error (''session not ready (status: '' @ row_Status row @ '')'') 503), st1)
          else (Attach (NewBridge (SlotIP (row_Slot row) @ '':'' @ Itoa 22) ''claude'') (sessionStartCmd wide (row_RepoURL row)), st1))"

subsection \<open>The hub of open connections\<close>

text \<open>
  A write to a connection begins and ends; \<^verbatim>\<open>gorilla/websocket\<close> allows one at a time, so the state
  counts the writes under way on each connection.
\<close>

record conns =
  cn_hub :: "nat set" \<comment> \<open>\<^verbatim>\<open>h.conns\<close>, guarded by \<^verbatim>\<open>h.mu\<close>\<close>
  cn_writing :: "nat \<Rightarrow> nat"
  cn_sent :: "(nat \<times> frame_kind \<times> string) list"

definition hub_add :: "nat \<Rightarrow> conns \<Rightarrow> conns" where
  "hub_add c s = s\<lparr>cn_hub := insert c (cn_hub s)\<rparr>"

definition hub_remove :: "nat \<Rightarrow> conns \<Rightarrow> conns" where
  "hub_remove c s = s\<lparr>cn_hub := cn_hub s - {c}\<rparr>"

definition ws_write :: "nat \<Rightarrow> frame_kind \<Rightarrow> string \<Rightarrow> (conns, unit) prog" where
  "ws_write c k msg =
     bind (modify (\<lambda>s. s\<lparr>cn_writing := (cn_writing s)(c := Suc (cn_writing s c))\<rparr>)) (\<lambda>_.
     modify (\<lambda>s. s\<lparr>cn_writing := (cn_writing s)(c := cn_writing s c - 1), cn_sent := cn_sent s @ [(c, k, msg)]\<rparr>))"

definition reconnect_msg :: string where
  "reconnect_msg = json_print (string_map_json [(''type'', ''reconnect'')])"

text \<open>\<^verbatim>\<open>websocket.FormatCloseMessage\<close>: the code in two bytes, then the text.\<close>

definition going_away :: string where
  "going_away = [char_of (1001 div 256 :: nat), char_of (1001 mod 256 :: nat)] @ ''restart''"

text \<open>\<^verbatim>\<open>notifyReconnect\<close> over the connections in the order the map gives them.\<close>

definition notifyReconnect :: "nat list \<Rightarrow> (conns, unit) prog" where
  "notifyReconnect cs = for_each cs (\<lambda>c.
     bind (ws_write c TextMessage reconnect_msg) (\<lambda>_. ws_write c CloseMessage going_away))"

end
