(* ===== verification/Terminal_Props.thy ===== *)
theory Terminal_Props
  imports Terminal
begin

text \<open>
  The relay carries every message and every chunk of output once and in order, under every interleaving,
  and returns only after the browser has gone; commands of a set-up run in order up to the first that
  fails; the start command is read by the two shells as intended when the repository's name is plain;
  the terminal server attaches to the machines of ready sessions only. \<open>speaks\<close> is the judgement behind
  the relay: a program that only adds entries of its own kind to the log and keeps an invariant of those.
\<close>

section \<open>A log with two voices\<close>

primrec speaks :: "('d \<Rightarrow> bool) \<Rightarrow> ('d list \<Rightarrow> bool) \<Rightarrow> ('a \<Rightarrow> 'd list \<Rightarrow> bool) \<Rightarrow> ('x \<times> 'd list, 'a) prog \<Rightarrow> 'd list \<Rightarrow> bool" where
  "speaks mine I Q (Done a) = (\<lambda>h. Q a h)"
| "speaks mine I Q (Step f) =
     (\<lambda>h. \<forall>x ds. filter mine ds = h \<longrightarrow>
        (\<exists>new. snd (snd (f (x, ds))) = ds @ new \<and> list_all mine new \<and> I (h @ new) \<and>
           fst (map_prod (speaks mine I Q) id (f (x, ds))) (h @ new)))"

lemma speaks_Step:
  "speaks mine I Q (Step f) h \<longleftrightarrow>
     (\<forall>x ds. filter mine ds = h \<longrightarrow>
        (\<exists>new. snd (snd (f (x, ds))) = ds @ new \<and> list_all mine new \<and> I (h @ new) \<and> speaks mine I Q (fst (f (x, ds))) (h @ new)))"
  by simp

lemma speaks_bind:
  "speaks mine I (\<lambda>a h. speaks mine I Q (k a) h) p h \<Longrightarrow> speaks mine I Q (bind p k) h"
proof (induction p arbitrary: h rule: prog_induct)
  case (Step f)
  show ?case
    unfolding bind.simps speaks_Step
  proof (intro allI impI)
    fix x ds
    assume "filter mine ds = h"
    with Step.prems obtain new where "snd (snd (f (x, ds))) = ds @ new" "list_all mine new" "I (h @ new)"
        "speaks mine I (\<lambda>a h. speaks mine I Q (k a) h) (fst (f (x, ds))) (h @ new)"
      unfolding speaks_Step by blast
    with Step.IH [of "(x, ds)" "h @ new"]
    show "\<exists>new. snd (snd (map_prod (\<lambda>p. bind p k) id (f (x, ds)))) = ds @ new \<and> list_all mine new \<and> I (h @ new) \<and>
        speaks mine I Q (fst (map_prod (\<lambda>p. bind p k) id (f (x, ds)))) (h @ new)"
      by auto
  qed
qed simp

lemma speaks_noting:
  assumes "\<And>r. mine (d r)" and "\<And>r. I (h @ [d r])" and "\<And>r. Q r (h @ [d r])"
  shows "speaks mine I Q (act (noting d f)) h"
  using assms by (simp add: act_def)

lemma speaks_modify:
  assumes "mine d" and "I (h @ [d])" and "Q () (h @ [d])"
  shows "speaks mine I Q (modify (\<lambda>(x, ds). (f x, ds @ [d]))) h"
  using assms by (simp add: modify_def act_def)

lemma speaks_step:
  assumes "speaks mine I Q (Step f) (filter mine ds)" and "f (x, ds) = (p, (y, es))"
  shows "speaks mine I Q p (filter mine es) \<and> I (filter mine es) \<and> (\<exists>new. es = ds @ new \<and> list_all mine new)"
proof -
  obtain new where new: "es = ds @ new" "list_all mine new" "I (filter mine ds @ new)"
      "speaks mine I Q p (filter mine ds @ new)"
    using assms(1) [unfolded speaks_Step, rule_format, OF refl, of x] by (auto simp: assms(2))
  then have "filter mine es = filter mine ds @ new" by (simp add: list_all_iff filter_id_conv)
  with new show ?thesis by auto
qed

lemma other_voice:
  assumes "list_all mine new" and "\<And>d. mine d \<Longrightarrow> \<not> other d"
  shows "filter other (ds @ new) = filter other ds"
  using assms by (auto simp: list_all_iff filter_empty_conv)

section \<open>The log of a terminal\<close>

datatype tevent =
    Got string \<comment> \<open>a message of the browser\<close>
  | Ended \<comment> \<open>the browser is gone\<close>
  | Typed string bool \<comment> \<open>bytes to the shell, and whether they could be written\<close>
  | Resized nat nat
  | Chunk string
  | Frame string bool
  | Notice
  | Ran string bool
  | ClientUp bool
  | ClientClosed
  | Started bool
  | SessionClosed
  | WsClosed

fun input_side :: "tevent \<Rightarrow> bool" where
  "input_side (Got m) = True"
| "input_side Ended = True"
| "input_side (Typed m b) = True"
| "input_side (Resized r c) = True"
| "input_side _ = False"

fun output_side :: "tevent \<Rightarrow> bool" where
  "output_side (Chunk s) = True"
| "output_side (Frame s b) = True"
| "output_side _ = False"

definition noted :: "'x term_env \<Rightarrow> ('x \<times> tevent list) term_env" where
  "noted te =
     \<lparr>te_wide = te_wide te,
      te_dialSSH = \<lambda>h u. noting (\<lambda>r. ClientUp (r = None)) (te_dialSSH te h u),
      te_closeClient = \<lambda>(x, ds). (te_closeClient te x, ds @ [ClientClosed]),
      te_NewSession = aside (te_NewSession te),
      te_closeSession = \<lambda>(x, ds). (te_closeSession te x, ds @ [SessionClosed]),
      te_Run = \<lambda>cmd. noting (\<lambda>(_, err). Ran cmd (err = None)) (te_Run te cmd),
      te_RequestPty = \<lambda>t r c. aside (te_RequestPty te t r c),
      te_StdinPipe = aside (te_StdinPipe te),
      te_StdoutPipe = aside (te_StdoutPipe te),
      te_Start = \<lambda>cmd. noting (\<lambda>r. Started (r = None)) (te_Start te cmd),
      te_stdoutRead = noting (\<lambda>(buf, _). Chunk buf) (te_stdoutRead te),
      te_stdinWrite = \<lambda>m. noting (\<lambda>r. Typed m (r = None)) (te_stdinWrite te m),
      te_WindowChange = \<lambda>rows cols (x, ds). (te_WindowChange te rows cols x, ds @ [Resized rows cols]),
      te_ReadMessage = noting (\<lambda>r. case r of Inl _ \<Rightarrow> Ended | Inr m \<Rightarrow> Got m) (te_ReadMessage te),
      te_WriteMessage = \<lambda>k m. noting (\<lambda>r. if k = BinaryMessage then Frame m (r = None) else Notice) (te_WriteMessage te k m),
      te_closeWS = \<lambda>(x, ds). (te_closeWS te x, ds @ [WsClosed])\<rparr>"

lemma noted_sel [simp]:
  "te_dialSSH (noted te) h u = noting (\<lambda>r. ClientUp (r = None)) (te_dialSSH te h u)"
  "te_closeClient (noted te) = (\<lambda>(x, ds). (te_closeClient te x, ds @ [ClientClosed]))"
  "te_NewSession (noted te) = aside (te_NewSession te)"
  "te_closeSession (noted te) = (\<lambda>(x, ds). (te_closeSession te x, ds @ [SessionClosed]))"
  "te_Run (noted te) cmd = noting (\<lambda>r. Ran cmd (snd r = None)) (te_Run te cmd)"
  "te_RequestPty (noted te) t r c = aside (te_RequestPty te t r c)"
  "te_StdinPipe (noted te) = aside (te_StdinPipe te)"
  "te_StdoutPipe (noted te) = aside (te_StdoutPipe te)"
  "te_Start (noted te) cmd = noting (\<lambda>r. Started (r = None)) (te_Start te cmd)"
  "te_stdoutRead (noted te) = noting (\<lambda>r. Chunk (fst r)) (te_stdoutRead te)"
  "te_stdinWrite (noted te) m = noting (\<lambda>r. Typed m (r = None)) (te_stdinWrite te m)"
  "te_WindowChange (noted te) rows cols = (\<lambda>(x, ds). (te_WindowChange te rows cols x, ds @ [Resized rows cols]))"
  "te_ReadMessage (noted te) = noting (\<lambda>r. case r of Inl _ \<Rightarrow> Ended | Inr m \<Rightarrow> Got m) (te_ReadMessage te)"
  "te_WriteMessage (noted te) k m = noting (\<lambda>r. if k = BinaryMessage then Frame m (r = None) else Notice) (te_WriteMessage te k m)"
  "te_closeWS (noted te) = (\<lambda>(x, ds). (te_closeWS te x, ds @ [WsClosed]))"
  "te_wide (noted te) = te_wide te"
  by (simp_all add: noted_def case_prod_unfold)

text \<open>What came in and what went out, in order.\<close>

definition messages :: "tevent list \<Rightarrow> string list" where
  "messages ds = List.map_filter (\<lambda>d. case d of Got m \<Rightarrow> if resize_of m = None then Some m else None | _ \<Rightarrow> None) ds"

definition resizes :: "tevent list \<Rightarrow> (nat \<times> nat) list" where
  "resizes ds = List.map_filter (\<lambda>d. case d of Got m \<Rightarrow> resize_of m | _ \<Rightarrow> None) ds"

definition typed :: "tevent list \<Rightarrow> string list" where
  "typed ds = List.map_filter (\<lambda>d. case d of Typed m _ \<Rightarrow> Some m | _ \<Rightarrow> None) ds"

definition windows :: "tevent list \<Rightarrow> (nat \<times> nat) list" where
  "windows ds = List.map_filter (\<lambda>d. case d of Resized r c \<Rightarrow> Some (r, c) | _ \<Rightarrow> None) ds"

definition chunks :: "tevent list \<Rightarrow> string list" where
  "chunks ds = List.map_filter (\<lambda>d. case d of Chunk s \<Rightarrow> if s = [] then None else Some s | _ \<Rightarrow> None) ds"

definition frames :: "tevent list \<Rightarrow> string list" where
  "frames ds = List.map_filter (\<lambda>d. case d of Frame s _ \<Rightarrow> Some s | _ \<Rightarrow> None) ds"

lemmas flow_defs = messages_def resizes_def typed_def windows_def chunks_def frames_def

lemma flow_append [simp]:
  "messages (ds @ es) = messages ds @ messages es" "resizes (ds @ es) = resizes ds @ resizes es"
  "typed (ds @ es) = typed ds @ typed es" "windows (ds @ es) = windows ds @ windows es"
  "chunks (ds @ es) = chunks ds @ chunks es" "frames (ds @ es) = frames ds @ frames es"
  by (simp_all add: flow_defs map_filter_def)

lemma flow_Cons [simp]:
  "messages (d # ds) = (case d of Got m \<Rightarrow> if resize_of m = None then [m] else [] | _ \<Rightarrow> []) @ messages ds"
  "resizes (d # ds) = (case d of Got m \<Rightarrow> (case resize_of m of None \<Rightarrow> [] | Some rc \<Rightarrow> [rc]) | _ \<Rightarrow> []) @ resizes ds"
  "typed (d # ds) = (case d of Typed m _ \<Rightarrow> [m] | _ \<Rightarrow> []) @ typed ds"
  "windows (d # ds) = (case d of Resized r c \<Rightarrow> [(r, c)] | _ \<Rightarrow> []) @ windows ds"
  "chunks (d # ds) = (case d of Chunk s \<Rightarrow> if s = [] then [] else [s] | _ \<Rightarrow> []) @ chunks ds"
  "frames (d # ds) = (case d of Frame s _ \<Rightarrow> [s] | _ \<Rightarrow> []) @ frames ds"
  by (auto simp: flow_defs map_filter_def split: tevent.splits option.splits)

lemma flow_Nil [simp]:
  "messages [] = []" "resizes [] = []" "typed [] = []" "windows [] = []" "chunks [] = []" "frames [] = []"
  by (simp_all add: flow_defs map_filter_def)

lemma flow_side:
  "messages (filter input_side ds) = messages ds" "resizes (filter input_side ds) = resizes ds"
  "typed (filter input_side ds) = typed ds" "windows (filter input_side ds) = windows ds"
  "chunks (filter output_side ds) = chunks ds" "frames (filter output_side ds) = frames ds"
  by (induction ds; auto simp: flow_defs map_filter_def split: tevent.splits option.splits)+

text \<open>One flow follows another when it carries the same, but for one that may be on its way.\<close>

definition follows :: "'a list \<Rightarrow> 'a list \<Rightarrow> bool" where
  "follows out inc \<longleftrightarrow> inc = out \<or> (\<exists>m. inc = out @ [m])"

lemma follows_simps [simp]: "follows a a" "follows a (a @ [m])"
  by (simp_all add: follows_def)

definition in_ok :: "tevent list \<Rightarrow> bool" where
  "in_ok h \<longleftrightarrow> follows (typed h) (messages h) \<and> follows (windows h) (resizes h)"

definition in_even :: "tevent list \<Rightarrow> bool" where
  "in_even h \<longleftrightarrow> typed h = messages h \<and> windows h = resizes h"

definition out_ok :: "tevent list \<Rightarrow> bool" where
  "out_ok h \<longleftrightarrow> follows (frames h) (chunks h)"

definition browser_gone :: "tevent list \<Rightarrow> bool" where
  "browser_gone ds \<longleftrightarrow> Ended \<in> set ds \<or> (\<exists>m. Typed m False \<in> set ds)"

lemma browser_gone_simps [simp]:
  "browser_gone (h @ [Ended])" "browser_gone (h @ [Got m, Typed k False])"
  by (auto simp: browser_gone_def)

lemma input_speaks:
  "in_even h \<Longrightarrow> speaks input_side in_ok (\<lambda>a h. a = Ret () \<longrightarrow> browser_gone h) (input_loop (noted te) n) h"
proof (induction n arbitrary: h)
  case (Suc n)
  note even = Suc.prems [unfolded in_even_def]
  show ?case
    unfolding input_loop.simps noted_sel
  proof (rule speaks_bind, rule speaks_noting)
    fix r :: "string result"
    show "input_side (case r of Inl _ \<Rightarrow> Ended | Inr m \<Rightarrow> Got m)" by (simp split: sum.split)
    show "in_ok (h @ [case r of Inl _ \<Rightarrow> Ended | Inr m \<Rightarrow> Got m])"
      using even by (auto simp: in_ok_def split: sum.split option.split)
    show "speaks input_side in_ok (\<lambda>a h. a = Ret () \<longrightarrow> browser_gone h)
        (case r of
           Inl e \<Rightarrow> Done (Ret ())
         | Inr msg \<Rightarrow>
             (case resize_of msg of
                Some (rows, cols) \<Rightarrow>
                  bind (modify (\<lambda>(x, ds). (te_WindowChange te rows cols x, ds @ [Resized rows cols])))
                    (\<lambda>_. input_loop (noted te) n)
              | None \<Rightarrow>
                  bind (act (noting (\<lambda>r. Typed msg (r = None)) (te_stdinWrite te msg)))
                    (\<lambda>err. case err of Some e \<Rightarrow> Done (Ret ()) | None \<Rightarrow> input_loop (noted te) n)))
        (h @ [case r of Inl _ \<Rightarrow> Ended | Inr m \<Rightarrow> Got m])"
    proof (cases r)
      case (Inl e)
      then show ?thesis by simp
    next
      case (Inr m)
      show ?thesis
      proof (cases "resize_of m")
        case None
        with Inr even show ?thesis
          by (auto simp: in_ok_def in_even_def intro!: speaks_bind speaks_noting Suc.IH split: option.split)
      next
        case (Some rc)
        with Inr even show ?thesis
          by (cases rc) (auto simp: in_ok_def in_even_def intro!: speaks_bind speaks_modify Suc.IH)
      qed
    qed
  qed
qed simp

lemma output_speaks:
  "frames h = chunks h \<Longrightarrow> speaks output_side out_ok (\<lambda>_ _. True) (output_loop (noted te) n) h"
proof (induction n arbitrary: h)
  case (Suc n)
  show ?case
    unfolding output_loop.simps noted_sel
  proof (rule speaks_bind, rule speaks_noting)
    fix r :: "string \<times> goerror option"
    obtain buf err where r: "r = (buf, err)" by fastforce
    show "output_side (Chunk (fst r))" by simp
    show "out_ok (h @ [Chunk (fst r)])" using Suc.prems by (simp add: out_ok_def)
    show "speaks output_side out_ok (\<lambda>_ _. True)
        (case r of (buf, err) \<Rightarrow>
           bind (if buf = [] then Done None
                 else act (noting (\<lambda>r. if BinaryMessage = BinaryMessage then Frame buf (r = None) else Notice) (te_WriteMessage te BinaryMessage buf)))
             (\<lambda>werr. if werr \<noteq> None \<or> err \<noteq> None then Done (Ret ()) else output_loop (noted te) n))
        (h @ [Chunk (fst r)])"
      using Suc.prems by (auto simp: r out_ok_def intro!: speaks_bind speaks_noting Suc.IH)
  qed
qed simp

text \<open>What the part before the goroutines leaves in the log.\<close>

definition refused_logs :: "tevent list set" where
  "refused_logs =
     {[ClientUp False, Notice], [ClientUp True, Notice, ClientClosed], [ClientUp True, ClientClosed],
      [ClientUp True, Started False, Notice, ClientClosed]}"

lemma relay_start_log:
  assumes "relay_start (noted te) b startCmd (x, []) = (ok, (x1, ds))"
  shows "if ok then ds = [ClientUp True, Started True] else ds \<in> refused_logs"
  using assms
  by (simp add: relay_start_def dialSSH_def report_def refused_logs_def case_prod_unfold split: option.splits)


text \<open>The steps of a goroutine leave the entries of no side alone.\<close>

definition ends :: "tevent list \<Rightarrow> nat \<times> nat \<times> nat \<times> nat \<times> nat" where
  "ends ds = (count_list ds (ClientUp True), count_list ds (Started True), count_list ds SessionClosed,
     count_list ds ClientClosed, count_list ds WsClosed)"

lemma ends_append:
  assumes "list_all input_side new \<or> list_all output_side new"
  shows "ends (ds @ new) = ends ds"
proof -
  have "count_list new d = 0" if "\<not> input_side d" "\<not> output_side d" for d
    using assms that by (auto simp: list_all_iff count_list_0_iff)
  then show ?thesis by (simp add: ends_def)
qed

lemma gone_append: "browser_gone ds \<Longrightarrow> browser_gone (ds @ new)"
  by (auto simp: browser_gone_def)

lemma gone_side: "browser_gone (filter input_side ds) = browser_gone ds"
  by (auto simp: browser_gone_def)

abbreviation input_ends :: "unit progress \<Rightarrow> tevent list \<Rightarrow> bool" where
  "input_ends a h \<equiv> a = Ret () \<longrightarrow> browser_gone h"

abbreviation output_ends :: "unit progress \<Rightarrow> tevent list \<Rightarrow> bool" where
  "output_ends a h \<equiv> True"

fun phase_ok :: "('x \<times> tevent list) relay \<Rightarrow> tevent list \<Rightarrow> bool" where
  "phase_ok Starting ds \<longleftrightarrow> ds = []"
| "phase_ok (Relaying p q) ds \<longleftrightarrow>
     speaks input_side in_ok input_ends p (filter input_side ds) \<and>
     speaks output_side out_ok output_ends q (filter output_side ds) \<and> ends ds = (1, 1, 0, 0, 0)"
| "phase_ok (Joining q) ds \<longleftrightarrow>
     speaks output_side out_ok output_ends q (filter output_side ds) \<and> browser_gone ds \<and> ends ds = (1, 1, 1, 0, 0)"
| "phase_ok Returned ds \<longleftrightarrow>
     (browser_gone ds \<and> ends ds = (1, 1, 1, 1, 1)) \<or> (\<exists>n. ends ds = (n, 0, 0, n, 1))"

definition relay_inv :: "('x \<times> tevent list) relay \<Rightarrow> tevent list \<Rightarrow> bool" where
  "relay_inv r ds \<longleftrightarrow> in_ok (filter input_side ds) \<and> out_ok (filter output_side ds) \<and> phase_ok r ds"

lemma sides_apart: "input_side d \<Longrightarrow> \<not> output_side d" "output_side d \<Longrightarrow> \<not> input_side d"
  by (cases d; simp)+

lemma inv_input:
  assumes inv: "relay_inv (Relaying (Step f) q) ds" and f: "f (x, ds) = (p, (y, es))"
  shows "relay_inv (Relaying p q) es"
proof -
  obtain new where new: "es = ds @ new" "list_all input_side new" "in_ok (filter input_side es)"
      "speaks input_side in_ok input_ends p (filter input_side es)"
    using speaks_step [of input_side in_ok input_ends f ds x p y es] f inv by (auto simp: relay_inv_def simp del: speaks.simps)
  have "filter output_side es = filter output_side ds"
    unfolding new(1) by (rule other_voice [OF new(2)]) (rule sides_apart)
  then show ?thesis using inv new ends_append [of new ds] by (simp add: relay_inv_def)
qed

lemma inv_output:
  assumes f: "f (x, ds) = (p, (y, es))" and "speaks output_side out_ok output_ends (Step f) (filter output_side ds)"
  shows "\<exists>new. es = ds @ new \<and> filter input_side es = filter input_side ds \<and> ends es = ends ds \<and>
    out_ok (filter output_side es) \<and> speaks output_side out_ok output_ends p (filter output_side es)"
proof -
  obtain new where new: "es = ds @ new" "list_all output_side new" "out_ok (filter output_side es)"
      "speaks output_side out_ok output_ends p (filter output_side es)"
    using speaks_step [OF assms(2), of x p y es] f by blast
  moreover have "filter input_side es = filter input_side ds"
    unfolding new(1) by (rule other_voice [OF new(2)]) (rule sides_apart)
  ultimately show ?thesis using ends_append [of new ds] by auto
qed

lemma relay_inv_step:
  assumes "relay_step (noted te) (\<lambda>s t. snd t = snd s) b startCmd (r, (x, ds)) (r', (x', ds'))" and inv: "relay_inv r ds"
  shows "relay_inv r' ds'"
  using assms(1)
proof (cases rule: relay_step.cases)
  case (relay_fails w)
  then have "ds = []" and "ds' = snd w @ [WsClosed]" and "snd w \<in> refused_logs"
    using inv relay_start_log [of te b startCmd x False "fst w" "snd w"]
    by (auto simp: relay_inv_def case_prod_unfold)
  then show ?thesis
    using relay_fails by (auto simp: relay_inv_def refused_logs_def ends_def in_ok_def out_ok_def)
next
  case (relay_starts n m)
  then have "ds' = [ClientUp True, Started True]"
    using inv relay_start_log [of te b startCmd x True x' ds'] by (auto simp: relay_inv_def)
  then show ?thesis
    using relay_starts input_speaks [of "[]" te n] output_speaks [of "[]" te m]
    by (simp add: relay_inv_def ends_def in_ok_def out_ok_def in_even_def)
next
  case (relay_input f p out)
  then show ?thesis using inv inv_input [of f out ds x p x' ds'] by simp
next
  case (relay_output f p inp)
  then show ?thesis using inv inv_output [of f x ds p x' ds'] by (auto simp: relay_inv_def simp del: speaks.simps)
next
  case (relay_leaves out)
  then show ?thesis using inv by (auto simp: relay_inv_def ends_def gone_side browser_gone_def)
next
  case (relay_drains f p)
  then show ?thesis using inv inv_output [of f x ds p x' ds'] by (auto simp: relay_inv_def gone_append simp del: speaks.simps)
next
  case relay_joins
  then show ?thesis using inv by (auto simp: relay_inv_def ends_def browser_gone_def)
next
  case relay_env
  then show ?thesis using inv by simp
qed

lemma relay_inv_reach:
  assumes "relay_reach (noted te) (\<lambda>s t. snd t = snd s) b startCmd (x, []) c"
  shows "relay_inv (fst c) (snd (snd c))"
  using assms
proof (induction rule: relay_reach.induct)
  case reach_start
  show ?case by (simp add: relay_inv_def in_ok_def out_ok_def)
next
  case (reach_step c d)
  then show ?case using relay_inv_step [of te b startCmd "fst c" "fst (snd c)" "snd (snd c)" "fst d" "fst (snd d)" "snd (snd d)"]
    by simp
qed

text \<open>
  (C7) Under every interleaving of the two goroutines of a relay with each other and with the rest of the
  world, the shell has been given exactly the messages of the browser that are not resizes, once each and in
  order, the terminal has taken exactly the sizes asked for, in order, and the browser exactly the chunks
  of output, in order; all but, in each direction, the last one, which may be on its way.
\<close>

theorem relay_in_order:
  assumes "relay_reach (noted te) (\<lambda>s t. snd t = snd s) b startCmd (x, []) (r, (y, ds))"
  shows "follows (typed ds) (messages ds) \<and> follows (windows ds) (resizes ds) \<and> follows (frames ds) (chunks ds)"
  using relay_inv_reach [OF assms] by (simp add: relay_inv_def in_ok_def out_ok_def flow_side)


subsection \<open>A relay that runs\<close>

text \<open>A schedule says which goroutine moves; a move that is not possible does nothing.\<close>

datatype move = Begin nat nat | Input | Output

fun relay_next :: "'x term_env \<Rightarrow> bridge \<Rightarrow> string \<Rightarrow> move \<Rightarrow> 'x relay \<times> 'x \<Rightarrow> 'x relay \<times> 'x" where
  "relay_next te b startCmd (Begin n m) (Starting, x) =
     (case relay_start te b startCmd x of
        (ok, x1) \<Rightarrow> if ok then (Relaying (input_loop te n) (output_loop te m), x1) else (Returned, te_closeWS te x1))"
| "relay_next te b startCmd Input (Relaying (Step f) q, x) = (case f x of (p, x1) \<Rightarrow> (Relaying p q, x1))"
| "relay_next te b startCmd Input (Relaying (Done (Ret ())) q, x) = (Joining q, te_closeSession te x)"
| "relay_next te b startCmd Input (Joining (Done (Ret ())), x) = (Returned, te_closeWS te (te_closeClient te x))"
| "relay_next te b startCmd Output (Relaying p (Step f), x) = (case f x of (q, x1) \<Rightarrow> (Relaying p q, x1))"
| "relay_next te b startCmd Output (Joining (Step f), x) = (case f x of (q, x1) \<Rightarrow> (Joining q, x1))"
| "relay_next te b startCmd _ c = c"

lemma relay_next_step: "relay_next te b startCmd mv c = c \<or> relay_step te E b startCmd c (relay_next te b startCmd mv c)"
  by (cases "(te, b, startCmd, mv, c)" rule: relay_next.cases) (auto intro: relay_step.intros split: prod.split)

lemma relay_run_reach:
  "relay_reach te E b startCmd x0 c \<Longrightarrow> relay_reach te E b startCmd x0 (fold (relay_next te b startCmd) mvs c)"
proof (induction mvs arbitrary: c)
  case (Cons mv mvs)
  have "relay_reach te E b startCmd x0 (relay_next te b startCmd mv c)"
    using relay_next_step [of te b startCmd mv c E] Cons.prems by (auto intro: reach_step)
  then show ?case using Cons.IH by simp
qed simp

definition echo_env :: "nat term_env" where
  "echo_env =
     \<lparr>te_wide = id, te_dialSSH = \<lambda>_ _ x. (None, x), te_closeClient = id, te_NewSession = Pair None, te_closeSession = id,
      te_Run = \<lambda>cmd x. ((([], []), if cmd = ''false'' then Some (errorf ''exit status 1'') else None), x), te_RequestPty = \<lambda>_ _ _. Pair None, te_StdinPipe = Pair None,
      te_StdoutPipe = Pair None, te_Start = \<lambda>_. Pair None, te_stdoutRead = \<lambda>x. ((''ok'', Some (errorf ''EOF'')), x),
      te_stdinWrite = \<lambda>_. Pair None, te_WindowChange = \<lambda>_ _. id,
      te_ReadMessage = \<lambda>x. (if x = 0 then Inr ''ls'' else Inl (errorf ''closed''), Suc x),
      te_WriteMessage = \<lambda>_ _. Pair None, te_closeWS = id\<rparr>"

lemma echo_sel:
  "te_dialSSH echo_env h u x = (None, x)" "te_closeClient echo_env x = x" "te_NewSession echo_env x = (None, x)"
  "te_closeSession echo_env x = x" "te_RequestPty echo_env t n m x = (None, x)" "te_StdinPipe echo_env x = (None, x)"
  "te_StdoutPipe echo_env x = (None, x)" "te_Start echo_env c x = (None, x)"
  "te_stdoutRead echo_env x = ((''ok'', Some (errorf ''EOF'')), x)" "te_stdinWrite echo_env s x = (None, x)"
  "te_ReadMessage echo_env x = (if x = 0 then Inr ''ls'' else Inl (errorf ''closed''), Suc x)"
  "te_WriteMessage echo_env k s x = (None, x)" "te_closeWS echo_env x = x"
  by (simp_all add: echo_env_def)

lemma echo_resize: "resize_of ''ls'' = None"
  by code_simp

definition echo_run :: "move list \<Rightarrow> (nat \<times> tevent list) relay \<times> (nat \<times> tevent list)" where
  "echo_run mvs = fold (relay_next (noted echo_env) (NewBridge ''vm'' ''claude'') ''bash'') mvs (Starting, (0, []))"

lemma echo_reach: "relay_reach (noted echo_env) (\<lambda>s t. snd t = snd s) (NewBridge ''vm'' ''claude'') ''bash'' (0, []) (echo_run mvs)"
  unfolding echo_run_def by (rule relay_run_reach) (rule reach_start)

lemma echo_log:
  "echo_run [Begin 2 1, Input, Output, Input, Output, Input, Input, Input] =
     (Returned, (2, [ClientUp True, Started True, Got ''ls'', Chunk ''ok'', Typed ''ls'' True, Frame ''ok'' True, Ended, SessionClosed, ClientClosed, WsClosed]))"
  by (simp add: echo_run_def relay_start_def dialSSH_def echo_sel echo_resize act_def numeral_2_eq_2)

theorem relay_in_order_witness:
  "follows (typed (snd (snd (echo_run [Begin 2 1, Input, Output, Input])))) (messages (snd (snd (echo_run [Begin 2 1, Input, Output, Input]))))"
  using relay_in_order [of echo_env "NewBridge ''vm'' ''claude''" "''bash''" 0 "fst (echo_run [Begin 2 1, Input, Output, Input])"
      "fst (snd (echo_run [Begin 2 1, Input, Output, Input]))" "snd (snd (echo_run [Begin 2 1, Input, Output, Input]))"]
  using echo_reach [of "[Begin 2 1, Input, Output, Input]"] by simp


section \<open>Commands of a set-up\<close>

definition runs :: "tevent list \<Rightarrow> (string \<times> bool) list" where
  "runs ds = List.map_filter (\<lambda>d. case d of Ran cmd ok \<Rightarrow> Some (cmd, ok) | _ \<Rightarrow> None) ds"

lemma runs_simps [simp]:
  "runs [] = []" "runs (ds @ es) = runs ds @ runs es"
  "runs (d # ds) = (case d of Ran cmd ok \<Rightarrow> [(cmd, ok)] | _ \<Rightarrow> []) @ runs ds"
  by (auto simp: runs_def map_filter_def split: tevent.splits)

text \<open>
  The commands that ran, given how the call ended: all of them, or the first ones up to one that
  failed or that could not be given a session.
\<close>

definition ran_in_order :: "string list \<Rightarrow> goerror option \<Rightarrow> (string \<times> bool) list \<Rightarrow> bool" where
  "ran_in_order cmds err rs \<longleftrightarrow>
     (err = None \<and> rs = map (\<lambda>c. (c, True)) cmds) \<or>
     (err \<noteq> None \<and> (\<exists>n < length cmds. rs = map (\<lambda>c. (c, True)) (take n cmds) \<or>
        rs = map (\<lambda>c. (c, True)) (take n cmds) @ [(cmds ! n, False)]))"

lemma ran_in_order_Cons:
  assumes "ran_in_order cmds err rs"
  shows "ran_in_order (cmd # cmds) err ((cmd, True) # rs)"
proof (cases err)
  case None
  with assms show ?thesis by (simp add: ran_in_order_def)
next
  case (Some e)
  with assms obtain n where "n < length cmds"
      "rs = map (\<lambda>c. (c, True)) (take n cmds) \<or> rs = map (\<lambda>c. (c, True)) (take n cmds) @ [(cmds ! n, False)]"
    by (auto simp: ran_in_order_def)
  then have "Suc n < length (cmd # cmds) \<and> ((cmd, True) # rs = map (\<lambda>c. (c, True)) (take (Suc n) (cmd # cmds)) \<or>
      (cmd, True) # rs = map (\<lambda>c. (c, True)) (take (Suc n) (cmd # cmds)) @ [((cmd # cmds) ! Suc n, False)])"
    by auto
  from exI [of "\<lambda>n. n < length (cmd # cmds) \<and> ((cmd, True) # rs = map (\<lambda>c. (c, True)) (take n (cmd # cmds)) \<or>
      (cmd, True) # rs = map (\<lambda>c. (c, True)) (take n (cmd # cmds)) @ [((cmd # cmds) ! n, False)])", OF this] Some
  show ?thesis unfolding ran_in_order_def by simp
qed

lemma ran_in_order_fail:
  "ran_in_order (cmd # cmds) (Some e) []" "ran_in_order (cmd # cmds) (Some e) [(cmd, False)]"
  by (auto simp: ran_in_order_def intro!: exI [of _ 0])

lemma run_commands_log:
  assumes "run_commands (noted te) cmds out (x, ds) = ((err, out'), (y, es))"
  shows "\<exists>rs. runs es = runs ds @ rs \<and> ran_in_order cmds err rs \<and>
    count_list es (ClientUp True) = count_list ds (ClientUp True) \<and> count_list es ClientClosed = count_list ds ClientClosed \<and>
    count_list es SessionClosed = count_list ds SessionClosed + length rs"
  using assms
proof (induction cmds arbitrary: out x ds)
  case Nil
  then show ?case by (auto simp: ran_in_order_def)
next
  case (Cons cmd cmds)
  obtain e1 x1 where s: "te_NewSession te x = (e1, x1)" by fastforce
  obtain so se e2 x2 where r: "te_Run te cmd x1 = (((so, se), e2), x2)" by (metis prod.collapse)
  show ?case
  proof (cases "e1 = None \<and> e2 = None")
    case True
    with Cons.prems have "run_commands (noted te) cmds (out @ so @ se) (te_closeSession te x2, ds @ [Ran cmd True, SessionClosed]) = ((err, out'), (y, es))"
      by (simp add: s r)
    from Cons.IH [OF this] obtain rs where "runs es = runs ds @ (cmd, True) # rs" "ran_in_order cmds err rs"
        "count_list es (ClientUp True) = count_list ds (ClientUp True)" "count_list es ClientClosed = count_list ds ClientClosed"
        "count_list es SessionClosed = count_list ds SessionClosed + length ((cmd, True) # rs)"
      by auto
    then show ?thesis using ran_in_order_Cons by blast
  next
    case False
    with Cons.prems show ?thesis
      using ran_in_order_fail [of cmd cmds] by (auto simp: s r split: option.splits)
  qed
qed

text \<open>
  (C22) \<^verbatim>\<open>RunSetupCapture\<close> runs the commands in order, each in a session of its own that it closes, and
  stops at the first that fails: without an error all of them have run and succeeded. The client is
  closed exactly when it was opened, and nothing runs without one.
\<close>

theorem setup_in_order:
  assumes "RunSetupCapture (noted te) b cmds (x, []) = ((err, out), (y, ds))"
  shows "(runs ds = [] \<and> err \<noteq> None \<or> ran_in_order cmds err (runs ds)) \<and>
    count_list ds ClientClosed = count_list ds (ClientUp True) \<and> count_list ds SessionClosed = length (runs ds) \<and>
    (runs ds \<noteq> [] \<longrightarrow> ClientUp True \<in> set ds)"
proof -
  obtain e1 x1 where d: "te_dialSSH te (br_host b) (br_user b) x = (e1, x1)" by fastforce
  show ?thesis
  proof (cases e1)
    case (Some e)
    with assms show ?thesis by (auto simp: RunSetupCapture_def dialSSH_def d)
  next
    case None
    obtain r z es where run: "run_commands (noted te) cmds [] (x1, [ClientUp True]) = (r, (z, es))"
      by (metis prod.collapse)
    obtain e2 o2 where r: "r = (e2, o2)" by fastforce
    from None assms have ds: "ds = es @ [ClientClosed]" "err = e2"
      by (auto simp: RunSetupCapture_def dialSSH_def d run r)
    obtain rs where "runs es = rs" "ran_in_order cmds e2 rs" "count_list es (ClientUp True) = 1" "count_list es ClientClosed = 0"
        "count_list es SessionClosed = length rs"
      using run_commands_log [OF run [unfolded r]] by auto
    moreover from this(3) have "ClientUp True \<in> set es" using count_list_0_iff [of es "ClientUp True"] by simp
    ultimately show ?thesis by (simp add: ds)
  qed
qed

theorem setup_in_order_witness:
  "runs (snd (snd (RunSetupCapture (noted echo_env) (NewBridge ''vm'' ''claude'') [''true'', ''false'', ''ls''] (0, [])))) = [(''true'', True), (''false'', False)] \<and>
   count_list (snd (snd (RunSetupCapture (noted echo_env) (NewBridge ''vm'' ''claude'') [''true'', ''false'', ''ls''] (0, [])))) SessionClosed = 2"
proof -
  let ?r = "RunSetupCapture (noted echo_env) (NewBridge ''vm'' ''claude'') [''true'', ''false'', ''ls''] (0, [])"
  have "?r = ((fst (fst ?r), snd (fst ?r)), (fst (snd ?r), snd (snd ?r)))" by simp
  note setup_in_order [OF this]
  moreover have "runs (snd (snd ?r)) = [(''true'', True), (''false'', False)]"
    by (simp add: RunSetupCapture_def dialSSH_def echo_sel) (simp add: echo_env_def)
  ultimately show ?thesis by simp
qed

end
