(* ===== verification/Launcher.thy ===== *)
theory Launcher
  imports Vm Launch_Text
begin

text \<open>
  \<^verbatim>\<open>internal/vm/launcher.go\<close>: booting a machine, stopping it, and writing the network configuration
  into a snapshot. The Firecracker SDK is a parameter; \<open>logged\<close> is a host that also keeps the
  list of what it was asked to do, for the theorems.
\<close>

section \<open>Launching\<close>

record fc_config =
  fc_SocketPath :: string
  fc_KernelImagePath :: string
  fc_KernelArgs :: string
  fc_DriveID :: string
  fc_PathOnHost :: string
  fc_IsRootDevice :: bool
  fc_IsReadOnly :: bool
  fc_MacAddress :: string
  fc_HostDevName :: string
  fc_VcpuCount :: int
  fc_MemSizeMib :: int

record fc_command =
  fcc_Bin :: string
  fcc_SocketPath :: string

record 'x fc_sdk =
  sdk_NewMachine :: "fc_command \<Rightarrow> fc_config \<Rightarrow> 'x \<Rightarrow> nat result \<times> 'x" \<comment> \<open>the machine\<close>
  sdk_Start :: "nat \<Rightarrow> 'x \<Rightarrow> goerror option \<times> 'x"
  sdk_Shutdown :: "nat \<Rightarrow> 'x \<Rightarrow> 'x"
  sdk_StopVMM :: "nat \<Rightarrow> 'x \<Rightarrow> goerror option \<times> 'x"

record vm =
  vm_machine :: nat
  vm_Slot :: int
  vm_TapName :: string
  vm_SocketPath :: string
  vm_LaunchedAt :: int

definition KernelPath :: string where "KernelPath = ''/opt/rubbish/firecracker/vmlinux''"
definition FCBinary :: string where "FCBinary = ''/usr/local/bin/firecracker''"

definition kernel_args :: "string \<Rightarrow> string" where
  "kernel_args ip =
     ''console=ttyS0 reboot=k panic=1 pci=off nomodules ro ip='' @ ip @ ''::172.16.0.1:255.255.255.0::eth0:off''"

definition machine_config :: "int \<Rightarrow> string \<Rightarrow> int \<Rightarrow> fc_config" where
  "machine_config slot rootfsPath memMiB =
     \<lparr>fc_SocketPath = SlotSocket slot, fc_KernelImagePath = KernelPath, fc_KernelArgs = kernel_args (SlotIP slot),
      fc_DriveID = ''rootfs'', fc_PathOnHost = rootfsPath, fc_IsRootDevice = True, fc_IsReadOnly = False,
      fc_MacAddress = SlotMAC slot, fc_HostDevName = SlotTAP slot, fc_VcpuCount = 2, fc_MemSizeMib = memMiB\<rparr>"

definition Launch :: "'x vm_host \<Rightarrow> 'x fc_sdk \<Rightarrow> int \<Rightarrow> string \<Rightarrow> int \<Rightarrow> 'x \<Rightarrow> vm result \<times> 'x" where
  "Launch h sdk slot rootfsPath memMiB x =
     (case vh_now h x of (t, x1) \<Rightarrow>
        (case setupTAP h (SlotTAP slot) x1 of
           (Some e, x2) \<Rightarrow> (Inl (errorf_w ''tap setup: '' e []), x2)
         | (None, x2) \<Rightarrow>
             (case sdk_NewMachine sdk \<lparr>fcc_Bin = FCBinary, fcc_SocketPath = SlotSocket slot\<rparr> (machine_config slot rootfsPath memMiB)
                     (snd (hx_Remove (vh_host h) (SlotSocket slot) x2)) of
                (Inl e, x3) \<Rightarrow> (Inl (errorf_w ''new machine: '' e []), x3)
              | (Inr m, x3) \<Rightarrow>
                  (case sdk_Start sdk m x3 of
                     (Some e, x4) \<Rightarrow> (Inl (errorf_w ''start machine: '' e []), x4)
                   | (None, x4) \<Rightarrow>
                       (Inr \<lparr>vm_machine = m, vm_Slot = slot, vm_TapName = SlotTAP slot, vm_SocketPath = SlotSocket slot, vm_LaunchedAt = t\<rparr>, x4)))))"

definition VM_Stop :: "'x vm_host \<Rightarrow> 'x fc_sdk \<Rightarrow> vm \<Rightarrow> 'x \<Rightarrow> goerror option \<times> 'x" where
  "VM_Stop h sdk v x =
     (case sdk_StopVMM sdk (vm_machine v) (sdk_Shutdown sdk (vm_machine v) x) of
        (err, x1) \<Rightarrow> (err, teardownTAP h (vm_TapName v) x1))"

section \<open>Injecting the network configuration\<close>

record 'x temp_files =
  tf_CreateTemp :: "string \<Rightarrow> 'x \<Rightarrow> string result \<times> 'x" \<comment> \<open>the name of the file, from its pattern\<close>
  tf_WriteClose :: "string \<Rightarrow> string \<Rightarrow> 'x \<Rightarrow> goerror option \<times> 'x" \<comment> \<open>the error of \<^verbatim>\<open>WriteString\<close>\<close>

definition interfaces :: "string \<Rightarrow> string \<Rightarrow> string" where
  "interfaces ip gateway =
     ''auto lo'' @ nl @ ''iface lo inet loopback'' @ nl @ nl @ ''auto eth0'' @ nl @ ''iface eth0 inet static'' @ nl @
     ''    address '' @ ip @ nl @ ''    netmask 255.255.255.0'' @ nl @ ''    gateway '' @ gateway @ nl"

definition umount :: "'x host \<Rightarrow> string \<Rightarrow> 'x \<Rightarrow> (string \<times> goerror option) \<times> 'x" where
  "umount h dir x = hx_exec h [] [''sudo'', ''umount'', dir] x"

text \<open>The part between the two deferred removals.\<close>

definition write_interfaces :: "'x host \<Rightarrow> 'x temp_files \<Rightarrow> string \<Rightarrow> string \<Rightarrow> string \<Rightarrow> 'x \<Rightarrow> goerror option \<times> 'x" where
  "write_interfaces h tf tmpdir tmpName ifaces x =
     (case tf_WriteClose tf tmpName ifaces x of
        (Some e, x1) \<Rightarrow> (Some (errorf_w ''write ifaces: '' e []), snd (umount h tmpdir x1))
      | (None, x1) \<Rightarrow>
          (case hx_exec h [] [''sudo'', ''cp'', tmpName, tmpdir @ ''/etc/network/interfaces''] x1 of
             ((out, Some e), x2) \<Rightarrow> (Some (errorf_w (''cp ifaces: '' @ out @ '': '') e []), snd (umount h tmpdir x2))
           | ((_, None), x2) \<Rightarrow>
               (case umount h tmpdir x2 of
                  ((out, Some e), x3) \<Rightarrow> (Some (errorf_w (''umount: '' @ out @ '': '') e []), x3)
                | ((_, None), x3) \<Rightarrow> (None, x3))))"

definition inject_mounted :: "'x host \<Rightarrow> 'x temp_files \<Rightarrow> string \<Rightarrow> string \<Rightarrow> string \<Rightarrow> string \<Rightarrow> 'x \<Rightarrow> goerror option \<times> 'x" where
  "inject_mounted h tf tmpdir snapshotDevice ip gateway x =
     (case hx_exec h [] [''sudo'', ''mount'', ''-o'', ''rw'', snapshotDevice, tmpdir] x of
        ((out, Some e), x1) \<Rightarrow> (Some (errorf_w (''mount '' @ snapshotDevice @ '': '' @ out @ '': '') e []), x1)
      | ((_, None), x1) \<Rightarrow>
          (case tf_CreateTemp tf ''rubbish-ifaces-*'' x1 of
             (Inl e, x2) \<Rightarrow> (Some (errorf_w ''create temp ifaces: '' e []), snd (umount h tmpdir x2))
           | (Inr tmpName, x2) \<Rightarrow>
               (case write_interfaces h tf tmpdir tmpName (interfaces ip gateway) x2 of
                  (r, x3) \<Rightarrow> (r, snd (hx_Remove h tmpName x3)))))"

definition InjectNetworkConfig :: "'x host \<Rightarrow> 'x temp_files \<Rightarrow> string \<Rightarrow> string \<Rightarrow> string \<Rightarrow> 'x \<Rightarrow> goerror option \<times> 'x" where
  "InjectNetworkConfig h tf snapshotDevice ip gateway x =
     (case hx_MkdirTemp h ''rubbish-mnt-*'' x of
        (Inl e, x1) \<Rightarrow> (Some (errorf_w ''mkdirtemp: '' e []), x1)
      | (Inr tmpdir, x1) \<Rightarrow>
          (case inject_mounted h tf tmpdir snapshotDevice ip gateway x1 of
             (r, x2) \<Rightarrow> (r, snd (hx_RemoveAll h tmpdir x2))))"

section \<open>A host that keeps its deeds\<close>

datatype deed =
    Ran "string list" bool \<comment> \<open>a command and whether it succeeded\<close>
  | RemovedAll string
  | Removed string
  | Made fc_config \<comment> \<open>a machine asked of the SDK\<close>

definition logged :: "'x host \<Rightarrow> ('x \<times> deed list) host" where
  "logged h =
     \<lparr>hx_exec = \<lambda>dir args. noting (\<lambda>(out, err). Ran args (err = None)) (hx_exec h dir args),
      hx_ctxErr = aside (hx_ctxErr h),
      hx_stat = \<lambda>p. aside (hx_stat h p),
      hx_MkdirAll = \<lambda>p. aside (hx_MkdirAll h p),
      hx_RemoveAll = \<lambda>p. noting (\<lambda>_. RemovedAll p) (hx_RemoveAll h p),
      hx_Remove = \<lambda>p. noting (\<lambda>_. Removed p) (hx_Remove h p),
      hx_MkdirTemp = \<lambda>p. aside (hx_MkdirTemp h p)\<rparr>"

definition logged_files :: "'x temp_files \<Rightarrow> ('x \<times> deed list) temp_files" where
  "logged_files tf = \<lparr>tf_CreateTemp = \<lambda>p. aside (tf_CreateTemp tf p), tf_WriteClose = \<lambda>p s. aside (tf_WriteClose tf p s)\<rparr>"

definition logged_vm :: "'x vm_host \<Rightarrow> ('x \<times> deed list) vm_host" where
  "logged_vm h =
     \<lparr>vh_host = logged (vh_host h),
      vh_output = \<lambda>args. aside (vh_output h args),
      vh_signal = \<lambda>pid s. aside (vh_signal h pid s),
      vh_now = aside (vh_now h),
      vh_sleep = \<lambda>d (x, ds). (vh_sleep h d x, ds),
      vh_dial = \<lambda>a t. aside (vh_dial h a t),
      vh_select = \<lambda>d. aside (vh_select h d),
      vh_glob = \<lambda>p. aside (vh_glob h p),
      vh_scan = vh_scan h\<rparr>"

definition logged_sdk :: "'x fc_sdk \<Rightarrow> ('x \<times> deed list) fc_sdk" where
  "logged_sdk sdk =
     \<lparr>sdk_NewMachine = \<lambda>cmd c. noting (\<lambda>_. Made c) (sdk_NewMachine sdk cmd c),
      sdk_Start = \<lambda>m. aside (sdk_Start sdk m),
      sdk_Shutdown = \<lambda>m (x, ds). (sdk_Shutdown sdk m x, ds),
      sdk_StopVMM = \<lambda>m. aside (sdk_StopVMM sdk m)\<rparr>"

lemmas logged_simps = logged_def logged_files_def logged_vm_def logged_sdk_def

text \<open>Whether the device is mounted on a directory after the deeds so far.\<close>

definition mount_step :: "string \<Rightarrow> deed \<Rightarrow> bool \<Rightarrow> bool" where
  "mount_step dir d b =
     (case d of
        Ran args ok \<Rightarrow>
          if ok \<and> args = [''sudo'', ''umount'', dir] then False
          else if ok \<and> take 2 args = [''sudo'', ''mount''] \<and> last args = dir then True
          else b
      | _ \<Rightarrow> b)"

definition mounted_after :: "string \<Rightarrow> deed list \<Rightarrow> bool" where
  "mounted_after dir ds = fold (mount_step dir) ds False"

definition mount_dev :: "string \<Rightarrow> string \<Rightarrow> bool \<Rightarrow> deed" where
  "mount_dev dev dir ok = Ran [''sudo'', ''mount'', ''-o'', ''rw'', dev, dir] ok"

definition unmount :: "string \<Rightarrow> bool \<Rightarrow> deed" where
  "unmount dir ok = Ran [''sudo'', ''umount'', dir] ok"

definition copy_in :: "string \<Rightarrow> string \<Rightarrow> bool \<Rightarrow> deed" where
  "copy_in src dir ok = Ran [''sudo'', ''cp'', src, dir @ ''/etc/network/interfaces''] ok"

lemmas deed_defs = mount_dev_def unmount_def copy_in_def

section \<open>Machines of different slots\<close>

definition config_apart :: "fc_config \<Rightarrow> fc_config \<Rightarrow> bool" where
  "config_apart c d \<longleftrightarrow>
     fc_SocketPath c \<noteq> fc_SocketPath d \<and> fc_KernelArgs c \<noteq> fc_KernelArgs d \<and>
     fc_MacAddress c \<noteq> fc_MacAddress d \<and> fc_HostDevName c \<noteq> fc_HostDevName d"

lemma slots_apart:
  assumes "0 \<le> i" and "0 \<le> j" and "i \<noteq> j"
  shows "config_apart (machine_config i r m) (machine_config j q n)"
  using assms hex02_inject [of "i + 1" "j + 1"]
  by (auto simp: config_apart_def machine_config_def kernel_args_def SlotTAP_def SlotMAC_def SlotIP_def SlotSocket_def)

fun launches :: "'x vm_host \<Rightarrow> 'x fc_sdk \<Rightarrow> (int \<times> string \<times> int) list \<Rightarrow> 'x \<Rightarrow> vm result list \<times> 'x" where
  "launches h sdk [] x = ([], x)"
| "launches h sdk ((slot, rootfs, mem) # js) x =
     (case Launch h sdk slot rootfs mem x of (r, x1) \<Rightarrow> (case launches h sdk js x1 of (rs, x2) \<Rightarrow> (r # rs, x2)))"

definition made :: "deed list \<Rightarrow> fc_config list" where
  "made ds = List.map_filter (\<lambda>d. case d of Made c \<Rightarrow> Some c | _ \<Rightarrow> None) ds"

lemma made_simps [simp]:
  "made [] = []"
  "made (ds @ es) = made ds @ made es"
  "made (d # ds) = (case d of Made c \<Rightarrow> [c] | _ \<Rightarrow> []) @ made ds"
  by (simp_all add: made_def map_filter_def split: deed.split)

lemma Launch_made:
  assumes "Launch (logged_vm h) (logged_sdk sdk) slot rootfs mem (x, ds) = (r, (x', ds'))"
  shows "made ds' = made ds \<or> made ds' = made ds @ [machine_config slot rootfs mem]"
  using assms
  by (auto simp: Launch_def setupTAP_def logged_simps case_prod_unfold Let_def split: option.splits sum.splits if_splits)

lemma Launch_fine:
  assumes "Launch (logged_vm h) (logged_sdk sdk) slot rootfs mem (x, ds) = (Inr v, (x', ds'))"
  shows "vm_Slot v = slot \<and> vm_TapName v = SlotTAP slot \<and> vm_SocketPath v = SlotSocket slot \<and>
    made ds' = made ds @ [machine_config slot rootfs mem]"
  using assms
  by (auto simp: Launch_def setupTAP_def logged_simps case_prod_unfold Let_def split: option.splits sum.splits if_splits)

lemma launches_made:
  assumes "launches (logged_vm h) (logged_sdk sdk) js (x, ds) = (rs, (x', ds'))" and "distinct (map fst js)"
    and "\<forall>j\<in>set js. 0 \<le> fst j"
  shows "\<exists>cs. made ds' = made ds @ cs \<and> sorted_wrt config_apart cs \<and>
    set cs \<subseteq> {machine_config s r m | s r m. (s, r, m) \<in> set js} \<and> length rs = length js \<and>
    (\<forall>i<length js. \<forall>v. rs ! i = Inr v \<longrightarrow> (case js ! i of (s, r, m) \<Rightarrow>
       machine_config s r m \<in> set cs \<and> vm_Slot v = s \<and> vm_TapName v = SlotTAP s \<and> vm_SocketPath v = SlotSocket s))"
  using assms
proof (induction js arbitrary: x ds rs)
  case (Cons j js)
  obtain s r m where j: "j = (s, r, m)" by (cases j)
  obtain q x1 ds1 where one: "Launch (logged_vm h) (logged_sdk sdk) s r m (x, ds) = (q, (x1, ds1))"
    by (metis prod.collapse)
  obtain rs1 where rs: "rs = q # rs1" and rest: "launches (logged_vm h) (logged_sdk sdk) js (x1, ds1) = (rs1, (x', ds'))"
    using Cons.prems(1) by (auto simp: j one split: prod.splits)
  obtain cs where cs: "made ds' = made ds1 @ cs" "sorted_wrt config_apart cs"
      "set cs \<subseteq> {machine_config s r m | s r m. (s, r, m) \<in> set js}" "length rs1 = length js"
      "\<forall>i<length js. \<forall>v. rs1 ! i = Inr v \<longrightarrow> (case js ! i of (s, r, m) \<Rightarrow>
         machine_config s r m \<in> set cs \<and> vm_Slot v = s \<and> vm_TapName v = SlotTAP s \<and> vm_SocketPath v = SlotSocket s)"
    using Cons.IH [OF rest] Cons.prems(2,3) by auto
  define c where "c = (if made ds1 = made ds then [] else [machine_config s r m])"
  have c: "made ds1 = made ds @ c"
    using Launch_made [OF one] by (auto simp: c_def)
  have apart: "\<forall>d\<in>set cs. config_apart (machine_config s r m) d"
  proof
    fix d assume "d \<in> set cs"
    then obtain s' r' m' where d: "d = machine_config s' r' m'" "(s', r', m') \<in> set js" using cs(3) by auto
    then have "s' \<noteq> s" "0 \<le> s'" "0 \<le> s" using Cons.prems(2,3) by (force simp: j)+
    then show "config_apart (machine_config s r m) d" by (simp add: d slots_apart)
  qed
  have head: "machine_config s r m \<in> set c \<and> vm_Slot v = s \<and> vm_TapName v = SlotTAP s \<and> vm_SocketPath v = SlotSocket s" if "q = Inr v" for v
    using Launch_fine [OF one [unfolded that]] by (simp add: c_def)
  show ?case
  proof (intro exI [of _ "c @ cs"] conjI)
    show "made ds' = made ds @ c @ cs" by (simp add: cs(1) c)
    show "sorted_wrt config_apart (c @ cs)" using apart cs(2) by (auto simp: c_def)
    show "set (c @ cs) \<subseteq> {machine_config s r m | s r m. (s, r, m) \<in> set (j # js)}"
      using cs(3) by (auto simp: c_def j split: if_splits) blast+
    show "length rs = length (j # js)" by (simp add: rs cs(4))
    show "\<forall>i<length (j # js). \<forall>v. rs ! i = Inr v \<longrightarrow> (case (j # js) ! i of (s, r, m) \<Rightarrow>
       machine_config s r m \<in> set (c @ cs) \<and> vm_Slot v = s \<and> vm_TapName v = SlotTAP s \<and> vm_SocketPath v = SlotSocket s)"
    proof (intro allI impI)
      fix i v assume "i < length (j # js)" and "rs ! i = Inr v"
      then show "case (j # js) ! i of (s, r, m) \<Rightarrow>
        machine_config s r m \<in> set (c @ cs) \<and> vm_Slot v = s \<and> vm_TapName v = SlotTAP s \<and> vm_SocketPath v = SlotSocket s"
        using head cs(5) by (cases i) (auto simp: rs j)
    qed
  qed
qed simp

text \<open>
  However the launches of machines in different slots go, the machines asked of Firecracker share no
  API socket, no address, no MAC address and no TAP device; and a launch that succeeds gives a handle on
  the machine of its slot, with the TAP device and the socket that a later stop will remove.
\<close>

theorem launched_apart:
  assumes "launches (logged_vm h) (logged_sdk sdk) js (x, []) = (rs, (x', ds))" and "distinct (map fst js)"
    and "\<forall>j\<in>set js. 0 \<le> fst j"
  shows "sorted_wrt config_apart (made ds) \<and> length rs = length js \<and>
    (\<forall>i<length js. \<forall>v. rs ! i = Inr v \<longrightarrow> (case js ! i of (s, r, m) \<Rightarrow>
       machine_config s r m \<in> set (made ds) \<and> vm_Slot v = s \<and> vm_TapName v = SlotTAP s \<and> vm_SocketPath v = SlotSocket s))"
  using launches_made [OF assms] by auto

definition counting_sdk :: "int fc_sdk" where
  "counting_sdk = \<lparr>sdk_NewMachine = \<lambda>_ _ x. (Inr 0, x + 1), sdk_Start = \<lambda>_ x. (None, x),
     sdk_Shutdown = \<lambda>_ x. x, sdk_StopVMM = \<lambda>_ x. (None, x)\<rparr>"

theorem launched_apart_witness:
  "sorted_wrt config_apart (made (snd (snd (launches (logged_vm clock_host) (logged_sdk counting_sdk)
     [(0, ''a'', 512), (1, ''b'', 1024)] (0, [])))))"
  using launched_apart [of clock_host counting_sdk "[(0, ''a'', 512), (1, ''b'', 1024)]" 0 _ _ _, OF prod.collapse [symmetric, THEN trans [OF _ arg_cong2 [of _ _ _ _ Pair, OF refl prod.collapse [symmetric]]]]]
  by simp

section \<open>The mount of a snapshot\<close>

inductive injects :: "string \<Rightarrow> string \<Rightarrow> bool \<Rightarrow> deed list \<Rightarrow> bool" for dev dir where
  no_mount: "injects dev dir False [mount_dev dev dir False]"
| no_temp: "injects dev dir False [mount_dev dev dir True, unmount dir u]"
| no_write: "injects dev dir False [mount_dev dev dir True, unmount dir u, Removed t]"
| no_copy: "injects dev dir False [mount_dev dev dir True, copy_in t dir False, unmount dir u, Removed t]"
| no_umount: "injects dev dir False [mount_dev dev dir True, copy_in t dir True, unmount dir False, Removed t]"
| injected: "injects dev dir True [mount_dev dev dir True, copy_in t dir True, unmount dir True, Removed t]"

lemma deed_eqs [simp]:
  "(mount_dev d m b = mount_dev d' m' b') = (d = d' \<and> m = m' \<and> b = b')"
  "(unmount m b = unmount m' b') = (m = m' \<and> b = b')"
  "(copy_in t m b = copy_in t' m' b') = (t = t' \<and> m = m' \<and> b = b')"
  "mount_dev d m b \<noteq> unmount m' b'" "mount_dev d m b \<noteq> copy_in t m' b'" "copy_in t m b \<noteq> unmount m' b'"
  "unmount m' b' \<noteq> mount_dev d m b" "copy_in t m' b' \<noteq> mount_dev d m b" "unmount m' b' \<noteq> copy_in t m b"
  "RemovedAll p \<noteq> mount_dev d m b" "RemovedAll p \<noteq> unmount m b" "RemovedAll p \<noteq> copy_in t m b"
  "mount_dev d m b \<noteq> Removed p" "unmount m b \<noteq> Removed p" "copy_in t m b \<noteq> Removed p"
  by (auto simp: deed_defs)

lemma logged_umount:
  "umount (logged h) dir (x, ds) = (case umount h dir x of (r, x1) \<Rightarrow> (r, (x1, ds @ [unmount dir (snd r = None)])))"
  by (simp add: umount_def logged_def unmount_def case_prod_unfold)

lemma logged_steps [simp]:
  "tf_WriteClose (logged_files tf) n s (x, ds) = (fst (tf_WriteClose tf n s x), (snd (tf_WriteClose tf n s x), ds))"
  "tf_CreateTemp (logged_files tf) n (x, ds) = (fst (tf_CreateTemp tf n x), (snd (tf_CreateTemp tf n x), ds))"
  "hx_exec (logged h) [] [''sudo'', ''mount'', ''-o'', ''rw'', dev, dir] (x, ds) =
     (case hx_exec h [] [''sudo'', ''mount'', ''-o'', ''rw'', dev, dir] x of (r, x1) \<Rightarrow> (r, (x1, ds @ [mount_dev dev dir (snd r = None)])))"
  "hx_exec (logged h) [] [''sudo'', ''cp'', t, dir @ ''/etc/network/interfaces''] (x, ds) =
     (case hx_exec h [] [''sudo'', ''cp'', t, dir @ ''/etc/network/interfaces''] x of (r, x1) \<Rightarrow> (r, (x1, ds @ [copy_in t dir (snd r = None)])))"
  "hx_Remove (logged h) p (x, ds) = (case hx_Remove h p x of (r, x1) \<Rightarrow> (r, (x1, ds @ [Removed p])))"
  "hx_RemoveAll (logged h) p (x, ds) = (case hx_RemoveAll h p x of (r, x1) \<Rightarrow> (r, (x1, ds @ [RemovedAll p])))"
  "hx_MkdirTemp (logged h) p (x, ds) = (case hx_MkdirTemp h p x of (r, x1) \<Rightarrow> (r, (x1, ds)))"
  by (simp_all add: logged_simps deed_defs case_prod_unfold)

lemma write_interfaces_trace:
  assumes "write_interfaces (logged h) (logged_files tf) dir t ifaces (x, ds) = (r, (x', ds'))"
  shows "(\<exists>u. r \<noteq> None \<and> ds' = ds @ [unmount dir u]) \<or>
    (\<exists>u. r \<noteq> None \<and> ds' = ds @ [copy_in t dir False, unmount dir u]) \<or>
    ds' = ds @ [copy_in t dir True, unmount dir (r = None)]"
proof -
  obtain e1 x1 where w: "tf_WriteClose tf t ifaces x = (e1, x1)" by fastforce
  obtain o2 e2 x2 where c: "hx_exec h [] [''sudo'', ''cp'', t, dir @ ''/etc/network/interfaces''] x1 = ((o2, e2), x2)"
    by (metis prod.collapse)
  obtain o3 e3 x3 where u: "umount h dir x2 = ((o3, e3), x3)" by (metis prod.collapse)
  show ?thesis
  proof (cases e1)
    case None
    then show ?thesis
      using assms by (cases e2; cases e3; simp add: write_interfaces_def w c u logged_umount split: prod.splits) auto
  next
    case (Some e)
    then show ?thesis
      using assms by (auto simp: write_interfaces_def w logged_umount split: prod.splits)
  qed
qed

lemma inject_mounted_trace:
  assumes "inject_mounted (logged h) (logged_files tf) dir dev ip gw (x, []) = (r, (x', ds))"
  shows "injects dev dir (r = None) ds"
proof -
  obtain out err x1 where m: "hx_exec h [] [''sudo'', ''mount'', ''-o'', ''rw'', dev, dir] x = ((out, err), x1)"
    by (metis prod.collapse)
  obtain f x2 where f: "tf_CreateTemp tf ''rubbish-ifaces-*'' x1 = (f, x2)" by fastforce
  show ?thesis
  proof (cases err)
    case (Some e)
    then have "(r = None) = False" "ds = [mount_dev dev dir False]"
      using assms m by (auto simp: inject_mounted_def)
    then show ?thesis by (metis no_mount)
  next
    case None
    show ?thesis
    proof (cases f)
      case (Inl e)
      then have "(r = None) = False" "\<exists>u. ds = [mount_dev dev dir True, unmount dir u]"
        using assms m f None by (auto simp: inject_mounted_def logged_umount split: prod.splits)
      then show ?thesis by (metis no_temp)
    next
      case (Inr t)
      obtain r3 x3 ds3 where w: "write_interfaces (logged h) (logged_files tf) dir t (interfaces ip gw)
          (x2, [mount_dev dev dir True]) = (r3, (x3, ds3))"
        by (metis prod.collapse)
      have "r = r3" "ds = ds3 @ [Removed t]"
        using assms m f None Inr w by (auto simp: inject_mounted_def split: prod.splits)
      then show ?thesis
        using write_interfaces_trace [OF w] by (cases "r = None") (auto intro: injects.intros)
    qed
  qed
qed

lemma mounted_traces [simp]:
  "\<not> mounted_after dir [mount_dev dev dir False]"
  "mounted_after dir [mount_dev dev dir True, unmount dir u] = (\<not> u)"
  "mounted_after dir [mount_dev dev dir True, unmount dir u, Removed t] = (\<not> u)"
  "mounted_after dir [mount_dev dev dir True, copy_in t' dir c, unmount dir u, Removed t] = (\<not> u)"
  by (auto simp: mounted_after_def mount_step_def deed_defs)

text \<open>
  (C37) Injecting the network configuration never removes a directory but the temporary one it made, as its
  last deed. It reports success only after mounting the device, copying the file in and unmounting it. The
  temporary directory is removed recursively with the device still mounted on it, so that the removal runs
  over the snapshot's own files, exactly when the mount succeeded and the one attempt to unmount failed.
\<close>

theorem inject_mount:
  assumes "InjectNetworkConfig (logged h) (logged_files tf) dev ip gw (x, []) = (r, (x', ds))"
  shows "(r \<noteq> None \<and> ds = []) \<or>
    (\<exists>dir before. ds = before @ [RemovedAll dir] \<and> (\<forall>d. RemovedAll d \<notin> set before) \<and>
       (mounted_after dir before \<longleftrightarrow> mount_dev dev dir True \<in> set before \<and> unmount dir False \<in> set before) \<and>
       (r = None \<longleftrightarrow> (\<exists>t. before = [mount_dev dev dir True, copy_in t dir True, unmount dir True, Removed t])))"
proof (cases "hx_MkdirTemp h ''rubbish-mnt-*'' x")
  case (Pair d x1)
  show ?thesis
  proof (cases d)
    case (Inl e)
    then show ?thesis using assms by (auto simp: InjectNetworkConfig_def logged_simps Pair)
  next
    case (Inr dir)
    obtain r1 x2 b where m: "inject_mounted (logged h) (logged_files tf) dir dev ip gw (x1, []) = (r1, (x2, b))"
      by (metis prod.collapse)
    then have r: "r1 = r" and ds: "ds = b @ [RemovedAll dir]"
      using assms by (auto simp: InjectNetworkConfig_def Pair Inr split: prod.splits)
    from inject_mounted_trace [OF m] show ?thesis
      unfolding r ds by (intro disjI2 exI [of _ dir] exI [of _ b], cases rule: injects.cases) auto
  qed
qed

definition wiping_host :: "int host" where
  "wiping_host = \<lparr>hx_exec = \<lambda>_ args x. (([], if args ! 1 = ''umount'' then Some (errorf ''busy'') else None), x),
     hx_ctxErr = \<lambda>x. (None, x), hx_stat = \<lambda>_ x. (None, x), hx_MkdirAll = \<lambda>_ x. (None, x),
     hx_RemoveAll = \<lambda>_ x. (None, x), hx_Remove = \<lambda>_ x. (None, x), hx_MkdirTemp = \<lambda>_ x. (Inr ''/tmp/rubbish-mnt-1'', x)\<rparr>"

definition temp_in_tmp :: "int temp_files" where
  "temp_in_tmp = \<lparr>tf_CreateTemp = \<lambda>_ x. (Inr ''/tmp/rubbish-ifaces-1'', x), tf_WriteClose = \<lambda>_ _ x. (None, x)\<rparr>"

lemma wiping_simps:
  "hx_exec wiping_host d args x = (([], if args ! 1 = ''umount'' then Some (errorf ''busy'') else None), x)"
  "hx_Remove wiping_host p x = (None, x)" "hx_RemoveAll wiping_host p x = (None, x)"
  "hx_MkdirTemp wiping_host p x = (Inr ''/tmp/rubbish-mnt-1'', x)"
  "tf_CreateTemp temp_in_tmp p x = (Inr ''/tmp/rubbish-ifaces-1'', x)" "tf_WriteClose temp_in_tmp n t x = (None, x)"
  by (simp_all add: wiping_host_def temp_in_tmp_def)

theorem inject_mount_witness:
  "\<exists>r dir before x' ds. InjectNetworkConfig (logged wiping_host) (logged_files temp_in_tmp) ''/dev/d'' ''172.16.0.2'' ''172.16.0.1'' (0, []) = (r, (x', ds)) \<and>
     ds = before @ [RemovedAll dir] \<and> mounted_after dir before"
proof -
  let ?g = "InjectNetworkConfig (logged wiping_host) (logged_files temp_in_tmp) ''/dev/d'' ''172.16.0.2'' ''172.16.0.1'' (0, [])"
  have g: "?g = (fst ?g, (fst (snd ?g), snd (snd ?g)))" by simp
  have ds: "snd (snd ?g) = [mount_dev ''/dev/d'' ''/tmp/rubbish-mnt-1'' True, copy_in ''/tmp/rubbish-ifaces-1'' ''/tmp/rubbish-mnt-1'' True,
      unmount ''/tmp/rubbish-mnt-1'' False, Removed ''/tmp/rubbish-ifaces-1'', RemovedAll ''/tmp/rubbish-mnt-1'']"
    by (simp add: InjectNetworkConfig_def inject_mounted_def write_interfaces_def umount_def logged_simps wiping_simps deed_defs del: logged_steps)
  obtain dir before where b: "snd (snd ?g) = before @ [RemovedAll dir]"
      and m: "mounted_after dir before \<longleftrightarrow> mount_dev ''/dev/d'' dir True \<in> set before \<and> unmount dir False \<in> set before"
    using inject_mount [OF g] unfolding ds by blast
  from b have "dir = ''/tmp/rubbish-mnt-1''" and "before = butlast (snd (snd ?g))" by (simp_all add: ds) blast
  then have "mounted_after dir before" using m by (simp add: ds)
  with g b show ?thesis by blast
qed

end
