(* ===== verification/Repo_Cache.thy ===== *)
theory Repo_Cache
  imports Session_Manager Launcher
begin

text \<open>
  The cache of bare repositories under concurrent sessions: the mutex that \<^verbatim>\<open>repoLock\<close> makes for every
  name, \<^verbatim>\<open>EnsureBareRepo\<close> and \<^verbatim>\<open>LocalClone\<close> command by command, and the part of \<^verbatim>\<open>boot\<close> that calls them one after
  the other. \<open>Gitutil\<close> has the same functions as one step each, which is what they are when run alone
  (\<open>exec_ensure\<close>, \<open>exec_clone\<close>).
\<close>

section \<open>Command by command\<close>

definition ensure_steps :: "'x host \<Rightarrow> repocache \<Rightarrow> string \<Rightarrow> string \<Rightarrow> string \<Rightarrow> ('x, string result) prog" where
  "ensure_steps h c repoURL repoName token =
     bind (act (hx_MkdirAll h (rc_reposDir c))) (\<lambda>r.
     case r of
       Some e \<Rightarrow> Done (Inl (errorf_w (''create repos dir '' @ rc_reposDir c @ '': '') e []))
     | None \<Rightarrow>
         (let barePath = BareRepoPath c repoName;
              authURL = (if token \<noteq> [] then injectToken repoURL token else repoURL)
          in bind (act (hx_stat h barePath)) (\<lambda>r.
             case r of
               Some e \<Rightarrow>
                 if errors_Is e ErrNotExist then
                   bind (act (hx_exec h [] [''git'', ''clone'', ''--bare'', ''--'', authURL, barePath])) (\<lambda>(out, r).
                   case r of
                     Some e2 \<Rightarrow> Done (Inl (errorf_w (''git clone --bare '' @ repoURL @ '': '' @ out @ '': '') e2 []))
                   | None \<Rightarrow>
                       bind (act (runInRepo h barePath [''git'', ''config'', ''remote.origin.fetch'', ''+refs/heads/*:refs/heads/*''])) (\<lambda>_.
                       Done (Inr barePath)))
                 else Done (Inl (errorf_w (''stat '' @ barePath @ '': '') e []))
             | None \<Rightarrow>
                 bind (act (hx_exec h [] [''git'', ''-C'', barePath, ''fetch'', ''--prune'', authURL, ''+refs/heads/*:refs/heads/*''])) (\<lambda>_.
                 Done (Inr barePath)))))"

definition clone_steps :: "'x host \<Rightarrow> repocache \<Rightarrow> string \<Rightarrow> string \<Rightarrow> string \<Rightarrow> string \<Rightarrow> string \<Rightarrow> ('x, string result) prog" where
  "clone_steps h c barePath sessionID repoName branch repoURL =
     (let wsDir = WorkspaceDir c sessionID in
      bind (act (hx_MkdirAll h wsDir)) (\<lambda>r.
      case r of
        Some e \<Rightarrow> Done (Inl (errorf_w (''create workspace dir '' @ wsDir @ '': '') e []))
      | None \<Rightarrow>
          (let dest = WorkspaceRepoDir c sessionID repoName;
               args = [''clone'', ''--local''] @ (if branch \<noteq> [] then [''-b'', branch] else []) @ [''--'', barePath, dest]
           in bind (act (hx_exec h [] (''git'' # args))) (\<lambda>(out, r).
              case r of
                Some e \<Rightarrow> Done (Inl (errorf_w (''git clone --local '' @ barePath @ '': '' @ out @ '': '') e []))
              | None \<Rightarrow>
                  bind (if repoURL \<noteq> [] then bind (act (hx_exec h [] [''git'', ''-C'', dest, ''remote'', ''set-url'', ''origin'', repoURL])) (\<lambda>_. Done ())
                        else Done ()) (\<lambda>_.
                  bind (act (hx_exec h [] [''chown'', ''-R'', ''1000:1000'', dest])) (\<lambda>_.
                  Done (Inr dest)))))))"

lemma exec_ensure: "exec (ensure_steps h c u n t) x = EnsureBareRepo h c u n t x"
  by (simp add: ensure_steps_def EnsureBareRepo_def Let_def case_prod_unfold prod_eq_iff split: option.split)

lemma exec_clone: "exec (clone_steps h c p s n b u) x = LocalClone h c p s n b u x"
  by (simp add: clone_steps_def LocalClone_def Let_def case_prod_unfold prod_eq_iff split: option.split)

section \<open>Callers\<close>

text \<open>What \<^verbatim>\<open>boot\<close> asks for, and how far its goroutine has come.\<close>

record cache_request =
  rq_URL :: string
  rq_token :: string
  rq_session :: string
  rq_branch :: string

datatype 'x caller =
    Entering \<comment> \<open>before \<^verbatim>\<open>repoLock\<close>\<close>
  | Locking \<comment> \<open>at \<^verbatim>\<open>mu.Lock()\<close>\<close>
  | Ensuring "('x, string result) prog" \<comment> \<open>holding the mutex\<close>
  | Cloning "('x, string result) prog"
  | Prepared "string result"

record 'x cache =
  ca_locks :: "(string, bool) gomap" \<comment> \<open>the mutexes made so far, and whether they are held\<close>
  ca_ext :: 'x
  ca_log :: "nat list" \<comment> \<open>the callers of the steps made under a mutex, for the theorems\<close>

definition repoLock :: "string \<Rightarrow> (string, bool) gomap \<Rightarrow> (string, bool) gomap" where
  "repoLock name locks = (if gm_get locks name = None then gm_set name False locks else locks)"

abbreviation rq_name :: "cache_request \<Rightarrow> string" where
  "rq_name r \<equiv> repo_name (rq_URL r)"

definition ensure_of :: "'x host \<Rightarrow> repocache \<Rightarrow> cache_request \<Rightarrow> ('x, string result) prog" where
  "ensure_of h c r = ensure_steps h c (rq_URL r) (rq_name r) (rq_token r)"

definition after_ensure :: "'x host \<Rightarrow> repocache \<Rightarrow> cache_request \<Rightarrow> string result \<Rightarrow> 'x caller" where
  "after_ensure h c r res =
     (case res of
        Inl e \<Rightarrow> Prepared (Inl e)
      | Inr barePath \<Rightarrow> Cloning (clone_steps h c barePath (rq_session r) (rq_name r) (rq_branch r) (rq_URL r)))"

inductive cache_step :: "'x host \<Rightarrow> repocache \<Rightarrow> ('x \<Rightarrow> 'x \<Rightarrow> bool) \<Rightarrow> cache_request list \<Rightarrow>
    'x caller list \<times> 'x cache \<Rightarrow> 'x caller list \<times> 'x cache \<Rightarrow> bool" for h c E rs where
  find_lock: "i < length cs \<Longrightarrow> cs ! i = Entering \<Longrightarrow>
     cache_step h c E rs (cs, w) (cs[i := Locking], w\<lparr>ca_locks := repoLock (rq_name (rs ! i)) (ca_locks w)\<rparr>)"
| take_lock: "i < length cs \<Longrightarrow> cs ! i = Locking \<Longrightarrow> gm_get (ca_locks w) (rq_name (rs ! i)) = Some False \<Longrightarrow>
     cache_step h c E rs (cs, w)
       (cs[i := Ensuring (ensure_of h c (rs ! i))], w\<lparr>ca_locks := gm_set (rq_name (rs ! i)) True (ca_locks w)\<rparr>)"
| ensure: "i < length cs \<Longrightarrow> cs ! i = Ensuring (Step f) \<Longrightarrow> f (ca_ext w) = (p, x) \<Longrightarrow>
     cache_step h c E rs (cs, w) (cs[i := Ensuring p], w\<lparr>ca_ext := x, ca_log := ca_log w @ [i]\<rparr>)"
| unlock: "i < length cs \<Longrightarrow> cs ! i = Ensuring (Done res) \<Longrightarrow>
     cache_step h c E rs (cs, w)
       (cs[i := after_ensure h c (rs ! i) res], w\<lparr>ca_locks := gm_set (rq_name (rs ! i)) False (ca_locks w)\<rparr>)"
| clone: "i < length cs \<Longrightarrow> cs ! i = Cloning (Step f) \<Longrightarrow> f (ca_ext w) = (p, x) \<Longrightarrow>
     cache_step h c E rs (cs, w) (cs[i := Cloning p], w\<lparr>ca_ext := x\<rparr>)"
| cloned: "i < length cs \<Longrightarrow> cs ! i = Cloning (Done res) \<Longrightarrow> cache_step h c E rs (cs, w) (cs[i := Prepared res], w)"
| elsewhere: "E (ca_ext w) x \<Longrightarrow> cache_step h c E rs (cs, w) (cs, w\<lparr>ca_ext := x\<rparr>)"

inductive_cases cache_stepE: "cache_step h c E rs (cs, w) d"

inductive cache_reach :: "'x host \<Rightarrow> repocache \<Rightarrow> ('x \<Rightarrow> 'x \<Rightarrow> bool) \<Rightarrow> cache_request list \<Rightarrow>
    'x caller list \<times> 'x cache \<Rightarrow> 'x caller list \<times> 'x cache \<Rightarrow> bool" for h c E rs where
  reach_refl: "cache_reach h c E rs d d"
| reach_next: "cache_reach h c E rs d e \<Longrightarrow> cache_step h c E rs e f \<Longrightarrow> cache_reach h c E rs d f"

definition cache_start :: "cache_request list \<Rightarrow> 'x \<Rightarrow> 'x caller list \<times> 'x cache" where
  "cache_start rs x = (map (\<lambda>_. Entering) rs, \<lparr>ca_locks = [], ca_ext = x, ca_log = []\<rparr>)"

section \<open>One caller at a time\<close>

fun ensuring :: "'x caller \<Rightarrow> bool" where
  "ensuring (Ensuring p) = True"
| "ensuring _ = False"

fun waiting :: "'x caller \<Rightarrow> bool" where
  "waiting Entering = True"
| "waiting Locking = True"
| "waiting _ = False"

text \<open>The callers of the steps under the mutex of one name, in order.\<close>

definition under :: "cache_request list \<Rightarrow> string \<Rightarrow> nat list \<Rightarrow> nat list" where
  "under rs n log = filter (\<lambda>i. rq_name (rs ! i) = n) log"

definition cache_inv :: "cache_request list \<Rightarrow> 'x caller list \<times> 'x cache \<Rightarrow> bool" where
  "cache_inv rs = (\<lambda>(cs, w). length cs = length rs \<and>
     (\<forall>i<length cs. ensuring (cs ! i) \<longrightarrow> gm_get (ca_locks w) (rq_name (rs ! i)) = Some True) \<and>
     (\<forall>i<length cs. \<forall>j<length cs. ensuring (cs ! i) \<and> ensuring (cs ! j) \<and> rq_name (rs ! i) = rq_name (rs ! j) \<longrightarrow> i = j) \<and>
     (\<forall>i\<in>set (ca_log w). i < length cs \<and> \<not> waiting (cs ! i)) \<and>
     (\<forall>i<length cs. ensuring (cs ! i) \<and> i \<in> set (ca_log w) \<longrightarrow> last (under rs (rq_name (rs ! i)) (ca_log w)) = i) \<and>
     (\<forall>n. distinct (remdups_adj (under rs n (ca_log w)))))"

lemma remdups_adj_snoc:
  "remdups_adj (xs @ [x]) = (if xs \<noteq> [] \<and> last xs = x then remdups_adj xs else remdups_adj xs @ [x])"
  by (induction xs rule: remdups_adj.induct) auto

lemma distinct_snoc:
  "distinct (remdups_adj xs) \<Longrightarrow> (x \<in> set xs \<Longrightarrow> last xs = x) \<Longrightarrow> distinct (remdups_adj (xs @ [x]))"
  by (auto simp: remdups_adj_snoc)

lemma under_snoc: "under rs n (log @ [i]) = (if rq_name (rs ! i) = n then under rs n log @ [i] else under rs n log)"
  by (simp add: under_def)

lemma under_mem: "i \<in> set (under rs n log) \<longleftrightarrow> i \<in> set log \<and> rq_name (rs ! i) = n"
  by (auto simp: under_def)

lemma repoLock_held: "gm_get (repoLock n locks) m = Some True \<longleftrightarrow> gm_get locks m = Some True"
  by (auto simp: repoLock_def)

lemma after_ensure_kind [simp]: "\<not> ensuring (after_ensure h c r res)" "\<not> waiting (after_ensure h c r res)"
  by (simp_all add: after_ensure_def split: sum.split)

text \<open>A caller that moves on without taking a mutex and without a step under one.\<close>

lemma inv_moves:
  assumes "cache_inv rs (cs, w)" and "i < length cs" and "\<not> ensuring k" and "waiting k \<longrightarrow> waiting (cs ! i)"
    and "ca_log w' = ca_log w" and "\<And>j. j < length cs \<Longrightarrow> j \<noteq> i \<Longrightarrow> ensuring (cs ! j) \<Longrightarrow> gm_get (ca_locks w') (rq_name (rs ! j)) = Some True"
  shows "cache_inv rs (cs[i := k], w')"
  using assms unfolding cache_inv_def by (auto simp: nth_list_update)

lemma cache_step_inv:
  assumes "cache_step h c E rs (cs, w) d" and inv: "cache_inv rs (cs, w)"
  shows "cache_inv rs d"
  using assms(1)
proof (rule cache_stepE)
  fix i assume d: "d = (cs[i := Locking], w\<lparr>ca_locks := repoLock (rq_name (rs ! i)) (ca_locks w)\<rparr>)" "i < length cs" "cs ! i = Entering"
  show ?thesis unfolding d(1)
    by (rule inv_moves [OF inv d(2)]) (use inv d in \<open>auto simp: cache_inv_def repoLock_held\<close>)
next
  fix i assume d: "d = (cs[i := Ensuring (ensure_of h c (rs ! i))], w\<lparr>ca_locks := gm_set (rq_name (rs ! i)) True (ca_locks w)\<rparr>)"
    "i < length cs" "cs ! i = Locking" "gm_get (ca_locks w) (rq_name (rs ! i)) = Some False"
  have free: "rq_name (rs ! j) \<noteq> rq_name (rs ! i)" "rq_name (rs ! i) \<noteq> rq_name (rs ! j)" if "j < length cs" "ensuring (cs ! j)" for j
    using inv that d(4) by (auto simp: cache_inv_def)
  have new: "i \<notin> set (ca_log w)" using inv d(3) by (auto simp: cache_inv_def)
  show ?thesis
    using inv free new d(2) unfolding d(1) cache_inv_def by (auto simp: nth_list_update)
next
  fix i f p x assume d: "d = (cs[i := Ensuring p], w\<lparr>ca_ext := x, ca_log := ca_log w @ [i]\<rparr>)" "i < length cs" "cs ! i = Ensuring (Step f)"
  have one: "j = i" if "j < length cs" "ensuring (cs ! j)" "rq_name (rs ! j) = rq_name (rs ! i)" for j
    using inv that d(2,3) by (auto simp: cache_inv_def)
  have last: "i \<in> set (under rs n (ca_log w)) \<Longrightarrow> last (under rs n (ca_log w)) = i" for n
    using inv d(2,3) by (auto simp: cache_inv_def under_mem)
  have "distinct (remdups_adj (under rs n (ca_log w @ [i])))" for n
    using inv last [of n] by (auto simp: cache_inv_def under_snoc intro: distinct_snoc)
  then show ?thesis
    using inv one d(2,3) unfolding d(1) cache_inv_def by (auto simp: nth_list_update under_snoc)
next
  fix i res assume d: "d = (cs[i := after_ensure h c (rs ! i) res], w\<lparr>ca_locks := gm_set (rq_name (rs ! i)) False (ca_locks w)\<rparr>)"
    "i < length cs" "cs ! i = Ensuring (Done res)"
  have one: "j = i" if "j < length cs" "ensuring (cs ! j)" "rq_name (rs ! j) = rq_name (rs ! i)" for j
    using inv that d(2,3) by (auto simp: cache_inv_def)
  show ?thesis unfolding d(1)
    by (rule inv_moves [OF inv d(2)]) (use inv d one in \<open>auto simp: cache_inv_def\<close>)
next
  fix i f p x assume d: "d = (cs[i := Cloning p], w\<lparr>ca_ext := x\<rparr>)" "i < length cs"
  show ?thesis unfolding d(1)
    by (rule inv_moves [OF inv d(2)]) (use inv in \<open>auto simp: cache_inv_def\<close>)
next
  fix i res assume d: "d = (cs[i := Prepared res], w)" "i < length cs"
  show ?thesis unfolding d(1)
    by (rule inv_moves [OF inv d(2)]) (use inv in \<open>auto simp: cache_inv_def\<close>)
next
  fix x assume d: "d = (cs, w\<lparr>ca_ext := x\<rparr>)"
  show ?thesis using inv unfolding d cache_inv_def by auto
qed

lemma cache_reach_inv:
  assumes "cache_reach h c E rs d e" and "cache_inv rs d"
  shows "cache_inv rs e"
  using assms by (induction rule: cache_reach.induct) (metis cache_step_inv prod.collapse)+

lemma cache_start_inv: "cache_inv rs (cache_start rs x)"
  by (simp add: cache_inv_def cache_start_def under_def)


section \<open>Between the fetch and the clone\<close>

lemma cache_reach_trans:
  assumes "cache_reach h c E rs e f" and "cache_reach h c E rs d e"
  shows "cache_reach h c E rs d f"
  using assms by (induction rule: cache_reach.induct) (auto intro: reach_next)

lemma reach_step: "cache_step h c E rs d e \<Longrightarrow> cache_reach h c E rs d e"
  by (rule reach_next [OF reach_refl])

text \<open>A caller that moves alone does what its function does.\<close>

lemma ensuring_alone:
  assumes "i < length cs" and "cs ! i = Ensuring p"
  shows "\<exists>log. cache_reach h c E rs (cs, w)
    (cs[i := Ensuring (Done (fst (exec p (ca_ext w))))], w\<lparr>ca_ext := snd (exec p (ca_ext w)), ca_log := log\<rparr>)"
  using assms
proof (induction p arbitrary: cs w rule: prog_induct)
  case (Done a)
  then have "cs[i := Ensuring (Done a)] = cs" by (metis list_update_id)
  then show ?case by (intro exI [of _ "ca_log w"]) (simp add: reach_refl)
next
  case (Step f)
  let ?p = "fst (f (ca_ext w))" and ?w = "w\<lparr>ca_ext := snd (f (ca_ext w)), ca_log := ca_log w @ [i]\<rparr>"
  have one: "cache_reach h c E rs (cs, w) (cs[i := Ensuring ?p], ?w)"
    by (rule reach_step, rule cache_step.ensure) (use Step.prems in simp_all)
  obtain log where "cache_reach h c E rs (cs[i := Ensuring ?p], ?w)
      (cs[i := Ensuring (Done (fst (exec ?p (snd (f (ca_ext w))))))], w\<lparr>ca_ext := snd (exec ?p (snd (f (ca_ext w)))), ca_log := log\<rparr>)"
    using Step.IH [where s = "ca_ext w" and cs = "cs[i := Ensuring ?p]" and w = ?w] Step.prems(1) by auto
  from cache_reach_trans [OF this one] show ?case unfolding exec_Step by auto
qed

lemma cloning_alone:
  assumes "i < length cs" and "cs ! i = Cloning p"
  shows "cache_reach h c E rs (cs, w) (cs[i := Prepared (fst (exec p (ca_ext w)))], w\<lparr>ca_ext := snd (exec p (ca_ext w))\<rparr>)"
  using assms
proof (induction p arbitrary: cs w rule: prog_induct)
  case (Done a)
  then show ?case using reach_step [OF cache_step.cloned [OF Done.prems]] by simp
next
  case (Step f)
  let ?p = "fst (f (ca_ext w))" and ?w = "w\<lparr>ca_ext := snd (f (ca_ext w))\<rparr>"
  have one: "cache_reach h c E rs (cs, w) (cs[i := Cloning ?p], ?w)"
    by (rule reach_step, rule cache_step.clone) (use Step.prems in simp_all)
  have "cache_reach h c E rs (cs[i := Cloning ?p], ?w)
      (cs[i := Prepared (fst (exec ?p (snd (f (ca_ext w)))))], w\<lparr>ca_ext := snd (exec ?p (snd (f (ca_ext w))))\<rparr>)"
    using Step.IH [where s = "ca_ext w" and cs = "cs[i := Cloning ?p]" and w = ?w] Step.prems(1) by simp
  from cache_reach_trans [OF this one] show ?case unfolding exec_Step by simp
qed

definition idle_locks :: "'x cache \<Rightarrow> bool" where
  "idle_locks w \<longleftrightarrow> (\<forall>n. gm_get (ca_locks w) n \<noteq> Some True)"

lemma ensure_alone:
  assumes "i < length cs" and "cs ! i = Entering" and "idle_locks w"
    and "EnsureBareRepo h c (rq_URL (rs ! i)) (rq_name (rs ! i)) (rq_token (rs ! i)) (ca_ext w) = (res, x)"
  shows "\<exists>v. cache_reach h c E rs (cs, w) (cs[i := after_ensure h c (rs ! i) res], v) \<and> idle_locks v \<and> ca_ext v = x"
proof -
  let ?n = "rq_name (rs ! i)"
  let ?w1 = "w\<lparr>ca_locks := repoLock ?n (ca_locks w)\<rparr>"
  let ?w2 = "?w1\<lparr>ca_locks := gm_set ?n True (ca_locks ?w1)\<rparr>"
  have e: "exec (ensure_of h c (rs ! i)) (ca_ext w) = (res, x)" using assms(4) by (simp add: ensure_of_def exec_ensure)
  have "gm_get (ca_locks ?w1) ?n = Some False"
    using assms(3) by (cases "gm_get (ca_locks w) ?n") (auto simp: repoLock_def idle_locks_def)
  then have two: "cache_reach h c E rs (cs[i := Locking], ?w1) (cs[i := Ensuring (ensure_of h c (rs ! i))], ?w2)"
    using reach_step [OF cache_step.take_lock [of i "cs[i := Locking]" ?w1 rs h c E]] assms(1) by simp
  have one: "cache_reach h c E rs (cs, w) (cs[i := Locking], ?w1)"
    by (rule reach_step [OF cache_step.find_lock [OF assms(1,2)]])
  obtain log where three: "cache_reach h c E rs (cs[i := Ensuring (ensure_of h c (rs ! i))], ?w2)
      (cs[i := Ensuring (Done res)], ?w2\<lparr>ca_ext := x, ca_log := log\<rparr>)"
    using ensuring_alone [of i "cs[i := Ensuring (ensure_of h c (rs ! i))]" _ h c E rs ?w2] assms(1) by (auto simp: e)
  let ?w3 = "?w2\<lparr>ca_ext := x, ca_log := log\<rparr>"
  let ?w4 = "?w3\<lparr>ca_locks := gm_set ?n False (ca_locks ?w3)\<rparr>"
  have four: "cache_reach h c E rs (cs[i := Ensuring (Done res)], ?w3) (cs[i := after_ensure h c (rs ! i) res], ?w4)"
    using reach_step [OF cache_step.unlock [of i "cs[i := Ensuring (Done res)]" res h c E rs ?w3]] assms(1) by simp
  have "idle_locks ?w4" using assms(3) by (auto simp: idle_locks_def repoLock_def)
  then show ?thesis
    using cache_reach_trans [OF four cache_reach_trans [OF three cache_reach_trans [OF two one]]] by (intro exI [of _ ?w4]) simp
qed

text \<open>The two fetches may both come before the first clone.\<close>

lemma two_fetches_first:
  assumes "EnsureBareRepo h c (rq_URL a) (rq_name a) (rq_token a) x = (Inr p, x1)"
    and "EnsureBareRepo h c (rq_URL b) (rq_name b) (rq_token b) x1 = (Inr q, x2)"
    and "LocalClone h c p (rq_session a) (rq_name a) (rq_branch a) (rq_URL a) x2 = (res, x3)"
  shows "\<exists>cs w. cache_reach h c E [a, b] (cache_start [a, b] x) (cs, w) \<and> cs ! 0 = Prepared res \<and> ca_ext w = x3"
proof -
  let ?s = "\<lparr>ca_locks = [], ca_ext = x, ca_log = []\<rparr>" and ?a = "clone_steps h c p (rq_session a) (rq_name a) (rq_branch a) (rq_URL a)"
  obtain v where v: "cache_reach h c E [a, b] ([Entering, Entering], ?s) ([Cloning ?a, Entering], v)" "idle_locks v" "ca_ext v = x1"
    using ensure_alone [of 0 "[Entering, Entering]" ?s h c "[a, b]" "Inr p" x1 E] assms(1)
    by (auto simp: idle_locks_def after_ensure_def)
  obtain u k where u: "cache_reach h c E [a, b] ([Cloning ?a, Entering], v) ([Cloning ?a, k], u)" "ca_ext u = x2"
    using ensure_alone [of 1 "[Cloning ?a, Entering]" v h c "[a, b]" "Inr q" x2 E] assms(2) v(2,3) by auto
  have "cache_reach h c E [a, b] ([Cloning ?a, k], u) ([Prepared res, k], u\<lparr>ca_ext := x3\<rparr>)"
    using cloning_alone [of 0 "[Cloning ?a, k]" ?a h c E "[a, b]" u] by (simp add: exec_clone u(2) assms(3))
  from cache_reach_trans [OF this cache_reach_trans [OF u(1) v(1)]]
  show ?thesis by (intro exI [of _ "[Prepared res, k]"] exI [of _ "u\<lparr>ca_ext := x3\<rparr>"]) (simp add: cache_start_def)
qed

text \<open>What the commands are for a request whose bare repository exists.\<close>

definition fetch_cmd :: "repocache \<Rightarrow> cache_request \<Rightarrow> string list" where
  "fetch_cmd c r = [''git'', ''-C'', BareRepoPath c (rq_name r), ''fetch'', ''--prune'',
     if rq_token r \<noteq> [] then injectToken (rq_URL r) (rq_token r) else rq_URL r, ''+refs/heads/*:refs/heads/*'']"

definition clone_dest :: "repocache \<Rightarrow> cache_request \<Rightarrow> string" where
  "clone_dest c r = WorkspaceRepoDir c (rq_session r) (rq_name r)"

definition clone_cmd :: "repocache \<Rightarrow> cache_request \<Rightarrow> string list" where
  "clone_cmd c r = [''git'', ''clone'', ''--local''] @ (if rq_branch r \<noteq> [] then [''-b'', rq_branch r] else []) @
     [''--'', BareRepoPath c (rq_name r), clone_dest c r]"

definition origin_cmd :: "repocache \<Rightarrow> cache_request \<Rightarrow> string list" where
  "origin_cmd c r = [''git'', ''-C'', clone_dest c r, ''remote'', ''set-url'', ''origin'', rq_URL r]"

definition obliging :: "'x host \<Rightarrow> bool" where
  "obliging h \<longleftrightarrow> (\<forall>p x. fst (hx_MkdirAll h p x) = None \<and> fst (hx_stat h p x) = None) \<and> (\<forall>d k x. snd (fst (hx_exec h d k x)) = None)"

lemma obliging_ensure:
  assumes "obliging h"
  shows "\<exists>y. EnsureBareRepo (logged h) c (rq_URL r) (rq_name r) (rq_token r) (x, ds) =
    (Inr (BareRepoPath c (rq_name r)), (y, ds @ [Ran (fetch_cmd c r) True]))"
  using assms by (simp add: EnsureBareRepo_def logged_def obliging_def fetch_cmd_def case_prod_unfold Let_def)

lemma obliging_clone:
  assumes "obliging h" and "rq_URL r \<noteq> []"
  shows "\<exists>y. LocalClone (logged h) c (BareRepoPath c (rq_name r)) (rq_session r) (rq_name r) (rq_branch r) (rq_URL r) (x, ds) =
    (Inr (clone_dest c r), (y, ds @ [Ran (clone_cmd c r) True, Ran (origin_cmd c r) True, Ran [''chown'', ''-R'', ''1000:1000'', clone_dest c r] True]))"
  using assms by (simp add: LocalClone_def logged_def obliging_def clone_cmd_def origin_cmd_def clone_dest_def case_prod_unfold Let_def)

text \<open>
  (C35) The mutex ends before the clone: of two sessions whose repositories differ but end in the same name, the first can be given a
  clone of the second's repository, made right after the second's branches were forced into the bare repository that both use. The
  clone succeeds, and its origin is then set to the first session's own repository.
\<close>

theorem clone_of_another:
  assumes "rq_name a = rq_name b" and "rq_URL a \<noteq> []" and "obliging h"
  shows "\<exists>cs w. cache_reach (logged h) c E [a, b] (cache_start [a, b] (x, [])) (cs, w) \<and> cs ! 0 = Prepared (Inr (clone_dest c a)) \<and>
    snd (ca_ext w) = [Ran (fetch_cmd c a) True, Ran (fetch_cmd c b) True, Ran (clone_cmd c a) True, Ran (origin_cmd c a) True,
      Ran [''chown'', ''-R'', ''1000:1000'', clone_dest c a] True] \<and>
    fetch_cmd c b ! 2 = fetch_cmd c a ! 2"
proof -
  obtain y where y: "EnsureBareRepo (logged h) c (rq_URL a) (rq_name a) (rq_token a) (x, []) =
      (Inr (BareRepoPath c (rq_name a)), (y, [Ran (fetch_cmd c a) True]))"
    using obliging_ensure [OF assms(3), of c a x "[]"] by auto
  obtain z where z: "EnsureBareRepo (logged h) c (rq_URL b) (rq_name b) (rq_token b) (y, [Ran (fetch_cmd c a) True]) =
      (Inr (BareRepoPath c (rq_name b)), (z, [Ran (fetch_cmd c a) True, Ran (fetch_cmd c b) True]))"
    using obliging_ensure [OF assms(3), of c b y "[Ran (fetch_cmd c a) True]"] by auto
  obtain u where u: "LocalClone (logged h) c (BareRepoPath c (rq_name a)) (rq_session a) (rq_name a) (rq_branch a) (rq_URL a)
      (z, [Ran (fetch_cmd c a) True, Ran (fetch_cmd c b) True]) =
      (Inr (clone_dest c a), (u, [Ran (fetch_cmd c a) True, Ran (fetch_cmd c b) True, Ran (clone_cmd c a) True, Ran (origin_cmd c a) True,
        Ran [''chown'', ''-R'', ''1000:1000'', clone_dest c a] True]))"
    using obliging_clone [OF assms(3,2), of c z "[Ran (fetch_cmd c a) True, Ran (fetch_cmd c b) True]"] by auto
  show ?thesis using two_fetches_first [OF y z u, of E] assms(1) by (force simp: fetch_cmd_def)
qed

definition two_repos :: "cache_request list" where
  "two_repos = [\<lparr>rq_URL = ''https://github.com/ann/app'', rq_token = [], rq_session = ''s1'', rq_branch = []\<rparr>,
     \<lparr>rq_URL = ''git@github.com:bob/app.git'', rq_token = [], rq_session = ''s2'', rq_branch = []\<rparr>]"

definition two_cache :: repocache where
  "two_cache = \<lparr>rc_reposDir = ''/repos'', rc_workspacesDir = ''/ws''\<rparr>"

definition quiet_host :: "unit host" where
  "quiet_host = \<lparr>hx_exec = \<lambda>_ _ x. (([], None), x), hx_ctxErr = \<lambda>x. (None, x), hx_stat = \<lambda>_ x. (None, x), hx_MkdirAll = \<lambda>_ x. (None, x),
     hx_RemoveAll = \<lambda>_ x. (None, x), hx_Remove = \<lambda>_ x. (None, x), hx_MkdirTemp = \<lambda>_ x. (Inr [], x)\<rparr>"

lemma two_repos_names: "rq_name (two_repos ! 0) = ''app''" "rq_name (two_repos ! 1) = ''app''"
  by code_simp+

theorem clone_of_another_witness:
  "\<exists>cs w. cache_reach (logged quiet_host) two_cache (=) [two_repos ! 0, two_repos ! 1] (cache_start [two_repos ! 0, two_repos ! 1] ((), [])) (cs, w) \<and>
     cs ! 0 = Prepared (Inr (clone_dest two_cache (two_repos ! 0))) \<and> rq_URL (two_repos ! 0) \<noteq> rq_URL (two_repos ! 1)"
proof -
  have "obliging quiet_host" by (simp add: obliging_def quiet_host_def)
  moreover have "rq_URL (two_repos ! 0) \<noteq> []" "rq_URL (two_repos ! 0) \<noteq> rq_URL (two_repos ! 1)" by (simp_all add: two_repos_def)
  ultimately show ?thesis
    using clone_of_another [of "two_repos ! 0" "two_repos ! 1" quiet_host two_cache "(=)" "()"] two_repos_names by (metis (no_types, lifting))
qed

text \<open>One of them at work on the bare repository while the other waits for the mutex.\<close>

definition at_work :: "(unit \<times> deed list) caller list \<times> (unit \<times> deed list) cache" where
  "at_work = (let h = logged quiet_host in
     ([case ensure_of h two_cache (two_repos ! 0) of Step f \<Rightarrow> Ensuring (fst (f ((), []))) | Done r \<Rightarrow> Entering, Locking],
      \<lparr>ca_locks = [(''app'', True)], ca_ext = ((), []), ca_log = [0]\<rparr>))"

lemma at_work_reached: "cache_reach (logged quiet_host) two_cache (=) two_repos (cache_start two_repos ((), [])) at_work"
proof -
  let ?h = "logged quiet_host" and ?s = "\<lparr>ca_locks = [], ca_ext = ((), []), ca_log = []\<rparr> :: (unit \<times> deed list) cache"
  let ?r = "cache_reach ?h two_cache (=) two_repos"
  obtain f where f: "ensure_of ?h two_cache (two_repos ! 0) = Step f" "snd (f ((), [])) = ((), [])"
    by (simp add: ensure_of_def ensure_steps_def act_def logged_def quiet_host_def)
  have start: "cache_start two_repos ((), []) = ([Entering, Entering], ?s)" by (simp add: cache_start_def two_repos_def)
  have a: "?r ([Entering, Entering], ?s) ([Locking, Entering], ?s\<lparr>ca_locks := [(''app'', False)]\<rparr>)"
    using reach_step [OF cache_step.find_lock [of 0 "[Entering, Entering]" ?h two_cache "(=)" two_repos ?s]] two_repos_names
    by (simp add: repoLock_def)
  have b: "?r ([Locking, Entering], ?s\<lparr>ca_locks := [(''app'', False)]\<rparr>) ([Locking, Locking], ?s\<lparr>ca_locks := [(''app'', False)]\<rparr>)"
    using reach_step [OF cache_step.find_lock [of 1 "[Locking, Entering]" ?h two_cache "(=)" two_repos "?s\<lparr>ca_locks := [(''app'', False)]\<rparr>"]] two_repos_names
    by (simp add: repoLock_def)
  have c: "?r ([Locking, Locking], ?s\<lparr>ca_locks := [(''app'', False)]\<rparr>) ([Ensuring (Step f), Locking], ?s\<lparr>ca_locks := [(''app'', True)]\<rparr>)"
    using reach_step [OF cache_step.take_lock [of 0 "[Locking, Locking]" "?s\<lparr>ca_locks := [(''app'', False)]\<rparr>" two_repos ?h two_cache "(=)"]] two_repos_names
    by (simp add: f(1))
  have d: "?r ([Ensuring (Step f), Locking], ?s\<lparr>ca_locks := [(''app'', True)]\<rparr>) at_work"
    using reach_step [OF cache_step.ensure [of 0 "[Ensuring (Step f), Locking]" f "?s\<lparr>ca_locks := [(''app'', True)]\<rparr>" "fst (f ((), []))" "((), [])" ?h two_cache "(=)" two_repos]]
    by (simp add: at_work_def f prod_eq_iff)
  show ?thesis unfolding start using cache_reach_trans [OF d cache_reach_trans [OF c cache_reach_trans [OF b a]]] .
qed

lemma all_less_two: "(\<forall>i<2. P i) \<longleftrightarrow> P 0 \<and> P (Suc 0)"
  by (auto simp: numeral_2_eq_2 less_Suc_eq)


end
