(* ===== verification/Workflow_Open.thy ===== *)
theory Workflow_Open
  imports Workflow_Store Session_Contract
begin

text \<open>
  \<^verbatim>\<open>Open\<close> of \<^verbatim>\<open>internal/workflow/store.go\<close>: reading the workflows back from their file. The status and the
  kind of a stage are strings in Go, and the types of the model have the constants the program defines; a file
  with another one, with a \<^verbatim>\<open>null\<close> for a workflow, or with a key \<^verbatim>\<open>Stages\<close> that occurs twice is decoded to
  \<open>Some None\<close>, outside the model. The program writes none of these.
\<close>

section \<open>Decoding\<close>

definition wf_status_of :: "string \<Rightarrow> wf_status option" where
  "wf_status_of s = find (\<lambda>x. wf_status_str x = s) [StatusQueued, StatusRunning, StatusDone, StatusFailed]"

definition stage_status_of :: "string \<Rightarrow> stage_status option" where
  "stage_status_of s = find (\<lambda>x. stage_status_str x = s) [StagePending, StageRunning, StageDone, StageFailed]"

definition stage_kind_of :: "string \<Rightarrow> stage_kind option" where
  "stage_kind_of s = find (\<lambda>x. stage_kind_str x = s) [KindResearch, KindPlan, KindImplement, KindReview, KindVerify, KindMerge]"

lemma constants_read [simp]:
  "wf_status_of (wf_status_str a) = Some a" "stage_status_of (stage_status_str b) = Some b" "stage_kind_of (stage_kind_str c) = Some c"
  by ((cases a; simp add: wf_status_of_def)[1], (cases b; simp add: stage_status_of_def)[1], (cases c; simp add: stage_kind_of_def)[1])

fun dec_stage :: "json \<Rightarrow> stage option option" where
  "dec_stage (JObj ms) =
     Option.bind (dec_string [] (field_values ''ID'' ms)) (\<lambda>i.
     Option.bind (dec_string [] (field_values ''Kind'' ms)) (\<lambda>kind.
     Option.bind (dec_string [] (field_values ''SessionID'' ms)) (\<lambda>sid.
     Option.bind (dec_string [] (field_values ''Status'' ms)) (\<lambda>status.
     Option.bind (dec_string [] (field_values ''Input'' ms)) (\<lambda>inp.
     Option.bind (dec_string [] (field_values ''Output'' ms)) (\<lambda>out.
     Option.bind (dec_string [] (field_values ''Error'' ms)) (\<lambda>err.
     Option.bind (dec_string [] (field_values ''VerifySessionID'' ms)) (\<lambda>vid.
     Some (case (stage_kind_of kind, stage_status_of status) of
             (Some k, Some st) \<Rightarrow>
               Some \<lparr>st_ID = i, st_Kind = k, st_SessionID = sid, st_Status = st, st_Input = inp, st_Output = out,
                 st_Error = err, st_VerifySessionID = vid\<rparr>
           | _ \<Rightarrow> None)))))))))"
| "dec_stage JNull = Some None"
| "dec_stage _ = None"

fun dec_stage_elems :: "json list \<Rightarrow> stage list option option" where
  "dec_stage_elems [] = Some (Some [])"
| "dec_stage_elems (v # vs) =
     Option.bind (dec_stage v) (\<lambda>st.
     Option.bind (dec_stage_elems vs) (\<lambda>sts.
     Some (case (st, sts) of (Some x, Some xs) \<Rightarrow> Some (x # xs) | _ \<Rightarrow> None)))"

fun dec_stages :: "json list \<Rightarrow> stage list option option" where
  "dec_stages [] = Some (Some [])"
| "dec_stages [JNull] = Some (Some [])"
| "dec_stages [JArr es] = dec_stage_elems es"
| "dec_stages [v] = None"
| "dec_stages _ = Some None"

fun dec_config :: "workflow_config \<Rightarrow> json list \<Rightarrow> workflow_config option" where
  "dec_config c [] = Some c"
| "dec_config c (JObj ms # vs) =
     Option.bind (dec_string (VerifierPrompt c) (field_values ''VerifierPrompt'' ms)) (\<lambda>p. dec_config (c\<lparr>VerifierPrompt := p\<rparr>) vs)"
| "dec_config c (JNull # vs) = dec_config c vs"
| "dec_config c (_ # vs) = None"

fun dec_workflow :: "json \<Rightarrow> wf_val option option" where
  "dec_workflow (JObj ms) =
     Option.bind (dec_string [] (field_values ''ID'' ms)) (\<lambda>i.
     Option.bind (dec_string [] (field_values ''Input'' ms)) (\<lambda>inp.
     Option.bind (dec_string [] (field_values ''RepoURL'' ms)) (\<lambda>url.
     Option.bind (dec_string [] (field_values ''Branch'' ms)) (\<lambda>branch.
     Option.bind (dec_string [] (field_values ''Status'' ms)) (\<lambda>status.
     Option.bind (dec_stages (field_values ''Stages'' ms)) (\<lambda>stages.
     Option.bind (dec_string [] (field_values ''Error'' ms)) (\<lambda>err.
     Option.bind (dec_config \<lparr>VerifierPrompt = []\<rparr> (field_values ''Config'' ms)) (\<lambda>config.
     Option.bind (dec_time zero_time (field_values ''CreatedAt'' ms)) (\<lambda>created.
     Option.bind (dec_time zero_time (field_values ''UpdatedAt'' ms)) (\<lambda>updated.
     Some (case (wf_status_of status, stages) of
             (Some st, Some sts) \<Rightarrow>
               Some \<lparr>wf_ID = i, wf_Input = inp, wf_RepoURL = url, wf_Branch = branch, wf_Status = st, wf_Stages = sts,
                 wf_Error = err, wf_Config = config, wf_CreatedAt = created, wf_UpdatedAt = updated\<rparr>
           | _ \<Rightarrow> None)))))))))))"
| "dec_workflow JNull = Some None"
| "dec_workflow _ = None"

text \<open>\<^verbatim>\<open>json.Unmarshal(b, &s.data)\<close> into an empty map; a nil map is replaced by an empty one.\<close>

definition unmarshal_workflows :: "string \<Rightarrow> (string, wf_val option) gomap option" where
  "unmarshal_workflows b =
     (case json_parse b of
        Some (JObj ms) \<Rightarrow>
          map_option (\<lambda>m. case m of None \<Rightarrow> [] | Some m \<Rightarrow> m) (dec_map dec_workflow (Some []) (field_values ''workflows'' ms))
      | Some JNull \<Rightarrow> Some []
      | _ \<Rightarrow> None)"

definition all_known :: "(string, 'v option) gomap \<Rightarrow> (string, 'v) gomap option" where
  "all_known m = (if list_all (\<lambda>kv. snd kv \<noteq> None) m then Some (map (\<lambda>kv. (fst kv, the (snd kv))) m) else None)"

text \<open>\<open>jerr\<close> is the error of the JSON package.\<close>

definition wf_Open :: "store_env \<Rightarrow> goerror \<Rightarrow> fs \<Rightarrow> (string, wf_val) gomap option result \<times> fs" where
  "wf_Open se jerr fs0 =
     (case ReadFile (se_fs se) (se_path se) fs0 of
        (Inl e, fs1) \<Rightarrow> (if errors_Is e ErrNotExist then Inr (Some []) else Inl (errorf_w ''read workflow store: '' e []), fs1)
      | (Inr b, fs1) \<Rightarrow>
          (if length b > 0 then
             (case unmarshal_workflows b of
                None \<Rightarrow> Inl (errorf_w ''parse workflow store: '' jerr [])
              | Some m \<Rightarrow> Inr (all_known m))
           else Inr (Some []), fs1))"

section \<open>The memory of a store that was opened\<close>

text \<open>
  Every decoded workflow has an array of its own for its stages, with as much room behind them as the decoder
  left (\<open>spare\<close>, from the number of stages).
\<close>

fun install :: "(nat \<Rightarrow> nat) \<Rightarrow> nat \<Rightarrow> (string, wf_val) gomap \<Rightarrow> heap \<times> (string, wf_hdr) gomap" where
  "install spare n [] = ([], [])"
| "install spare n ((k, v) # m) =
     (case install spare (Suc n) m of
        (h, d) \<Rightarrow>
          ((wf_Stages v @ replicate (spare (length (wf_Stages v))) zero_stage) # h,
           (k, \<lparr>wf_ID = wf_ID v, wf_Input = wf_Input v, wf_RepoURL = wf_RepoURL v, wf_Branch = wf_Branch v,
                wf_Status = wf_Status v, wf_Stages = \<lparr>sl_addr = n, sl_len = length (wf_Stages v)\<rparr>, wf_Error = wf_Error v,
                wf_Config = wf_Config v, wf_CreatedAt = wf_CreatedAt v, wf_UpdatedAt = wf_UpdatedAt v\<rparr>) # d))"

definition opened_world :: "(nat \<Rightarrow> nat) \<Rightarrow> (string, wf_val) gomap \<Rightarrow> fs \<Rightarrow> 'w \<Rightarrow> 'w eworld" where
  "opened_world spare m fs1 x =
     (case install spare 0 m of
        (h, d) \<Rightarrow> \<lparr>ew_heap = h, ew_data = d, ew_fs = fs1, ew_ticks = 0, ew_frames = [], ew_ext = x\<rparr>)"

section \<open>Reading back what was saved\<close>

definition stage_ok :: "stage \<Rightarrow> bool" where
  "stage_ok st \<longleftrightarrow> list_all utf8_valid [st_ID st, st_SessionID st, st_Input st, st_Output st, st_Error st, st_VerifySessionID st]"

definition wf_ok :: "wf_val \<Rightarrow> bool" where
  "wf_ok v \<longleftrightarrow> list_all utf8_valid [wf_ID v, wf_Input v, wf_RepoURL v, wf_Branch v, wf_Error v, VerifierPrompt (wf_Config v)] \<and>
     list_all stage_ok (wf_Stages v) \<and> time_ok (wf_CreatedAt v) \<and> time_ok (wf_UpdatedAt v)"

lemma constants_ascii:
  "utf8_fix (wf_status_str a) = wf_status_str a" "utf8_fix (stage_status_str b) = stage_status_str b"
  "utf8_fix (stage_kind_str c) = stage_kind_str c"
  by ((cases a; simp add: utf8_fix_ascii)[1], (cases b; simp add: utf8_fix_ascii)[1], (cases c; simp add: utf8_fix_ascii)[1])

lemma dec_stage_json: "stage_ok st \<Longrightarrow> dec_stage (json_fix (stage_json st)) = Some (Some st)"
  by (simp add: stage_json_def stage_ok_def utf8_valid_def field_values_def fold_char_def utf8_fix_ascii constants_ascii)

lemma dec_stage_elems_json:
  "list_all stage_ok sts \<Longrightarrow> dec_stage_elems (map (json_fix \<circ> stage_json) sts) = Some (Some sts)"
  by (induction sts) (simp_all add: dec_stage_json)

lemma dec_workflow_json: "wf_ok v \<Longrightarrow> dec_workflow (json_fix (workflow_json v)) = Some (Some v)"
  by (simp add: workflow_json_def wf_ok_def utf8_valid_def field_values_def fold_char_def utf8_fix_ascii constants_ascii
      rfc3339_roundtrip dec_stage_elems_json [unfolded comp_def] comp_def)

text \<open>What is in memory, as the file has it: the workflows in the order of their keys.\<close>

definition stored_values :: "'w eworld \<Rightarrow> (string, wf_val) gomap" where
  "stored_values w = map (\<lambda>kv. (fst kv, wf_view (ew_heap w) (snd kv))) (sort_key fst (ew_data w))"

definition store_ok :: "'w eworld \<Rightarrow> bool" where
  "store_ok w \<longleftrightarrow> gm_wf (ew_data w) \<and>
     (\<forall>(i, hdr) \<in> set (ew_data w). wf_ID hdr = i \<and> wf_ok (wf_view (ew_heap w) hdr))"

lemma stored_values_ok: "store_ok w \<Longrightarrow> map_ok wf_ID wf_ok (stored_values w)"
  by (auto simp: store_ok_def map_ok_def stored_values_def gm_wf_def comp_def wf_view_def distinct_map)

lemma gm_get_values: "gm_get (map (\<lambda>kv. (fst kv, f (snd kv))) m) i = map_option f (gm_get m i)"
  by (induction m) auto

lemma stored_values_get: "store_ok w \<Longrightarrow> gm_get (stored_values w) = lookup_wf w"
  by (simp add: stored_values_def gm_get_values lookup_wf_def store_ok_def fun_eq_iff)

lemma marshal_values:
  "marshal_workflows (ew_heap w) (ew_data w) =
     json_print (JObj [(''workflows'', JObj (map (\<lambda>kv. (fst kv, workflow_json (snd kv))) (stored_values w)))])"
  by (simp add: marshal_workflows_def stored_values_def comp_def)

lemma unmarshal_values:
  assumes "map_ok wf_ID wf_ok m"
  shows "unmarshal_workflows (json_print (JObj [(''workflows'', JObj (map (\<lambda>kv. (fst kv, workflow_json (snd kv))) m))])) =
    Some (map (\<lambda>kv. (fst kv, Some (snd kv))) m)"
proof -
  let ?j = "JObj [(''workflows'', JObj (map (\<lambda>kv. (fst kv, workflow_json (snd kv))) m))]"
  have nums: "json_nums_ok ?j"
    by (simp add: workflow_json_def stage_json_def list_all_iff)
  have "fold max (map (\<lambda>x. json_depth (stage_json x)) sts) 0 \<le> 1" for sts
    by (rule fold_max_const) (simp_all add: stage_json_def list_all_iff)
  then have "json_depth (workflow_json v) \<le> 3" for v
    by (simp add: workflow_json_def comp_def)
  then have "fold max (map (\<lambda>kv. json_depth (workflow_json (snd kv))) m) 0 \<le> 3"
    by (intro fold_max_const) (simp_all add: list_all_iff)
  then have depth: "json_depth ?j \<le> maxNestingDepth" by (simp add: comp_def maxNestingDepth_def)
  have "wf_ok v \<Longrightarrow> utf8_valid (wf_ID v)" for v by (simp add: wf_ok_def)
  then have fx: "json_fix ?j = JObj [(''workflows'', JObj (map (\<lambda>kv. (fst kv, (json_fix \<circ> workflow_json) (snd kv))) m))]"
    using json_fix_map [OF assms, of workflow_json] by (simp add: utf8_fix_ascii comp_def)
  let ?m = "map (\<lambda>kv. (fst kv, Some (snd kv))) m"
  have "dec_members dec_workflow [] (map (\<lambda>kv. (fst kv, json_fix (workflow_json (the (snd kv))))) ?m) = Some ([] @ ?m)"
    using assms by (intro dec_members_map) (auto simp: map_ok_def gm_wf_def comp_def dec_workflow_json)
  then have "dec_map dec_workflow (Some []) [JObj (map (\<lambda>kv. (fst kv, (json_fix \<circ> workflow_json) (snd kv))) m)] = Some (Some ?m)"
    by (simp add: comp_def)
  then show ?thesis
    unfolding unmarshal_workflows_def json_roundtrip [OF nums depth] fx by (simp add: field_values_def fold_char_def)
qed

lemma known_values [simp]: "all_known (map (\<lambda>kv. (fst kv, Some (snd kv))) m) = Some m"
  by (simp add: all_known_def list_all_iff comp_def)

lemma install_keys: "install spare n m = (h, d) \<Longrightarrow> map fst d = map fst m"
  by (induction spare n m arbitrary: h d rule: install.induct) (auto split: prod.splits)

lemma install_above: "install spare n m = (h, d) \<Longrightarrow> gm_get d i = Some hdr \<Longrightarrow> n \<le> sl_addr (wf_Stages hdr)"
  by (induction spare n m arbitrary: h d rule: install.induct) (fastforce split: prod.splits if_splits)+

lemma install_apart:
  "install spare n m = (h, d) \<Longrightarrow> gm_get d i = Some a \<Longrightarrow> gm_get d j = Some b \<Longrightarrow>
     sl_addr (wf_Stages a) = sl_addr (wf_Stages b) \<Longrightarrow> i = j"
proof (induction spare n m arbitrary: h d rule: install.induct)
  case (2 spare n k v m)
  obtain h1 d1 where r: "install spare (Suc n) m = (h1, d1)" by fastforce
  note up = install_above [OF r]
  show ?case
  proof (cases "i = k \<or> j = k")
    case True
    then show ?thesis using 2(2-5) up [of i a] up [of j b] by (auto simp: r split: if_splits)
  next
    case False
    then show ?thesis using 2(1) [OF r] 2(2-5) by (auto simp: r)
  qed
qed simp

lemma install_views:
  assumes "install spare n m = (h, d)" and "length h0 = n"
  shows "map_option (wf_view (h0 @ h)) (gm_get d i) = gm_get m i \<and>
    (\<forall>hdr. gm_get d i = Some hdr \<longrightarrow> slice_ok (h0 @ h) (wf_Stages hdr))"
  using assms
proof (induction spare n m arbitrary: h d h0 rule: install.induct)
  case (2 spare n k v m)
  obtain h1 d1 where r: "install spare (Suc n) m = (h1, d1)" by fastforce
  let ?arr = "wf_Stages v @ replicate (spare (length (wf_Stages v))) zero_stage"
  have hd: "h = ?arr # h1" using 2(2) by (simp add: r)
  have l: "length (h0 @ [?arr]) = Suc n" using 2(3) by simp
  have e: "h0 @ h = (h0 @ [?arr]) @ h1" by (simp add: hd)
  have at: "(h0 @ h) ! n = ?arr" "n < length (h0 @ h)" using 2(3) by (simp_all add: hd nth_append)
  show ?case
  proof (cases "i = k")
    case True
    then show ?thesis using 2(2) at by (auto simp: r wf_view_def slice_list_def slice_ok_def)
  next
    case False
    then show ?thesis using 2(1) [OF r l, folded e] 2(2) by (auto simp: r)
  qed
qed simp

lemma opened_inv:
  assumes "map_ok wf_ID wf_ok m"
  shows "lookup_wf (opened_world spare m fs1 x) = gm_get m" and "heap_inv (opened_world spare m fs1 x)"
proof -
  obtain h d where i: "install spare 0 m = (h, d)" by fastforce
  have world: "opened_world spare m fs1 x = \<lparr>ew_heap = h, ew_data = d, ew_fs = fs1, ew_ticks = 0, ew_frames = [], ew_ext = x\<rparr>"
    by (simp add: opened_world_def i)
  have views: "map_option (wf_view h) (gm_get d k) = gm_get m k" "gm_get d k = Some hdr \<Longrightarrow> slice_ok h (wf_Stages hdr)" for k hdr
    using install_views [OF i, of "[]" k] by simp_all
  show "lookup_wf (opened_world spare m fs1 x) = gm_get m"
    using views(1) by (simp add: world lookup_wf_def fun_eq_iff)
  have "wf_ID hdr = k" if "gm_get d k = Some hdr" for k hdr
  proof -
    have "gm_get m k = Some (wf_view h hdr)" using views(1) [of k] that by simp
    then have "(k, wf_view h hdr) \<in> set m" by (rule map_of_SomeD)
    then show ?thesis using assms by (auto simp: map_ok_def wf_view_def)
  qed
  moreover have "gm_wf d" using assms install_keys [OF i] by (simp add: map_ok_def gm_wf_def)
  ultimately show "heap_inv (opened_world spare m fs1 x)"
    using views(2) install_apart [OF i] by (simp add: world heap_inv_def)
qed

lemma opened_saved:
  assumes "store_ok w" and "fs_quiet (se_fs se) (se_dir se) ''.workflow-store-'' ''.tmp'' (se_path se) (ew_fs w)"
    and "workflow_save se w = (e, w')"
  shows "e = None \<and> (\<exists>fs1. wf_Open se jerr (ew_fs w') = (Inr (Some (stored_values w)), fs1))"
proof -
  let ?m = "stored_values w" and ?b = "marshal_workflows (ew_heap w) (ew_data w)"
  obtain r f where sv: "save_file (se_fs se) workflow_labels (se_dir se) ''.workflow-store-'' ''.tmp'' (se_path se) ?b (ew_fs w) = (r, f)"
    by fastforce
  then have w': "e = r" "w' = w\<lparr>ew_fs := f\<rparr>" using assms(3) by (auto simp: workflow_save_def)
  have r: "r = None" using save_file_quiet [OF assms(2), of workflow_labels ?b] sv by simp
  have b: "fs_get f (se_path se) = Some ?b"
    using save_file_atomic(1) [OF _ sv] assms(2) r by (simp add: fs_quiet_def)
  have ft: "fe_fault (se_fs se) n = None" for n using assms(2) by (simp add: fs_quiet_def)
  have ne: "?b \<noteq> []" by (simp add: marshal_values)
  have un: "unmarshal_workflows ?b = Some (map (\<lambda>kv. (fst kv, Some (snd kv))) ?m)"
    unfolding marshal_values by (rule unmarshal_values [OF stored_values_ok [OF assms(1)]])
  show ?thesis
    using ne r w'(1) by (simp add: wf_Open_def ReadFile_def ft b w' un)
qed

text \<open>
  (C16) Workflows that were saved are what a new process reads: opening the file that \<^verbatim>\<open>save\<close> left gives every
  stored workflow with all its stages and no other, and the memory built from it keeps the invariant of the store.
\<close>

theorem workflow_reopen:
  assumes "store_ok w" and "fs_quiet (se_fs se) (se_dir se) ''.workflow-store-'' ''.tmp'' (se_path se) (ew_fs w)"
    and "workflow_save se w = (e, w')"
  shows "e = None \<and> (\<exists>m fs1. wf_Open se jerr (ew_fs w') = (Inr (Some m), fs1) \<and>
    lookup_wf (opened_world spare m fs1 x) = lookup_wf w \<and> heap_inv (opened_world spare m fs1 x))"
  using opened_saved [OF assms, of jerr] opened_inv [OF stored_values_ok [OF assms(1)]] stored_values_get [OF assms(1)] by auto

definition one_se :: store_env where
  "one_se = \<lparr>se_fs = \<lparr>fe_fault = \<lambda>_. None, fe_short = \<lambda>_. 0, fe_rand = \<lambda>_. ''x''\<rparr>, se_dir = ''d'', se_base = ''workflows.json'',
     se_clock = \<lambda>_. 0, se_grow = \<lambda>n. n\<rparr>"

definition one_workflow :: "unit eworld" where
  "one_workflow =
     \<lparr>ew_heap = [[new_stage ''w-research'' KindResearch StagePending ''goal'']],
      ew_data = [(''w'', \<lparr>wf_ID = ''w'', wf_Input = ''goal'', wf_RepoURL = [], wf_Branch = ''main'', wf_Status = StatusRunning,
        wf_Stages = \<lparr>sl_addr = 0, sl_len = 1\<rparr>, wf_Error = [], wf_Config = \<lparr>VerifierPrompt = []\<rparr>, wf_CreatedAt = 0, wf_UpdatedAt = 0\<rparr>)],
      ew_fs = \<lparr>fs_files = [], fs_ops = 0\<rparr>, ew_ticks = 0, ew_frames = [], ew_ext = ()\<rparr>"

theorem workflow_reopen_witness:
  "\<exists>m fs1. wf_Open one_se (errorf ''json'') (ew_fs (snd (workflow_save one_se one_workflow))) = (Inr (Some m), fs1) \<and>
     lookup_wf (opened_world (\<lambda>n. n) m fs1 ()) = lookup_wf one_workflow"
proof -
  have t: "time_ok 0" by code_simp
  have "store_ok one_workflow"
    by (simp add: store_ok_def one_workflow_def gm_wf_def wf_ok_def stage_ok_def wf_view_def slice_list_def new_stage_def
        utf8_valid_def utf8_fix_ascii t)
  moreover have "fs_quiet (se_fs one_se) (se_dir one_se) ''.workflow-store-'' ''.tmp'' (se_path one_se) (ew_fs one_workflow)"
    by (simp add: fs_quiet_def one_se_def one_workflow_def se_path_def)
  moreover have "workflow_save one_se one_workflow = (fst (workflow_save one_se one_workflow), snd (workflow_save one_se one_workflow))"
    by simp
  ultimately show ?thesis using workflow_reopen [of one_workflow one_se _ _ "errorf ''json''" "\<lambda>n. n" "()"] by blast
qed

end
