(* ===== verification/Server_Main.thy ===== *)
theory Server_Main
  imports Http_Props Workflow_Open Manager_Load
begin

text \<open>
  The part of \<^verbatim>\<open>main\<close> of \<^verbatim>\<open>cmd/poc/main.go\<close> that puts the components together: the sessions are
  loaded, the workflow store is opened, the engine is made and goes on with the workflows in progress, and the
  handlers are registered. \<open>Inl\<close> is an exit with that error; \<open>Inr None\<close> is a workflow file outside the model. The
  flags, the key, the choice of the session store (an argument, with the manager) and the listener are not here.
\<close>

record ('st, 'x) started =
  up_engine :: "('st, 'x) mworld engine"
  up_recovering :: "string list" \<comment> \<open>the workflows for which a new run was started\<close>
  up_mux :: "(string \<times> ('st, 'x) mworld eworld handler) list"
  up_world :: "('st, 'x) mworld eworld"

definition startup :: "pages \<Rightarrow> mcp_env \<Rightarrow> ('st, 'x) mgr \<Rightarrow> ('st, 'x) mworld engine \<Rightarrow> goerror \<Rightarrow> (nat \<Rightarrow> nat) \<Rightarrow>
    fs \<Rightarrow> ('st, 'x) mworld \<Rightarrow> ('st, 'x) started option result" where
  "startup pg env mg en0 jerr spare fs0 w =
     (let w1 = snd (exec (loadFromDB mg) w) in
      case wf_Open (en_se en0) jerr fs0 of
        (Inl e, _) \<Rightarrow> Inl e
      | (Inr None, _) \<Rightarrow> Inr None
      | (Inr (Some m), fs1) \<Rightarrow>
          (case exec (loadSavedToken mg) w1 of
             (token, w2) \<Rightarrow>
               let en = NewEngine (en0\<lparr>en_maxWorkers := 3, en_token := token\<rparr>) in
               (case exec RecoverInProgress (opened_world spare m fs1 w2) of
                  (ids, ew) \<Rightarrow>
                    Inr (Some \<lparr>up_engine = en, up_recovering = ids, up_mux = server_mux pg env en mg, up_world = ew\<rparr>))))"

lemma exec_loadSavedToken_sel:
  "mw_sessions (snd (exec (loadSavedToken mg) w)) = mw_sessions w" "mw_heap (snd (exec (loadSavedToken mg) w)) = mw_heap w"
  "mw_used (snd (exec (loadSavedToken mg) w)) = mw_used w"
  by (simp_all add: loadSavedToken_def fs_step_def case_prod_unfold)

lemma exec_RecoverInProgress [simp]: "snd (exec RecoverInProgress v) = v"
  by (simp add: RecoverInProgress_def)

definition in_progress_wf :: "wf_val \<Rightarrow> bool" where
  "in_progress_wf v \<longleftrightarrow> wf_Status v = StatusQueued \<or> wf_Status v = StatusRunning"

lemma recovering:
  assumes "heap_inv w"
  shows "set (fst (exec RecoverInProgress w)) = {i. \<exists>v. lookup_wf w i = Some v \<and> in_progress_wf v}"
proof -
  have "(i, hdr) \<in> set (ew_data w) \<longleftrightarrow> gm_get (ew_data w) i = Some hdr" for i hdr
    using assms gm_get_mem [of "ew_data w" i hdr] by (simp add: heap_inv_def)
  moreover have "wf_ID hdr = i" if "gm_get (ew_data w) i = Some hdr" for i hdr
    using assms that by (simp add: heap_inv_def)
  ultimately show ?thesis
    by (force simp: RecoverInProgress_def store_List_def lookup_wf_def in_progress_wf_def wf_view_def)
qed

text \<open>
  (C4) The server that starts after another one has what that one had stored: every row of the session
  store is a session again, live ones on their slots; the engine, with three workers and the saved token, finds
  every workflow of the last save with all its stages, and starts exactly the queued and the running ones again.
\<close>

theorem startup_restores:
  assumes "store_ok ew" and "fs_quiet (se_fs (en_se en0)) (se_dir (en_se en0)) ''.workflow-store-'' ''.tmp'' (se_path (en_se en0)) (ew_fs ew)"
    and "workflow_save (en_se en0) ew = (e, ew1)"
    and "mg_store mg = Some ops" and "so_List ops (mw_store w) = (Inr rs, st)" and "\<And>k x. fst (mg_IsSocketAlive mg k x) = alive k"
    and "distinct (map row_ID rs)" and "\<forall>r\<in>set rs. 8 \<le> length (row_ID r)"
  shows "\<exists>u. startup pg env mg en0 jerr spare (ew_fs ew1) w = Inr (Some u) \<and> en_maxWorkers (up_engine u) = 3 \<and>
    en_token (up_engine u) = fst (exec (loadSavedToken mg) (snd (exec (loadFromDB mg) w))) \<and>
    lookup_wf (up_world u) = lookup_wf ew \<and>
    set (up_recovering u) = {i. \<exists>v. lookup_wf ew i = Some v \<and> in_progress_wf v} \<and>
    (\<forall>r\<in>set rs. \<exists>a. gm_get (mw_sessions (ew_ext (up_world u))) (row_ID r) = Some a \<and> loaded_as alive r (mw_heap (ew_ext (up_world u)) ! a)) \<and>
    (\<forall>k. gm_get (mw_used (ew_ext (up_world u))) k =
       (if \<exists>r\<in>set rs. live_row alive r \<and> row_Slot r = k then Some True else gm_get (mw_used w) k))"
proof -
  define w1 where "w1 = snd (exec (loadFromDB mg) w)"
  define w2 where "w2 = snd (exec (loadSavedToken mg) w1)"
  obtain fs1 where open_it: "wf_Open (en_se en0) jerr (ew_fs ew1) = (Inr (Some (stored_values ew)), fs1)"
    using opened_saved [OF assms(1-3)] by blast
  define m where "m = stored_values ew"
  have m: "wf_Open (en_se en0) jerr (ew_fs ew1) = (Inr (Some m), fs1)" "lookup_wf (opened_world spare m fs1 w2) = lookup_wf ew"
      "heap_inv (opened_world spare m fs1 w2)"
    using open_it opened_inv [OF stored_values_ok [OF assms(1)]] stored_values_get [OF assms(1)] by (auto simp: m_def)
  have x: "ew_ext (opened_world spare m fs1 w2) = w2" by (simp add: opened_world_def split: prod.split)
  let ?en = "NewEngine (en0\<lparr>en_maxWorkers := 3, en_token := fst (exec (loadSavedToken mg) w1)\<rparr>)"
  let ?w = "opened_world spare m fs1 w2"
  have s: "startup pg env mg en0 jerr spare (ew_fs ew1) w =
      Inr (Some \<lparr>up_engine = ?en, up_recovering = fst (exec RecoverInProgress ?w), up_mux = server_mux pg env ?en mg, up_world = ?w\<rparr>)"
    by (subst startup_def) (simp add: m(1) Let_def case_prod_unfold flip: w1_def w2_def)
  have w2: "mw_sessions w2 = mw_sessions w1" "mw_heap w2 = mw_heap w1" "mw_used w2 = mw_used w1"
    by (simp_all add: w2_def exec_loadSavedToken_sel)
  obtain v where v: "loaded_rows alive rs (w\<lparr>mw_store := st\<rparr>) v" "mw_heap w1 = mw_heap v" "mw_sessions w1 = mw_sessions v" "mw_used w1 = mw_used v"
    using exec_loadFromDB [OF assms(4-8)] unfolding w1_def by blast
  show ?thesis
    using s recovering [OF m(3)] m(2) v by (auto simp: x w2 NewEngine_def w1_def loaded_rows_def)
qed

text \<open>Two rows, one of a machine that still runs, and a workflow that was running.\<close>

lemma one_workflow_ok:
  "store_ok one_workflow" "fs_quiet (se_fs one_se) (se_dir one_se) ''.workflow-store-'' ''.tmp'' (se_path one_se) (ew_fs one_workflow)"
proof -
  have t: "time_ok 0" by code_simp
  show "store_ok one_workflow"
    by (simp add: store_ok_def one_workflow_def gm_wf_def wf_ok_def stage_ok_def wf_view_def slice_list_def new_stage_def
        utf8_valid_def utf8_fix_ascii t)
  show "fs_quiet (se_fs one_se) (se_dir one_se) ''.workflow-store-'' ''.tmp'' (se_path one_se) (ew_fs one_workflow)"
    by (simp add: fs_quiet_def one_se_def one_workflow_def se_path_def)
qed

theorem startup_restores_witness:
  "\<forall>pg env. \<exists>u a. startup pg env ((ex_mgr (Some (js_ops ex_je)) ([], [], None))\<lparr>mg_IsSocketAlive := \<lambda>k x. (k = 0, x)\<rparr>)
       (idle_engine\<lparr>en_se := one_se\<rparr>) (errorf ''json'') (\<lambda>n. n) (ew_fs (snd (workflow_save one_se one_workflow))) (ex_world two_rows) = Inr (Some u) \<and>
     set (up_recovering u) = {''w''} \<and> gm_get (mw_sessions (ew_ext (up_world u))) ''session-0'' = Some a \<and>
     sess_state (mw_heap (ew_ext (up_world u)) ! a) = StateReady"
proof (intro allI)
  fix pg env
  let ?mg = "(ex_mgr (Some (js_ops ex_je)) ([], [], None))\<lparr>mg_IsSocketAlive := \<lambda>k x. (k = 0, x)\<rparr>" and ?alive = "\<lambda>k::int. k = 0"
  let ?en = "idle_engine\<lparr>en_se := one_se\<rparr>"
  have se: "en_se ?en = one_se" by simp
  have m: "mg_store ?mg = Some (js_ops ex_je)" and al: "fst (mg_IsSocketAlive ?mg k x) = ?alive k" for k x by (simp_all add: ex_mgr_def)
  have sv: "workflow_save (en_se ?en) one_workflow = (fst (workflow_save one_se one_workflow), snd (workflow_save one_se one_workflow))"
    by simp
  have rows: "distinct (map row_ID [up_row, mid_row])" "\<forall>r\<in>set [up_row, mid_row]. 8 \<le> length (row_ID r)"
    by (simp_all add: up_row_def mid_row_def)
  have up: "row_ID up_row = ''session-0''" "state_after ?alive up_row = StateReady"
  proof -
    have "state_of ''ready'' = StateReady" by code_simp
    then show "row_ID up_row = ''session-0''" "state_after ?alive up_row = StateReady"
      by (simp_all add: up_row_def zero_row_def state_after_def in_progress_def Let_def)
  qed
  have run: "{i. \<exists>v. lookup_wf one_workflow i = Some v \<and> in_progress_wf v} = {''w''}"
    by (auto simp: lookup_wf_def one_workflow_def in_progress_wf_def wf_view_def)
  from startup_restores [of one_workflow ?en, unfolded se, OF one_workflow_ok sv [unfolded se] m two_rows_listed al rows,
      of pg env "errorf ''json''" "\<lambda>n. n"] run up
  show "\<exists>u a. startup pg env ?mg ?en (errorf ''json'') (\<lambda>n. n) (ew_fs (snd (workflow_save one_se one_workflow))) (ex_world two_rows) = Inr (Some u) \<and>
     set (up_recovering u) = {''w''} \<and> gm_get (mw_sessions (ew_ext (up_world u))) ''session-0'' = Some a \<and>
     sess_state (mw_heap (ew_ext (up_world u)) ! a) = StateReady"
    by (force simp: loaded_as_def)
qed

end
