(* ===== verification/Terminal_Start.thy ===== *)
theory Terminal_Start
  imports Terminal Session_Storetest Launch_Text
begin

text \<open>
  How a terminal is opened: the start command as the two shells that read it see it, the request that
  attaches to a machine over the file the other server wrote, and the hub that tells open terminals to
  reconnect.
\<close>

section \<open>The start command\<close>

lemma sh_word_shorter: "sh_word m s = Some (w, rest) \<Longrightarrow> length rest < length s \<or> s = [] \<and> rest = []"
proof (induction m s arbitrary: w rest rule: sh_word.induct)
  case (2 c s)
  then show ?case by (fastforce split: if_splits)
next
  case (4 c s)
  then show ?case by (fastforce split: if_splits)
next
  case (6 c s)
  then show ?case by (fastforce split: if_splits)
qed auto

text \<open>All the words of a command line, where \<^const>\<open>sh_word\<close> can read it.\<close>

function sh_words :: "string \<Rightarrow> string list option" where
  "sh_words [] = Some []"
| "sh_words (c # s) =
     (case sh_word Bare (c # s) of None \<Rightarrow> None | Some (w, rest) \<Rightarrow> map_option ((#) w) (sh_words rest))"
  by pat_completeness auto
termination
  by (relation "measure length") (auto dest: sh_word_shorter simp del: sh_word.simps)

text \<open>A name without quotes, backslashes, dollars, backquotes, blanks and bytes beyond ASCII.\<close>

definition plain_name :: "string \<Rightarrow> bool" where
  "plain_name s \<longleftrightarrow> list_all (\<lambda>c. 33 \<le> byte c \<and> byte c < 127 \<and> c \<noteq> CHR 0x22 \<and> c \<noteq> CHR 0x27 \<and>
     c \<noteq> CHR 0x5C \<and> c \<noteq> CHR ''$'' \<and> c \<noteq> CHR ''`'') s"

text \<open>Text that double quotes keep as it is, and that Go's quoting does not change.\<close>

definition quotable :: "char \<Rightarrow> bool" where
  "quotable c \<longleftrightarrow> 32 \<le> byte c \<and> byte c < 127 \<and> c \<noteq> CHR 0x22 \<and> c \<noteq> CHR 0x5C \<and> c \<noteq> CHR ''$'' \<and> c \<noteq> CHR ''`''"

lemma quote_quotable: "list_all quotable s \<Longrightarrow> quote_body wide s = s"
  by (induction s) (auto simp: quotable_def quote_ascii_def)

lemma sh_word_single:
  "CHR 0x27 \<notin> set s \<Longrightarrow> sh_word Single (s @ CHR 0x27 # rest) = map_option (map_prod ((@) s) id) (sh_word Bare rest)"
  by (induction s; cases "sh_word Bare rest") auto

lemma sh_word_double:
  "list_all quotable s \<Longrightarrow> sh_word Double (s @ CHR 0x22 # rest) = map_option (map_prod ((@) s) id) (sh_word Bare rest)"
  by (induction s; cases "sh_word Bare rest") (auto simp: quotable_def)

lemma sh_word_bare:
  "list_all (\<lambda>c. c \<noteq> CHR '' '' \<and> c \<noteq> CHR 0x27 \<and> c \<noteq> CHR 0x22 \<and> \<not> sh_special c) s \<Longrightarrow>
     sh_word Bare (s @ rest) = map_option (map_prod ((@) s) id) (sh_word Bare rest)"
  by (induction s; cases "sh_word Bare rest") auto

definition inner_cmd :: "string \<Rightarrow> string" where
  "inner_cmd name =
     (if name = [] then [] else ''cd ~/workspace/'' @ name @ '' 2>/dev/null || cd ~; '') @
     ''claude --dangerously-skip-permissions; exec bash -l''"

definition tmux_cmd :: "string \<Rightarrow> string" where
  "tmux_cmd txt = ''tmux new-session -A -s rubbish bash -l -c '' @ txt"

lemma start_shape:
  "sessionStartCmd wide url = ''bash -l -c '' @ squote @ tmux_cmd (strconv_Quote wide (inner_cmd (RepoName url))) @ squote"
proof -
  have "RepoName [] = []" by code_simp
  then show ?thesis by (cases "url = []") (simp_all add: sessionStartCmd_def inner_cmd_def tmux_cmd_def Let_def)
qed

lemma plain_quotable: "plain_name s \<Longrightarrow> list_all quotable s \<and> CHR 0x27 \<notin> set s"
  by (induction s) (auto simp: plain_name_def quotable_def)

lemma inner_quotable: "plain_name name \<Longrightarrow> list_all quotable (inner_cmd name) \<and> CHR 0x27 \<notin> set (inner_cmd name)"
  by (simp add: inner_cmd_def plain_quotable) (simp add: quotable_def)

lemma bash_words: "sh_words (''bash -l -c '' @ s) = map_option (\<lambda>ws. ''bash'' # ''-l'' # ''-c'' # ws) (sh_words s)"
  by (simp add: sh_special_def option.map_comp comp_def)

lemma tmux_words:
  "sh_words (tmux_cmd s) =
     map_option (\<lambda>ws. ''tmux'' # ''new-session'' # ''-A'' # ''-s'' # ''rubbish'' # ''bash'' # ''-l'' # ''-c'' # ws) (sh_words s)"
  by (simp add: tmux_cmd_def sh_special_def option.map_comp comp_def)

lemma sh_words_single: "CHR 0x27 \<notin> set s \<Longrightarrow> sh_words (squote @ s @ squote) = Some [s]"
  by (simp add: squote_def sh_word_single)

lemma sh_words_double: "list_all quotable s \<Longrightarrow> sh_words (dquote @ s @ dquote) = Some [s]"
  by (simp add: dquote_def sh_word_double)

text \<open>
  (C24) When the repository's name is plain, the shell of the machine runs \<^verbatim>\<open>bash -l -c\<close> with one
  command, and that command read again starts tmux with \<^verbatim>\<open>bash -l -c\<close> and the inner command as one
  word, unchanged: the double quotes that Go writes inside the single ones are what the shells take off.
\<close>

theorem start_command_read:
  assumes "plain_name (RepoName url)"
  shows "\<exists>cmd. sh_words (sessionStartCmd wide url) = Some [''bash'', ''-l'', ''-c'', cmd] \<and>
    sh_words cmd = Some [''tmux'', ''new-session'', ''-A'', ''-s'', ''rubbish'', ''bash'', ''-l'', ''-c'', inner_cmd (RepoName url)]"
proof (intro exI conjI)
  let ?i = "inner_cmd (RepoName url)"
  have q: "list_all quotable ?i" "CHR 0x27 \<notin> set ?i" using inner_quotable [OF assms] by simp_all
  then have quote: "strconv_Quote wide ?i = dquote @ ?i @ dquote" by (simp add: strconv_Quote_def quote_quotable)
  have c: "CHR 0x27 \<notin> set (tmux_cmd (strconv_Quote wide ?i))" using q(2) by (simp add: quote tmux_cmd_def dquote_def)
  show "sh_words (sessionStartCmd wide url) = Some [''bash'', ''-l'', ''-c'', tmux_cmd (strconv_Quote wide ?i)]"
    unfolding start_shape bash_words by (simp only: sh_words_single [OF c] option.map)
  show "sh_words (tmux_cmd (strconv_Quote wide ?i)) =
      Some [''tmux'', ''new-session'', ''-A'', ''-s'', ''rubbish'', ''bash'', ''-l'', ''-c'', ?i]"
    unfolding tmux_words quote by (simp only: sh_words_double [OF q(1)] option.map)
qed

theorem start_command_read_witness:
  "\<exists>cmd. sh_words (sessionStartCmd id ''https://github.com/edwinavalos/rubbish.git'') = Some [''bash'', ''-l'', ''-c'', cmd] \<and>
     inner_cmd (RepoName ''https://github.com/edwinavalos/rubbish.git'') =
       ''cd ~/workspace/rubbish 2>/dev/null || cd ~; claude --dangerously-skip-permissions; exec bash -l''"
proof -
  have n: "RepoName ''https://github.com/edwinavalos/rubbish.git'' = ''rubbish''" by code_simp
  then have "plain_name (RepoName ''https://github.com/edwinavalos/rubbish.git'')" by (simp add: plain_name_def)
  from start_command_read [OF this, of id] n show ?thesis by (auto simp: inner_cmd_def)
qed

text \<open>
  (C38) A single quote in the repository's name ends the quoted command: the outer shell gives \<^verbatim>\<open>bash -c\<close> a
  command that stops in the middle of the double quotes, and goes on to read the rest itself.
\<close>

theorem start_command_breaks:
  assumes "RepoName url = a @ CHR 0x27 # b" and "plain_name a" and "plain_name b" and "list_all (\<lambda>c. \<not> sh_special c) b"
  shows "sh_word Bare (drop (length ''bash -l -c '') (sessionStartCmd wide url)) =
    Some (tmux_cmd (dquote @ ''cd ~/workspace/'' @ a @ b),
          ''2>/dev/null || cd ~; claude --dangerously-skip-permissions; exec bash -l'' @ dquote @ squote)"
proof -
  let ?tail = "''2>/dev/null || cd ~; claude --dangerously-skip-permissions; exec bash -l''"
  let ?cmd = "tmux_cmd (dquote @ ''cd ~/workspace/'' @ a)"
  have i: "inner_cmd (RepoName url) = (''cd ~/workspace/'' @ a) @ CHR 0x27 # b @ CHR '' '' # ?tail"
    by (simp add: inner_cmd_def assms(1))
  have "list_all quotable (inner_cmd (RepoName url))"
    unfolding i using plain_quotable [OF assms(2)] plain_quotable [OF assms(3)] by (simp add: quotable_def)
  then have "quote_body wide (inner_cmd (RepoName url)) = inner_cmd (RepoName url)" by (rule quote_quotable)
  then have "strconv_Quote wide (inner_cmd (RepoName url)) =
      (dquote @ ''cd ~/workspace/'' @ a) @ CHR 0x27 # b @ CHR '' '' # ?tail @ dquote"
    by (simp only: strconv_Quote_def i append.simps append_assoc)
  then have start: "sessionStartCmd wide url = ''bash -l -c '' @ CHR 0x27 # ?cmd @ CHR 0x27 # b @ CHR '' '' # ?tail @ dquote @ squote"
    unfolding start_shape by (simp add: tmux_cmd_def squote_def)
  have cut: "drop (length p) (p @ x) = x" for p x :: string by simp
  have q: "CHR 0x27 \<notin> set ?cmd" using plain_quotable [OF assms(2)] by (simp add: tmux_cmd_def dquote_def)
  have b: "list_all (\<lambda>c. c \<noteq> CHR '' '' \<and> c \<noteq> CHR 0x27 \<and> c \<noteq> CHR 0x22 \<and> \<not> sh_special c) b"
    using assms(3,4) by (induction b) (auto simp: plain_name_def)
  have open_quote: "sh_word Bare (CHR 0x27 # s) = sh_word Single s" and blank: "sh_word Bare (CHR '' '' # s) = Some ([], s)" for s
    by simp_all
  show ?thesis
    unfolding start cut open_quote sh_word_single [OF q] sh_word_bare [OF b] blank by (simp add: tmux_cmd_def)
qed

theorem start_command_breaks_witness:
  "\<exists>w rest. sh_word Bare (drop (length ''bash -l -c '') (sessionStartCmd id [CHR ''h'', CHR ''/'', CHR ''a'', CHR 0x27, CHR ''b''])) = Some (w, rest) \<and> rest \<noteq> []"
proof -
  have "RepoName [CHR ''h'', CHR ''/'', CHR ''a'', CHR 0x27, CHR ''b''] = ''a'' @ CHR 0x27 # ''b''" by code_simp
  from start_command_breaks [OF this, of id] show ?thesis by (simp add: plain_name_def sh_special_def)
qed

section \<open>Attaching\<close>

text \<open>
  Once the other server has stored a session's row, the terminal server finds it over the shared
  file, whatever its own memory says.
\<close>

lemma ws_over_file:
  assumes "js_inv je s" and "row_ok r" and "js_Upsert je r s = (e, s')" and "fs_get (js_fs t) (je_path je) = fs_get (js_fs s') (je_path je)"
  shows "e = None \<and> fst (ws_handler wide (js_ops je) (''/ws/'' @ row_ID r) t) =
    (if row_Status r = ''ready'' then
       Attach (NewBridge (SlotIP (row_Slot r) @ '':22'') ''claude'') (sessionStartCmd wide (row_RepoURL r))
     else Refused (http_Error (''session not ready (status: '' @ row_Status r @ '')'') 503))"
proof -
  let ?s = "set_sessions (gm_set (row_ID r) r) s"
  have "js_save je ?s = (e, s')" using assms(3) by (simp add: js_Upsert_def)
  moreover have ok: "data_ok (js_data ?s)" and q: "fs_quiet (je_fs je) (je_dir je) ''.store-'' ''.tmp'' (je_path je) (js_fs ?s)"
    using assms(1,2) data_ok_upd(1) by (simp_all add: js_inv_def set_sessions_def)
  ultimately have sv: "e = None" "fs_get (js_fs s') (je_path je) = Some (json_print (data_json (js_data ?s)))"
    using js_save_ok [of ?s je e s'] by simp_all
  have f: "fe_fault (je_fs je) n = None" for n using q by (simp add: fs_quiet_def)
  have "fst (js_Get je (row_ID r) t) = Inr (gm_get (sd_Sessions (js_data ?s)) (row_ID r))"
    using sv(2) ok json_print_data_ne [of "js_data ?s"]
    by (simp add: js_Get_def js_reload_def ReadFile_def f assms(4) unmarshal_marshal [OF ok] Let_def) (simp add: data_ok_def map_ok_def)
  then have "fst (js_Get je (row_ID r) t) = Inr (Some r)" by (simp add: set_sessions_def)
  then obtain t' where g: "so_Get (js_ops je) (row_ID r) t = (Inr (Some r), t')" by (metis js_ops_def prod.collapse store_ops.select_convs(2))
  have p: "TrimPrefix (''/ws/'' @ row_ID r) ''/ws/'' = row_ID r" by (rule TrimPrefix_append)
  have n: "Itoa 22 = ''22''" by code_simp
  show ?thesis
    unfolding ws_handler_def p g using sv(1) by (simp add: n)
qed

definition ready_row :: row where
  "ready_row = (ordering_row noon 0 ''c'')\<lparr>row_Status := ''ready''\<rparr>"

section \<open>Telling terminals to reconnect\<close>

lemma run_schedule_append: "run_schedule (a @ b) c = run_schedule b (run_schedule a c)"
proof (induction a arbitrary: c)
  case (Cons i a)
  then show ?case by (cases c) simp
qed simp

text \<open>The four steps that \<^verbatim>\<open>notifyReconnect\<close> takes on a connection leave no write under way.\<close>

lemma notify_one:
  "\<exists>s'. run_schedule [1, 1, 1, 1] ([p, notifyReconnect (c # cs)], s) = ([p, notifyReconnect cs], s') \<and> cn_writing s' = cn_writing s"
  by (simp add: notifyReconnect_def ws_write_def modify_def act_def)

lemma notify_many:
  "\<exists>is s'. run_schedule is ([p, notifyReconnect (xs @ cs)], s) = ([p, notifyReconnect cs], s') \<and> cn_writing s' = cn_writing s"
proof (induction xs arbitrary: s)
  case Nil
  show ?case by (rule exI [of _ "[]"]) simp
next
  case (Cons x xs)
  obtain s1 where s1: "run_schedule [1, 1, 1, 1] ([p, notifyReconnect (x # xs @ cs)], s) = ([p, notifyReconnect (xs @ cs)], s1)"
      "cn_writing s1 = cn_writing s"
    using notify_one by blast
  obtain "is" s2 where "run_schedule is ([p, notifyReconnect (xs @ cs)], s1) = ([p, notifyReconnect cs], s2)" "cn_writing s2 = cn_writing s1"
    using Cons.IH by blast
  with s1 have "run_schedule ([1, 1, 1, 1] @ is) ([p, notifyReconnect (x # xs @ cs)], s) = ([p, notifyReconnect cs], s2)"
    by (simp only: run_schedule_append)
  with s1(2) \<open>cn_writing s2 = cn_writing s1\<close> show ?case by (metis append_Cons)
qed

text \<open>
  The notification at shutdown and the relay of an open connection can write to the connection at the
  same time: whatever chunk the relay carries, there is an interleaving after which both writes have begun and
  neither has ended.
\<close>

theorem two_writers:
  assumes "c \<in> set cs"
  shows "\<exists>c'. pool_steps ([ws_write c BinaryMessage buf, notifyReconnect cs], s) c' \<and> cn_writing (snd c') c = cn_writing s c + 2"
proof -
  obtain xs ys where cs: "cs = xs @ c # ys" using assms by (meson split_list)
  obtain "is" s1 where r: "run_schedule is ([ws_write c BinaryMessage buf, notifyReconnect cs], s) =
      ([ws_write c BinaryMessage buf, notifyReconnect (c # ys)], s1)" "cn_writing s1 = cn_writing s"
    using notify_many [of "ws_write c BinaryMessage buf" xs "c # ys" s] by (auto simp: cs)
  let ?c = "run_schedule [1, 0] ([ws_write c BinaryMessage buf, notifyReconnect (c # ys)], s1)"
  have "pool_steps ([ws_write c BinaryMessage buf, notifyReconnect cs], s) (run_schedule (is @ [1, 0]) ([ws_write c BinaryMessage buf, notifyReconnect cs], s))"
    by (rule run_schedule_steps)
  then have "pool_steps ([ws_write c BinaryMessage buf, notifyReconnect cs], s) ?c"
    by (simp only: run_schedule_append r(1))
  moreover have "cn_writing (snd ?c) c = cn_writing s c + 2"
    by (simp add: notifyReconnect_def ws_write_def modify_def act_def r(2))
  ultimately show ?thesis by blast
qed

theorem two_writers_witness:
  "\<exists>c'. pool_steps ([ws_write 7 BinaryMessage ''ok'', notifyReconnect [3, 7]], \<lparr>cn_hub = {3, 7}, cn_writing = \<lambda>_. 0, cn_sent = []\<rparr>) c' \<and>
     cn_writing (snd c') 7 = 2"
  using two_writers [of 7 "[3, 7]" "''ok''" "\<lparr>cn_hub = {3, 7}, cn_writing = \<lambda>_. 0, cn_sent = []\<rparr>"] by (simp add: numeral_2_eq_2 del: split_paired_Ex)

end
