(* ===== verification/Rubishd.thy ===== *)
theory Rubishd
  imports Http
begin

text \<open>
  \<^verbatim>\<open>cmd/rubishd/main.go\<close>: the configuration of the daemon, with its defaults, and the one request it
  answers. The YAML package is a parameter; the listener and the shutdown are not modelled.
\<close>

record NodeConfig =
  nc_ID :: string
  nc_ListenAddr :: string

record FirecrackerConfig =
  fcc_Binary :: string
  fcc_Kernel :: string
  fcc_Bridge :: string
  fcc_BridgeIP :: string
  fcc_VMSubnet :: string
  fcc_SocketDir :: string

record ComputeConfig =
  cc_Provider :: string
  cc_Firecracker :: FirecrackerConfig

record StorageConfig =
  sg_WorkspaceRoot :: string
  sg_DBPath :: string
  sg_DMPoolDevice :: string
  sg_RetentionDays :: int

record AuthConfig =
  ac_TokenTTLHours :: int

record Config =
  cf_Node :: NodeConfig
  cf_Compute :: ComputeConfig
  cf_Storage :: StorageConfig
  cf_Auth :: AuthConfig

text \<open>\<^verbatim>\<open>if x == "" { x = d }\<close> and \<^verbatim>\<open>if x == 0 { x = d }\<close>.\<close>

definition or_string :: "string \<Rightarrow> string \<Rightarrow> string" where
  "or_string x d = (if x = [] then d else x)"

definition or_int :: "int \<Rightarrow> int \<Rightarrow> int" where
  "or_int x d = (if x = 0 then d else x)"

definition applyDefaults :: "Config \<Rightarrow> Config" where
  "applyDefaults cfg =
     (let fc = cc_Firecracker (cf_Compute cfg) in
      \<lparr>cf_Node = (cf_Node cfg)\<lparr>nc_ListenAddr := or_string (nc_ListenAddr (cf_Node cfg)) '':8080''\<rparr>,
       cf_Compute =
         \<lparr>cc_Provider = or_string (cc_Provider (cf_Compute cfg)) ''firecracker'',
          cc_Firecracker =
            \<lparr>fcc_Binary = or_string (fcc_Binary fc) ''/usr/local/bin/firecracker'',
             fcc_Kernel = or_string (fcc_Kernel fc) ''/opt/rubbish/firecracker/vmlinux'',
             fcc_Bridge = or_string (fcc_Bridge fc) ''br0'',
             fcc_BridgeIP = or_string (fcc_BridgeIP fc) ''172.16.0.1'',
             fcc_VMSubnet = or_string (fcc_VMSubnet fc) ''172.16.0.0/24'',
             fcc_SocketDir = or_string (fcc_SocketDir fc) ''/run/rubbish/fc''\<rparr>\<rparr>,
       cf_Storage =
         \<lparr>sg_WorkspaceRoot = or_string (sg_WorkspaceRoot (cf_Storage cfg)) ''/opt/rubbish/workspaces'',
          sg_DBPath = or_string (sg_DBPath (cf_Storage cfg)) ''/opt/rubbish/data/rubbish.db'',
          sg_DMPoolDevice = or_string (sg_DMPoolDevice (cf_Storage cfg)) ''/dev/mapper/rubbish-pool'',
          sg_RetentionDays = or_int (sg_RetentionDays (cf_Storage cfg)) 30\<rparr>,
       cf_Auth = \<lparr>ac_TokenTTLHours = or_int (ac_TokenTTLHours (cf_Auth cfg)) 24\<rparr>\<rparr>)"

text \<open>Reading the configuration: \<open>Inl\<close> is an exit with that message.\<close>

definition load_config :: "(string \<Rightarrow> Config result) \<Rightarrow> fs_env \<Rightarrow> string \<Rightarrow> fs \<Rightarrow> (string + Config) \<times> fs" where
  "load_config yaml_Unmarshal env configPath fs0 =
     (case ReadFile env configPath fs0 of
        (Inl _, fs1) \<Rightarrow> (Inl ''failed to read config file'', fs1)
      | (Inr data, fs1) \<Rightarrow> (map_sum (\<lambda>_. ''failed to parse config file'') applyDefaults (yaml_Unmarshal data), fs1))"

definition healthz :: "request \<Rightarrow> reply" where
  "healthz req = writeJSON 200 (Inr (string_map_json [(''status'', ''ok'')]))"

definition rubishd_mux :: "(string \<times> 's handler) list" where
  "rubishd_mux = [(''/healthz'', \<lambda>req. Done (healthz req))]"

section \<open>Complete configurations\<close>

text \<open>The fields that have a default, as pairs of what is there and what is unset.\<close>

definition strings_of :: "Config \<Rightarrow> string list" where
  "strings_of c =
     (let fc = cc_Firecracker (cf_Compute c) in
      [nc_ListenAddr (cf_Node c), cc_Provider (cf_Compute c), fcc_Binary fc, fcc_Kernel fc, fcc_Bridge fc, fcc_BridgeIP fc,
       fcc_VMSubnet fc, fcc_SocketDir fc, sg_WorkspaceRoot (cf_Storage c), sg_DBPath (cf_Storage c), sg_DMPoolDevice (cf_Storage c)])"

definition ints_of :: "Config \<Rightarrow> int list" where
  "ints_of c = [sg_RetentionDays (cf_Storage c), ac_TokenTTLHours (cf_Auth c)]"

definition complete :: "Config \<Rightarrow> bool" where
  "complete c \<longleftrightarrow> [] \<notin> set (strings_of c) \<and> 0 \<notin> set (ints_of c)"

text \<open>\<open>d\<close> says what \<open>c\<close> says wherever \<open>c\<close> says something, and names the same node.\<close>

definition refines_config :: "Config \<Rightarrow> Config \<Rightarrow> bool" where
  "refines_config c d \<longleftrightarrow> nc_ID (cf_Node c) = nc_ID (cf_Node d) \<and>
     list_all2 (\<lambda>x y. x = [] \<or> x = y) (strings_of c) (strings_of d) \<and>
     list_all2 (\<lambda>x y. x = 0 \<or> x = y) (ints_of c) (ints_of d)"

lemma config_eqI:
  assumes "strings_of c = strings_of d" and "ints_of c = ints_of d" and "nc_ID (cf_Node c) = nc_ID (cf_Node d)"
  shows "c = d"
proof -
  note eqs = assms [unfolded strings_of_def ints_of_def Let_def]
  have "cf_Node c = cf_Node d" by (rule NodeConfig.equality) (use eqs in simp_all)
  moreover have "cc_Firecracker (cf_Compute c) = cc_Firecracker (cf_Compute d)" by (rule FirecrackerConfig.equality) (use eqs in simp_all)
  then have "cf_Compute c = cf_Compute d" by (intro ComputeConfig.equality) (use eqs in simp_all)
  moreover have "cf_Storage c = cf_Storage d" by (rule StorageConfig.equality) (use eqs in simp_all)
  moreover have "cf_Auth c = cf_Auth d" by (rule AuthConfig.equality) (use eqs in simp_all)
  ultimately show ?thesis by (intro Config.equality) simp_all
qed

lemma unset_none: "list_all2 (\<lambda>x y. x = z \<or> x = y) xs ys \<Longrightarrow> z \<notin> set xs \<Longrightarrow> ys = xs"
  by (induction xs ys rule: list_all2_induct) auto

lemma refines_complete: "complete c \<Longrightarrow> refines_config c d \<Longrightarrow> d = c"
  unfolding complete_def refines_config_def by (intro config_eqI) (auto dest: unset_none)

lemma applyDefaults_refines: "refines_config c (applyDefaults c)"
  by (simp add: refines_config_def applyDefaults_def strings_of_def ints_of_def or_string_def or_int_def Let_def)

lemma applyDefaults_complete: "complete (applyDefaults c)"
  by (simp add: complete_def applyDefaults_def strings_of_def ints_of_def or_string_def or_int_def Let_def)

text \<open>
  Defaults complete every configuration, keep every field that was given, and change nothing in a complete one,
  so that applying them twice is applying them once. A retention of zero days cannot be asked for.
\<close>

theorem defaults_complete:
  "complete (applyDefaults c) \<and> refines_config c (applyDefaults c) \<and> applyDefaults (applyDefaults c) = applyDefaults c \<and>
   (applyDefaults c = c \<longleftrightarrow> complete c)"
  using applyDefaults_complete applyDefaults_refines refines_complete by metis

text \<open>The daemon answers its one path and nothing else.\<close>

lemma rubishd_serves:
  "serve_mux rubishd_mux req = Done (if hr_Path req = ''/healthz'' then healthz req else NotFound)"
  by (simp add: serve_mux_def rubishd_mux_def pattern_matches_def HasSuffix_def HasPrefix_def)

end
