(* ===== verification/Real_Boot.thy ===== *)
theory Real_Boot
  imports Manager_Slots Snapshot Launcher Terminal_Props
begin

text \<open>
  The manager over the real components: the adapters of \<^verbatim>\<open>cmd/poc/main.go\<close> that give the session manager
  the snapshot manager, the launcher and the SSH bridge, with the models of those in their place. What is left
  of its environment (the host for git, the identifiers, the waits) is \<open>base\<close>, over a part of the
  world of its own. A snapshot is created in one step here; \<^verbatim>\<open>Snapshot_Props\<close> interleaves its commands.
\<close>

section \<open>The site\<close>

record ('y, 'z) site =
  st_snap :: "'y snap"
  st_rest :: 'z
  st_deeds :: "deed list" \<comment> \<open>what the launcher did, for the theorems\<close>

definition on_rest :: "('z \<Rightarrow> 'a \<times> 'z) \<Rightarrow> ('y, 'z) site \<Rightarrow> 'a \<times> ('y, 'z) site" where
  "on_rest f s = (case f (st_rest s) of (a, z) \<Rightarrow> (a, s\<lparr>st_rest := z\<rparr>))"

definition on_snap :: "('y snap, 'a) prog \<Rightarrow> ('y, 'z) site \<Rightarrow> 'a \<times> ('y, 'z) site" where
  "on_snap p s = (case exec p (st_snap s) of (a, y) \<Rightarrow> (a, s\<lparr>st_snap := y\<rparr>))"

definition host_on :: "'z host \<Rightarrow> ('y, 'z) site host" where
  "host_on h =
     \<lparr>hx_exec = \<lambda>dir args. on_rest (hx_exec h dir args), hx_ctxErr = on_rest (hx_ctxErr h), hx_stat = \<lambda>p. on_rest (hx_stat h p),
      hx_MkdirAll = \<lambda>p. on_rest (hx_MkdirAll h p), hx_RemoveAll = \<lambda>p. on_rest (hx_RemoveAll h p),
      hx_Remove = \<lambda>p. on_rest (hx_Remove h p), hx_MkdirTemp = \<lambda>p. on_rest (hx_MkdirTemp h p)\<rparr>"

section \<open>The adapters\<close>

definition launch_on :: "'z vm_host \<Rightarrow> 'z fc_sdk \<Rightarrow> int \<Rightarrow> string \<Rightarrow> int \<Rightarrow> ('y, 'z) site \<Rightarrow> goerror option \<times> ('y, 'z) site" where
  "launch_on h sdk slot rootfs mem s =
     (case Launch (logged_vm h) (logged_sdk sdk) slot rootfs mem (st_rest s, st_deeds s) of
        (r, (z, ds)) \<Rightarrow> (case r of Inl e \<Rightarrow> Some e | Inr _ \<Rightarrow> None, s\<lparr>st_rest := z, st_deeds := ds\<rparr>))"

definition DefaultReposDir :: string where "DefaultReposDir = ''/opt/rubbish/repos''"
definition DefaultWorkspacesDir :: string where "DefaultWorkspacesDir = ''/opt/rubbish/workspaces''"

definition NewRepoCache :: "string \<Rightarrow> string \<Rightarrow> repocache" where
  "NewRepoCache reposDir workspacesDir = \<lparr>rc_reposDir = reposDir, rc_workspacesDir = workspacesDir\<rparr>"

definition NewSessionManager :: "'y snap_env \<Rightarrow> 'z vm_host \<Rightarrow> 'z fc_sdk \<Rightarrow> 'z temp_files \<Rightarrow> 'z term_env \<Rightarrow>
    ('st, 'z) mgr \<Rightarrow> ('st, ('y, 'z) site) mgr" where
  "NewSessionManager sv h sdk tf te base =
     \<lparr>mg_maxSlots = mg_maxSlots base, mg_store = mg_store base, mg_prof = mg_prof base, mg_fsenv = mg_fsenv base,
      mg_credPath = mg_credPath base, mg_signer = mg_signer base, mg_devHostIP = mg_devHostIP base,
      mg_repoCache = Some (NewRepoCache DefaultReposDir DefaultWorkspacesDir), mg_host = host_on (mg_host base), mg_clock = mg_clock base,
      mg_quote = strconv_Quote (te_wide te),
      mg_uuid = on_rest (mg_uuid base),
      mg_cancel = \<lambda>i s. s\<lparr>st_rest := mg_cancel base i (st_rest s)\<rparr>,
      mg_CreateSnapshot = \<lambda>i. on_snap (CreateSnapshot sv i),
      mg_DeleteSnapshot = \<lambda>i. on_snap (DeleteSnapshot sv i),
      mg_Inject = \<lambda>device ip gateway. on_rest (InjectNetworkConfig (vh_host h) tf device ip gateway),
      mg_Launch = launch_on h sdk,
      mg_WaitForSSH = \<lambda>slot. on_rest (mg_WaitForSSH base slot),
      mg_VmStop = \<lambda>v. on_rest (mg_VmStop base v),
      mg_WaitForVMDead = \<lambda>ip s. s\<lparr>st_rest := mg_WaitForVMDead base ip (st_rest s)\<rparr>,
      mg_RunSetup = \<lambda>user addr cmds. on_rest (RunSetup te (NewBridge addr user) cmds),
      mg_RunCapture = \<lambda>addr cmd. on_rest (\<lambda>z. case RunCapture te (NewBridge addr ''claude'') cmd z of
        (((out, err), e), z1) \<Rightarrow> ((out, err, e), z1)),
      mg_tick = on_rest (mg_tick base), mg_IsSocketAlive = \<lambda>slot. on_rest (mg_IsSocketAlive base slot),
      mg_CleanupOrphans = \<lambda>live. on_rest (mg_CleanupOrphans base live)\<rparr>"

section \<open>Steps that launch nothing\<close>

definition fixed :: "session \<Rightarrow> string \<times> int \<times> bool" where
  "fixed S = (ss_ID S, ss_Slot S, ss_DevMode S)"

definition kept :: "('st, 'x) mworld \<Rightarrow> ('st, 'x) mworld \<Rightarrow> bool" where
  "kept w v \<longleftrightarrow> length (mw_heap w) \<le> length (mw_heap v) \<and> (\<forall>a<length (mw_heap w). fixed (mw_heap v ! a) = fixed (mw_heap w ! a))"

definition no_launch :: "('st, ('y, 'z) site) mworld \<Rightarrow> ('st, ('y, 'z) site) mworld \<Rightarrow> bool" where
  "no_launch w v \<longleftrightarrow> kept w v \<and> st_deeds (mw_ext v) = st_deeds (mw_ext w)"

abbreviation quiet :: "(('st, ('y, 'z) site) mworld, 'a) prog \<Rightarrow> bool" where
  "quiet p \<equiv> prog_steps no_launch p"

definition calm :: "(('y, 'z) site \<Rightarrow> 'a \<times> ('y, 'z) site) \<Rightarrow> bool" where
  "calm f \<longleftrightarrow> (\<forall>s. st_deeds (snd (f s)) = st_deeds s)"

lemma calm_on [simp]: "calm (on_rest f)" "calm (on_snap p)" "calm (\<lambda>s. (c, s\<lparr>st_rest := g s\<rparr>))"
  by (auto simp: calm_def on_rest_def on_snap_def split: prod.splits)

named_theorems calms \<open>programs that launch nothing\<close>

lemma kept_upd: "mw_heap v = (mw_heap w)[a := S] \<Longrightarrow> fixed S = fixed (mw_heap w ! a) \<Longrightarrow> kept w v"
  by (cases "a < length (mw_heap w)") (auto simp: kept_def nth_list_update)

lemma kept_same: "mw_heap v = mw_heap w \<Longrightarrow> kept w v" "mw_heap v = mw_heap w @ xs \<Longrightarrow> kept w v"
  by (simp_all add: kept_def nth_append)

lemma quiet_act: "(\<And>w. no_launch w (snd (f w))) \<Longrightarrow> quiet (act f)"
  by (rule prog_steps_act)

lemma quiet_basic [calms]:
  "quiet (Done r)" "quiet (get_sess a)" "quiet (read g)" "quiet (fs_step k)" "quiet (remove_session i)" "quiet (freeSlot n)"
  "quiet (store_upsert ops row)" "quiet (store_delete ops i)" "quiet panic" "quiet (go_task t)"
  by (auto intro!: quiet_act kept_same simp: get_sess_def fs_step_def remove_session_def freeSlot_def store_upsert_def store_delete_def
      panic_def go_task_def read_def modify_def no_launch_def split: prod.splits)

lemma quiet_ext [calms]: "calm f \<Longrightarrow> quiet (ext_call c f)" "calm f \<Longrightarrow> quiet (ext_step f)"
  by (auto intro!: quiet_act kept_same simp: ext_call_def ext_step_def no_launch_def calm_def case_prod_unfold)

lemma calm_upd [calms]: "(\<And>S. fixed (f S) = fixed S) \<Longrightarrow> quiet (upd_sess a f)"
  unfolding upd_sess_def modify_def
  by (intro quiet_act) (simp add: upd_heap_def no_launch_def kept_upd)

lemma quiet_bind [calms]: "quiet p \<Longrightarrow> (\<And>r. quiet (k r)) \<Longrightarrow> quiet (bind p k)"
  by (rule prog_steps_bind)

lemma quiet_cases [calms]:
  "(c \<Longrightarrow> quiet p) \<Longrightarrow> (\<not> c \<Longrightarrow> quiet q) \<Longrightarrow> quiet (if c then p else q)"
  "quiet p \<Longrightarrow> (\<And>v. quiet (k v)) \<Longrightarrow> quiet (case m of None \<Rightarrow> p | Some v \<Rightarrow> k v)"
  "(\<And>e. quiet (g e)) \<Longrightarrow> (\<And>v. quiet (l v)) \<Longrightarrow> quiet (case r of Inl e \<Rightarrow> g e | Inr v \<Rightarrow> l v)"
  "(\<And>x y. quiet (h x y)) \<Longrightarrow> quiet (case z of (x, y) \<Rightarrow> h x y)"
  by (simp_all split: option.splits sum.splits prod.splits)

lemma quiet_each [calms]: "(\<And>x. quiet (f x)) \<Longrightarrow> quiet (for_each xs f)"
  by (induction xs) (auto intro: calms)

lemma quiet_persist [calms]: "quiet (persistSession mg a)"
  unfolding persistSession_def
  by (intro calms quiet_act) (simp add: no_launch_def kept_same)

lemma quiet_transition [calms]: "quiet (transition mg a st)"
  unfolding transition_def
  by (intro calms quiet_act) (auto simp: no_launch_def upd_heap_def fixed_def split: prod.splits intro!: kept_upd)

lemma quiet_boot_fail [calms]: "quiet (boot_fail mg a e)"
  unfolding boot_fail_def modify_def
  by (intro calms quiet_act) (simp add: no_launch_def upd_heap_def kept_upd fixed_def)

lemma quiet_create [calms]: "(\<And>s. st_deeds (snd (mg_uuid mg s)) = st_deeds s) \<Longrightarrow> quiet (create_locked mg url branch dev role prompt)"
  unfolding create_locked_def
  by (intro quiet_act) (auto simp: no_launch_def Let_def kept_same split: option.splits prod.splits, metis snd_conv)

section \<open>A manager over a launcher that is logged\<close>

definition snapshot_path :: "string \<Rightarrow> string" where
  "snapshot_path i = ''/dev/mapper/rubbish-session-'' @ i"

definition session_config :: "session \<Rightarrow> fc_config" where
  "session_config S = machine_config (ss_Slot S) (snapshot_path (ss_ID S)) (if ss_DevMode S then 2048 else 512)"

lemma fixed_config: "fixed S = fixed T \<Longrightarrow> session_config S = session_config T"
  by (simp add: fixed_def session_config_def)

text \<open>Sessions keep what their machine is made of, and every new machine is the one of a session.\<close>

definition deploys :: "('st, ('y, 'z) site) mworld \<Rightarrow> ('st, ('y, 'z) site) mworld \<Rightarrow> bool" where
  "deploys w v \<longleftrightarrow> kept w v \<and>
     set (made (st_deeds (mw_ext v))) \<subseteq> set (made (st_deeds (mw_ext w))) \<union> session_config ` set (mw_heap v)"

lemma kept_configs: "kept w v \<Longrightarrow> session_config ` set (mw_heap w) \<subseteq> session_config ` set (mw_heap v)"
proof (rule image_subsetI)
  fix S assume k: "kept w v" and "S \<in> set (mw_heap w)"
  then obtain a where a: "a < length (mw_heap w)" "S = mw_heap w ! a" by (metis in_set_conv_nth)
  with k have "a < length (mw_heap v)" "session_config S = session_config (mw_heap v ! a)"
    by (auto simp: kept_def intro: fixed_config)
  then show "session_config S \<in> session_config ` set (mw_heap v)" by simp
qed

interpretation deploying: protocol deploys
proof
  show "deploys s s" for s :: "('st, ('y, 'z) site) mworld" by (simp add: deploys_def kept_def)
  show "deploys s u" if "deploys s t" "deploys t u" for s t u :: "('st, ('y, 'z) site) mworld"
  proof -
    have "kept s u" using that by (auto simp: deploys_def kept_def)
    then show ?thesis using that kept_configs [of t u] unfolding deploys_def by blast
  qed
qed

lemma no_launch_deploys: "no_launch w v \<Longrightarrow> deploys w v"
  by (simp add: no_launch_def deploys_def)

text \<open>The session at an address, with what its machine is made of.\<close>

definition holds :: "nat \<Rightarrow> string \<times> int \<times> bool \<Rightarrow> ('st, 'x) mworld \<Rightarrow> bool" where
  "holds a f w \<longleftrightarrow> a < length (mw_heap w) \<and> fixed (mw_heap w ! a) = f"

lemma holds_stable: "deploys w v \<Longrightarrow> holds a f w \<Longrightarrow> holds a f v"
  by (auto simp: holds_def deploys_def kept_def)

fun task_in :: "session list \<Rightarrow> task \<Rightarrow> bool" where
  "task_in heap (Boot a token) = (a < length heap)"
| "task_in heap (Cleanup a i) = True"

locale deployment =
  fixes mg :: "('st, ('y, 'z) site) mgr"
  assumes calm_steps: "calm (mg_uuid mg)" "calm (\<lambda>s. ((), mg_cancel mg i s))" "calm (mg_CreateSnapshot mg i)"
      "calm (mg_DeleteSnapshot mg i)" "calm (mg_Inject mg dev ip gw)" "calm (mg_WaitForSSH mg slot)" "calm (mg_VmStop mg v)"
      "calm (\<lambda>s. ((), mg_WaitForVMDead mg ip s))" "calm (mg_RunSetup mg user addr cmds)" "calm (mg_RunCapture mg addr cmd)"
    and calm_host: "calm (hx_exec (mg_host mg) dir args)" "calm (hx_stat (mg_host mg) f)" "calm (hx_MkdirAll (mg_host mg) f)"
      "calm (hx_RemoveAll (mg_host mg) f)"
    and snapshot_at: "fst (mg_CreateSnapshot mg i s) = Inr d \<Longrightarrow> d = snapshot_path i"
    and launch_makes: "set (made (st_deeds (snd (mg_Launch mg slot rootfs mem s)))) \<subseteq>
      set (made (st_deeds s)) \<union> {machine_config slot rootfs mem}"
begin

lemmas calm_ext [calms] = calm_steps [THEN quiet_ext(1)] calm_steps [THEN quiet_ext(2)]

lemma host_deeds [simp]:
  "st_deeds (snd (hx_exec (mg_host mg) dir args s)) = st_deeds s" "st_deeds (snd (hx_stat (mg_host mg) f s)) = st_deeds s"
  "st_deeds (snd (hx_MkdirAll (mg_host mg) f s)) = st_deeds s" "st_deeds (snd (hx_RemoveAll (mg_host mg) f s)) = st_deeds s"
  using calm_host by (simp_all add: calm_def)

lemma quiet_git [calms]:
  "quiet (ext_step (EnsureBareRepo (mg_host mg) c url name token))" "quiet (ext_step (LocalClone (mg_host mg) c bare i name branch url))"
  "quiet (ext_call k (\<lambda>x. ((), CleanupWorkspace (mg_host mg) c i x)))"
  by (intro quiet_ext; simp add: calm_def EnsureBareRepo_def LocalClone_def CleanupWorkspace_def runInRepo_def Let_def case_prod_unfold
      split: option.split)+


lemma quiet_parts [calms]:
  "quiet (resolveToken mg token)" "quiet (prepareWorkspace mg a token)" "quiet (deleteSnapshot mg i)" "quiet (stopVM mg v)"
  "quiet (run_setup mg addr cmds)" "quiet (cleanup_workspace mg i)" "quiet (store_forget mg i)"
  unfolding resolveToken_def loadSavedToken_def prepareWorkspace_def deleteSnapshot_def stopVM_def run_setup_def cleanup_workspace_def
    store_forget_def
  by (intro calms; simp add: fixed_def)+

lemma quiet_release [calms]: "quiet (release_vm mg a i)"
  unfolding release_vm_def by (intro calms)

lemma quiet_claude [calms]: "quiet (run_claude mg a)"
  unfolding run_claude_def usage_limit_def claude_failed_def claude_done_def drop_session_def set_error_def Let_def
  by (intro calms; simp add: fixed_def)

lemma quiet_files [calms]:
  "quiet (injectFile mg addr src dst)" "(\<And>p l. (p, l) \<in> set ps \<Longrightarrow> quiet p) \<Longrightarrow> quiet (try_all ps)" "quiet p \<Longrightarrow> quiet (lenient p)"
  "quiet q \<Longrightarrow> quiet (ignore q)"
  subgoal unfolding injectFile_def by (intro calms)
  subgoal by (induction ps rule: try_all.induct) (simp, simp, intro calms, auto)
  subgoal unfolding lenient_def by (intro calms)
  subgoal unfolding ignore_def by (intro calms)
  done

lemma quiet_seed [calms]: "quiet (seedDevFiles mg addr)"
  unfolding seedDevFiles_def seedKnownHosts_def Let_def
  by (intro calms; auto intro: calms)

lemma quiet_configure [calms]: "quiet (boot_configure mg a token t)"
  unfolding boot_configure_def boot_ready_def injectKey_def configureGit_def saveToken_def attachWorkspace_def mountWorkspace_def
    mountGoCache_def configureHost_def configureProfile_def Let_def
  by (intro calms; simp add: fixed_def)

lemma quiet_ssh [calms]: "quiet (boot_ssh mg a i token t v)"
  unfolding boot_ssh_def by (intro calms)

lemma quiet_manager [calms]:
  "quiet (stop_cleanup mg a i)" "quiet (manager_Stop mg i)" "quiet (manager_Create mg url branch token dev role prompt)"
  subgoal unfolding stop_cleanup_def by (intro calms)
  subgoal unfolding manager_Stop_def by (intro calms) (auto split: state.split intro: calms)
  subgoal unfolding manager_Create_def using calm_steps(1) by (intro calms) (simp add: calm_def)
  done

text \<open>A boot, after every step of which the session keeps what its machine is made of.\<close>

lemma quiet_then:
  assumes "quiet p" and "holds a f s" and "\<And>r t. holds a f t \<Longrightarrow> prog_ok deploys Q (k r) t"
  shows "prog_ok deploys Q (bind p k) s"
proof (rule deploying.prog_ok_bind, rule deploying.prog_ok_weaken)
  show "prog_ok deploys (\<lambda>_. holds a f) p s"
    by (rule deploying.prog_ok_steps [OF assms(1)]) (auto intro: holds_stable no_launch_deploys assms(2))
qed (rule assms(3))

lemma session_then:
  assumes "holds a f s" and "\<And>S t. fixed S = f \<Longrightarrow> holds a f t \<Longrightarrow> prog_ok deploys Q (k S) t"
  shows "prog_ok deploys Q (bind (get_sess a) k) s"
proof (rule deploying.prog_ok_bind, rule deploying.prog_ok_weaken)
  show "prog_ok deploys (\<lambda>S t. fixed S = f \<and> holds a f t) (get_sess a) s"
    unfolding get_sess_def read_def
  proof (rule deploying.prog_ok_act)
    fix s1 s2 assume s1: "deploys s s1" and s2: "deploys (snd (mw_heap s1 ! a, s1)) s2"
    have h: "holds a f s1" by (rule holds_stable [OF s1 assms(1)])
    moreover have "holds a f s2" using s2 by (auto intro: holds_stable [OF _ h])
    ultimately show "fixed (fst (mw_heap s1 ! a, s1)) = f \<and> holds a f s2" by (simp add: holds_def)
  qed simp
qed (use assms(2) in blast)

lemma snapshot_then:
  assumes "holds a f s" and "\<And>e t. holds a f t \<Longrightarrow> prog_ok deploys Q (k (Inl e)) t"
    and "\<And>t. holds a f t \<Longrightarrow> prog_ok deploys Q (k (Inr (snapshot_path i))) t"
  shows "prog_ok deploys Q (bind (ext_call c (mg_CreateSnapshot mg i)) k) s"
proof (rule deploying.prog_ok_bind, rule deploying.prog_ok_weaken)
  show "prog_ok deploys (\<lambda>r t. holds a f t \<and> (\<forall>d. r = Inr d \<longrightarrow> d = snapshot_path i)) (ext_call c (mg_CreateSnapshot mg i)) s"
    unfolding ext_call_def case_prod_unfold
  proof (rule deploying.prog_ok_act)
    fix s1 s2 assume s1: "deploys s s1"
    let ?v = "snd (fst (mg_CreateSnapshot mg i (mw_ext s1)), s1\<lparr>mw_ext := snd (mg_CreateSnapshot mg i (mw_ext s1)), mw_calls := mw_calls s1 @ [c]\<rparr>)"
    show v: "deploys s1 ?v"
      using calm_steps(3) [of i] by (intro no_launch_deploys) (simp add: no_launch_def calm_def kept_same)
    assume s2: "deploys ?v s2"
    have "holds a f s2" by (rule holds_stable [OF s2 holds_stable [OF v holds_stable [OF s1 assms(1)]]])
    then show "holds a f s2 \<and> (\<forall>d. fst (fst (mg_CreateSnapshot mg i (mw_ext s1)), s1\<lparr>mw_ext := snd (mg_CreateSnapshot mg i (mw_ext s1)), mw_calls := mw_calls s1 @ [c]\<rparr>) = Inr d \<longrightarrow> d = snapshot_path i)"
      using snapshot_at [of i "mw_ext s1"] by auto
  qed
next
  show "prog_ok deploys Q (k r) t" if "holds a f t \<and> (\<forall>d. r = Inr d \<longrightarrow> d = snapshot_path i)" for r t
    using that assms(2,3) by (cases r) auto
qed

lemma launch_then:
  assumes "holds a f s" and "fixed S = f" and "\<And>r t. holds a f t \<Longrightarrow> prog_ok deploys Q (k r) t"
  shows "prog_ok deploys Q (bind (ext_call c (mg_Launch mg (ss_Slot S) (snapshot_path (ss_ID S)) (if ss_DevMode S then 2048 else 512))) k) s"
    (is "prog_ok _ _ (bind (ext_call c ?launch) k) s")
proof (rule deploying.prog_ok_bind, rule deploying.prog_ok_weaken)
  show "prog_ok deploys (\<lambda>_. holds a f) (ext_call c ?launch) s"
    unfolding ext_call_def
  proof (rule deploying.prog_ok_act)
    fix s1 s2 assume s1: "deploys s s1"
    let ?v = "snd (case ?launch (mw_ext s1) of (r, x) \<Rightarrow> (r, s1\<lparr>mw_ext := x, mw_calls := mw_calls s1 @ [c]\<rparr>))"
    have "holds a f s1" by (rule holds_stable [OF s1 assms(1)])
    then have "machine_config (ss_Slot S) (snapshot_path (ss_ID S)) (if ss_DevMode S then 2048 else 512) \<in> session_config ` set (mw_heap s1)"
      using assms(2) fixed_config [of S "mw_heap s1 ! a"] by (auto simp: holds_def session_config_def)
    moreover have "mw_heap ?v = mw_heap s1" "mw_ext ?v = snd (?launch (mw_ext s1))" by (simp_all add: case_prod_unfold)
    ultimately show v: "deploys s1 ?v"
      using launch_makes [of "ss_Slot S" "snapshot_path (ss_ID S)" "if ss_DevMode S then 2048 else 512" "mw_ext s1"]
      unfolding deploys_def by (auto intro: kept_same)
    assume s2: "deploys ?v s2"
    show "holds a f s2" by (rule holds_stable [OF s2 holds_stable [OF v holds_stable [OF s1 assms(1)]]])
  qed
qed (rule assms(3))

lemma boot_deploys:
  assumes "a < length (mw_heap s)"
  shows "prog_ok deploys (\<lambda>_ _. True) (boot mg a token) s"
proof -
  define f where "f = fixed (mw_heap s ! a)"
  have h: "holds a f s" using assms by (simp add: holds_def f_def)
  have same_ID: "ss_ID S = ss_ID T" if "fixed S = f" "fixed T = f" for S T using that by (auto simp: fixed_def)
  have tail: "prog_ok deploys (\<lambda>_ _. True) p t" if "quiet p" "holds a f t" for p :: "(_, unit) prog" and t
    using quiet_then [OF that, of "\<lambda>_ _. True" Done] by simp
  have launch: "prog_ok deploys (\<lambda>_ _. True) (boot_launch mg a (ss_ID S) token tk (snapshot_path (ss_ID S))) t"
    if "holds a f t" "fixed S = f" for S t tk
    unfolding boot_launch_def
    apply (rule quiet_then [OF _ that(1)], intro calms)
    subgoal for r
      apply (cases r; simp only: option.case)
      subgoal
        apply (erule session_then)
        subgoal premises p for T u
          unfolding same_ID [OF that(2) p(2)]
          by (rule launch_then [OF p(3,2)], rule tail) (unfold Let_def, intro calms; simp add: fixed_def)
        done
      subgoal by (intro tail calms)
      done
    done
  show ?thesis
    unfolding boot_def
    apply (rule quiet_then [OF _ h], intro calms)
    apply (rule quiet_then, intro calms, assumption)
    apply (rule session_then, assumption)
    apply (unfold Let_def)
    apply (rule snapshot_then, assumption)
    subgoal by (simp only: sum.case) (intro tail calms)
    apply (simp only: sum.case)
    apply (rule session_then, assumption)
    apply (rule quiet_then, intro calms, assumption)
    apply (simp only: split: option.split)
    apply (intro conjI allI impI)
    subgoal by (rule launch)
    subgoal by (rule tail) (intro calms)
    done
qed

lemma task_deploys: "task_in (mw_heap s) t \<Longrightarrow> prog_ok deploys (\<lambda>_ _. True) (task_prog mg t) s"
  using quiet_manager(1) by (cases t) (auto intro: boot_deploys deploying.prog_ok_steps [where J = "\<lambda>_. True"] no_launch_deploys)

lemma pool_deploys:
  assumes "pool_steps (map (task_prog mg) ts @ ps, w) (qs, v)" and "\<forall>t\<in>set ts. task_in (mw_heap w) t" and "\<forall>p\<in>set ps. quiet p"
  shows "deploys w v"
proof -
  have "prog_ok deploys (\<lambda>_ _. True) p w" if "p \<in> set (map (task_prog mg) ts @ ps)" for p
    using that assms(2,3) task_deploys by (auto intro: deploying.prog_ok_steps [where J = "\<lambda>_. True"] no_launch_deploys)
  then show ?thesis using deploying.pool_steps_ok [OF assms(1), of "\<lambda>_ _. True"] by simp
qed

end

section \<open>The real manager\<close>

lemma exec_quiet_result:
  "fst (exec (CreateSnapshot sv i) s) = Inr d \<Longrightarrow> d = snapshot_path i"
  by (auto simp: CreateSnapshot_def create_volume_def after_create_def attach_def BaseSize_def run_dm_def snapshot_path_def dev_name_def
      case_prod_unfold split: option.splits sum.splits)

lemma launch_on_made:
  "set (made (st_deeds (snd (launch_on h sdk slot rootfs mem s)))) \<subseteq> set (made (st_deeds s)) \<union> {machine_config slot rootfs mem}"
proof -
  obtain r z ds where l: "Launch (logged_vm h) (logged_sdk sdk) slot rootfs mem (st_rest s, st_deeds s) = (r, (z, ds))"
    by (metis prod.collapse)
  show ?thesis using Launch_made [OF l] by (auto simp: launch_on_def l)
qed

interpretation real: deployment "NewSessionManager sv h sdk tf te base" for sv h sdk tf te base
  by unfold_locales
    (auto simp: NewSessionManager_def host_on_def on_snap_def [of "CreateSnapshot _ _"] case_prod_unfold dest: exec_quiet_result launch_on_made [THEN subsetD])

text \<open>
  (C5) Whatever boots, clean-ups, stops and creations run interleaved on the manager the server really builds,
  every machine asked of Firecracker is the one of a session: in its slot, on its snapshot, with its memory. So the
  machines of two sessions in different slots share no API socket, address, MAC address or TAP device, and those of
  sessions with different IDs no disk.
\<close>

theorem boots_apart:
  assumes "pool_steps (map (task_prog (NewSessionManager sv h sdk tf te base)) ts @
      map (\<lambda>i. ignore (manager_Stop (NewSessionManager sv h sdk tf te base) i)) halted @
      map (\<lambda>(url, branch, prompt). ignore (manager_Create (NewSessionManager sv h sdk tf te base) url branch token dev role prompt)) news, w)
    (ps, v)"
    and "\<forall>t\<in>set ts. task_in (mw_heap w) t" and "made (st_deeds (mw_ext w)) = []"
    and "c \<in> set (made (st_deeds (mw_ext v)))" and "d \<in> set (made (st_deeds (mw_ext v)))"
  shows "\<exists>S\<in>set (mw_heap v). \<exists>T\<in>set (mw_heap v). c = session_config S \<and> d = session_config T \<and>
    (ss_ID S \<noteq> ss_ID T \<longrightarrow> fc_PathOnHost c \<noteq> fc_PathOnHost d) \<and>
    (ss_Slot S \<ge> 0 \<and> ss_Slot T \<ge> 0 \<and> ss_Slot S \<noteq> ss_Slot T \<longrightarrow> config_apart c d)"
proof -
  have "deploys w v"
    by (rule real.pool_deploys [OF assms(1,2)]) (auto intro!: real.quiet_files(4) real.quiet_manager)
  then have "c \<in> session_config ` set (mw_heap v)" "d \<in> session_config ` set (mw_heap v)"
    using assms(3-5) by (auto simp: deploys_def)
  then show ?thesis
    by (force simp: session_config_def machine_config_def snapshot_path_def slots_apart [unfolded machine_config_def])
qed

text \<open>Two sessions that boot side by side, on a host where everything succeeds.\<close>

definition still_host :: "nat vm_host" where
  "still_host = \<lparr>vh_host = ok_host, vh_output = \<lambda>_ x. (([], None), x), vh_signal = \<lambda>_ _ x. (None, x), vh_now = \<lambda>x. (0, x),
     vh_sleep = \<lambda>_ x. x, vh_dial = \<lambda>_ _ x. (None, x), vh_select = \<lambda>_ x. (None, x), vh_glob = \<lambda>_ x. ([], x), vh_scan = \<lambda>_. None\<rparr>"

definition ready_sdk :: "nat fc_sdk" where
  "ready_sdk = \<lparr>sdk_NewMachine = \<lambda>_ _ x. (Inr x, Suc x), sdk_Start = \<lambda>_ x. (None, x), sdk_Shutdown = \<lambda>_ x. x, sdk_StopVMM = \<lambda>_ x. (None, x)\<rparr>"

definition ready_files :: "nat temp_files" where
  "ready_files = \<lparr>tf_CreateTemp = \<lambda>_ x. (Inr ''/tmp/i'', x), tf_WriteClose = \<lambda>_ _ x. (None, x)\<rparr>"

definition ready_snaps :: "unit snap_env" where
  "ready_snaps = \<lparr>sv_fs = \<lparr>fe_fault = \<lambda>_. None, fe_short = \<lambda>_. 0, fe_rand = \<lambda>_. []\<rparr>, sv_pool = ''pool'', sv_idPath = ''id'', sv_uid = ''0'',
     sv_dm = \<lambda>_ x. ((''8'', None), x), sv_stat = \<lambda>_ x. (None, x), sv_quote = id, sv_atoi_err = errorf\<rparr>"

definition ready_mgr :: "(unit, (unit, nat) site) mgr" where
  "ready_mgr = NewSessionManager ready_snaps still_host ready_sdk ready_files echo_env (ex_mgr None ([], [], None))"

definition two_waiting :: "(unit, (unit, nat) site) mworld" where
  "two_waiting =
     \<lparr>mw_heap = [new_session ''a'' 0 [] [] False ''interactive'' [] 0 0, new_session ''b'' 1 [] [] True ''interactive'' [] 0 0],
      mw_sessions = [(''a'', 0), (''b'', 1)], mw_used = [(0, True), (1, True)], mw_store = (), mw_fs = \<lparr>fs_files = [], fs_ops = 0\<rparr>, mw_ticks = 0,
      mw_tasks = [], mw_calls = [], mw_panic = False,
      mw_ext = \<lparr>st_snap = \<lparr>sn_base = 1, sn_next = 2, sn_sessions = [], sn_fs = \<lparr>fs_files = [], fs_ops = 0\<rparr>, sn_dm = (), sn_log = []\<rparr>,
        st_rest = 0, st_deeds = []\<rparr>\<rparr>"

definition two_booted :: "((unit, (unit, nat) site) mworld, unit) prog list \<times> (unit, (unit, nat) site) mworld" where
  "two_booted = run_schedule (concat (replicate 9 [0, 1])) (map (task_prog ready_mgr) [Boot 0 [], Boot 1 []], two_waiting)"

definition config_a :: fc_config where "config_a = machine_config 0 ''/dev/mapper/rubbish-session-a'' 512"
definition config_b :: fc_config where "config_b = machine_config 1 ''/dev/mapper/rubbish-session-b'' 2048"

lemmas run_simps = two_waiting_def ready_mgr_def ready_snaps_def ready_sdk_def ready_files_def still_host_def NewSessionManager_def ex_mgr_def
  ok_host_def host_on_def boot_def resolveToken_def loadSavedToken_def prepareWorkspace_def get_sess_def fs_step_def ReadFile_def read_def act_def
  ext_call_def on_snap_def on_rest_def CreateSnapshot_def reserve_def create_volume_def after_create_def BaseSize_def attach_def run_dm_def dm_run_def
  WriteFile_def WriteTemp_def fs_tick_def Let_def modify_def InjectNetworkConfig_def inject_mounted_def write_interfaces_def umount_def
  boot_launch_def transition_def Transition_def new_session_def newSM_def OnTransition_def sm_New_def launch_on_def Launch_def logged_simps setupTAP_def upd_heap_def
  persistSession_def dev_name_def

lemma ready_sectors: "Atoi (TrimSpace ''8'') = Some 8"
  by code_simp

lemma no_repo: "normalizeRepoURL [] = []"
  by code_simp

lemma two_booted_made: "made (st_deeds (mw_ext (snd two_booted))) = [config_a, config_b]"
  by (simp add: two_booted_def run_simps numeral_eq_Suc ready_sectors no_repo config_a_def config_b_def)

theorem boots_apart_witness:
  "made (st_deeds (mw_ext (snd two_booted))) = [config_a, config_b] \<and>
   (\<exists>S\<in>set (mw_heap (snd two_booted)). \<exists>T\<in>set (mw_heap (snd two_booted)). config_a = session_config S \<and> config_b = session_config T)"
proof -
  have "pool_steps (map (task_prog ready_mgr) [Boot 0 [], Boot 1 []], two_waiting) (fst two_booted, snd two_booted)"
    unfolding two_booted_def prod.collapse by (rule run_schedule_steps)
  then have "\<exists>S\<in>set (mw_heap (snd two_booted)). \<exists>T\<in>set (mw_heap (snd two_booted)). config_a = session_config S \<and> config_b = session_config T \<and>
    (ss_ID S \<noteq> ss_ID T \<longrightarrow> fc_PathOnHost config_a \<noteq> fc_PathOnHost config_b) \<and>
    (ss_Slot S \<ge> 0 \<and> ss_Slot T \<ge> 0 \<and> ss_Slot S \<noteq> ss_Slot T \<longrightarrow> config_apart config_a config_b)"
    using boots_apart [of ready_snaps still_host ready_sdk ready_files echo_env "ex_mgr None ([], [], None)" "[Boot 0 [], Boot 1 []]" "[]"
        _ _ _ "[]" two_waiting "fst two_booted" "snd two_booted" config_a config_b, folded ready_mgr_def]
    by (simp only: list.map append_Nil2 two_booted_made) (simp add: two_waiting_def)
  with two_booted_made show ?thesis by blast
qed

end
