(* ===== verification/Pgstore.thy ===== *)
theory Pgstore
  imports Session_Contract
begin

text \<open>
  \<^verbatim>\<open>internal/sessionstore/pgstore\<close>: the store behind PostgreSQL. The SQL that the package sends is
  modelled by its abstract syntax and a relational reading of it over the two tables that the
  migration creates. What the driver and the server do beyond that are parameters: how a column
  of a type stores a value, in which order rows with equal keys come, and which statements fail.
\<close>

section \<open>Tables and statements\<close>

datatype sql_type = TEXT | INTEGER | BOOLEAN | TIMESTAMPTZ
datatype sql_value = SqlNull | SqlText string | SqlInt int | SqlBool bool | SqlTime instant

type_synonym sql_row = "(string, sql_value) gomap" \<comment> \<open>the value of each column\<close>

text \<open>\<^verbatim>\<open>migrations/00001_sessionstore_init.sql\<close>; in both tables \<^verbatim>\<open>id\<close> is the primary key.\<close>

definition sessions_schema :: "(string \<times> sql_type) list" where
  "sessions_schema =
     [(''id'', TEXT), (''slot'', INTEGER), (''status'', TEXT), (''repo_url'', TEXT), (''branch'', TEXT), (''error_msg'', TEXT),
      (''dev_mode'', BOOLEAN), (''created_at'', TIMESTAMPTZ), (''updated_at'', TIMESTAMPTZ), (''role'', TEXT), (''prompt'', TEXT), (''result'', TEXT)]"

definition favorites_schema :: "(string \<times> sql_type) list" where
  "favorites_schema = [(''id'', TEXT), (''name'', TEXT), (''repo_url'', TEXT), (''branch'', TEXT), (''created_at'', TIMESTAMPTZ)]"

record pgdb =
  db_sessions :: "sql_row list"
  db_favorites :: "sql_row list"
  db_ops :: nat \<comment> \<open>statements sent so far\<close>

datatype table = Sessions | Favorites

fun schema_of :: "table \<Rightarrow> (string \<times> sql_type) list" where
  "schema_of Sessions = sessions_schema"
| "schema_of Favorites = favorites_schema"

fun rows_in :: "table \<Rightarrow> pgdb \<Rightarrow> sql_row list" where
  "rows_in Sessions db = db_sessions db"
| "rows_in Favorites db = db_favorites db"

fun put_rows :: "table \<Rightarrow> sql_row list \<Rightarrow> pgdb \<Rightarrow> pgdb" where
  "put_rows Sessions rs db = db\<lparr>db_sessions := rs\<rparr>"
| "put_rows Favorites rs db = db\<lparr>db_favorites := rs\<rparr>"

record pg_env =
  pg_coerce :: "sql_type \<Rightarrow> sql_value \<Rightarrow> sql_value result" \<comment> \<open>what a column of the type stores of a parameter\<close>
  pg_scan :: "nat \<Rightarrow> sql_row list \<Rightarrow> sql_row list" \<comment> \<open>the order in which a query finds the rows\<close>
  pg_fault :: "nat \<Rightarrow> (goerror \<times> bool) option" \<comment> \<open>the statement fails, and whether it took effect\<close>
  pg_rowsErr :: "nat \<Rightarrow> (nat \<times> goerror) option" \<comment> \<open>reading the rows ends early with an error\<close>
  pg_scanErr :: goerror \<comment> \<open>a value does not fit the variable it is scanned into\<close>

definition column :: "string \<Rightarrow> sql_row \<Rightarrow> sql_value" where
  "column c row = (case gm_get row c of None \<Rightarrow> SqlNull | Some v \<Rightarrow> v)"

text \<open>\<^verbatim>\<open>VALUES ($1, ...)\<close>: the parameters as the columns of the table store them.\<close>

fun coerce_row :: "pg_env \<Rightarrow> (string \<times> sql_type) list \<Rightarrow> string list \<Rightarrow> sql_value list \<Rightarrow> sql_row result" where
  "coerce_row pe schema (c # cs) (v # vs) =
     (case pg_coerce pe (the (map_of schema c)) v of
        Inl e \<Rightarrow> Inl e
      | Inr x \<Rightarrow> map_sum id (\<lambda>row. (c, x) # row) (coerce_row pe schema cs vs))"
| "coerce_row pe schema _ _ = Inr []"

text \<open>\<^verbatim>\<open>SET c = EXCLUDED.c, ...\<close>\<close>

definition set_excluded :: "string list \<Rightarrow> sql_row \<Rightarrow> sql_row \<Rightarrow> sql_row" where
  "set_excluded cs new old = fold (\<lambda>c row. gm_set c (column c new) row) cs old"

definition insert_on_conflict :: "string list \<Rightarrow> sql_row \<Rightarrow> sql_row list \<Rightarrow> sql_row list" where
  "insert_on_conflict sets new rs =
     (if list_ex (\<lambda>old. column ''id'' old = column ''id'' new) rs
      then map (\<lambda>old. if column ''id'' old = column ''id'' new then set_excluded sets new old else old) rs
      else rs @ [new])"

datatype sql =
    InsertOnConflict table "string list" "string list" \<comment> \<open>the columns inserted, and those updated on a conflict of \<^verbatim>\<open>id\<close>\<close>
  | DeleteWhere table string
  | SelectWhere table "string list" string
  | SelectOrder table "string list" string

definition sql_time :: "sql_value \<Rightarrow> instant" where
  "sql_time v = (case v of SqlTime t \<Rightarrow> t | _ \<Rightarrow> 0)"

text \<open>A statement on the tables: the error of a value that a column refuses, or the rows it answers.\<close>

fun run_sql :: "pg_env \<Rightarrow> sql \<Rightarrow> sql_value list \<Rightarrow> pgdb \<Rightarrow> sql_value list list result \<times> pgdb" where
  "run_sql pe (InsertOnConflict t cs sets) params db =
     (case coerce_row pe (schema_of t) cs params of
        Inl e \<Rightarrow> (Inl e, db)
      | Inr new \<Rightarrow> (Inr [], put_rows t (insert_on_conflict sets new (rows_in t db)) db))"
| "run_sql pe (DeleteWhere t c) params db =
     (Inr [], put_rows t (filter (\<lambda>row. column c row \<noteq> params ! 0) (rows_in t db)) db)"
| "run_sql pe (SelectWhere t cs c) params db =
     (Inr (map (\<lambda>row. map (\<lambda>c. column c row) cs) (pg_scan pe (db_ops db) (filter (\<lambda>row. column c row = params ! 0) (rows_in t db)))), db)"
| "run_sql pe (SelectOrder t cs c) params db =
     (Inr (map (\<lambda>row. map (\<lambda>c. column c row) cs) (sort_key (\<lambda>row. sql_time (column c row)) (pg_scan pe (db_ops db) (rows_in t db)))), db)"

section \<open>database/sql\<close>

definition db_count :: "pgdb \<Rightarrow> pgdb" where
  "db_count db = db\<lparr>db_ops := Suc (db_ops db)\<rparr>"

definition db_Exec :: "pg_env \<Rightarrow> sql \<Rightarrow> sql_value list \<Rightarrow> pgdb \<Rightarrow> goerror option \<times> pgdb" where
  "db_Exec pe st params db =
     (case pg_fault pe (db_ops db) of
        Some (e, applied) \<Rightarrow> (Some e, db_count (if applied then snd (run_sql pe st params db) else db))
      | None \<Rightarrow>
          (case run_sql pe st params db of
             (Inl e, db1) \<Rightarrow> (Some e, db_count db1)
           | (Inr _, db1) \<Rightarrow> (None, db_count db1)))"

text \<open>The rows that a query gives one by one, and the error that \<^verbatim>\<open>rows.Err()\<close> has in the end.\<close>

definition db_Query :: "pg_env \<Rightarrow> sql \<Rightarrow> sql_value list \<Rightarrow> pgdb \<Rightarrow> (sql_value list list \<times> goerror option) result \<times> pgdb" where
  "db_Query pe st params db =
     (case pg_fault pe (db_ops db) of
        Some (e, applied) \<Rightarrow> (Inl e, db_count db)
      | None \<Rightarrow>
          (case run_sql pe st params db of
             (Inl e, db1) \<Rightarrow> (Inl e, db_count db1)
           | (Inr rows, db1) \<Rightarrow>
               (Inr (case pg_rowsErr pe (db_ops db) of None \<Rightarrow> (rows, None) | Some (n, e) \<Rightarrow> (take n rows, Some e)), db_count db1)))"

text \<open>\<^verbatim>\<open>row.Scan\<close>: the values of the only row, \<^verbatim>\<open>sql.ErrNoRows\<close> as \<^const>\<open>None\<close>.\<close>

definition db_QueryRow :: "pg_env \<Rightarrow> sql \<Rightarrow> sql_value list \<Rightarrow> pgdb \<Rightarrow> sql_value list option result \<times> pgdb" where
  "db_QueryRow pe st params db =
     (case db_Query pe st params db of
        (Inl e, db1) \<Rightarrow> (Inl e, db1)
      | (Inr ([], None), db1) \<Rightarrow> (Inr None, db1)
      | (Inr ([], Some e), db1) \<Rightarrow> (Inl e, db1)
      | (Inr (row # _, _), db1) \<Rightarrow> (Inr (Some row), db1))"

section \<open>The store\<close>

definition session_columns :: "string list" where
  "session_columns = [''id'', ''slot'', ''status'', ''repo_url'', ''branch'', ''error_msg'', ''dev_mode'', ''created_at'', ''updated_at'',
     ''role'', ''prompt'', ''result'']"

definition favorite_columns :: "string list" where
  "favorite_columns = [''id'', ''name'', ''repo_url'', ''branch'', ''created_at'']"

definition session_params :: "row \<Rightarrow> sql_value list" where
  "session_params r = [SqlText (row_ID r), SqlInt (row_Slot r), SqlText (row_Status r), SqlText (row_RepoURL r), SqlText (row_Branch r),
     SqlText (row_ErrorMsg r), SqlBool (row_DevMode r), SqlTime (row_CreatedAt r), SqlTime (row_UpdatedAt r), SqlText (row_Role r),
     SqlText (row_Prompt r), SqlText (row_Result r)]"

definition favorite_params :: "favorite \<Rightarrow> sql_value list" where
  "favorite_params f = [SqlText (fav_ID f), SqlText (fav_Name f), SqlText (fav_RepoURL f), SqlText (fav_Branch f), SqlTime (fav_CreatedAt f)]"

text \<open>\<^verbatim>\<open>Scan\<close> into the fields of a row: \<^const>\<open>None\<close> when a value has another type.\<close>

definition scan_session :: "sql_value list \<Rightarrow> row option" where
  "scan_session vs =
     (case vs of
        [SqlText i, SqlInt slot, SqlText status, SqlText url, SqlText branch, SqlText err, SqlBool dev, SqlTime created, SqlTime updated,
         SqlText role, SqlText prompt, SqlText res] \<Rightarrow>
          Some \<lparr>row_ID = i, row_Slot = slot, row_Status = status, row_RepoURL = url, row_Branch = branch, row_ErrorMsg = err, row_DevMode = dev,
            row_CreatedAt = created, row_UpdatedAt = updated, row_Role = role, row_Prompt = prompt, row_Result = res\<rparr>
      | _ \<Rightarrow> None)"

definition scan_favorite :: "sql_value list \<Rightarrow> favorite option" where
  "scan_favorite vs =
     (case vs of
        [SqlText i, SqlText name, SqlText url, SqlText branch, SqlTime created] \<Rightarrow>
          Some \<lparr>fav_ID = i, fav_Name = name, fav_RepoURL = url, fav_Branch = branch, fav_CreatedAt = created\<rparr>
      | _ \<Rightarrow> None)"

definition label_error :: "string \<Rightarrow> goerror option \<times> 'd \<Rightarrow> goerror option \<times> 'd" where
  "label_error label = map_prod (map_option (\<lambda>e. errorf_w label e [])) id"

definition pg_Upsert :: "pg_env \<Rightarrow> row \<Rightarrow> pgdb \<Rightarrow> goerror option \<times> pgdb" where
  "pg_Upsert pe r db =
     label_error ''upsert session: '' (db_Exec pe (InsertOnConflict Sessions session_columns
       [''slot'', ''status'', ''repo_url'', ''branch'', ''error_msg'', ''dev_mode'', ''created_at'', ''updated_at'', ''role'', ''prompt'', ''result''])
       (session_params r) db)"

definition pg_Delete :: "pg_env \<Rightarrow> string \<Rightarrow> pgdb \<Rightarrow> goerror option \<times> pgdb" where
  "pg_Delete pe i db = label_error ''delete session: '' (db_Exec pe (DeleteWhere Sessions ''id'') [SqlText i] db)"

definition pg_Get :: "pg_env \<Rightarrow> string \<Rightarrow> pgdb \<Rightarrow> row option result \<times> pgdb" where
  "pg_Get pe i db =
     (case db_QueryRow pe (SelectWhere Sessions session_columns ''id'') [SqlText i] db of
        (Inl e, db1) \<Rightarrow> (Inl (errorf_w ''get session: '' e []), db1)
      | (Inr None, db1) \<Rightarrow> (Inr None, db1)
      | (Inr (Some vs), db1) \<Rightarrow>
          (case scan_session vs of
             None \<Rightarrow> (Inl (errorf_w ''get session: '' (pg_scanErr pe) []), db1)
           | Some r \<Rightarrow> (Inr (Some r), db1)))"

text \<open>The loop \<^verbatim>\<open>for rows.Next()\<close> with its \<^verbatim>\<open>Scan\<close>.\<close>

fun scan_all :: "(sql_value list \<Rightarrow> 'a option) \<Rightarrow> goerror \<Rightarrow> sql_value list list \<Rightarrow> 'a list result" where
  "scan_all scan e [] = Inr []"
| "scan_all scan e (vs # rows) =
     (case scan vs of
        None \<Rightarrow> Inl e
      | Some x \<Rightarrow> map_sum id (\<lambda>xs. x # xs) (scan_all scan e rows))"

definition collect :: "string \<Rightarrow> goerror \<Rightarrow> (sql_value list \<Rightarrow> 'a option) \<Rightarrow> (sql_value list list \<times> goerror option) result \<times> pgdb \<Rightarrow> 'a list result \<times> pgdb" where
  "collect list_label scan_error scan q =
     (case q of
        (Inl e, db1) \<Rightarrow> (Inl (errorf_w list_label e []), db1)
      | (Inr (rows, err), db1) \<Rightarrow>
          (case scan_all scan scan_error rows of
             Inl e \<Rightarrow> (Inl e, db1)
           | Inr xs \<Rightarrow> (case err of Some e \<Rightarrow> Inl (errorf_w list_label e []) | None \<Rightarrow> Inr xs, db1)))"

definition pg_List :: "pg_env \<Rightarrow> pgdb \<Rightarrow> row list result \<times> pgdb" where
  "pg_List pe db =
     collect ''list sessions: '' (errorf_w ''scan session: '' (pg_scanErr pe) []) scan_session
       (db_Query pe (SelectOrder Sessions session_columns ''created_at'') [] db)"

definition pg_UpsertFavorite :: "pg_env \<Rightarrow> favorite \<Rightarrow> pgdb \<Rightarrow> goerror option \<times> pgdb" where
  "pg_UpsertFavorite pe f db =
     label_error ''upsert favorite: '' (db_Exec pe (InsertOnConflict Favorites favorite_columns
       [''name'', ''repo_url'', ''branch'', ''created_at'']) (favorite_params f) db)"

definition pg_DeleteFavorite :: "pg_env \<Rightarrow> string \<Rightarrow> pgdb \<Rightarrow> goerror option \<times> pgdb" where
  "pg_DeleteFavorite pe i db = label_error ''delete favorite: '' (db_Exec pe (DeleteWhere Favorites ''id'') [SqlText i] db)"

definition pg_ListFavorites :: "pg_env \<Rightarrow> pgdb \<Rightarrow> favorite list result \<times> pgdb" where
  "pg_ListFavorites pe db =
     collect ''list favorites: '' (errorf_w ''scan favorite: '' (pg_scanErr pe) []) scan_favorite
       (db_Query pe (SelectOrder Favorites favorite_columns ''created_at'') [] db)"

definition pg_ops :: "pg_env \<Rightarrow> pgdb store_ops" where
  "pg_ops pe = \<lparr>so_Upsert = pg_Upsert pe, so_Get = pg_Get pe, so_List = pg_List pe, so_Delete = pg_Delete pe,
     so_UpsertFavorite = pg_UpsertFavorite pe, so_DeleteFavorite = pg_DeleteFavorite pe, so_ListFavorites = pg_ListFavorites pe\<rparr>"

section \<open>Opening\<close>

text \<open>What \<^verbatim>\<open>Open\<close> calls of the driver and of goose, over their state.\<close>

record 'x pg_driver =
  pd_Open :: "string \<Rightarrow> 'x \<Rightarrow> goerror option \<times> 'x"
  pd_Ping :: "'x \<Rightarrow> goerror option \<times> 'x"
  pd_Close :: "'x \<Rightarrow> 'x"
  pd_Exec :: "string \<Rightarrow> 'x \<Rightarrow> goerror option \<times> 'x"
  pd_Sub :: "goerror option" \<comment> \<open>\<^verbatim>\<open>fs.Sub\<close> of the embedded migrations\<close>
  pd_NewProvider :: "string \<Rightarrow> 'x \<Rightarrow> goerror option \<times> 'x" \<comment> \<open>the name of its version table\<close>
  pd_Up :: "'x \<Rightarrow> goerror option \<times> 'x"

definition migrate :: "'x pg_driver \<Rightarrow> 'x \<Rightarrow> goerror option \<times> 'x" where
  "migrate pd x =
     (case pd_Exec pd ''CREATE SCHEMA IF NOT EXISTS rubbish'' x of
        (Some e, x1) \<Rightarrow> (Some (errorf_w ''create rubbish schema: '' e []), x1)
      | (None, x1) \<Rightarrow>
          (case pd_Sub pd of
             Some e \<Rightarrow> (Some e, x1)
           | None \<Rightarrow>
               (case pd_NewProvider pd ''rubbish.goose_db_version'' x1 of
                  (Some e, x2) \<Rightarrow> (Some e, x2)
                | (None, x2) \<Rightarrow> pd_Up pd x2)))"

definition pg_Open :: "'x pg_driver \<Rightarrow> string \<Rightarrow> 'x \<Rightarrow> goerror option \<times> 'x" where
  "pg_Open pd dsn x =
     (case pd_Open pd dsn x of
        (Some e, x1) \<Rightarrow> (Some (errorf_w ''open postgres: '' e []), x1)
      | (None, x1) \<Rightarrow>
          (case pd_Ping pd x1 of
             (Some e, x2) \<Rightarrow> (Some (errorf_w ''ping postgres: '' e []), pd_Close pd x2)
           | (None, x2) \<Rightarrow>
               (case migrate pd x2 of
                  (Some e, x3) \<Rightarrow> (Some (errorf_w ''migrate: '' e []), pd_Close pd x3)
                | (None, x3) \<Rightarrow> (None, x3))))"

end
