(* ===== verification/Pgstore_Props.thy ===== *)
theory Pgstore_Props
  imports Pgstore Session_Storetest "HOL-Library.Multiset"
begin

text \<open>
  The PostgreSQL store keeps the contract of the stores, with its times cut to microseconds, so it
  passes the conformance suite and answers as the JSON store does.
\<close>

section \<open>Tables of records\<close>

definition lookup :: "('a \<Rightarrow> string) \<Rightarrow> 'a list \<Rightarrow> string \<Rightarrow> 'a option" where
  "lookup ident xs = map_of (map (\<lambda>x. (ident x, x)) xs)"

definition replace :: "('a \<Rightarrow> string) \<Rightarrow> 'a \<Rightarrow> 'a list \<Rightarrow> 'a list" where
  "replace ident q xs = (if \<exists>x\<in>set xs. ident x = ident q then map (\<lambda>x. if ident x = ident q then q else x) xs else xs @ [q])"

lemma lookup_simps [simp]: "lookup ident [] = Map.empty" "lookup ident (x # xs) = (lookup ident xs)(ident x \<mapsto> x)"
  by (simp_all add: lookup_def)

lemma lookup_None: "lookup ident xs i = None \<longleftrightarrow> i \<notin> ident ` set xs"
  by (induction xs) auto

lemma lookup_Some: "distinct (map ident xs) \<Longrightarrow> lookup ident xs i = Some x \<longleftrightarrow> x \<in> set xs \<and> ident x = i"
  by (induction xs) (auto simp: lookup_None [symmetric])

lemma lookup_replace: "lookup ident (replace ident q xs) = (lookup ident xs)(ident q \<mapsto> q)"
proof (cases "ident q \<in> ident ` set xs")
  case True
  have "lookup ident (map (\<lambda>x. if ident x = ident q then q else x) xs) i = (if i = ident q then (if ident q \<in> ident ` set xs then Some q else None) else lookup ident xs i)"
    for i by (induction xs) auto
  with True show ?thesis by (auto simp: replace_def image_iff fun_eq_iff)
next
  case False
  have "ident q \<notin> ident ` set xs \<Longrightarrow> lookup ident (xs @ [q]) = (lookup ident xs)(ident q \<mapsto> q)"
    by (induction xs) (auto simp: fun_upd_twist)
  with False show ?thesis by (auto simp: replace_def image_iff)
qed

lemma distinct_replace: "distinct (map ident xs) \<Longrightarrow> distinct (map ident (replace ident q xs))"
proof -
  have "map ident (map (\<lambda>x. if ident x = ident q then q else x) xs) = map ident xs" by simp
  then show "distinct (map ident xs) \<Longrightarrow> ?thesis" by (auto simp: replace_def simp del: map_map)
qed

lemma lookup_remove: "lookup ident (filter (\<lambda>x. ident x \<noteq> i) xs) = (lookup ident xs)(i := None)"
  by (induction xs) auto

lemma enumerates_mset:
  assumes "distinct (map ident xs)" and "mset ys = mset xs" and "sorted (map key ys)"
  shows "enumerates ident key (lookup ident xs) ys"
proof -
  have "mset (map ident ys) = mset (map ident xs)" using assms(2) by simp
  then have "distinct (map ident ys)" using assms(1) mset_eq_imp_distinct_iff by blast
  moreover have "set ys = set xs" using assms(2) by (rule mset_eq_setD)
  ultimately show ?thesis using assms(1,3) by (auto simp: enumerates_def lookup_Some)
qed

definition decoded :: "(sql_value list \<Rightarrow> 'a option) \<Rightarrow> string list \<Rightarrow> sql_row list \<Rightarrow> 'a list" where
  "decoded scan cols rows = List.map_filter (\<lambda>row. scan (map (\<lambda>c. column c row) cols)) rows"

text \<open>How the records of a table stand in it: under their ID, with a time, and so that a scan reads them back.\<close>

locale keyed_table =
  fixes record_of :: "'a \<Rightarrow> sql_row" and ident :: "'a \<Rightarrow> string" and key :: "'a \<Rightarrow> instant"
    and scan :: "sql_value list \<Rightarrow> 'a option" and cols sets :: "string list"
  assumes id_column: "column ''id'' (record_of x) = SqlText (ident x)"
    and time_column: "sql_time (column ''created_at'' (record_of x)) = key x"
    and scan_record: "scan (map (\<lambda>c. column c (record_of x)) cols) = Some x"
    and excluded: "ident x = ident y \<Longrightarrow> set_excluded sets (record_of x) (record_of y) = record_of x"
begin

lemma decoded_records: "decoded scan cols (map record_of xs) = xs"
  by (induction xs) (simp_all add: decoded_def List.map_filter_def scan_record)

lemma insert_records: "insert_on_conflict sets (record_of q) (map record_of xs) = map record_of (replace ident q xs)"
  by (auto simp: insert_on_conflict_def replace_def list_ex_iff id_column excluded)

lemma delete_records: "filter (\<lambda>row. column ''id'' row \<noteq> SqlText i) (map record_of xs) = map record_of (filter (\<lambda>x. ident x \<noteq> i) xs)"
  by (simp add: filter_map comp_def id_column)

lemma select_records:
  assumes "distinct (map ident xs)" and "\<And>rs. mset (perm rs) = mset rs"
  shows "perm (filter (\<lambda>row. column ''id'' row = SqlText i) (map record_of xs)) = (case lookup ident xs i of None \<Rightarrow> [] | Some x \<Rightarrow> [record_of x])"
proof -
  have "filter (\<lambda>x. ident x = i) xs = (case lookup ident xs i of None \<Rightarrow> [] | Some x \<Rightarrow> [x])"
    using assms(1) by (induction xs) (auto simp: filter_empty_conv lookup_None [symmetric] split: option.splits)
  then have "filter (\<lambda>row. column ''id'' row = SqlText i) (map record_of xs) = (case lookup ident xs i of None \<Rightarrow> [] | Some x \<Rightarrow> [record_of x])"
    by (simp add: filter_map comp_def id_column split: option.splits)
  moreover have "perm [] = []" "perm [x] = [x]" for x using assms(2) [of "[]"] assms(2) [of "[x]"] by simp_all
  ultimately show ?thesis by (cases "lookup ident xs i") simp_all
qed

lemma list_records:
  assumes "distinct (map ident xs)" and "\<And>rs. mset (perm rs) = mset rs"
  shows "\<exists>ys. scan_all scan e (map (\<lambda>row. map (\<lambda>c. column c row) cols) (sort_key (\<lambda>row. sql_time (column ''created_at'' row)) (perm (map record_of xs)))) = Inr ys \<and>
    enumerates ident key (lookup ident xs) ys"
proof -
  define found where "found = sort_key (\<lambda>row. sql_time (column ''created_at'' row)) (perm (map record_of xs))"
  have m: "mset found = mset (map record_of xs)" by (simp add: found_def assms(2))
  then have "set found = set (map record_of xs)" by (rule mset_eq_setD)
  then have "\<forall>row\<in>set found. \<exists>x. row = record_of x" by auto
  then obtain ys where ys: "found = map record_of ys" unfolding ex_map_conv [symmetric] by blast
  have "image_mset (\<lambda>row. the (scan (map (\<lambda>c. column c row) cols))) (mset (map record_of zs)) = mset zs" for zs
    by (simp add: multiset.map_comp comp_def scan_record)
  then have "mset ys = mset xs" by (metis m ys)
  moreover have "sorted (map (\<lambda>row. sql_time (column ''created_at'' row)) found)" by (simp add: found_def)
  then have "sorted (map key ys)" by (simp add: ys comp_def time_column)
  moreover have "scan_all scan e (map (\<lambda>row. map (\<lambda>c. column c row) cols) (map record_of ys)) = Inr ys"
    by (induction ys) (simp_all add: scan_record)
  ultimately show ?thesis using enumerates_mset [OF assms(1)] ys unfolding found_def by auto
qed

end

definition session_record :: "row \<Rightarrow> sql_row" where
  "session_record r = zip session_columns (session_params r)"

definition favorite_record :: "favorite \<Rightarrow> sql_row" where
  "favorite_record f = zip favorite_columns (favorite_params f)"

abbreviation session_sets :: "string list" where "session_sets \<equiv> tl session_columns"
abbreviation favorite_sets :: "string list" where "favorite_sets \<equiv> tl favorite_columns"

lemmas record_defs = session_record_def session_columns_def session_params_def favorite_record_def favorite_columns_def favorite_params_def

interpretation session_table: keyed_table session_record row_ID row_CreatedAt scan_session session_columns session_sets
  by unfold_locales (simp_all add: record_defs column_def sql_time_def scan_session_def set_excluded_def)

interpretation favorite_table: keyed_table favorite_record fav_ID fav_CreatedAt scan_favorite favorite_columns favorite_sets
  by unfold_locales (simp_all add: record_defs column_def sql_time_def scan_favorite_def set_excluded_def)

section \<open>A working server\<close>

text \<open>
  What the documentation of PostgreSQL says of the columns: text without NUL and integers of four
  bytes are kept, times are cut to microseconds. Rows come in any order; no statement fails.
\<close>

definition micro :: "instant \<Rightarrow> instant" where
  "micro t = t - t mod 1000"

definition pg_works :: "pg_env \<Rightarrow> bool" where
  "pg_works pe \<longleftrightarrow> (\<forall>n. pg_fault pe n = None) \<and> (\<forall>n. pg_rowsErr pe n = None) \<and> (\<forall>n rs. mset (pg_scan pe n rs) = mset rs) \<and>
     (\<forall>s. utf8_valid s \<and> CHR 0x00 \<notin> set s \<longrightarrow> pg_coerce pe TEXT (SqlText s) = Inr (SqlText s)) \<and>
     (\<forall>k. - (2 ^ 31) \<le> k \<and> k < 2 ^ 31 \<longrightarrow> pg_coerce pe INTEGER (SqlInt k) = Inr (SqlInt k)) \<and>
     (\<forall>b. pg_coerce pe BOOLEAN (SqlBool b) = Inr (SqlBool b)) \<and>
     (\<forall>t. time_ok t \<longrightarrow> pg_coerce pe TIMESTAMPTZ (SqlTime t) = Inr (SqlTime (micro t)))"

definition pg_row_ok :: "row \<Rightarrow> bool" where
  "pg_row_ok r \<longleftrightarrow> row_ok r \<and> plain_row r"

definition pg_favorite_ok :: "favorite \<Rightarrow> bool" where
  "pg_favorite_ok f \<longleftrightarrow> favorite_ok f \<and> plain_favorite f"

lemma coerce_session: "pg_works pe \<Longrightarrow> pg_row_ok r \<Longrightarrow> coerce_row pe sessions_schema session_columns (session_params r) = Inr (session_record (kept micro r))"
  by (simp add: pg_works_def pg_row_ok_def row_ok_def plain_row_def plain_texts_def record_defs sessions_schema_def)

lemma coerce_favorite: "pg_works pe \<Longrightarrow> pg_favorite_ok f \<Longrightarrow> coerce_row pe favorites_schema favorite_columns (favorite_params f) = Inr (favorite_record (kept_fav micro f))"
  by (simp add: pg_works_def pg_favorite_ok_def favorite_ok_def plain_favorite_def plain_texts_def record_defs favorites_schema_def)

section \<open>The contract\<close>

definition pg_sessions :: "pgdb \<Rightarrow> row list" where
  "pg_sessions db = decoded scan_session session_columns (db_sessions db)"

definition pg_favorites :: "pgdb \<Rightarrow> favorite list" where
  "pg_favorites db = decoded scan_favorite favorite_columns (db_favorites db)"

definition pg_rows :: "pgdb \<Rightarrow> string \<Rightarrow> row option" where
  "pg_rows db = lookup row_ID (pg_sessions db)"

definition pg_favs :: "pgdb \<Rightarrow> string \<Rightarrow> favorite option" where
  "pg_favs db = lookup fav_ID (pg_favorites db)"

definition tables_hold :: "row list \<Rightarrow> favorite list \<Rightarrow> pgdb \<Rightarrow> bool" where
  "tables_hold rs fs db \<longleftrightarrow> db_sessions db = map session_record rs \<and> db_favorites db = map favorite_record fs \<and>
     distinct (map row_ID rs) \<and> distinct (map fav_ID fs)"

definition pg_inv :: "pg_env \<Rightarrow> pgdb \<Rightarrow> bool" where
  "pg_inv pe db \<longleftrightarrow> pg_works pe \<and> (\<exists>rs fs. tables_hold rs fs db)"

lemma tables_hold:
  "tables_hold rs fs db \<Longrightarrow> pg_rows db = lookup row_ID rs" "tables_hold rs fs db \<Longrightarrow> pg_favs db = lookup fav_ID fs"
  by (simp_all add: tables_hold_def pg_rows_def pg_favs_def pg_sessions_def pg_favorites_def session_table.decoded_records favorite_table.decoded_records)

lemma hold_count [simp]: "tables_hold rs fs (db_count db) = tables_hold rs fs db"
  by (simp add: tables_hold_def db_count_def)

lemma exec_works: "pg_works pe \<Longrightarrow> db_Exec pe st ps db =
    (case run_sql pe st ps db of (Inl e, db1) \<Rightarrow> (Some e, db_count db1) | (Inr _, db1) \<Rightarrow> (None, db_count db1))"
  by (simp add: db_Exec_def pg_works_def)

lemma query_works: "pg_works pe \<Longrightarrow> db_Query pe st ps db =
    (case run_sql pe st ps db of (Inl e, db1) \<Rightarrow> (Inl e, db_count db1) | (Inr rows, db1) \<Rightarrow> (Inr (rows, None), db_count db1))"
  by (auto simp: db_Query_def pg_works_def split: prod.splits sum.splits)

interpretation pg: row_store "pg_ops pe" "pg_inv pe" pg_rows pg_favs pg_row_ok pg_favorite_ok micro for pe
proof unfold_locales
  fix s s' :: pgdb and r e i g l f fl
  assume inv: "pg_inv pe s"
  then obtain rs fs where w: "pg_works pe" and h: "tables_hold rs fs s" by (auto simp: pg_inv_def)
  note views = tables_hold [OF h]
  have sets: "[''slot'', ''status'', ''repo_url'', ''branch'', ''error_msg'', ''dev_mode'', ''created_at'', ''updated_at'', ''role'', ''prompt'', ''result''] = session_sets"
    "[''name'', ''repo_url'', ''branch'', ''created_at''] = favorite_sets"
    by (simp_all add: session_columns_def favorite_columns_def)
  have good: "pg_inv pe t \<and> pg_rows t = lookup row_ID rs' \<and> pg_favs t = lookup fav_ID fs'" if "tables_hold rs' fs' t" for rs' fs' t
    using that w tables_hold [OF that] by (auto simp: pg_inv_def)
  show "e = None \<and> pg_inv pe s' \<and> pg_rows s' = (pg_rows s)(row_ID r \<mapsto> kept micro r) \<and> pg_favs s' = pg_favs s"
    if "pg_row_ok r" "so_Upsert (pg_ops pe) r s = (e, s')"
  proof -
    have "tables_hold (replace row_ID (kept micro r) rs) fs s' \<and> e = None"
      using that(2) h unfolding pg_ops_def by (auto simp: pg_Upsert_def label_error_def exec_works [OF w] coerce_session [OF w that(1)] sets
          tables_hold_def session_table.insert_records distinct_replace db_count_def)
    with good [of "replace row_ID (kept micro r) rs" fs s'] views show ?thesis by (simp add: lookup_replace)
  qed
  show "e = None \<and> pg_inv pe s' \<and> pg_favs s' = (pg_favs s)(fav_ID f \<mapsto> kept_fav micro f) \<and> pg_rows s' = pg_rows s"
    if "pg_favorite_ok f" "so_UpsertFavorite (pg_ops pe) f s = (e, s')"
  proof -
    have "tables_hold rs (replace fav_ID (kept_fav micro f) fs) s' \<and> e = None"
      using that(2) h unfolding pg_ops_def by (auto simp: pg_UpsertFavorite_def label_error_def exec_works [OF w] coerce_favorite [OF w that(1)] sets
          tables_hold_def favorite_table.insert_records distinct_replace db_count_def)
    with good [of rs "replace fav_ID (kept_fav micro f) fs" s'] views show ?thesis by (simp add: lookup_replace)
  qed
  show "e = None \<and> pg_inv pe s' \<and> pg_rows s' = (pg_rows s)(i := None) \<and> pg_favs s' = pg_favs s"
    if "so_Delete (pg_ops pe) i s = (e, s')"
  proof -
    have "tables_hold (filter (\<lambda>x. row_ID x \<noteq> i) rs) fs s' \<and> e = None"
      using that h unfolding pg_ops_def by (auto simp: pg_Delete_def label_error_def exec_works [OF w] tables_hold_def session_table.delete_records db_count_def
          distinct_map_filter)
    with good [of "filter (\<lambda>x. row_ID x \<noteq> i) rs" fs s'] views show ?thesis by (simp add: lookup_remove)
  qed
  show "e = None \<and> pg_inv pe s' \<and> pg_favs s' = (pg_favs s)(i := None) \<and> pg_rows s' = pg_rows s"
    if "so_DeleteFavorite (pg_ops pe) i s = (e, s')"
  proof -
    have "tables_hold rs (filter (\<lambda>x. fav_ID x \<noteq> i) fs) s' \<and> e = None"
      using that h unfolding pg_ops_def by (auto simp: pg_DeleteFavorite_def label_error_def exec_works [OF w] tables_hold_def favorite_table.delete_records db_count_def
          distinct_map_filter)
    with good [of rs "filter (\<lambda>x. fav_ID x \<noteq> i) fs" s'] views show ?thesis by (simp add: lookup_remove)
  qed
  have perm: "mset (pg_scan pe n xs) = mset xs" for n xs using w by (simp add: pg_works_def)
  show "g = Inr (pg_rows s i) \<and> pg_inv pe s' \<and> pg_rows s' = pg_rows s \<and> pg_favs s' = pg_favs s"
    if "so_Get (pg_ops pe) i s = (g, s')"
  proof -
    have d: "distinct (map row_ID rs)" "db_sessions s = map session_record rs" using h by (simp_all add: tables_hold_def)
    from session_table.select_records [OF d(1) perm [of "db_ops s"], of i] that h good [of rs fs "db_count s"] views
    show ?thesis
      by (cases "lookup row_ID rs i") (auto simp: pg_ops_def pg_Get_def db_QueryRow_def query_works [OF w] d(2) session_table.scan_record)
  qed
  show "(\<exists>xs. l = Inr xs \<and> enumerates row_ID row_CreatedAt (pg_rows s) xs) \<and> pg_inv pe s' \<and> pg_rows s' = pg_rows s \<and> pg_favs s' = pg_favs s"
    if "so_List (pg_ops pe) s = (l, s')"
  proof -
    have d: "distinct (map row_ID rs)" "db_sessions s = map session_record rs" using h by (simp_all add: tables_hold_def)
    obtain ys where "scan_all scan_session (errorf_w ''scan session: '' (pg_scanErr pe) []) (map (\<lambda>row. map (\<lambda>c. column c row) session_columns)
          (sort_key (\<lambda>row. sql_time (column ''created_at'' row)) (pg_scan pe (db_ops s) (map session_record rs)))) = Inr ys"
      "enumerates row_ID row_CreatedAt (lookup row_ID rs) ys"
      using session_table.list_records [OF d(1) perm [of "db_ops s"]] by blast
    note ys = this
    have "(l, s') = pg_List pe s" using that by (simp add: pg_ops_def)
    then have "l = Inr ys" "s' = db_count s" by (simp_all add: pg_List_def collect_def query_works [OF w] d(2) ys(1))
    with ys(2) h good [of rs fs "db_count s"] views show ?thesis by simp
  qed
  show "(\<exists>xs. fl = Inr xs \<and> enumerates fav_ID fav_CreatedAt (pg_favs s) xs) \<and> pg_inv pe s' \<and> pg_favs s' = pg_favs s \<and> pg_rows s' = pg_rows s"
    if "so_ListFavorites (pg_ops pe) s = (fl, s')"
  proof -
    have d: "distinct (map fav_ID fs)" "db_favorites s = map favorite_record fs" using h by (simp_all add: tables_hold_def)
    obtain ys where "scan_all scan_favorite (errorf_w ''scan favorite: '' (pg_scanErr pe) []) (map (\<lambda>row. map (\<lambda>c. column c row) favorite_columns)
          (sort_key (\<lambda>row. sql_time (column ''created_at'' row)) (pg_scan pe (db_ops s) (map favorite_record fs)))) = Inr ys"
      "enumerates fav_ID fav_CreatedAt (lookup fav_ID fs) ys"
      using favorite_table.list_records [OF d(1) perm [of "db_ops s"]] by blast
    note ys = this
    have "(fl, s') = pg_ListFavorites pe s" using that by (simp add: pg_ops_def)
    then have "fl = Inr ys" "s' = db_count s" by (simp_all add: pg_ListFavorites_def collect_def query_works [OF w] d(2) ys(1))
    with ys(2) h good [of rs fs "db_count s"] views show ?thesis by simp
  qed
next
  fix t n :: int
  have "(t + n * 1000000000) mod 1000 = t mod 1000" using mod_mult_self1 [of t "n * 1000000" 1000] by (simp add: mult.assoc)
  then show "micro (t + n * 1000000000) = micro t + n * 1000000000" by (simp add: micro_def)
qed (simp_all add: pg_row_ok_def pg_favorite_ok_def)

section \<open>Conformance\<close>

definition fresh_db :: pgdb where
  "fresh_db = \<lparr>db_sessions = [], db_favorites = [], db_ops = 0\<rparr>"

lemma fresh_tables: "tables_hold [] [] fresh_db"
  by (simp add: tables_hold_def fresh_db_def)

text \<open>
  (C9) The PostgreSQL store on freshly migrated tables passes the whole conformance suite, as the
  JSON store does, when the server works.
\<close>

theorem pgstore_conforms:
  assumes "pg_works pe" and "\<And>n. near (clock n)"
  shows "storetest_Run (pg_ops pe) clock (\<lambda>_. fresh_db)"
proof (rule pg.passes_Run)
  show "pg.fresh pe fresh_db"
    using assms(1) fresh_tables tables_hold [OF fresh_tables] by (auto simp: pg.fresh_def pg_inv_def lookup_def)
qed (rule assms(2))

text \<open>A server that finds the rows in the order of their insertion.\<close>

fun ex_coerce :: "sql_type \<Rightarrow> sql_value \<Rightarrow> sql_value result" where
  "ex_coerce TIMESTAMPTZ (SqlTime t) = Inr (SqlTime (micro t))"
| "ex_coerce INTEGER (SqlInt k) = (if - (2 ^ 31) \<le> k \<and> k < 2 ^ 31 then Inr (SqlInt k) else Inl (errorf ''integer out of range''))"
| "ex_coerce TEXT (SqlText s) = (if utf8_valid s \<and> CHR 0x00 \<notin> set s then Inr (SqlText s) else Inl (errorf ''invalid byte sequence''))"
| "ex_coerce _ v = Inr v"

definition ex_pg :: pg_env where
  "ex_pg = \<lparr>pg_coerce = ex_coerce, pg_scan = \<lambda>_ rs. rs, pg_fault = \<lambda>_. None, pg_rowsErr = \<lambda>_. None, pg_scanErr = errorf ''scan''\<rparr>"

lemma ex_pg_works: "pg_works ex_pg"
  by (simp add: pg_works_def ex_pg_def)

theorem pgstore_conforms_witness: "storetest_Run (pg_ops ex_pg) (\<lambda>_. noon) (\<lambda>_. fresh_db)"
  by (rule pgstore_conforms [OF ex_pg_works]) (rule near_noon)

section \<open>The two stores side by side\<close>

datatype store_op =
    OpUpsert row | OpDelete string | OpGet string | OpList
  | OpUpsertFavorite favorite | OpDeleteFavorite string | OpListFavorites

datatype store_answer =
    Written "goerror option" | Found "row option result" | Listed "row list result" | ListedFavorites "favorite list result"

fun run_op :: "'st store_ops \<Rightarrow> store_op \<Rightarrow> 'st \<Rightarrow> store_answer \<times> 'st" where
  "run_op ops (OpUpsert r) s = map_prod Written id (so_Upsert ops r s)"
| "run_op ops (OpDelete i) s = map_prod Written id (so_Delete ops i s)"
| "run_op ops (OpGet i) s = map_prod Found id (so_Get ops i s)"
| "run_op ops OpList s = map_prod Listed id (so_List ops s)"
| "run_op ops (OpUpsertFavorite f) s = map_prod Written id (so_UpsertFavorite ops f s)"
| "run_op ops (OpDeleteFavorite i) s = map_prod Written id (so_DeleteFavorite ops i s)"
| "run_op ops OpListFavorites s = map_prod ListedFavorites id (so_ListFavorites ops s)"

fun run_ops :: "'st store_ops \<Rightarrow> store_op list \<Rightarrow> 'st \<Rightarrow> store_answer list" where
  "run_ops ops [] s = []"
| "run_ops ops (p # ps) s = (case run_op ops p s of (a, s1) \<Rightarrow> a # run_ops ops ps s1)"

text \<open>
  The second answer is the first with its times cut; lists have the same elements, in the same
  order of creation times.
\<close>

fun same_answer :: "(instant \<Rightarrow> instant) \<Rightarrow> store_answer \<Rightarrow> store_answer \<Rightarrow> bool" where
  "same_answer kt (Written None) (Written None) = True"
| "same_answer kt (Found (Inr r)) (Found (Inr q)) \<longleftrightarrow> q = map_option (kept kt) r"
| "same_answer kt (Listed (Inr xs)) (Listed (Inr ys)) \<longleftrightarrow>
     mset ys = mset (map (kept kt) xs) \<and> map row_CreatedAt ys = map (kt \<circ> row_CreatedAt) xs"
| "same_answer kt (ListedFavorites (Inr xs)) (ListedFavorites (Inr ys)) \<longleftrightarrow>
     mset ys = mset (map (kept_fav kt) xs) \<and> map fav_CreatedAt ys = map (kt \<circ> fav_CreatedAt) xs"
| "same_answer kt _ _ = False"

lemma enumerates_image:
  assumes "enumerates ident key m xs" and "enumerates ident key (\<lambda>i. map_option u (m i)) ys" and "mono kt"
    and "\<And>x. ident (u x) = ident x" and "\<And>x. key (u x) = kt (key x)"
  shows "mset ys = mset (map u xs) \<and> map key ys = map (kt \<circ> key) xs"
proof -
  have "distinct (map ident (map u xs))" using assms(1,4) by (simp add: enumerates_def comp_def)
  then have d: "distinct (map u xs)" "distinct ys" using assms(2) distinct_map [of ident "map u xs"] distinct_map [of ident ys] unfolding enumerates_def by blast+
  have "y \<in> set ys \<longleftrightarrow> y \<in> set (map u xs)" for y
    using assms(1,2,4) unfolding enumerates_def by (auto simp: image_iff)
  then have m: "mset ys = mset (map u xs)" using d set_eq_iff_mset_eq_distinct by blast
  then have "mset (map key ys) = mset (map key (map u xs))" by (metis mset_map)
  moreover have "map key (map u xs) = map (kt \<circ> key) xs" using assms(5) by simp
  moreover have "sorted (map (kt \<circ> key) xs)"
  proof -
    have "sorted (map kt (map key xs))" using assms(1,3) by (intro sorted_map_mono) (auto simp: enumerates_def mono_on_def mono_def)
    then show ?thesis by simp
  qed
  ultimately show ?thesis using m assms(2) unfolding enumerates_def by (metis properties_for_sort)
qed

locale two_stores =
  a: session_store opsA invA rowsA favsA + b: row_store opsB invB rowsB favsB rok fok kt
  for opsA :: "'a store_ops" and invA rowsA favsA and opsB :: "'b store_ops" and invB rowsB favsB rok fok kt +
  assumes kt_mono: "mono kt"
    and stricter: "rok r \<Longrightarrow> row_ok r" "fok f \<Longrightarrow> favorite_ok f"
begin

definition mirrors :: "'a \<Rightarrow> 'b \<Rightarrow> bool" where
  "mirrors s t \<longleftrightarrow> invA s \<and> invB t \<and> rowsB t = (\<lambda>i. map_option (kept kt) (rowsA s i)) \<and> favsB t = (\<lambda>i. map_option (kept_fav kt) (favsA s i))"

fun takes :: "store_op \<Rightarrow> bool" where
  "takes (OpUpsert r) = rok r"
| "takes (OpUpsertFavorite f) = fok f"
| "takes _ = True"

lemma mirrored_op:
  assumes "mirrors s t" and "takes p" and "run_op opsA p s = (x, s')" and "run_op opsB p t = (y, t')"
  shows "same_answer kt x y \<and> mirrors s' t'"
proof -
  have i: "invA s" "invB t" and rows: "rowsB t = (\<lambda>i. map_option (kept kt) (rowsA s i))" and favs: "favsB t = (\<lambda>i. map_option (kept_fav kt) (favsA s i))"
    using assms(1) by (simp_all add: mirrors_def)
  note images = enumerates_image [where kt = kt, OF _ _ kt_mono]
  show ?thesis
  proof (cases p)
    case (OpUpsert r)
    with assms(2-4) a.Upsert [OF i(1), of r] b.Upsert_kept [OF i(2), of r] stricter(1) [of r] rows favs show ?thesis
      by (auto simp: mirrors_def fun_eq_iff map_prod_def split: prod.splits)
  next
    case (OpDelete j)
    with assms(3,4) a.Delete [OF i(1), of j] b.Delete [OF i(2), of j] rows favs show ?thesis
      by (auto simp: mirrors_def fun_eq_iff map_prod_def split: prod.splits)
  next
    case (OpGet j)
    with assms(3,4) a.Get [OF i(1), of j] b.Get [OF i(2), of j] rows favs show ?thesis
      by (auto simp: mirrors_def map_prod_def split: prod.splits)
  next
    case OpList
    obtain l s1 l' t1 where "so_List opsA s = (l, s1)" "so_List opsB t = (l', t1)" by fastforce
    with OpList assms(3,4) a.List [OF i(1)] b.List [OF i(2)] rows favs
      images [of row_ID row_CreatedAt "rowsA s" _ "kept kt"] show ?thesis by (fastforce simp: mirrors_def)
  next
    case (OpUpsertFavorite f)
    with assms(2-4) a.UpsertFavorite [OF i(1), of f] b.UpsertFavorite_kept [OF i(2), of f] stricter(2) [of f] rows favs show ?thesis
      by (auto simp: mirrors_def fun_eq_iff map_prod_def split: prod.splits)
  next
    case (OpDeleteFavorite j)
    with assms(3,4) a.DeleteFavorite [OF i(1), of j] b.DeleteFavorite [OF i(2), of j] rows favs show ?thesis
      by (auto simp: mirrors_def fun_eq_iff map_prod_def split: prod.splits)
  next
    case OpListFavorites
    obtain l s1 l' t1 where "so_ListFavorites opsA s = (l, s1)" "so_ListFavorites opsB t = (l', t1)" by fastforce
    with OpListFavorites assms(3,4) a.ListFavorites [OF i(1)] b.ListFavorites [OF i(2)] rows favs
      images [of fav_ID fav_CreatedAt "favsA s" _ "kept_fav kt"] show ?thesis by (fastforce simp: mirrors_def)
  qed
qed

lemma mirrored_ops: "mirrors s t \<Longrightarrow> list_all takes ps \<Longrightarrow> list_all2 (same_answer kt) (run_ops opsA ps s) (run_ops opsB ps t)"
proof (induction ps arbitrary: s t)
  case (Cons p ps)
  obtain x s' y t' where r: "run_op opsA p s = (x, s')" "run_op opsB p t = (y, t')" by fastforce
  with mirrored_op [OF Cons.prems(1) _ r] Cons show ?case by simp
qed simp

end

lemma micro_mono: "mono micro"
proof
  fix t u :: instant assume "t \<le> u"
  have "micro v = v div 1000 * 1000" for v by (simp add: micro_def minus_mod_eq_div_mult)
  with \<open>t \<le> u\<close> show "micro t \<le> micro u" by (simp add: zdiv_mono1)
qed

interpretation both: two_stores "js_ops je" "js_inv je" js_rows js_favs "pg_ops pe" "pg_inv pe" pg_rows pg_favs pg_row_ok pg_favorite_ok micro for je pe
  by unfold_locales (use micro_mono in \<open>simp_all add: pg_row_ok_def pg_favorite_ok_def\<close>)

text \<open>The values that an operation writes are ones that PostgreSQL takes.\<close>

definition pg_takes :: "store_op \<Rightarrow> bool" where
  "pg_takes p \<longleftrightarrow> (\<forall>r. p = OpUpsert r \<longrightarrow> pg_row_ok r) \<and> (\<forall>f. p = OpUpsertFavorite f \<longrightarrow> pg_favorite_ok f)"



end
