(* ===== verification/Mains.thy ===== *)
theory Mains
  imports Server_Main Terminal_Start Rubishd Real_Boot Pgstore_Props
begin

text \<open>
  The \<^verbatim>\<open>main\<close> functions of \<^verbatim>\<open>cmd/poc\<close>, \<^verbatim>\<open>cmd/terminal\<close> and \<^verbatim>\<open>cmd/rubishd\<close> up to the listener: from the flags and the key
  file to the handlers that will be served. \<open>Exit\<close> is \<^verbatim>\<open>os.Exit(1)\<close> after the message; \<open>Outside\<close> is a workflow file outside the
  model of \<^verbatim>\<open>Workflow_Open\<close>. The files that the components of a server use are different ones, so each component goes on with its own
  copy of the file system. The listeners and the shutdown are not modelled.
\<close>

section \<open>What the servers share\<close>

datatype 'a main_result = Exit string | Outside | Serves 'a

record flags =
  fl_key :: string
  fl_slots :: int
  fl_devHostIP :: string
  fl_db :: string
  fl_dsn :: string
  fl_addr :: string
  fl_args :: "string list" \<comment> \<open>what follows the flags\<close>

text \<open>A value of the interface \<^verbatim>\<open>sessionstore.Store\<close> is one of its implementations.\<close>

datatype any_store = IsJson jsonstore | IsPg pgdb

definition dispatch :: "(jsonstore \<Rightarrow> 'r \<times> jsonstore) \<Rightarrow> (pgdb \<Rightarrow> 'r \<times> pgdb) \<Rightarrow> any_store \<Rightarrow> 'r \<times> any_store" where
  "dispatch f g s = (case s of IsJson j \<Rightarrow> apsnd IsJson (f j) | IsPg p \<Rightarrow> apsnd IsPg (g p))"

definition any_ops :: "js_env \<Rightarrow> pg_env \<Rightarrow> any_store store_ops" where
  "any_ops je pe =
     \<lparr>so_Upsert = \<lambda>r. dispatch (js_Upsert je r) (pg_Upsert pe r), so_Get = \<lambda>i. dispatch (js_Get je i) (pg_Get pe i),
      so_List = dispatch (js_List je) (pg_List pe), so_Delete = \<lambda>i. dispatch (js_Delete je i) (pg_Delete pe i),
      so_UpsertFavorite = \<lambda>f. dispatch (js_UpsertFavorite je f) (pg_UpsertFavorite pe f),
      so_DeleteFavorite = \<lambda>i. dispatch (js_DeleteFavorite je i) (pg_DeleteFavorite pe i),
      so_ListFavorites = dispatch (js_ListFavorites je) (pg_ListFavorites pe)\<rparr>"

definition js_at :: "fs_env \<Rightarrow> string \<Rightarrow> js_env" where
  "js_at env path =
     (case LastIndexAny path ''/'' of
        None \<Rightarrow> \<lparr>je_fs = env, je_dir = ''.'', je_base = path\<rparr>
      | Some k \<Rightarrow> \<lparr>je_fs = env, je_dir = take k path, je_base = drop (Suc k) path\<rparr>)"

text \<open>The key file, with the message of the exit if it is not one. \<open>parseKey\<close> is \<^verbatim>\<open>ssh.ParsePrivateKey\<close>, its result the public key.\<close>

definition load_key :: "string \<Rightarrow> fs_env \<Rightarrow> (string \<Rightarrow> string result) \<Rightarrow> string \<Rightarrow> fs \<Rightarrow> (string + string) \<times> fs" where
  "load_key name env parseKey path fs0 =
     (case ReadFile env path fs0 of
        (Inl _, fs1) \<Rightarrow> (Inl (''read '' @ name), fs1)
      | (Inr keyBytes, fs1) \<Rightarrow>
          (case parseKey keyBytes of
             Inl _ \<Rightarrow> (Inl (''parse '' @ name), fs1)
           | Inr pub \<Rightarrow> (Inr pub, fs1)))"

text \<open>\<open>db\<close> is the database behind the data source name.\<close>

definition open_store :: "fs_env \<Rightarrow> 'p pg_driver \<Rightarrow> pgdb \<Rightarrow> flags \<Rightarrow> fs \<Rightarrow> 'p \<Rightarrow> (string + any_store) \<times> fs \<times> 'p" where
  "open_store env pd db fl fs0 p =
     (if fl_dsn fl \<noteq> [] then
        (case pg_Open pd (fl_dsn fl) p of
           (Some _, p1) \<Rightarrow> (Inl ''open postgres session store'', fs0, p1)
         | (None, p1) \<Rightarrow> (Inr (IsPg db), fs0, p1))
      else
        (case store_Open (js_at env (fl_db fl)) fs0 of
           (Inl _, fs1) \<Rightarrow> (Inl ''open json session store'', fs1, p)
         | (Inr d, fs1) \<Rightarrow> (Inr (IsJson \<lparr>js_data = d, js_fs = fs1\<rparr>), fs1, p)))"

section \<open>The terminal server\<close>

record 'p terminal_env =
  tn_fs :: fs_env
  tn_parseKey :: "string \<Rightarrow> string result"
  tn_driver :: "'p pg_driver"
  tn_pg :: pg_env
  tn_db :: pgdb
  tn_html :: string
  tn_wide :: "string \<Rightarrow> string"

definition terminal_main :: "'p terminal_env \<Rightarrow> flags \<Rightarrow> fs \<Rightarrow> 'p \<Rightarrow> any_store main_result \<times> fs \<times> 'p" where
  "terminal_main tn fl fs0 p =
     (if fl_key fl = [] then (Exit ''usage: rubbish-terminal --key <path-to-ssh-private-key>'', fs0, p)
      else
        (case load_key ''SSH key'' (tn_fs tn) (tn_parseKey tn) (fl_key fl) fs0 of
           (Inl msg, fs1) \<Rightarrow> (Exit msg, fs1, p)
         | (Inr _, fs1) \<Rightarrow>
             (case open_store (tn_fs tn) (tn_driver tn) (tn_db tn) fl fs1 p of
                (Inl msg, fs2, p2) \<Rightarrow> (Exit msg, fs2, p2)
              | (Inr st, fs2, p2) \<Rightarrow> (Serves st, fs2, p2))))"

text \<open>Its two handlers; \<open>Refused\<close> is any plain reply.\<close>

definition terminal_serve :: "'p terminal_env \<Rightarrow> flags \<Rightarrow> string \<Rightarrow> any_store \<Rightarrow> ws_answer \<times> any_store" where
  "terminal_serve tn fl path st =
     (if path = ''/terminal'' \<or> path = ''/ws'' then (Refused (Redirect (path @ ''/'')), st)
      else if HasPrefix path ''/terminal/'' then (Refused (writePage (tn_html tn)), st)
      else if HasPrefix path ''/ws/'' then ws_handler (tn_wide tn) (any_ops (js_at (tn_fs tn) (fl_db fl)) (tn_pg tn)) path st
      else (Refused NotFound, st))"

lemma any_Get_json:
  "so_Get (any_ops je pe) i (IsJson j) = (case js_Get je i j of (r, j1) \<Rightarrow> (r, IsJson j1))"
  by (simp add: any_ops_def dispatch_def apsnd_def map_prod_def case_prod_unfold)

lemma ws_over_json:
  "fst (ws_handler wide (any_ops je pe) path (IsJson j)) = fst (ws_handler wide (js_ops je) path j)"
  unfolding ws_handler_def any_Get_json by (simp add: js_ops_def split: prod.split sum.split option.split)

text \<open>
  (C15) From one process to the other: when the server has stored the row of a session in its JSON file, a terminal server that is then
  started with a readable key and the same \<^verbatim>\<open>--db\<close> serves, and a request for the session's terminal is attached to the machine in the
  slot of the row with the start command of its repository when the row is ready, and refused with its status otherwise.
\<close>

theorem terminal_attaches:
  assumes "js_inv (js_at (tn_fs tn) (fl_db fl)) s" and "row_ok r" and "js_Upsert (js_at (tn_fs tn) (fl_db fl)) r s = (e, s')"
    and "fs_get fs0 (je_path (js_at (tn_fs tn) (fl_db fl))) = fs_get (js_fs s') (je_path (js_at (tn_fs tn) (fl_db fl)))"
    and "fl_dsn fl = []" and "fl_key fl \<noteq> []" and "fs_get fs0 (fl_key fl) = Some key" and "tn_parseKey tn key = Inr pub"
  shows "\<exists>t fs1. terminal_main tn fl fs0 p = (Serves t, fs1, p) \<and>
    fst (terminal_serve tn fl (''/ws/'' @ row_ID r) t) =
      (if row_Status r = ''ready'' then
         Attach (NewBridge (SlotIP (row_Slot r) @ '':22'') ''claude'') (sessionStartCmd (tn_wide tn) (row_RepoURL r))
       else Refused (http_Error (''session not ready (status: '' @ row_Status r @ '')'') 503))"
proof -
  let ?je = "js_at (tn_fs tn) (fl_db fl)"
  have fs: "je_fs ?je = tn_fs tn" by (simp add: js_at_def split: option.split)
  have f: "fe_fault (tn_fs tn) n = None" for n using assms(1) fs by (simp add: js_inv_def fs_quiet_def)
  have k: "load_key ''SSH key'' (tn_fs tn) (tn_parseKey tn) (fl_key fl) fs0 = (Inr pub, fs_tick fs0)"
    using assms(7,8) by (simp add: load_key_def ReadFile_def f)
  obtain d where d: "store_Open ?je (fs_tick fs0) = (Inr d, fs_tick (fs_tick fs0))"
    by (cases "fs_get fs0 (je_path ?je)") (auto simp: store_Open_def ReadFile_def fs f fs_tick_def errors_Is_def)
  let ?t = "\<lparr>js_data = d, js_fs = fs_tick (fs_tick fs0)\<rparr>"
  have m: "terminal_main tn fl fs0 p = (Serves (IsJson ?t), fs_tick (fs_tick fs0), p)"
    using assms(5,6) by (simp add: terminal_main_def k open_store_def d)
  have "fs_get (js_fs ?t) (je_path ?je) = fs_get (js_fs s') (je_path ?je)" using assms(4) by (simp add: fs_tick_def)
  from ws_over_file [OF assms(1-3) this, of "tn_wide tn"] show ?thesis
    using m by (auto simp: terminal_serve_def ws_over_json HasPrefix_def)
qed

definition example_terminal :: "unit terminal_env" where
  "example_terminal = \<lparr>tn_fs = je_fs ex_je, tn_parseKey = Inr, tn_driver = \<lparr>pd_Open = \<lambda>_ x. (None, x), pd_Ping = \<lambda>x. (None, x), pd_Close = id,
      pd_Exec = \<lambda>_ x. (None, x), pd_Sub = None, pd_NewProvider = \<lambda>_ x. (None, x), pd_Up = \<lambda>x. (None, x)\<rparr>,
     tn_pg = ex_pg, tn_db = \<lparr>db_sessions = [], db_favorites = [], db_ops = 0\<rparr>, tn_html = [], tn_wide = id\<rparr>"

definition example_flags :: flags where
  "example_flags = \<lparr>fl_key = ''k'', fl_slots = 4, fl_devHostIP = [], fl_db = ''d/s.json'', fl_dsn = [], fl_addr = '':8081'', fl_args = []\<rparr>"

lemma example_js: "js_at (tn_fs example_terminal) (fl_db example_flags) = ex_je"
  by (simp add: js_at_def example_terminal_def example_flags_def ex_je_def)

definition stored_ready :: jsonstore where
  "stored_ready = snd (js_Upsert ex_je ready_row \<lparr>js_data = empty_data, js_fs = fs_tick ex_fs\<rparr>)"

theorem terminal_attaches_witness:
  "\<exists>t fs1. terminal_main example_terminal example_flags ((js_fs stored_ready)\<lparr>fs_files := gm_set ''k'' ''pem'' (fs_files (js_fs stored_ready))\<rparr>) () = (Serves t, fs1, ()) \<and>
     fst (terminal_serve example_terminal example_flags (''/ws/'' @ row_ID ready_row) t) =
       Attach (NewBridge ''172.16.0.2:22'' ''claude'') (sessionStartCmd id [])"
proof -
  let ?s = "\<lparr>js_data = empty_data, js_fs = fs_tick ex_fs\<rparr>"
  let ?fs = "(js_fs stored_ready)\<lparr>fs_files := gm_set ''k'' ''pem'' (fs_files (js_fs stored_ready))\<rparr>"
  have ok: "row_ok ready_row" using near_times(1) [OF near_noon] by (simp add: row_checks ready_row_def ordering_row_def)
  have row: "row_Status ready_row = ''ready''" "row_Slot ready_row = 0" "row_RepoURL ready_row = []"
    by (simp_all add: ready_row_def ordering_row_def zero_row_def)
  have ip: "SlotIP 0 @ '':22'' = ''172.16.0.2:22''" by code_simp
  have up: "js_Upsert ex_je ready_row ?s = (fst (js_Upsert ex_je ready_row ?s), stored_ready)" by (simp add: stored_ready_def)
  have f: "fs_get ?fs (je_path ex_je) = fs_get (js_fs stored_ready) (je_path ex_je)" "fs_get ?fs (fl_key example_flags) = Some ''pem''"
    "fl_dsn example_flags = []" "fl_key example_flags \<noteq> []" "tn_parseKey example_terminal ''pem'' = Inr ''pem''" "tn_wide example_terminal = id"
    by (simp_all add: ex_je_def je_path_def example_flags_def example_terminal_def)
  show ?thesis
    using terminal_attaches [of example_terminal example_flags, unfolded example_js, OF ex_js_inv ok up f(1,3,4,2,5), of "()"]
    by (simp only: row f(6) ip if_True refl)
qed

section \<open>The server\<close>

record ('y, 'z, 'p) outside =
  os_fs :: fs_env
  os_parseKey :: "string \<Rightarrow> string result"
  os_snap :: "'y snap_env"
  os_vm :: "'z vm_host"
  os_sdk :: "'z fc_sdk"
  os_files :: "'z temp_files"
  os_term :: "'z term_env"
  os_driver :: "'p pg_driver"
  os_pg :: pg_env
  os_db :: pgdb
  os_jerr :: "string \<Rightarrow> goerror"
  os_base :: "(any_store, 'z) mgr" \<comment> \<open>the clock, the identifiers, git and the waits\<close>

record ('y, 'z, 'p) machine =
  mc_fs :: fs
  mc_dm :: 'y
  mc_rest :: 'z
  mc_driver :: 'p

definition the_snaps :: "('y, 'z, 'p) outside \<Rightarrow> 'y snap_env" where
  "the_snaps os = (os_snap os)\<lparr>sv_fs := os_fs os, sv_pool := ''/dev/mapper/rubbish-pool'', sv_idPath := ''/opt/rubbish/dm/next-volume-id''\<rparr>"

definition the_manager :: "('y, 'z, 'p) outside \<Rightarrow> flags \<Rightarrow> string \<Rightarrow> (any_store, ('y, 'z) site) mgr" where
  "the_manager os fl pub =
     (NewSessionManager (the_snaps os) (os_vm os) (os_sdk os) (os_files os) (os_term os) (os_base os))
       \<lparr>mg_maxSlots := fl_slots fl, mg_devHostIP := fl_devHostIP fl, mg_signer := Some pub, mg_fsenv := os_fs os,
        mg_credPath := ''/opt/rubbish/creds/github-token'',
        mg_prof := Some \<lparr>pe_fs = os_fs os, pe_dir = ''/opt/rubbish/creds'', pe_base = ''profile.json'', pe_jerr = os_jerr os\<rparr>,
        mg_store := Some (any_ops (js_at (os_fs os) (fl_db fl)) (os_pg os))\<rparr>"

definition new_world :: "any_store \<Rightarrow> fs \<Rightarrow> 'y snap \<Rightarrow> 'z \<Rightarrow> (any_store, ('y, 'z) site) mworld" where
  "new_world st fs0 sn z =
     \<lparr>mw_heap = [], mw_sessions = [], mw_used = [], mw_store = st, mw_fs = fs0, mw_ticks = 0, mw_tasks = [], mw_calls = [],
      mw_panic = False, mw_ext = \<lparr>st_snap = sn, st_rest = z, st_deeds = []\<rparr>\<rparr>"

text \<open>
  A server that cannot open its workflow store exits when the sessions are loaded already; the outcome then has the world they
  left.
\<close>

datatype ('y, 'z) poc_state =
    Untouched
  | Loaded "(any_store, ('y, 'z) site) mworld"
  | Up "(any_store, ('y, 'z) site) started"

definition poc_main :: "('y, 'z, 'p) outside \<Rightarrow> pages \<Rightarrow> mcp_env \<Rightarrow> (any_store, ('y, 'z) site) mworld engine \<Rightarrow> goerror \<Rightarrow> (nat \<Rightarrow> nat) \<Rightarrow>
    flags \<Rightarrow> ('y, 'z, 'p) machine \<Rightarrow> unit main_result \<times> ('y, 'z) poc_state \<times> ('y, 'z, 'p) machine" where
  "poc_main os pg env en0 jerr spare fl m =
     (if fl_key fl = [] \<and> fl_args fl = [] then (Exit ''usage: rubbish-poc --key <path-to-ssh-private-key>'', Untouched, m)
      else
        (case load_key ''ssh key'' (os_fs os) (os_parseKey os) (if fl_key fl = [] then hd (fl_args fl) else fl_key fl) (mc_fs m) of
           (Inl msg, fs1) \<Rightarrow> (Exit msg, Untouched, m\<lparr>mc_fs := fs1\<rparr>)
         | (Inr pub, fs1) \<Rightarrow>
             (case newSnapshotManager (the_snaps os) fs1 (mc_dm m) of
                (Inl _, fs2, y) \<Rightarrow> (Exit ''snapshot manager'', Untouched, m\<lparr>mc_fs := fs2, mc_dm := y\<rparr>)
              | (Inr sn, fs2, y) \<Rightarrow>
                  (case hx_MkdirAll (vh_host (os_vm os)) ''/opt/rubbish/creds'' (mc_rest m) of
                     (Some _, z) \<Rightarrow> (Exit ''create creds dir'', Untouched, m\<lparr>mc_fs := fs2, mc_dm := y, mc_rest := z\<rparr>)
                   | (None, z) \<Rightarrow>
                       (case open_store (os_fs os) (os_driver os) (os_db os) fl fs2 (mc_driver m) of
                          (Inl msg, fs3, p) \<Rightarrow> (Exit msg, Untouched, m\<lparr>mc_fs := fs3, mc_dm := y, mc_rest := z, mc_driver := p\<rparr>)
                        | (Inr st, fs3, p) \<Rightarrow>
                            (let mg = the_manager os fl pub; w = new_world st fs3 sn z;
                                 m3 = m\<lparr>mc_fs := fs3, mc_dm := y, mc_rest := z, mc_driver := p\<rparr> in
                             case startup pg env mg en0 jerr spare fs3 w of
                               Inl _ \<Rightarrow> (Exit ''open workflow store'', Loaded (snd (exec (loadFromDB mg) w)), m3)
                             | Inr None \<Rightarrow> (Outside, Loaded (snd (exec (loadFromDB mg) w)), m3)
                             | Inr (Some u) \<Rightarrow> (Serves (), Up u, m3)))))))"

text \<open>The snapshot manager writes one file when it starts.\<close>

lemma reconcile_files: "p \<noteq> sv_idPath env \<Longrightarrow> fs_get (sn_fs (reconcile env v s)) p = fs_get (sn_fs s) p"
  by (auto simp: reconcile_def Let_def WriteFile_def WriteTemp_def fs_tick_def split: option.split)

lemma reconcile_all_files: "p \<noteq> sv_idPath env \<Longrightarrow> fs_get (sn_fs (fold (reconcile env) vs s)) p = fs_get (sn_fs s) p"
  by (induction vs arbitrary: s) (simp_all add: reconcile_files)

lemma session_device_files: "sn_fs (session_device env line s) = sn_fs s"
  by (auto simp: session_device_def dm_run_def Let_def split: list.split prod.splits option.splits)

lemma session_devices_files: "sn_fs (fold (session_device env) lines s) = sn_fs s"
  by (induction lines arbitrary: s) (simp_all add: session_device_files)

lemma discoverState_files: "p \<noteq> sv_idPath env \<Longrightarrow> fs_get (sn_fs (snd (discoverState env s))) p = fs_get (sn_fs s) p"
  by (simp add: discoverState_def dm_run_def Let_def case_prod_unfold reconcile_all_files session_devices_files split: option.split)

lemma newSnapshotManager_files:
  assumes "newSnapshotManager env fs0 x = (r, fs1, y)" and "p \<noteq> sv_idPath env"
  shows "fs_get fs1 p = fs_get fs0 p"
proof -
  have rd: "fs_files (snd (ReadFile (sv_fs env) q fs0)) = fs_files fs0" for q
    by (simp add: ReadFile_def fs_tick_def split: option.split)
  show ?thesis
    using assms discoverState_files [OF assms(2)] rd [of "sv_idPath env"]
    by (auto simp: newSnapshotManager_def case_prod_unfold Let_def split: option.splits if_splits)
qed

lemma load_key_message: "load_key name env parseKey path fs0 = (Inl msg, fs1) \<Longrightarrow> msg = ''read '' @ name \<or> msg = ''parse '' @ name"
  by (auto simp: load_key_def split: prod.splits sum.splits)

lemma open_store_message:
  "open_store env pd db fl fs0 p = (Inl msg, fs1, p1) \<Longrightarrow> msg = ''open postgres session store'' \<or> msg = ''open json session store''"
  by (auto simp: open_store_def split: prod.splits sum.splits option.splits if_splits)

lemma load_key_files: "fs_files (snd (load_key name env parseKey path fs0)) = fs_files fs0"
  by (auto simp: load_key_def ReadFile_def fs_tick_def split: option.split sum.split)

lemma open_store_files: "fs_files (fst (snd (open_store env pd db fl fs0 p))) = fs_files fs0"
  by (auto simp: open_store_def store_Open_def ReadFile_def fs_tick_def case_prod_unfold split: option.split)

text \<open>
  A server that exits before its sessions are loaded has changed no file but the counter of the volumes, so no
  row, no workflow and no token; the sessions are loaded only when the key, the snapshots and the store are all there.
\<close>

theorem main_exits_untouched:
  assumes "poc_main os pg env en0 jerr spare fl m = (r, st, m')"
  shows "(st = Untouched \<longleftrightarrow> (\<exists>msg. r = Exit msg \<and> msg \<noteq> ''open workflow store'')) \<and> (r = Serves () \<longleftrightarrow> (\<exists>u. st = Up u)) \<and>
    (\<forall>p. p \<noteq> ''/opt/rubbish/dm/next-volume-id'' \<longrightarrow> fs_get (mc_fs m') p = fs_get (mc_fs m) p)"
proof (cases "fl_key fl = [] \<and> fl_args fl = []")
  case True
  then show ?thesis using assms by (auto simp: poc_main_def)
next
  case flags: False
  let ?key = "if fl_key fl = [] then hd (fl_args fl) else fl_key fl"
  obtain k fs1 where k: "load_key ''ssh key'' (os_fs os) (os_parseKey os) ?key (mc_fs m) = (k, fs1)" by fastforce
  have k1: "fs_files fs1 = fs_files (mc_fs m)" "k = Inl msg \<Longrightarrow> msg \<noteq> ''open workflow store''" for msg
    using load_key_files [of "''ssh key''" "os_fs os" "os_parseKey os" ?key "mc_fs m"] k
      load_key_message [of "''ssh key''" "os_fs os" "os_parseKey os" ?key "mc_fs m" msg fs1] by auto
  obtain n fs2 y where n: "newSnapshotManager (the_snaps os) fs1 (mc_dm m) = (n, fs2, y)" by (metis prod_cases3)
  have n1: "fs_get fs2 p = fs_get (mc_fs m) p" if "p \<noteq> ''/opt/rubbish/dm/next-volume-id''" for p
    using newSnapshotManager_files [OF n] that by (simp add: the_snaps_def k1(1))
  obtain d z where d: "hx_MkdirAll (vh_host (os_vm os)) ''/opt/rubbish/creds'' (mc_rest m) = (d, z)" by fastforce
  obtain w fs3 q where w: "open_store (os_fs os) (os_driver os) (os_db os) fl fs2 (mc_driver m) = (w, fs3, q)" by (metis prod_cases3)
  have w1: "fs_files fs3 = fs_files fs2" "w = Inl msg \<Longrightarrow> msg \<noteq> ''open workflow store''" for msg
    using open_store_files [of "os_fs os" "os_driver os" "os_db os" fl fs2 "mc_driver m"] w open_store_message by fastforce+
  note main = assms [unfolded poc_main_def if_not_P [OF flags] k prod.case]
  show ?thesis
  proof (cases k)
    case (Inl msg)
    then show ?thesis using main k1 by auto
  next
    case pub: (Inr pub)
    note main = main [unfolded pub sum.case n prod.case]
    show ?thesis
    proof (cases n)
      case (Inl e)
      then show ?thesis using main n1 by auto
    next
      case sn: (Inr sn)
      note main = main [unfolded sn sum.case d w prod.case]
      show ?thesis
      proof (cases d; cases w)
        fix st0 assume "d = None" "w = Inr st0"
        then show ?thesis
          using main n1 w1(1) by (simp add: Let_def split: sum.splits option.splits) auto
      qed (use main n1 w1 in auto)
    qed
  qed
qed

section \<open>The daemon\<close>

definition rubishd_main :: "(string \<Rightarrow> Config result) \<Rightarrow> fs_env \<Rightarrow> string \<Rightarrow> fs \<Rightarrow> (string \<times> (string \<times> 's handler) list) main_result \<times> fs" where
  "rubishd_main yaml_Unmarshal env configPath fs0 =
     (case load_config yaml_Unmarshal env configPath fs0 of
        (Inl msg, fs1) \<Rightarrow> (Exit msg, fs1)
      | (Inr cfg, fs1) \<Rightarrow> (Serves (nc_ListenAddr (cf_Node cfg), rubishd_mux), fs1))"

end
