(* ===== verification/Stage_Session.thy ===== *)
theory Stage_Session
  imports Engine_Props Manager_Props
begin

text \<open>
  The workflow engine over the session manager, as \<^verbatim>\<open>NewEngine\<close> joins them in \<^verbatim>\<open>main\<close>: the manager is the
  engine's \<^verbatim>\<open>SessionStarter\<close>. The engine's goroutine waits for a session while the goroutines that were
  started run; here they run to their end, in the order in which they were started.
\<close>

section \<open>The manager as the engine's session layer\<close>

text \<open>The goroutines started so far, each to its end.\<close>

definition run_tasks :: "('st, 'x) mgr \<Rightarrow> ('st, 'x) mworld \<Rightarrow> ('st, 'x) mworld" where
  "run_tasks mg w =
     (let v = fold (\<lambda>t v. snd (exec (task_prog mg t) v)) (mw_tasks w) w in v\<lparr>mw_tasks := drop (length (mw_tasks w)) (mw_tasks v)\<rparr>)"

text \<open>\<open>n\<close> bounds the ticks; a wait that has not ended by then has no answer, which is the last case.\<close>

definition wait_running :: "('st, 'x) mgr \<Rightarrow> nat \<Rightarrow> string \<Rightarrow> ('st, 'x) mworld \<Rightarrow> string result \<times> ('st, 'x) mworld" where
  "wait_running mg n i w =
     (case exec (WaitForSession n mg i) (run_tasks mg w) of
        (Ret r, w1) \<Rightarrow> (r, w1)
      | (Blocked, w1) \<Rightarrow> (Inl (errorf ''still waiting''), w1))"

definition engine_over :: "('st, 'x) mgr \<Rightarrow> nat \<Rightarrow> ('st, 'x) mworld engine \<Rightarrow> ('st, 'x) mworld engine" where
  "engine_over mg n en =
     en\<lparr>en_CreateSession := \<lambda>role prompt repoURL branch. exec (CreateSession mg role prompt repoURL branch),
        en_WaitForSession := wait_running mg n\<rparr>"

lemma engine_over_sel [simp]:
  "en_se (engine_over mg n en) = en_se en" "en_fuel (engine_over mg n en) = en_fuel en"
  "en_CreateSession (engine_over mg n en) role prompt repoURL branch = exec (CreateSession mg role prompt repoURL branch)"
  "en_WaitForSession (engine_over mg n en) = wait_running mg n"
  by (simp_all add: engine_over_def)

lemma good_over [simp]: "good (engine_over mg n en) w = good en w"
  by (simp add: good_def)

lemma CreateSession_tasks:
  assumes "exec (CreateSession mg role prompt repoURL branch) w = (Inr i, w1)" and "mw_tasks w = []"
  shows "length (mw_tasks w1) = 1"
  using assms
  by (auto simp: CreateSession_def manager_Create_def create_locked_def get_sess_def go_task_def Let_def case_prod_unfold
      split: option.splits sum.splits if_splits)

lemma WaitForSession_keeps:
  "mw_sessions (snd (exec (WaitForSession n mg i) w)) = mw_sessions w \<and> mw_used (snd (exec (WaitForSession n mg i) w)) = mw_used w"
proof (induction n arbitrary: w)
  case (Suc n)
  have "mw_sessions (snd (exec (poll_session mg i) v)) = mw_sessions v \<and> mw_used (snd (exec (poll_session mg i) v)) = mw_used v" for v
    by (auto simp: poll_session_def get_sess_def case_prod_unfold split: option.split state.split)
  with Suc show ?case by (auto simp: ext_step_def case_prod_unfold split: option.split)
qed simp

section \<open>A stage, from the engine to the machine\<close>

text \<open>
  (C3) A stage of a workflow over the real session manager: when the services that the manager calls succeed and the agent prints an
  answer, \<^verbatim>\<open>runStage\<close> creates one session for the stage's prompt, the boot goroutine takes it through all its states, and the stage
  ends done with the session's ID and the agent's answer as its output. Nothing else in the workflow store changes, the
  session has left the manager, and its slot is free for the next stage.
\<close>

theorem stage_over_manager:
  assumes "good en w" and "abs_store w wfID = Some v" and "stage_index (wf_Stages v) stageID = Some k" and "0 < en_fuel en"
    and "mg_store mg = Some (js_ops je)" and "requested mg (stage_kind_str kind) prompt (wf_RepoURL v) (wf_Branch v) (ew_ext w)"
    and "js_inv je (mw_store (ew_ext w))" and "mw_tasks (ew_ext w) = []"
    and "exec (CreateSession mg (stage_kind_str kind) prompt (wf_RepoURL v) (wf_Branch v)) (ew_ext w) = (Inr i, m1)"
    and "boots mg (mw_heap m1 ! length (mw_heap (ew_ext w)))"
    and "\<And>addr x. fst (mg_RunCapture mg addr (claude_cmd prompt) x) = (stdout, stderr, err)"
    and "\<not> IsUsageLimitError stderr" and "parseClaudeJSON stdout = (result, False)" and "result \<noteq> [] \<or> err = None" and "utf8_valid result"
    and "\<not> IsUsageLimitError result" and "\<And>x. fst (mg_tick mg x) = None"
    and "exec (runStage (engine_over mg (Suc n) en) wfID stageID kind prompt) w = (r, w')"
  shows "r = Ret None \<and> abs_store w' = (abs_store w)(wfID \<mapsto> upd_stage stageID (ok_stage prompt i result) v) \<and>
    gm_get (mw_sessions (ew_ext w')) i = None \<and> gm_get (mw_used (ew_ext w')) (ss_Slot (mw_heap m1 ! length (mw_heap (ew_ext w)))) = None"
proof -
  define m2 where "m2 = snd (exec (boot mg (length (mw_heap (ew_ext w))) []) m1)"
  have d: "last (mw_tasks m1) = Boot (length (mw_heap (ew_ext w))) []" "js_inv je (mw_store m2)" "gm_get (mw_sessions m2) i = None"
    "gm_get (mw_used m2) (ss_Slot (mw_heap m1 ! length (mw_heap (ew_ext w)))) = None"
    and row: "\<exists>r. js_rows (mw_store m2) i = Some r \<and> row_Status r = ''stopped'' \<and> row_Result r = result"
    using session_done [OF assms(5-7,9-15) m2_def] by blast+
  have "mw_tasks m1 = [Boot (length (mw_heap (ew_ext w))) []]"
    using d(1) CreateSession_tasks [OF assms(9,8)] by (cases "mw_tasks m1") auto
  then have run: "run_tasks mg m1 = m2\<lparr>mw_tasks := drop 1 (mw_tasks m2)\<rparr>" by (simp add: run_tasks_def m2_def Let_def)
  then have "fst (exec (WaitForSession (Suc n) mg i) (run_tasks mg m1)) = Ret (Inr result)"
    using row js.wait_stopped [OF assms(5), of "run_tasks mg m1" i _ n] d(2) assms(17) by fastforce
  then obtain m3 where m3: "wait_running mg (Suc n) i m1 = (Inr result, m3)" "m3 = snd (exec (WaitForSession (Suc n) mg i) (run_tasks mg m1))"
    by (auto simp: wait_running_def case_prod_unfold simp del: WaitForSession.simps)
  have keep: "mw_sessions m3 = mw_sessions m2" "mw_used m3 = mw_used m2"
    using WaitForSession_keeps [of "Suc n" mg i "run_tasks mg m1"] by (simp_all add: m3(2) run del: WaitForSession.simps)
  let ?en = "engine_over mg (Suc n) en"
  have "spec_runStage ?en wfID stageID kind prompt (abs_store w, ew_ext w) =
      (Ret None, (abs_store w)(wfID \<mapsto> upd_stage stageID (ok_stage prompt i result) v), m3)"
    using assms(4,9,16) m3(1)
    by (intro spec_runStage_ok [where S = "abs_store w" and i = wfID and v = v and sid = stageID and k = k, OF assms(2) assms(3)]) simp_all
  moreover have "spec_runStage ?en wfID stageID kind prompt (abs_store w, ew_ext w) = (r, abs_store w', ew_ext w')"
    using refines_runStage [of ?en wfID stageID kind prompt] assms(1,18) unfolding refines_def view_def by (metis fst_conv good_over snd_conv)
  ultimately show ?thesis using d(3,4) keep by auto
qed

definition over_hdr :: wf_hdr where
  "over_hdr = ex_hdr\<lparr>wf_RepoURL := [], wf_Branch := []\<rparr>"

definition over_engine :: "(jsonstore, nat) mworld engine" where
  "over_engine = \<lparr>en_se = ex_se, en_maxWorkers = 3, en_token = [], en_newID = \<lambda>x. (Inr ''w'', x),
     en_CreateSession = \<lambda>_ _ _ _ x. (Inr [], x), en_WaitForSession = \<lambda>_ x. (Inr [], x),
     en_sleep = \<lambda>_ x. (None, x), en_mergeFn = \<lambda>_ _ _ _ x. (None, x), en_jerr = errorf, en_fuel = 1\<rparr>"

definition over_world :: "(jsonstore, nat) mworld eworld" where
  "over_world = \<lparr>ew_heap = [initial_stages ''w''], ew_data = [(''w'', over_hdr)],
     ew_fs = \<lparr>fs_files = [], fs_ops = 0\<rparr>, ew_ticks = 0, ew_frames = [], ew_ext = Manager_Slots.ex_world fresh_js\<rparr>"

lemma over_start:
  "good over_engine over_world" "0 < en_fuel over_engine" "ew_ext over_world = Manager_Slots.ex_world fresh_js"
  "abs_store over_world ''w'' = Some (core_view (ew_heap over_world) over_hdr)"
  "wf_Stages (core_view (ew_heap over_world) over_hdr) = initial_stages ''w''"
  "wf_RepoURL (core_view (ew_heap over_world) over_hdr) = []" "wf_Branch (core_view (ew_heap over_world) over_hdr) = []"
proof -
  show "good over_engine over_world"
    by (simp add: good_def heap_inv_def over_world_def over_hdr_def ex_hdr_def slice_ok_def initial_stages_def gm_wf_def quiet_def
        fs_quiet_def over_engine_def ex_se_def se_path_def split: if_splits)
  show "abs_store over_world ''w'' = Some (core_view (ew_heap over_world) over_hdr)"
    by (rule abs_store_Some) (simp add: over_world_def)
qed (simp_all add: over_engine_def over_world_def over_hdr_def ex_hdr_def slice_list_def initial_stages_def)

theorem stage_over_manager_witness:
  "fst (exec (runStage (engine_over (js_mgr (''42'', [], None)) 1 over_engine) ''w'' ''w-research'' KindResearch ''why'') over_world) = Ret None"
proof -
  let ?c = "(''42'', [], None) :: string \<times> string \<times> goerror option"
  have c: "\<not> IsUsageLimitError []" "parseClaudeJSON ''42'' = (''42'', False)" "utf8_valid ''42''" "\<not> IsUsageLimitError ''42''" by code_simp+
  have i: "stage_index (wf_Stages (core_view (ew_heap over_world) over_hdr)) ''w-research'' = Some 0"
    by (simp only: over_start(5)) (simp add: initial_stages_def)
  note s = ex_start(1,4-6) [where claude = ?c]
  let ?v = "core_view (ew_heap over_world) over_hdr"
  have x: "requested (js_mgr ?c) (stage_kind_str KindResearch) ''why'' (wf_RepoURL ?v) (wf_Branch ?v) (ew_ext over_world)"
    "js_inv ex_je (mw_store (ew_ext over_world))" "mw_tasks (ew_ext over_world) = []"
    "exec (CreateSession (js_mgr ?c) (stage_kind_str KindResearch) ''why'' (wf_RepoURL ?v) (wf_Branch ?v)) (ew_ext over_world) =
      (Inr ''session-0'', snd (ex_created ?c))"
    "boots (js_mgr ?c) (mw_heap (snd (ex_created ?c)) ! length (mw_heap (ew_ext over_world)))"
    using ex_requested [where claude = ?c] ex_start(2,3) s(2) ex_boots [of ?c] by (simp_all add: over_start(3) over_hdr_def Manager_Slots.ex_world_def)
  have "fst (exec (runStage (engine_over (js_mgr ?c) (Suc 0) over_engine) ''w'' ''w-research'' KindResearch ''why'') over_world) = Ret None"
    by (rule stage_over_manager [where en = over_engine and w = over_world and v = ?v and prompt = "''why''" and mg = "js_mgr ?c" and je = ex_je
          and ?m1.0 = "snd (ex_created ?c)" and n = 0 and i = "''session-0''", THEN conjunct1])
      (rule over_start i s x c surjective_pairing disjI2 refl)+
  then show ?thesis by simp
qed

end
